(* ===== verification/Prelude.thy ===== *)
theory Prelude
  imports Main
begin

text \<open>
  Shared by every component of the development.

  Python values are rendered as follows.  Python's unbounded integers are \<open>int\<close>; the
  operators \<open>&\<close>, \<open>|\<close>, \<open>^\<close>, \<open><<\<close> and \<open>>>\<close> are \<open>AND\<close>, \<open>OR\<close>, \<open>XOR\<close>,
  \<open>push_bit\<close> and \<open>drop_bit\<close> on \<open>int\<close> (two's complement of unbounded length, as in Python).
  Strings are Python 2 byte strings, so a string is a \<open>char list\<close> and \<open>ord\<close> lies in
  0..255.  A function that can raise returns a value of \<open>'a res\<close>: \<open>Inl\<close> the exception, \<open>Inr\<close>
  the result.
\<close>

unbundle bit_operations_syntax

named_theorems int_bits \<open>bit-level readings of the model's integer operations\<close>

section \<open>Exceptions and results\<close>

text \<open>
  The exceptions the modelled code raises or lets escape.  \<open>SystemExit\<close> carries the exit status
  and the text written to standard error before it.
\<close>

datatype exn =
    ValueError
  | ZeroDivisionError
  | IndexError
  | TypeError
  | LookupError
  | UnboundLocalError
  | EOFError
  | NameError string
  | AttributeError string
  | ParseError string
  | OptionValueError string
  | SystemExit int string

type_synonym 'a res = "exn + 'a"

definition bind_res :: "'a res \<Rightarrow> ('a \<Rightarrow> 'b res) \<Rightarrow> 'b res" where
  "bind_res r f = (case r of Inl e \<Rightarrow> Inl e | Inr x \<Rightarrow> f x)"

lemma bind_res_simps [simp]:
  "bind_res (Inl e) f = Inl e"
  "bind_res (Inr x) f = f x"
  by (simp_all add: bind_res_def)

lemma bind_res_Inr_iff: "bind_res r f = Inr y \<longleftrightarrow> (\<exists>x. r = Inr x \<and> f x = Inr y)"
  by (cases r) simp_all

text \<open>A \<open>for\<close> loop over a list whose body may raise.\<close>

fun fold_res :: "('s \<Rightarrow> 'a \<Rightarrow> 's res) \<Rightarrow> 's \<Rightarrow> 'a list \<Rightarrow> 's res" where
  "fold_res f s [] = Inr s"
| "fold_res f s (x # xs) = bind_res (f s x) (\<lambda>s'. fold_res f s' xs)"

lemma fold_res_append:
  "fold_res f s (xs @ ys) = bind_res (fold_res f s xs) (\<lambda>s'. fold_res f s' ys)"
proof (induction xs arbitrary: s)
  case Nil
  then show ?case by simp
next
  case (Cons x xs)
  then show ?case by (cases "f s x") simp_all
qed

text \<open>A loop whose body does not raise on the states it meets is a plain fold.\<close>

lemma fold_res_pure:
  assumes "\<And>s x. I s \<Longrightarrow> f s x = Inr (g s x)" and "\<And>s x. I s \<Longrightarrow> I (g s x)" and "I s"
  shows "fold_res f s xs = Inr (foldl g s xs)"
  using assms(3)
proof (induction xs arbitrary: s)
  case Nil
  then show ?case by simp
next
  case (Cons x xs)
  then show ?case by (simp add: assms(1,2))
qed

section \<open>Python 2 byte strings\<close>

text \<open>\<open>str.lower\<close> and \<open>str.upper\<close> change the ASCII letters only.\<close>

definition char_lower :: "char \<Rightarrow> char" where
  "char_lower c = (if 65 \<le> (of_char c :: nat) \<and> of_char c \<le> (90 :: nat)
     then char_of ((of_char c :: nat) + 32) else c)"

definition char_upper :: "char \<Rightarrow> char" where
  "char_upper c = (if 97 \<le> (of_char c :: nat) \<and> of_char c \<le> (122 :: nat)
     then char_of ((of_char c :: nat) - 32) else c)"

definition py_lower :: "string \<Rightarrow> string" where
  "py_lower = map char_lower"

definition py_upper :: "string \<Rightarrow> string" where
  "py_upper = map char_upper"

section \<open>Bits of unbounded integers\<close>

lemma int_bit_eqI: "(\<And>n. bit a n = bit b n) \<Longrightarrow> a = b" for a b :: int
  by (rule bit_eqI) simp

lemma bit_push_int [int_bits]: "bit (push_bit m k) n \<longleftrightarrow> m \<le> n \<and> bit k (n - m)" for k :: int
  by (simp add: bit_push_bit_iff_int)

lemma bit_drop_int [int_bits]: "bit (drop_bit m k) n \<longleftrightarrow> bit k (m + n)" for k :: int
  by (simp add: bit_drop_bit_eq)

lemma bit_take_int [int_bits]: "bit (take_bit m k) n \<longleftrightarrow> n < m \<and> bit k n" for k :: int
  by (simp add: bit_take_bit_iff)

lemma bit_mask_int [int_bits]: "bit (mask m :: int) n \<longleftrightarrow> n < m"
  by (simp add: bit_mask_iff)

lemma bit_one_int [int_bits]: "bit (1 :: int) n \<longleftrightarrow> n = 0"
  by (simp add: bit_1_iff)

lemma bit_and_1_int [int_bits]: "bit (k AND 1) n \<longleftrightarrow> n = 0 \<and> bit k 0" for k :: int
  by (auto simp: bit_and_iff bit_1_iff)

lemma bit_exp_int [int_bits]: "bit (2 ^ m :: int) n \<longleftrightarrow> n = m"
  by (auto simp: bit_exp_iff)

lemma bit_double_int [int_bits]: "bit (k * 2) n \<longleftrightarrow> 0 < n \<and> bit k (n - 1)" for k :: int
  using bit_double_iff [of k n] by (simp add: mult.commute)

lemmas [int_bits] = bit_and_int_iff bit_or_int_iff bit_xor_int_iff

text \<open>A value below \<open>2 ^ n\<close> has no bit at or above position \<open>n\<close>.\<close>

lemma take_bit_id: "0 \<le> k \<Longrightarrow> k < 2 ^ n \<Longrightarrow> take_bit n k = k" for k :: int
  by (simp add: take_bit_int_eq_self)

lemma take_bit_self_iff: "take_bit n k = k \<longleftrightarrow> 0 \<le> k \<and> k < 2 ^ n" for k :: int
  by (rule take_bit_int_eq_self_iff)

lemma bit_above: "take_bit n k = k \<Longrightarrow> n \<le> m \<Longrightarrow> \<not> bit k m" for k :: int
  by (metis bit_take_int not_le)

lemma take_bit_selfI: "(\<And>m. n \<le> m \<Longrightarrow> \<not> bit k m) \<Longrightarrow> take_bit n k = k" for k :: int
  by (rule int_bit_eqI) (meson bit_take_int not_le)

lemma take_bit_self_xor:
  "take_bit n a = a \<Longrightarrow> take_bit n b = b \<Longrightarrow> take_bit n (a XOR b) = a XOR b" for a b :: int
  by (simp add: take_bit_xor)

lemma xor_cancel [simp]: "a XOR (a XOR b) = b" "(b XOR a) XOR a = b" for a b :: int
  by (auto intro!: int_bit_eqI simp: int_bits)

lemma xor_right_inj: "a XOR k = b XOR k \<longleftrightarrow> a = b" for a b k :: int
  by (metis xor_cancel(2))

lemma xor_eq_0_iff: "a XOR b = 0 \<longleftrightarrow> a = b" for a b :: int
  by (metis xor_cancel(1) xor.right_neutral xor_self_eq)

lemma take_bit_self_mono: "take_bit m k = k \<Longrightarrow> m \<le> n \<Longrightarrow> take_bit n k = k" for k :: int
  by (metis min.absorb2 take_bit_take_bit)

lemma take_bit_push_self:
  "take_bit m k = k \<Longrightarrow> m + i \<le> n \<Longrightarrow> take_bit n (push_bit i k) = push_bit i k" for k :: int
  by (intro take_bit_selfI) (use bit_above [of m k] in \<open>auto simp: int_bits\<close>)

lemma take_bit_drop_self:
  "take_bit (m + i) k = k \<Longrightarrow> take_bit m (drop_bit i k) = drop_bit i k" for k :: int
  by (intro take_bit_selfI) (use bit_above [of "m + i" k] in \<open>auto simp: int_bits\<close>)

lemma int_bit_split: "k = push_bit 1 (drop_bit 1 k) XOR of_bool (bit k 0)" for k :: int
proof (rule int_bit_eqI)
  fix n
  show "bit k n = bit (push_bit 1 (drop_bit 1 k) XOR of_bool (bit k 0)) n"
    by (cases n) (simp_all add: int_bits)
qed

lemma drop_push: "m \<le> n \<Longrightarrow> drop_bit m (push_bit n k) = push_bit (n - m) k" for k :: int
  by (rule int_bit_eqI) (auto simp: int_bits add.commute [of m])

text \<open>Python's tests \<open>x & (1 << k)\<close> and \<open>x & mask\<close>.\<close>

lemma and_push_1: "k AND push_bit m 1 \<noteq> 0 \<longleftrightarrow> bit k m" for k :: int
  using bit_iff_and_push_bit_not_eq_0 [of k m] by simp

lemma and_push_1_eq: "k AND push_bit m 1 = (if bit k m then push_bit m 1 else 0)" for k :: int
  by (auto intro!: int_bit_eqI simp: int_bits)

lemma and_1_eq: "k AND 1 = of_bool (bit k 0)" for k :: int
  by (simp add: and_one_eq bit_0 mod_2_eq_odd)

lemma mask_of_msb: "0 < w \<Longrightarrow> push_bit 1 (push_bit (w - 1) 1 - 1) OR 1 = (mask w :: int)"
proof -
  assume "0 < w"
  then obtain v where w: "w = Suc v" by (cases w) auto
  have "push_bit v 1 - 1 = (mask v :: int)"
    by (simp add: mask_eq_exp_minus_1 push_bit_eq_mult)
  then show ?thesis
    by (auto simp: w intro!: int_bit_eqI simp: int_bits)
qed

end
