(* ===== verification/Crc.thy ===== *)
theory Crc
  imports Prelude
begin

text \<open>
  The class \<open>Crc\<close> of \<open>python/pycrc/crc_algorithms.py\<close>: its constructor, \<open>reflect\<close> and the
  three implementations \<open>bit_by_bit\<close>, \<open>bit_by_bit_fast\<close> and \<open>table_driven\<close>, written as the code
  has them.  Theory \<open>CrcCorrect\<close> relates them to the shift register of theory \<open>Lfsr\<close>.
\<close>

unbundle bit_operations_syntax

section \<open>State\<close>

text \<open>
  The attributes of a \<open>Crc\<close> object.  The widths are \<open>nat\<close>: the constructor raises for the values
  that are not, before it returns an object.
\<close>

record crc =
  Width :: nat
  Poly :: int
  ReflectIn :: bool
  XorIn :: int
  ReflectOut :: bool
  XorOut :: int
  TableIdxWidth :: nat
  TableWidth :: int
  MSB_Mask :: int
  Mask :: int
  DirectInit :: int
  NonDirectInit :: int
  CrcShift :: nat

abbreviation ord :: "char \<Rightarrow> int" where
  "ord \<equiv> of_char"

section \<open>Constructor\<close>

text \<open>\<open>__get_nondirect_init\<close>: one round of the loop, then \<open>Width\<close> rounds.\<close>

definition nondirect_round :: "int \<Rightarrow> int \<Rightarrow> int \<Rightarrow> int" where
  "nondirect_round poly msb_mask crc0 =
     (let bit0 = crc0 AND 1;
          crc1 = (if bit0 \<noteq> 0 then crc0 XOR poly else crc0);
          crc2 = drop_bit 1 crc1
      in if bit0 \<noteq> 0 then crc2 OR msb_mask else crc2)"

definition get_nondirect_init :: "nat \<Rightarrow> int \<Rightarrow> int \<Rightarrow> int \<Rightarrow> int \<Rightarrow> int" where
  "get_nondirect_init width poly msb_mask msk init =
     ((nondirect_round poly msb_mask ^^ width) init) AND msk"

text \<open>
  \<open>__init__\<close>.  \<open>0x1 << (width - 1)\<close> and \<open>1 << table_idx_width\<close> raise \<open>ValueError\<close> for a
  negative shift count.
\<close>

definition Crc_init ::
  "int \<Rightarrow> int \<Rightarrow> bool \<Rightarrow> int \<Rightarrow> bool \<Rightarrow> int \<Rightarrow> int option \<Rightarrow> crc res" where
  "Crc_init width poly reflect_in xor_in reflect_out xor_out table_idx_width =
     (if width - 1 < 0 then Inl ValueError
      else
        let w = nat width;
            msb_mask = push_bit (nat (width - 1)) 1;
            msk = push_bit 1 (msb_mask - 1) OR 1;
            tiw = (case table_idx_width of Some t \<Rightarrow> t | None \<Rightarrow> 8)
        in if tiw < 0 then Inl ValueError
           else Inr \<lparr>Width = w, Poly = poly, ReflectIn = reflect_in, XorIn = xor_in,
                     ReflectOut = reflect_out, XorOut = xor_out,
                     TableIdxWidth = nat tiw, TableWidth = push_bit (nat tiw) 1,
                     MSB_Mask = msb_mask, Mask = msk,
                     DirectInit = xor_in,
                     NonDirectInit = get_nondirect_init w poly msb_mask msk xor_in,
                     CrcShift = (if width < 8 then nat (8 - width) else 0)\<rparr>)"

section \<open>Bit reversal\<close>

fun reflect_loop :: "nat \<Rightarrow> int \<Rightarrow> int \<Rightarrow> int" where
  "reflect_loop 0 dat x = x"
| "reflect_loop (Suc n) dat x =
     (let dat' = drop_bit 1 dat in reflect_loop n dat' (push_bit 1 x OR (dat' AND 1)))"

text \<open>\<open>range(width - 1)\<close> is empty for \<open>width = 0\<close> too, as the subtraction on \<open>nat\<close> gives.\<close>

definition reflect :: "int \<Rightarrow> nat \<Rightarrow> int" where
  "reflect dat width = reflect_loop (width - 1) dat (dat AND 1)"

text \<open>The octet the algorithms read for a character: \<open>ord(c)\<close>, reflected if \<open>ReflectIn\<close>.\<close>

definition in_octet :: "crc \<Rightarrow> char \<Rightarrow> int" where
  "in_octet c ch = (if ReflectIn c then reflect (ord ch) 8 else ord ch)"

text \<open>What all three algorithms do with the final register.\<close>

definition out_value :: "crc \<Rightarrow> int \<Rightarrow> int" where
  "out_value c register =
     (if ReflectOut c then reflect register (Width c) else register) XOR XorOut c"

section \<open>Bit by bit\<close>

definition bbb_bit :: "crc \<Rightarrow> int \<Rightarrow> int \<Rightarrow> nat \<Rightarrow> int" where
  "bbb_bit c octet register i =
     (let topbit = register AND MSB_Mask c;
          register' = (push_bit 1 register AND Mask c) OR (drop_bit (7 - i) octet AND 1)
      in if topbit \<noteq> 0 then register' XOR Poly c else register')"

definition bbb_octet :: "crc \<Rightarrow> int \<Rightarrow> char \<Rightarrow> int" where
  "bbb_octet c register ch = foldl (bbb_bit c (in_octet c ch)) register [0..<8]"

definition bbb_augment :: "crc \<Rightarrow> int \<Rightarrow> int" where
  "bbb_augment c register =
     (let topbit = register AND MSB_Mask c;
          register' = push_bit 1 register AND Mask c
      in if topbit \<noteq> 0 then register' XOR Poly c else register')"

definition bit_by_bit :: "crc \<Rightarrow> string \<Rightarrow> int" where
  "bit_by_bit c in_str =
     (let register = foldl (bbb_octet c) (NonDirectInit c) in_str
      in out_value c ((bbb_augment c ^^ Width c) register))"

section \<open>Bit by bit, fast\<close>

definition bbf_bit :: "crc \<Rightarrow> int \<Rightarrow> int \<Rightarrow> nat \<Rightarrow> int" where
  "bbf_bit c octet register i =
     (let topbit = register AND MSB_Mask c;
          topbit' = (if octet AND drop_bit i 0x80 \<noteq> 0 then topbit XOR MSB_Mask c else topbit);
          register' = push_bit 1 register
      in if topbit' \<noteq> 0 then register' XOR Poly c else register')"

definition bbf_octet :: "crc \<Rightarrow> int \<Rightarrow> char \<Rightarrow> int" where
  "bbf_octet c register ch = foldl (bbf_bit c (in_octet c ch)) register [0..<8] AND Mask c"

definition bit_by_bit_fast :: "crc \<Rightarrow> string \<Rightarrow> int" where
  "bit_by_bit_fast c in_str = out_value c (foldl (bbf_octet c) (DirectInit c) in_str)"

section \<open>Table driven\<close>

definition table_round :: "crc \<Rightarrow> int \<Rightarrow> int" where
  "table_round c register =
     (if register AND push_bit (CrcShift c) (MSB_Mask c) \<noteq> 0
      then push_bit 1 register XOR push_bit (CrcShift c) (Poly c)
      else push_bit 1 register)"

text \<open>One entry of the table; \<open>shift\<close> is \<open>Width - TableIdxWidth + CrcShift\<close>.\<close>

definition table_entry :: "crc \<Rightarrow> nat \<Rightarrow> int \<Rightarrow> int" where
  "table_entry c shift i =
     (let register0 = (if ReflectIn c then reflect i (TableIdxWidth c) else i);
          register1 = push_bit shift register0;
          register2 = (table_round c ^^ TableIdxWidth c) register1;
          register3 = (if ReflectIn c
                       then push_bit (CrcShift c)
                              (reflect (drop_bit (CrcShift c) register2) (Width c))
                       else register2)
      in register3 AND push_bit (CrcShift c) (Mask c))"

definition table_shift :: "crc \<Rightarrow> int" where
  "table_shift c = int (Width c) - int (TableIdxWidth c) + int (CrcShift c)"

text \<open>\<open>gen_table\<close>; the table has at least one entry, so a negative shift count always raises.\<close>

definition gen_table :: "crc \<Rightarrow> int list res" where
  "gen_table c =
     (if table_shift c < 0 then Inl ValueError
      else Inr (map (\<lambda>i. table_entry c (nat (table_shift c)) (int i)) [0..<2 ^ TableIdxWidth c]))"

text \<open>\<open>tbl[tblidx]\<close>; the index is \<open>... & 0xff\<close>, never negative.\<close>

definition tbl_lookup :: "int list \<Rightarrow> int \<Rightarrow> int res" where
  "tbl_lookup tbl tblidx =
     (if nat tblidx < length tbl then Inr (tbl ! nat tblidx) else Inl IndexError)"

definition table_step_ni :: "crc \<Rightarrow> int list \<Rightarrow> int \<Rightarrow> char \<Rightarrow> int res" where
  "table_step_ni c tbl register ch =
     (let tblidx = (drop_bit (nat (table_shift c)) register XOR ord ch) AND 0xff
      in if int (TableIdxWidth c) - int (CrcShift c) < 0 then Inl ValueError
         else bind_res (tbl_lookup tbl tblidx) (\<lambda>t.
                Inr ((push_bit (TableIdxWidth c - CrcShift c) register XOR t)
                       AND push_bit (CrcShift c) (Mask c))))"

definition table_step_ri :: "crc \<Rightarrow> int list \<Rightarrow> int \<Rightarrow> char \<Rightarrow> int res" where
  "table_step_ri c tbl register ch =
     (let tblidx = (drop_bit (CrcShift c) register XOR ord ch) AND 0xff
      in bind_res (tbl_lookup tbl tblidx) (\<lambda>t.
           Inr ((drop_bit (TableIdxWidth c) register XOR t)
                  AND push_bit (CrcShift c) (Mask c))))"

definition table_driven :: "crc \<Rightarrow> string \<Rightarrow> int res" where
  "table_driven c in_str =
     bind_res (gen_table c) (\<lambda>tbl.
       let register0 = push_bit (CrcShift c) (DirectInit c)
       in bind_res
            (if \<not> ReflectIn c
             then bind_res (fold_res (table_step_ni c tbl) register0 in_str) (\<lambda>r.
                    Inr (drop_bit (CrcShift c) r))
             else bind_res
                    (fold_res (table_step_ri c tbl)
                       (push_bit (CrcShift c) (reflect register0 (Width c + CrcShift c))) in_str)
                    (\<lambda>r. Inr (reflect r (Width c + CrcShift c) AND Mask c)))
            (\<lambda>register. Inr (out_value c register)))"

end
