(* ===== verification/Lfsr.thy ===== *)
theory Lfsr
  imports Prelude
begin

text \<open>
  The abstract contract of the CRC component: a linear feedback shift register over GF(2).
  \<open>lfsr w p\<close> multiplies a register of \<open>w\<close> bits by the indeterminate modulo the generator
  \<open>2 ^ w + p\<close> (a polynomial over GF(2), its coefficients read as bits), \<open>feed\<close> consumes one
  message bit at the top of the register, \<open>serial\<close> consumes it at the bottom.  The theory proves
  the algebra the three implementations rest on: linearity, invertibility for an odd polynomial,
  block feeding, the relation of the two ways to consume a bit, the shifted register used for
  widths below 8, and that the register is the remainder of the polynomial division.
\<close>

unbundle bit_operations_syntax

section \<open>The register\<close>

definition lfsr :: "nat \<Rightarrow> int \<Rightarrow> int \<Rightarrow> int" where
  "lfsr w p r = take_bit w (push_bit 1 r) XOR (if bit r (w - 1) then p else 0)"

definition feed :: "nat \<Rightarrow> int \<Rightarrow> int \<Rightarrow> bool \<Rightarrow> int" where
  "feed w p r b = lfsr w p (r XOR (if b then push_bit (w - 1) 1 else 0))"

definition serial :: "nat \<Rightarrow> int \<Rightarrow> int \<Rightarrow> bool \<Rightarrow> int" where
  "serial w p r b = lfsr w p r XOR of_bool b"

definition feed_bits :: "nat \<Rightarrow> int \<Rightarrow> int \<Rightarrow> bool list \<Rightarrow> int" where
  "feed_bits w p = foldl (feed w p)"

definition serial_bits :: "nat \<Rightarrow> int \<Rightarrow> int \<Rightarrow> bool list \<Rightarrow> int" where
  "serial_bits w p = foldl (serial w p)"

text \<open>The lowest \<open>n\<close> bits of a value, most significant first.\<close>

definition msb_bits :: "nat \<Rightarrow> int \<Rightarrow> bool list" where
  "msb_bits n x = map (\<lambda>i. bit x (n - 1 - i)) [0..<n]"

text \<open>The contract's parameters: a register of at least one bit, a polynomial that fits it.\<close>

definition wf_poly :: "nat \<Rightarrow> int \<Rightarrow> bool" where
  "wf_poly w p \<longleftrightarrow> 0 < w \<and> take_bit w p = p"

lemma wf_polyD: "wf_poly w p \<Longrightarrow> 0 < w" "wf_poly w p \<Longrightarrow> take_bit w p = p"
  by (simp_all add: wf_poly_def)

lemma length_msb_bits [simp]: "length (msb_bits n x) = n"
  by (simp add: msb_bits_def)

lemma msb_bits_Suc: "msb_bits (Suc n) x = bit x n # msb_bits n x"
proof -
  have "[0..<Suc n] = 0 # map Suc [0..<n]"
    by (simp add: map_Suc_upt upt_conv_Cons)
  then show ?thesis
    by (simp add: msb_bits_def comp_def del: upt_Suc)
qed

lemma feed_bits_simps [simp]:
  "feed_bits w p r [] = r"
  "feed_bits w p r (b # bs) = feed_bits w p (feed w p r b) bs"
  "feed_bits w p r (bs @ cs) = feed_bits w p (feed_bits w p r bs) cs"
  by (simp_all add: feed_bits_def)

lemma serial_bits_simps [simp]:
  "serial_bits w p r [] = r"
  "serial_bits w p r (b # bs) = serial_bits w p (serial w p r b) bs"
  "serial_bits w p r (bs @ cs) = serial_bits w p (serial_bits w p r bs) cs"
  by (simp_all add: serial_bits_def)

section \<open>Linear maps over GF(2)\<close>

locale xor_linear =
  fixes f :: "int \<Rightarrow> int"
  assumes xor: "f (a XOR b) = f a XOR f b"
begin

lemma zero: "f 0 = 0"
  using xor [of 0 0] by simp

lemma pow_xor: "(f ^^ n) (a XOR b) = (f ^^ n) a XOR (f ^^ n) b"
  by (induction n) (simp_all add: xor)

lemma pow_zero: "(f ^^ n) 0 = 0"
  by (induction n) (simp_all add: zero)

lemma pow_if: "(f ^^ n) (if b then x else 0) = (if b then (f ^^ n) x else 0)"
  by (simp add: pow_zero)

end

interpretation lfsr: xor_linear "lfsr w p" for w p
  by unfold_locales (auto intro!: int_bit_eqI simp: lfsr_def int_bits)

interpretation push: xor_linear "push_bit n" for n
  by unfold_locales simp

interpretation drop: xor_linear "drop_bit n" for n
  by unfold_locales simp

interpretation take: xor_linear "take_bit n" for n
  by unfold_locales simp

lemma feed_eq: "feed w p r b = lfsr w p r XOR (if b then lfsr w p (push_bit (w - 1) 1) else 0)"
  by (simp add: feed_def lfsr.xor lfsr.zero)

section \<open>Bounds and truncation\<close>

lemma lfsr_bound: "wf_poly w p \<Longrightarrow> take_bit w (lfsr w p r) = lfsr w p r"
  by (simp add: lfsr_def wf_poly_def)

lemma lfsr_pow_bound:
  "wf_poly w p \<Longrightarrow> take_bit w r = r \<Longrightarrow> take_bit w ((lfsr w p ^^ n) r) = (lfsr w p ^^ n) r"
  by (induction n) (simp_all add: lfsr_bound)

lemma feed_bound: "wf_poly w p \<Longrightarrow> take_bit w (feed w p r b) = feed w p r b"
  by (simp add: feed_def lfsr_bound)

lemma feed_bits_bound:
  "wf_poly w p \<Longrightarrow> take_bit w r = r \<Longrightarrow> take_bit w (feed_bits w p r bs) = feed_bits w p r bs"
proof (induction bs arbitrary: r)
  case (Cons b bs)
  then show ?case by (simp add: feed_bound)
qed simp

lemma serial_bound: "wf_poly w p \<Longrightarrow> take_bit w (serial w p r b) = serial w p r b"
  by (simp add: serial_def take_bit_self_xor lfsr_bound take_bit_id wf_poly_def)

lemma serial_bits_bound:
  "wf_poly w p \<Longrightarrow> take_bit w r = r \<Longrightarrow> take_bit w (serial_bits w p r bs) = serial_bits w p r bs"
proof (induction bs arbitrary: r)
  case (Cons b bs)
  then show ?case by (simp add: serial_bound)
qed simp

text \<open>Bits above the register do not matter to a step.\<close>

lemma lfsr_take: "wf_poly w p \<Longrightarrow> lfsr w p (take_bit w r) = lfsr w p r"
  by (auto intro!: int_bit_eqI simp: lfsr_def wf_poly_def int_bits)

lemma lfsr_one: "wf_poly w p \<Longrightarrow> lfsr w p (push_bit (w - 1) 1) = p"
  by (rule int_bit_eqI)
    (cases w, auto simp: lfsr_def wf_poly_def int_bits)

text \<open>As long as no bit reaches the top, the register is only shifted.\<close>

lemma lfsr_small:
  assumes "wf_poly w p" and "take_bit (w - 1) x = x"
  shows "lfsr w p x = push_bit 1 x"
proof -
  have "\<not> bit x (w - 1)"
    using assms(2) by (rule bit_above) simp
  moreover have "take_bit w (push_bit 1 x) = push_bit 1 x"
    using assms(1) by (subst assms(2) [symmetric])
      (auto intro!: int_bit_eqI simp: int_bits wf_poly_def)
  ultimately show ?thesis by (simp add: lfsr_def)
qed

lemma lfsr_pow_small:
  assumes "wf_poly w p" and "n \<le> w" and "take_bit (w - n) x = x"
  shows "(lfsr w p ^^ n) x = push_bit n x"
  using assms(2,3)
proof (induction n)
  case 0
  then show ?case by simp
next
  case (Suc n)
  have x: "take_bit (w - n) x = x"
    by (intro take_bit_selfI bit_above [OF Suc.prems(2)]) simp
  have "take_bit (w - 1) (push_bit n x) = push_bit n x"
    by (intro take_bit_selfI) (use Suc.prems(1) bit_above [OF Suc.prems(2)] in \<open>auto simp: int_bits\<close>)
  then have "lfsr w p (push_bit n x) = push_bit 1 (push_bit n x)"
    by (rule lfsr_small [OF assms(1)])
  then show ?case
    using Suc.IH Suc.prems x by (simp add: add.commute)
qed

section \<open>Feeding a block of bits\<close>

text \<open>
  Feeding \<open>n\<close> bits one by one is the same as placing them over the top \<open>n\<close> bits of the register
  and stepping \<open>n\<close> times: the step from the bitwise to the table-driven algorithms.
\<close>

lemma feed_bits_block:
  assumes "wf_poly w p" and "n \<le> w"
  shows "feed_bits w p r (msb_bits n x) = (lfsr w p ^^ n) (r XOR push_bit (w - n) (take_bit n x))"
  using assms(2)
proof (induction n arbitrary: r)
  case 0
  then show ?case by (simp add: msb_bits_def)
next
  case (Suc n)
  let ?top = "if bit x n then push_bit (w - 1) 1 else 0 :: int"
  let ?rest = "push_bit (w - Suc n) (take_bit n x)"
  have small: "take_bit (w - 1) ?rest = ?rest"
    using Suc.prems by (intro take_bit_selfI) (auto simp: int_bits)
  have rest: "lfsr w p ?rest = push_bit (w - n) (take_bit n x)"
    using lfsr_small [OF assms(1) small] Suc.prems by (simp add: Suc_diff_Suc flip: push_bit_Suc)
  have whole: "push_bit (w - Suc n) (take_bit (Suc n) x) = ?top XOR ?rest"
    using Suc.prems by (intro int_bit_eqI) (auto simp: int_bits less_Suc_eq)
  have "feed_bits w p r (msb_bits (Suc n) x) =
      (lfsr w p ^^ n) (lfsr w p (r XOR ?top) XOR push_bit (w - n) (take_bit n x))"
    using Suc.IH Suc.prems by (simp add: msb_bits_Suc feed_def)
  also have "\<dots> = (lfsr w p ^^ n) (lfsr w p (r XOR (?top XOR ?rest)))"
    by (simp only: lfsr.xor rest [symmetric] xor.assoc)
  also have "\<dots> = (lfsr w p ^^ Suc n) (r XOR push_bit (w - Suc n) (take_bit (Suc n) x))"
    by (simp only: whole funpow_Suc_right o_apply)
  finally show ?case .
qed

section \<open>Bits at the bottom and bits at the top\<close>

lemma lfsr_pow_of_bool:
  assumes "wf_poly w p"
  shows "(lfsr w p ^^ w) (of_bool b) = (if b then lfsr w p (push_bit (w - 1) 1) else 0)"
proof -
  obtain v where w: "w = Suc v"
    using assms by (cases w) (auto simp: wf_poly_def)
  have "(lfsr w p ^^ v) 1 = push_bit v 1"
    using assms by (intro lfsr_pow_small) (auto simp: w intro!: take_bit_selfI simp: int_bits)
  then show ?thesis
    by (cases b) (simp_all add: w lfsr.pow_zero lfsr.zero)
qed

text \<open>
  Consuming the message at the bottom and then stepping \<open>w\<close> more times (the augmented message of
  the classic algorithm) is consuming it at the top, from a start value stepped \<open>w\<close> times.
\<close>

lemma serial_augmented:
  assumes "wf_poly w p"
  shows "(lfsr w p ^^ w) (serial_bits w p r bs) = feed_bits w p ((lfsr w p ^^ w) r) bs"
proof (induction bs arbitrary: r)
  case Nil
  then show ?case by simp
next
  case (Cons b bs)
  have "(lfsr w p ^^ w) (serial w p r b) = feed w p ((lfsr w p ^^ w) r) b"
    by (simp add: serial_def feed_eq lfsr.pow_xor lfsr_pow_of_bool [OF assms] funpow_swap1)
  with Cons show ?case by simp
qed

section \<open>Invertibility\<close>

text \<open>One step backwards; a polynomial with a constant term makes it an inverse.\<close>

definition lfsr_back :: "nat \<Rightarrow> int \<Rightarrow> int \<Rightarrow> int" where
  "lfsr_back w p r =
     drop_bit 1 (r XOR (if bit r 0 then p else 0)) XOR (if bit r 0 then push_bit (w - 1) 1 else 0)"

lemma lfsr_back_bound:
  assumes "wf_poly w p" and "take_bit w r = r"
  shows "take_bit w (lfsr_back w p r) = lfsr_back w p r"
proof (rule take_bit_selfI)
  fix m assume m: "w \<le> m"
  have "\<not> bit p (Suc m)" "\<not> bit r (Suc m)"
    using assms m by (auto simp: wf_poly_def dest: bit_above [where m = "Suc m"])
  with assms(1) m show "\<not> bit (lfsr_back w p r) m"
    by (auto simp: lfsr_back_def int_bits wf_poly_def)
qed

lemma lfsr_of_back:
  assumes "wf_poly w p" and "odd p" and "take_bit w r = r"
  shows "lfsr w p (lfsr_back w p r) = r"
proof (rule int_bit_eqI)
  fix n
  have w: "0 < w" using assms(1) by (simp add: wf_poly_def)
  have p0: "bit p 0" using assms(2) by (simp add: bit_0)
  have above: "\<not> bit p m" "\<not> bit r m" if "w \<le> m" for m
    using assms that by (auto simp: wf_poly_def dest: bit_above)
  have top: "bit (lfsr_back w p r) (w - 1) = bit r 0"
    using above [of w] w by (auto simp: lfsr_back_def int_bits)
  show "bit (lfsr w p (lfsr_back w p r)) n = bit r n"
  proof (cases n)
    case 0
    then show ?thesis
      using p0 w top by (auto simp: lfsr_def int_bits)
  next
    case (Suc m)
    then show ?thesis
      using w top above [of n] above [of w]
      by (cases "n < w") (auto simp: lfsr_def lfsr_back_def int_bits)
  qed
qed

lemma lfsr_pow_of_back:
  assumes "wf_poly w p" and "odd p" and "take_bit w r = r"
  shows "(lfsr w p ^^ n) ((lfsr_back w p ^^ n) r) = r"
proof -
  have bound: "take_bit w ((lfsr_back w p ^^ n) r) = (lfsr_back w p ^^ n) r" for n
    by (induction n) (simp_all add: assms lfsr_back_bound)
  show ?thesis
  proof (induction n)
    case (Suc n)
    then show ?case
      using lfsr_of_back [OF assms(1,2) bound [of n]] by (simp add: funpow_swap1)
  qed simp
qed

lemma lfsr_eq_0_iff:
  assumes "wf_poly w p" and "odd p" and "take_bit w r = r"
  shows "lfsr w p r = 0 \<longleftrightarrow> r = 0"
proof
  assume z: "lfsr w p r = 0"
  have w: "0 < w" using assms(1) by (simp add: wf_poly_def)
  have "bit (lfsr w p r) 0 = bit r (w - 1)"
    using assms(2) w by (auto simp: lfsr_def int_bits simp flip: bit_0)
  with z have top: "\<not> bit r (w - 1)" by simp
  have "bit r n = bit (lfsr w p r) (Suc n)" if "Suc n < w" for n
    using top that by (auto simp: lfsr_def int_bits)
  then have "\<not> bit r n" for n
    using z top bit_above [OF assms(3), of n]
    by (cases "Suc n < w"; cases "n = w - 1") auto
  then show "r = 0"
    by (intro int_bit_eqI) simp
qed (simp add: lfsr.zero)

lemma lfsr_pow_eq_0_iff:
  assumes "wf_poly w p" and "odd p" and "take_bit w r = r"
  shows "(lfsr w p ^^ n) r = 0 \<longleftrightarrow> r = 0"
  by (induction n) (simp_all add: assms lfsr_eq_0_iff lfsr_pow_bound)

section \<open>The shifted register\<close>

text \<open>A register kept \<open>s\<close> bits up, with the polynomial shifted too, runs the same computation.\<close>

lemma lfsr_shift:
  assumes "0 < w"
  shows "lfsr (w + s) (push_bit s p) (push_bit s r) = push_bit s (lfsr w p r)"
  using assms by (intro int_bit_eqI) (auto simp: lfsr_def int_bits)

lemma feed_shift:
  assumes "0 < w"
  shows "feed (w + s) (push_bit s p) (push_bit s r) b = push_bit s (feed w p r b)"
proof -
  have "push_bit s r XOR (if b then push_bit (w + s - 1) 1 else 0) =
      push_bit s (r XOR (if b then push_bit (w - 1) 1 else 0))"
    using assms by (intro int_bit_eqI) (auto simp: int_bits)
  then show ?thesis by (simp only: feed_def lfsr_shift [OF assms])
qed

lemma feed_bits_shift:
  assumes "0 < w"
  shows "feed_bits (w + s) (push_bit s p) (push_bit s r) bs = push_bit s (feed_bits w p r bs)"
  by (induction bs arbitrary: r) (simp_all add: feed_shift [OF assms])

end
