(* ===== verification/Gf2.thy ===== *)
theory Gf2
  imports Lfsr
begin

text \<open>
  The meaning of a CRC: polynomials over GF(2), as integers whose bits are the coefficients.
  Addition is \<open>XOR\<close>; the multiples of a generator are the sums of its shifts.  The theory shows
  that the shift register of theory \<open>Lfsr\<close> computes the remainder of the division by the
  generator \<open>x ^ w + p\<close>, that this remainder is unique, and from it which errors two equal
  checksums can hide.
\<close>

unbundle bit_operations_syntax

section \<open>Polynomials and multiples\<close>

text \<open>The generator polynomial that the code keeps without its leading coefficient.\<close>

definition generator :: "nat \<Rightarrow> int \<Rightarrow> int" where
  "generator w p = push_bit w 1 XOR p"

text \<open>The polynomial of a message, its first bit the leading coefficient.\<close>

definition bits_val :: "bool list \<Rightarrow> int" where
  "bits_val = foldl (\<lambda>v b. push_bit 1 v XOR of_bool b) 0"

inductive gmultiple :: "int \<Rightarrow> int \<Rightarrow> bool" for g where
  zero: "gmultiple g 0"
| add: "gmultiple g a \<Longrightarrow> gmultiple g (a XOR push_bit k g)"

lemma gmultiple_xor: "gmultiple g b \<Longrightarrow> gmultiple g a \<Longrightarrow> gmultiple g (a XOR b)"
proof (induction rule: gmultiple.induct)
  case zero
  then show ?case by simp
next
  case (add b k)
  then have "gmultiple g ((a XOR b) XOR push_bit k g)"
    by (intro gmultiple.add) simp
  then show ?case by (simp add: xor.assoc)
qed

lemma gmultiple_self: "gmultiple g (push_bit k g)"
  using gmultiple.add [OF gmultiple.zero, of g k] by simp

lemma gmultiple_push: "gmultiple g a \<Longrightarrow> gmultiple g (push_bit n a)"
proof (induction rule: gmultiple.induct)
  case zero
  then show ?case by (simp add: gmultiple.zero)
next
  case (add a k)
  then show ?case
    using gmultiple.add [of g "push_bit n a" "n + k"] by simp
qed

lemma gmultiple_trans:
  "gmultiple g (a XOR b) \<Longrightarrow> gmultiple g (b XOR c) \<Longrightarrow> gmultiple g (a XOR c)"
  using gmultiple_xor [of g "b XOR c" "a XOR b"] by (simp add: xor.assoc)

lemma gmultiple_sym: "gmultiple g (a XOR b) \<Longrightarrow> gmultiple g (b XOR a)"
  by (simp add: xor.commute)

lemma bits_val_Nil [simp]: "bits_val [] = 0"
  by (simp add: bits_val_def)

lemma bits_val_snoc [simp]: "bits_val (bs @ [b]) = push_bit 1 (bits_val bs) XOR of_bool b"
  by (simp add: bits_val_def)

lemma bits_val_bound: "take_bit (length bs) (bits_val bs) = bits_val bs"
proof (induction bs rule: rev_induct)
  case (snoc b bs)
  show ?case
  proof (rule take_bit_selfI)
    fix m assume "length (bs @ [b]) \<le> m"
    then show "\<not> bit (bits_val (bs @ [b])) m"
      using bit_above [OF snoc, of "m - 1"] by (auto simp: int_bits)
  qed
qed simp

section \<open>The register holds the remainder\<close>

lemma lfsr_cong:
  assumes "wf_poly w p" and "take_bit w r = r"
  shows "gmultiple (generator w p) (push_bit 1 r XOR lfsr w p r)"
proof -
  have "push_bit 1 r XOR lfsr w p r = (if bit r (w - 1) then generator w p else 0)"
  proof (rule int_bit_eqI)
    fix n
    have "\<not> bit r (n - 1)" if "w < n"
      using bit_above [OF assms(2), of "n - 1"] that by simp
    then show "bit (push_bit 1 r XOR lfsr w p r) n =
        bit (if bit r (w - 1) then generator w p else 0) n"
      using wf_polyD [OF assms(1)]
      by (cases "n = w"; cases "n < w") (auto simp: lfsr_def generator_def int_bits)
  qed
  then show ?thesis
    using gmultiple_self [of "generator w p" 0] by (auto intro: gmultiple.zero)
qed

lemma feed_cong:
  assumes "wf_poly w p" and "take_bit w r = r"
  shows "gmultiple (generator w p) ((push_bit 1 r XOR push_bit w (of_bool b)) XOR feed w p r b)"
proof -
  define t where "t = r XOR (if b then push_bit (w - 1) 1 else 0)"
  have w: "0 < w" using assms(1) by (rule wf_polyD)
  have "take_bit w t = t"
    unfolding t_def by (intro take_bit_selfI) (use w bit_above [OF assms(2)] in \<open>auto simp: int_bits\<close>)
  then have "gmultiple (generator w p) (push_bit 1 t XOR lfsr w p t)"
    by (rule lfsr_cong [OF assms(1)])
  moreover have "push_bit 1 t = push_bit 1 r XOR push_bit w (of_bool b)"
    unfolding t_def using w by (intro int_bit_eqI) (auto simp: int_bits)
  ultimately show ?thesis by (simp only: feed_def flip: t_def)
qed

lemma feed_bits_cong:
  assumes "wf_poly w p" and "take_bit w r = r"
  shows "gmultiple (generator w p)
    ((push_bit (length bs) r XOR push_bit w (bits_val bs)) XOR feed_bits w p r bs)"
proof (induction bs rule: rev_induct)
  case Nil
  then show ?case by (simp add: gmultiple.zero)
next
  case (snoc b bs)
  let ?a = "push_bit (length bs) r XOR push_bit w (bits_val bs)"
  let ?f = "feed_bits w p r bs"
  have bound: "take_bit w ?f = ?f"
    using assms by (rule feed_bits_bound)
  have "gmultiple (generator w p) (push_bit 1 (?a XOR ?f))"
    using snoc by (rule gmultiple_push)
  from gmultiple_xor [OF feed_cong [OF assms(1) bound, of b] this]
  have "gmultiple (generator w p)
      (push_bit 1 (?a XOR ?f) XOR ((push_bit 1 ?f XOR push_bit w (of_bool b)) XOR feed w p ?f b))" .
  also have "push_bit 1 (?a XOR ?f) XOR ((push_bit 1 ?f XOR push_bit w (of_bool b)) XOR feed w p ?f b)
      = (push_bit (length (bs @ [b])) r XOR push_bit w (bits_val (bs @ [b])))
          XOR feed_bits w p r (bs @ [b])"
    by (rule int_bit_eqI) (auto simp: int_bits)
  finally show ?case .
qed

section \<open>Uniqueness of the remainder\<close>

text \<open>
  The register that consumes at the bottom, started at zero, reduces any polynomial; it is linear
  in the polynomial and vanishes on the multiples of the generator.
\<close>

definition reduce :: "nat \<Rightarrow> int \<Rightarrow> nat \<Rightarrow> int \<Rightarrow> int" where
  "reduce w p n x = serial_bits w p 0 (msb_bits n x)"

lemma serial_bits_xor:
  "serial_bits w p (r XOR s) (msb_bits n (x XOR y)) =
     serial_bits w p r (msb_bits n x) XOR serial_bits w p s (msb_bits n y)"
proof (induction n arbitrary: r s)
  case 0
  then show ?case by (simp add: msb_bits_def)
next
  case (Suc n)
  have "serial w p (r XOR s) (bit (x XOR y) n) = serial w p r (bit x n) XOR serial w p s (bit y n)"
    by (rule int_bit_eqI) (auto simp: serial_def lfsr.xor int_bits)
  then show ?case by (simp add: msb_bits_Suc Suc.IH)
qed

lemma reduce_xor: "reduce w p n (x XOR y) = reduce w p n x XOR reduce w p n y"
  using serial_bits_xor [of w p 0 0] by (simp add: reduce_def)

lemma serial_bits_zero: "serial_bits w p r (msb_bits n 0) = (lfsr w p ^^ n) r"
proof (induction n arbitrary: r)
  case (Suc n)
  then show ?case by (simp add: msb_bits_Suc serial_def funpow_swap1)
qed (simp add: msb_bits_def)

lemma serial_bits_split:
  "serial_bits w p r (msb_bits n x) = (lfsr w p ^^ n) r XOR reduce w p n x"
  using serial_bits_xor [of w p r 0 n 0 x]
  by (simp only: xor.right_neutral xor.left_neutral serial_bits_zero reduce_def)

lemma reduce_Suc: "reduce w p (Suc n) x = (lfsr w p ^^ n) (of_bool (bit x n)) XOR reduce w p n x"
proof -
  have "reduce w p (Suc n) x = serial_bits w p (of_bool (bit x n)) (msb_bits n x)"
    by (simp add: reduce_def msb_bits_Suc serial_def lfsr.zero)
  then show ?thesis by (simp only: serial_bits_split)
qed

text \<open>Leading zeros do not matter, and a polynomial below the generator is its own remainder.\<close>

lemma reduce_extend:
  "take_bit m x = x \<Longrightarrow> m \<le> n \<Longrightarrow> reduce w p n x = reduce w p m x"
proof (induction n)
  case (Suc n)
  then show ?case
    using bit_above [of m x n] by (cases "m = Suc n") (simp_all add: reduce_Suc lfsr.pow_zero)
qed simp

lemma reduce_small:
  assumes "wf_poly w p" and "n \<le> w"
  shows "reduce w p n x = take_bit n x"
  using assms(2)
proof (induction n)
  case 0
  then show ?case by (simp add: reduce_def msb_bits_def)
next
  case (Suc n)
  have "take_bit (w - n) (of_bool (bit x n)) = (of_bool (bit x n) :: int)"
    using Suc.prems by (intro take_bit_selfI) (auto simp: int_bits)
  then have "(lfsr w p ^^ n) (of_bool (bit x n)) = push_bit n (of_bool (bit x n))"
    using Suc.prems by (intro lfsr_pow_small [OF assms(1)]) simp_all
  moreover have "take_bit (Suc n) x = push_bit n (of_bool (bit x n)) XOR take_bit n x"
    by (rule int_bit_eqI) (auto simp: int_bits less_Suc_eq)
  ultimately show ?case using Suc by (simp add: reduce_Suc)
qed

lemma reduce_id:
  "wf_poly w p \<Longrightarrow> take_bit w x = x \<Longrightarrow> w \<le> n \<Longrightarrow> reduce w p n x = x"
  by (simp add: reduce_extend [of w x n] reduce_small)

lemma reduce_push: "reduce w p (n + k) (push_bit k x) = (lfsr w p ^^ k) (reduce w p n x)"
proof (induction n)
  case 0
  have "reduce w p k (push_bit k x) = reduce w p 0 (push_bit k x)"
  proof (induction k)
    case (Suc k)
    have "reduce w p k (push_bit (Suc k) x) = serial_bits w p 0 (msb_bits k 0)"
      unfolding reduce_def
      by (rule arg_cong [where f = "serial_bits w p 0"]) (auto simp: msb_bits_def int_bits)
    then show ?case
      by (simp add: reduce_Suc int_bits serial_bits_zero lfsr.pow_zero)
        (simp add: reduce_def msb_bits_def)
  qed simp
  then show ?case by (simp add: reduce_def msb_bits_def lfsr.pow_zero)
next
  case (Suc n)
  then show ?case
    by (simp add: reduce_Suc int_bits lfsr.pow_xor funpow_add add.commute [of n k])
qed

lemma reduce_generator:
  assumes "wf_poly w p" and "w < n"
  shows "reduce w p n (generator w p) = 0"
proof -
  have "take_bit (Suc w) (generator w p) = generator w p"
    by (intro take_bit_selfI)
      (use bit_above [OF wf_polyD(2) [OF assms(1)]] in \<open>auto simp: generator_def int_bits\<close>)
  then have "reduce w p n (generator w p) = reduce w p (Suc w) (generator w p)"
    using assms(2) by (intro reduce_extend) simp_all
  also have "\<dots> = (lfsr w p ^^ w) 1 XOR take_bit w (generator w p)"
    using bit_above [OF wf_polyD(2) [OF assms(1)], of w]
    by (simp add: reduce_Suc reduce_small [OF assms(1)] generator_def int_bits)
  also have "(lfsr w p ^^ w) 1 = p"
    using lfsr_pow_of_bool [OF assms(1), of True] lfsr_one [OF assms(1)] by simp
  also have "take_bit w (generator w p) = p"
    using wf_polyD(2) [OF assms(1)]
    by (intro int_bit_eqI) (auto simp: generator_def int_bits bit_above)
  finally show ?thesis by simp
qed

lemma gmultiple_reduce:
  assumes "wf_poly w p" and "gmultiple (generator w p) a"
  shows "\<exists>m. \<forall>n\<ge>m. reduce w p n a = 0"
  using assms(2)
proof (induction rule: gmultiple.induct)
  case zero
  then show ?case by (simp add: reduce_def serial_bits_zero lfsr.pow_zero)
next
  case (add a k)
  then obtain m where m: "\<forall>n\<ge>m. reduce w p n a = 0" by blast
  have "reduce w p n (push_bit k (generator w p)) = 0" if "Suc w + k \<le> n" for n
    using reduce_push [of w p "n - k" k "generator w p"] reduce_generator [OF assms(1), of "n - k"]
      that by (simp add: lfsr.pow_zero)
  with m have "\<forall>n\<ge>max m (Suc w + k). reduce w p n (a XOR push_bit k (generator w p)) = 0"
    by (simp add: reduce_xor)
  then show ?case by blast
qed

lemma gmultiple_small:
  assumes "wf_poly w p" and "gmultiple (generator w p) a" and "take_bit w a = a"
  shows "a = 0"
proof -
  obtain m where "\<forall>n\<ge>m. reduce w p n a = 0"
    using gmultiple_reduce [OF assms(1,2)] by blast
  then have "reduce w p (max m w) a = 0" by simp
  then show ?thesis using reduce_id [OF assms(1,3), of "max m w"] by simp
qed

lemma remainder_unique:
  assumes "wf_poly w p" and "take_bit w r = r" and "take_bit w s = s"
    and "gmultiple (generator w p) (a XOR r)" and "gmultiple (generator w p) (a XOR s)"
  shows "r = s"
proof -
  have "gmultiple (generator w p) (r XOR s)"
    using gmultiple_trans gmultiple_sym assms(4,5) by blast
  then have "r XOR s = 0"
    using assms(1-3) by (intro gmultiple_small [OF assms(1)] take_bit_self_xor)
  then show ?thesis by (simp add: xor_eq_0_iff)
qed

section \<open>Which errors the register cannot see\<close>

text \<open>
  With an odd polynomial the indeterminate is invertible modulo the generator, so shifting a
  polynomial up does not change whether it is a multiple.
\<close>

lemma reduce_zero_gmultiple:
  assumes "wf_poly w p" and "reduce w p n x = 0" and "take_bit n x = x"
  shows "gmultiple (generator w p) x"
proof -
  have "gmultiple (generator w p) (x XOR serial_bits w p 0 (msb_bits n x))"
    if "take_bit n x = x" for n x
    using that
  proof (induction n arbitrary: x)
    case 0
    then have "x = 0" by simp
    then show ?case by (simp add: msb_bits_def gmultiple.zero)
  next
    case (Suc n)
    let ?y = "drop_bit 1 x"
    let ?s = "reduce w p n ?y"
    have y: "take_bit n ?y = ?y"
      by (intro take_bit_selfI) (use bit_above [OF Suc.prems] in \<open>auto simp: int_bits\<close>)
    have "reduce w p (n + 1) (push_bit 1 ?y) = lfsr w p ?s"
      using reduce_push [of w p n 1 ?y] by simp
    moreover have split: "x = push_bit 1 ?y XOR of_bool (bit x 0)"
      by (rule int_bit_split)
    moreover have "reduce w p (Suc n) (of_bool (bit x 0)) = of_bool (bit x 0)"
      using wf_polyD(1) [OF assms(1)] reduce_extend [of 1 "of_bool (bit x 0)" "Suc n" w p]
        reduce_small [OF assms(1), of 1 "of_bool (bit x 0)"] by (simp add: take_bit_id)
    ultimately have red: "reduce w p (Suc n) x = lfsr w p ?s XOR of_bool (bit x 0)"
      by (metis Suc_eq_plus1 reduce_xor)
    have bound: "take_bit w ?s = ?s"
      by (simp add: reduce_def serial_bits_bound [OF assms(1)])
    have "gmultiple (generator w p) (push_bit 1 (?y XOR ?s))"
      using Suc.IH [OF y] by (intro gmultiple_push) (simp add: reduce_def)
    then have "gmultiple (generator w p) (push_bit 1 ?y XOR lfsr w p ?s)"
      using gmultiple_trans [OF _ lfsr_cong [OF assms(1) bound]] by simp
    moreover have "push_bit 1 ?y XOR lfsr w p ?s = x XOR (lfsr w p ?s XOR of_bool (bit x 0))"
    proof -
      from split have "push_bit 1 ?y = x XOR of_bool (bit x 0)" by (metis xor_cancel(2))
      then show ?thesis by (simp only: xor.assoc xor.commute xor.left_commute)
    qed
    ultimately show ?case by (simp add: red flip: reduce_def)
  qed
  from this [OF assms(3)] assms(2) show ?thesis by (simp add: reduce_def)
qed

lemma reduce_bound: "wf_poly w p \<Longrightarrow> take_bit w (reduce w p n x) = reduce w p n x"
  by (simp add: reduce_def serial_bits_bound)

lemma gmultiple_push_iff:
  assumes "wf_poly w p" and "odd p" and "take_bit n a = a"
  shows "gmultiple (generator w p) (push_bit k a) \<longleftrightarrow> gmultiple (generator w p) a"
proof
  assume "gmultiple (generator w p) (push_bit k a)"
  then obtain m where m: "\<forall>n\<ge>m. reduce w p n (push_bit k a) = 0"
    using gmultiple_reduce [OF assms(1)] by blast
  let ?n = "max m n"
  have "(lfsr w p ^^ k) (reduce w p ?n a) = 0"
    using m reduce_push [of w p ?n k a] by simp
  then have "reduce w p ?n a = 0"
    by (simp add: lfsr_pow_eq_0_iff [OF assms(1,2) reduce_bound [OF assms(1)]])
  then show "gmultiple (generator w p) a"
    by (rule reduce_zero_gmultiple [OF assms(1)]) (rule take_bit_self_mono [OF assms(3)], simp)
qed (rule gmultiple_push)

text \<open>Two messages of one length leave the same register exactly when they differ by a multiple.\<close>

lemma feed_bits_eq_iff:
  assumes "wf_poly w p" and "odd p" and "take_bit w r = r" and "length bs = length cs"
  shows "feed_bits w p r bs = feed_bits w p r cs \<longleftrightarrow>
    gmultiple (generator w p) (bits_val bs XOR bits_val cs)"
proof -
  let ?g = "generator w p" and ?m = "push_bit (length bs) r"
  let ?b = "?m XOR push_bit w (bits_val bs)" and ?c = "?m XOR push_bit w (bits_val cs)"
  have b: "gmultiple ?g (?b XOR feed_bits w p r bs)"
    by (rule feed_bits_cong [OF assms(1,3)])
  have c: "gmultiple ?g (?c XOR feed_bits w p r cs)"
    using feed_bits_cong [OF assms(1,3), of cs] assms(4) by simp
  have diff: "?b XOR ?c = push_bit w (bits_val bs XOR bits_val cs)"
    by (rule int_bit_eqI) (auto simp: int_bits)
  have bound: "take_bit (length bs) (bits_val bs XOR bits_val cs) = bits_val bs XOR bits_val cs"
    using bits_val_bound [of bs] bits_val_bound [of cs] assms(4)
    by (intro take_bit_self_xor) simp_all
  have "feed_bits w p r bs = feed_bits w p r cs \<longleftrightarrow> gmultiple ?g (?b XOR ?c)"
  proof
    assume eq: "feed_bits w p r bs = feed_bits w p r cs"
    have "gmultiple ?g (?c XOR feed_bits w p r bs)"
      using c by (simp only: eq)
    then show "gmultiple ?g (?b XOR ?c)"
      by (rule gmultiple_trans [OF b gmultiple_sym])
  next
    assume "gmultiple ?g (?b XOR ?c)"
    then have "gmultiple ?g (?b XOR feed_bits w p r cs)"
      using c by (rule gmultiple_trans)
    then show "feed_bits w p r bs = feed_bits w p r cs"
      by (intro remainder_unique [OF assms(1) _ _ b])
        (simp_all add: feed_bits_bound [OF assms(1,3)])
  qed
  also have "\<dots> \<longleftrightarrow> gmultiple ?g (bits_val bs XOR bits_val cs)"
    unfolding diff by (rule gmultiple_push_iff [OF assms(1,2) bound])
  finally show ?thesis .
qed

end
