(* ===== verification/Simulation.thy ===== *)
theory Simulation
  imports Prelude
begin

text \<open>
  The interface between a loop of the code and the machine it implements: a relation that every
  round preserves is preserved by the whole loop.  \<open>raising_simulation\<close> is for a loop body that
  may raise (and then has to be shown not to, on related states); \<open>fold_simulation\<close> is the case
  of a body that cannot.
\<close>

locale raising_simulation =
  fixes R :: "'s \<Rightarrow> 't \<Rightarrow> bool"
    and f :: "'s \<Rightarrow> 'a \<Rightarrow> 's res"
    and g :: "'t \<Rightarrow> 'a \<Rightarrow> 't"
  assumes raising_step: "R s t \<Longrightarrow> \<exists>s'. f s x = Inr s' \<and> R s' (g t x)"
begin

lemma fold_res: "R s t \<Longrightarrow> \<exists>s'. fold_res f s xs = Inr s' \<and> R s' (foldl g t xs)"
proof (induction xs arbitrary: s t)
  case Nil
  then show ?case by simp
next
  case (Cons x xs)
  obtain s' where "f s x = Inr s'" and "R s' (g t x)"
    using raising_step [OF Cons.prems, of x] by blast
  then show ?case using Cons.IH [of s' "g t x"] by simp
qed

end

locale fold_simulation =
  fixes R :: "'s \<Rightarrow> 't \<Rightarrow> bool"
    and f :: "'s \<Rightarrow> 'a \<Rightarrow> 's"
    and g :: "'t \<Rightarrow> 'a \<Rightarrow> 't"
  assumes step: "R s t \<Longrightarrow> R (f s x) (g t x)"

sublocale fold_simulation \<subseteq> raising: raising_simulation R "\<lambda>s x. Inr (f s x)" g
  by unfold_locales (simp add: step)

context fold_simulation
begin

lemma fold: "R s t \<Longrightarrow> R (foldl f s xs) (foldl g t xs)"
proof -
  have "fold_res (\<lambda>s x. Inr (f s x)) s xs = Inr (foldl f s xs)" for s
    by (induction xs arbitrary: s) simp_all
  then show "R s t \<Longrightarrow> R (foldl f s xs) (foldl g t xs)"
    using raising.fold_res [of s t xs] by simp
qed

end

end
