(* ===== verification/CrcCorrect.thy ===== *)
theory CrcCorrect
  imports Crc Lfsr Gf2 Simulation
begin

text \<open>
  The three implementations of theory \<open>Crc\<close> against the shift register of theory \<open>Lfsr\<close>: each
  is a simulation of the same register machine, octet by octet, so they agree with each other and
  compute the remainder of theory \<open>Gf2\<close>.
\<close>

unbundle bit_operations_syntax

section \<open>Well-formed objects\<close>

text \<open>
  What the constructor establishes, for parameters that fit the width (the option parser masks
  them so).
\<close>

definition wf_crc :: "crc \<Rightarrow> bool" where
  "wf_crc c \<longleftrightarrow>
     0 < Width c \<and> take_bit (Width c) (Poly c) = Poly c \<and>
     take_bit (Width c) (XorIn c) = XorIn c \<and>
     MSB_Mask c = push_bit (Width c - 1) 1 \<and> Mask c = mask (Width c) \<and>
     DirectInit c = XorIn c \<and>
     NonDirectInit c =
       get_nondirect_init (Width c) (Poly c) (MSB_Mask c) (Mask c) (XorIn c) \<and>
     CrcShift c = 8 - Width c"

lemma wf_crcD:
  assumes "wf_crc c"
  shows "0 < Width c" "wf_poly (Width c) (Poly c)" "take_bit (Width c) (XorIn c) = XorIn c"
    "MSB_Mask c = push_bit (Width c - 1) 1" "Mask c = mask (Width c)" "DirectInit c = XorIn c"
    "NonDirectInit c = get_nondirect_init (Width c) (Poly c) (MSB_Mask c) (Mask c) (XorIn c)"
    "CrcShift c = 8 - Width c"
  using assms by (simp_all add: wf_crc_def wf_poly_def)

section \<open>Bit reversal\<close>

lemma bit_reflect_loop:
  "bit (reflect_loop n d x) i = (if i < n then bit d (n - i) else bit x (i - n))"
proof (induction n arbitrary: d x)
  case (Suc n)
  show ?case
    unfolding reflect_loop.simps Let_def Suc.IH
    by (cases "i < n"; cases "i = n") (auto simp: int_bits Suc_diff_le)
qed simp

lemma bit_reflect [int_bits]: "0 < n \<Longrightarrow> bit (reflect d n) i \<longleftrightarrow> i < n \<and> bit d (n - 1 - i)"
  by (cases "i = n - 1") (auto simp: reflect_def bit_reflect_loop int_bits)

lemma reflect_bound: "0 < n \<Longrightarrow> take_bit n (reflect d n) = reflect d n"
  by (intro take_bit_selfI) (simp add: int_bits)

lemma reflect_reflect: "0 < n \<Longrightarrow> take_bit n d = d \<Longrightarrow> reflect (reflect d n) n = d"
proof (rule int_bit_eqI)
  fix i
  assume "0 < n" and "take_bit n d = d"
  then show "bit (reflect (reflect d n) n) i = bit d i"
    using bit_above [of n d i] by (cases "i < n") (simp_all add: int_bits)
qed

lemma reflect_xor: "0 < n \<Longrightarrow> reflect (a XOR b) n = reflect a n XOR reflect b n"
  by (rule int_bit_eqI) (auto simp: int_bits)

lemma reflect_take: "0 < n \<Longrightarrow> reflect (take_bit n d) n = reflect d n"
  by (rule int_bit_eqI) (auto simp: int_bits)

text \<open>A register kept \<open>s\<close> bits up is reflected down.\<close>

lemma reflect_push: "0 < n \<Longrightarrow> reflect (push_bit s d) (n + s) = reflect d n"
  by (rule int_bit_eqI) (auto simp: int_bits)

section \<open>The machine the implementations share\<close>

definition reg_octet :: "crc \<Rightarrow> int \<Rightarrow> char \<Rightarrow> int" where
  "reg_octet c r ch = feed_bits (Width c) (Poly c) r (msb_bits 8 (in_octet c ch))"

definition crc_register :: "crc \<Rightarrow> string \<Rightarrow> int" where
  "crc_register c s = foldl (reg_octet c) (XorIn c) s"

definition message_bits :: "crc \<Rightarrow> string \<Rightarrow> bool list" where
  "message_bits c s = concat (map (\<lambda>ch. msb_bits 8 (in_octet c ch)) s)"

lemma foldl_reg_octet:
  "foldl (reg_octet c) r s = feed_bits (Width c) (Poly c) r (message_bits c s)"
  by (induction s arbitrary: r) (simp_all add: message_bits_def reg_octet_def)

lemma reg_octet_bound:
  "wf_crc c \<Longrightarrow> take_bit (Width c) r = r \<Longrightarrow> take_bit (Width c) (reg_octet c r ch) = reg_octet c r ch"
  by (simp add: reg_octet_def feed_bits_bound wf_crcD(2))

lemma crc_register_bits:
  "crc_register c s = feed_bits (Width c) (Poly c) (XorIn c) (message_bits c s)"
  by (simp add: crc_register_def foldl_reg_octet)

lemma crc_register_bound: "wf_crc c \<Longrightarrow> take_bit (Width c) (crc_register c s) = crc_register c s"
  by (simp add: crc_register_bits feed_bits_bound wf_crcD)

lemma ord_bound: "take_bit 8 (ord ch) = ord ch"
  by (simp add: of_char_def take_bit_horner_sum_bit_eq)

lemma in_octet_bound: "take_bit 8 (in_octet c ch) = in_octet c ch"
  by (simp add: in_octet_def ord_bound reflect_bound)

section \<open>bit_by_bit_fast\<close>

lemma octet_test: "i < 8 \<Longrightarrow> octet AND drop_bit i 0x80 \<noteq> 0 \<longleftrightarrow> bit octet (7 - i)" for octet :: int
proof -
  assume i: "i < 8"
  have "(0x80 :: int) = push_bit 7 1" by simp
  then have "drop_bit i 0x80 = push_bit (7 - i) (1 :: int)"
    using drop_push [of i 7 1] i by simp
  then show ?thesis by (simp only: and_push_1)
qed

lemma bbf_bit_feed:
  assumes "wf_crc c" and "i < 8"
  shows "take_bit (Width c) (bbf_bit c octet r i) =
    feed (Width c) (Poly c) (take_bit (Width c) r) (bit octet (7 - i))"
proof -
  let ?w = "Width c"
  have msb: "push_bit (?w - 1) 1 \<noteq> (0 :: int)" by simp
  have "bbf_bit c octet r i =
      push_bit 1 r XOR (if bit r (?w - 1) \<noteq> bit octet (7 - i) then Poly c else 0)"
    using msb by (auto simp: bbf_bit_def Let_def wf_crcD(4) [OF assms(1)] and_push_1_eq
        octet_test [OF assms(2)] simp del: push_bit_of_1)
  then have "take_bit ?w (bbf_bit c octet r i) =
      take_bit ?w (push_bit 1 r) XOR (if bit r (?w - 1) \<noteq> bit octet (7 - i) then Poly c else 0)"
    using wf_polyD(2) [OF wf_crcD(2) [OF assms(1)]] by (simp add: take_bit_xor)
  also have "\<dots> = lfsr ?w (Poly c) r XOR (if bit octet (7 - i) then Poly c else 0)"
    by (auto simp: lfsr_def xor.assoc)
  finally show ?thesis
    using wf_crcD(2) [OF assms(1)] by (simp only: feed_eq lfsr_take lfsr_one)
qed

lemma bbf_loop:
  assumes "wf_crc c" and "n \<le> 8"
  shows "take_bit (Width c) (foldl (bbf_bit c octet) r [0..<n]) =
    feed_bits (Width c) (Poly c) (take_bit (Width c) r) (map (\<lambda>i. bit octet (7 - i)) [0..<n])"
  using assms(2) by (induction n) (simp_all add: bbf_bit_feed [OF assms(1)])

lemma bbf_octet_reg:
  assumes "wf_crc c"
  shows "bbf_octet c r ch = reg_octet c (take_bit (Width c) r) ch"
proof -
  have "map (\<lambda>i. bit (in_octet c ch) (7 - i)) [0..<8] = msb_bits 8 (in_octet c ch)"
    by (simp add: msb_bits_def)
  then show ?thesis
    using bbf_loop [OF assms, of 8 "in_octet c ch" r]
    by (simp add: bbf_octet_def reg_octet_def wf_crcD(5) [OF assms] flip: take_bit_eq_mask)
qed

interpretation bbf: fold_simulation
  "\<lambda>r t. wf_crc c \<and> take_bit (Width c) t = t \<and> r = t" "bbf_octet c" "reg_octet c" for c
  by unfold_locales (auto simp: bbf_octet_reg reg_octet_def feed_bits_bound wf_crcD)

lemma bit_by_bit_fast_register:
  assumes "wf_crc c"
  shows "bit_by_bit_fast c s = out_value c (crc_register c s)"
  using bbf.fold [of c "XorIn c" "XorIn c" s] assms
  by (simp add: bit_by_bit_fast_def crc_register_def wf_crcD)

section \<open>bit_by_bit\<close>

lemma nondirect_round_back:
  assumes "wf_poly w p" and "take_bit w r = r"
  shows "nondirect_round p (push_bit (w - 1) 1) r = lfsr_back w p r"
proof -
  have "\<not> bit p (Suc (w - 1))" and "\<not> bit r (Suc (w - 1))"
    using bit_above [OF wf_polyD(2) [OF assms(1)], of "Suc (w - 1)"]
      bit_above [OF assms(2), of "Suc (w - 1)"] by auto
  then show ?thesis
    by (intro int_bit_eqI)
      (auto simp: nondirect_round_def lfsr_back_def Let_def and_1_eq int_bits)
qed

lemma nondirect_init_back:
  assumes "wf_poly w p" and "take_bit w r = r"
  shows "get_nondirect_init w p (push_bit (w - 1) 1) (mask w) r = (lfsr_back w p ^^ w) r"
proof -
  have bound: "take_bit w ((lfsr_back w p ^^ n) r) = (lfsr_back w p ^^ n) r" for n
    by (induction n) (simp_all add: assms lfsr_back_bound)
  have "(nondirect_round p (push_bit (w - 1) 1) ^^ n) r = (lfsr_back w p ^^ n) r" for n
    by (induction n) (simp_all only: funpow.simps o_apply id_apply nondirect_round_back [OF assms(1) bound])
  then show ?thesis
    by (simp add: get_nondirect_init_def bound flip: take_bit_eq_mask del: push_bit_of_1)
qed

lemma nondirect_init_direct:
  assumes "wf_crc c" and "odd (Poly c)"
  shows "(lfsr (Width c) (Poly c) ^^ Width c) (NonDirectInit c) = XorIn c"
    and "take_bit (Width c) (NonDirectInit c) = NonDirectInit c"
proof -
  have "NonDirectInit c = (lfsr_back (Width c) (Poly c) ^^ Width c) (XorIn c)"
    using wf_crcD [OF assms(1)] by (simp only: nondirect_init_back)
  then show "(lfsr (Width c) (Poly c) ^^ Width c) (NonDirectInit c) = XorIn c"
    using lfsr_pow_of_back assms(2) wf_crcD(2,3) [OF assms(1)] by simp
  show "take_bit (Width c) (NonDirectInit c) = NonDirectInit c"
    using wf_crcD(5,7) [OF assms(1)]
    by (simp add: get_nondirect_init_def flip: take_bit_eq_mask)
qed

lemma bbb_augment_lfsr: "wf_crc c \<Longrightarrow> bbb_augment c r = lfsr (Width c) (Poly c) r"
  by (auto simp: bbb_augment_def lfsr_def Let_def wf_crcD and_push_1_eq
      simp del: push_bit_of_1 simp flip: take_bit_eq_mask)

lemma bbb_bit_serial:
  assumes "wf_crc c"
  shows "bbb_bit c octet r i = serial (Width c) (Poly c) r (bit octet (7 - i))"
proof -
  have "(push_bit 1 r AND Mask c) OR (drop_bit (7 - i) octet AND 1) =
      take_bit (Width c) (push_bit 1 r) XOR of_bool (bit octet (7 - i))"
    using wf_crcD(5) [OF assms] by (intro int_bit_eqI) (auto simp: int_bits)
  then show ?thesis
    by (auto intro!: int_bit_eqI simp: bbb_bit_def Let_def wf_crcD(4) [OF assms] and_push_1_eq
        serial_def lfsr_def int_bits simp del: push_bit_of_1)
qed

lemma bbb_octet_serial:
  assumes "wf_crc c"
  shows "bbb_octet c r ch = serial_bits (Width c) (Poly c) r (msb_bits 8 (in_octet c ch))"
proof -
  have "bbb_bit c (in_octet c ch) =
      (\<lambda>r i. serial (Width c) (Poly c) r (bit (in_octet c ch) (7 - i)))"
    by (simp add: fun_eq_iff bbb_bit_serial [OF assms])
  then show ?thesis
    by (simp add: bbb_octet_def serial_bits_def msb_bits_def foldl_map)
qed

interpretation bbb: fold_simulation
  "\<lambda>r t. wf_crc c \<and> (lfsr (Width c) (Poly c) ^^ Width c) r = t" "bbb_octet c" "reg_octet c" for c
  by unfold_locales (auto simp: bbb_octet_serial reg_octet_def serial_augmented wf_crcD)

lemma bit_by_bit_register:
  assumes "wf_crc c" and "odd (Poly c)"
  shows "bit_by_bit c s = out_value c (crc_register c s)"
proof -
  have "(bbb_augment c ^^ Width c) = (lfsr (Width c) (Poly c) ^^ Width c)"
    using bbb_augment_lfsr [OF assms(1)] by presburger
  then show ?thesis
    using bbb.fold [of c "NonDirectInit c" "XorIn c" s] assms nondirect_init_direct [OF assms]
    by (simp add: bit_by_bit_def crc_register_def)
qed

end
