(* ===== verification/CrcTable.thy ===== *)
theory CrcTable
  imports CrcCorrect
begin

text \<open>
  The table-driven implementation of theory \<open>Crc\<close> with the 8-bit index the Python version
  supports.  The register is kept \<open>CrcShift\<close> bits up, so that it has at least 8 bits, and
  reflected when the input is; both variants simulate the register machine of theory
  \<open>CrcCorrect\<close>, and neither raises.
\<close>

unbundle bit_operations_syntax

section \<open>The shifted machine\<close>

definition wf_table :: "crc \<Rightarrow> bool" where
  "wf_table c \<longleftrightarrow> wf_crc c \<and> TableIdxWidth c = 8"

text \<open>Width and polynomial of the register the table-driven code really steps.\<close>

abbreviation tw :: "crc \<Rightarrow> nat" where
  "tw c \<equiv> Width c + CrcShift c"

abbreviation tp :: "crc \<Rightarrow> int" where
  "tp c \<equiv> push_bit (CrcShift c) (Poly c)"

lemma wf_tableD:
  assumes "wf_table c"
  shows "wf_crc c" "TableIdxWidth c = 8" "8 \<le> tw c" "nat (table_shift c) = tw c - 8"
    "0 \<le> table_shift c" "CrcShift c < 8" "CrcShift c = 0 \<or> tw c = 8"
  using assms by (auto simp: wf_table_def wf_crc_def table_shift_def)

lemma wf_shifted: "wf_crc c \<Longrightarrow> wf_poly (tw c) (tp c)"
  unfolding wf_poly_def
proof
  assume c: "wf_crc c"
  show "0 < tw c" using wf_crcD(1) [OF c] by simp
  show "take_bit (tw c) (tp c) = tp c"
    by (intro take_bit_selfI)
      (use bit_above [OF wf_polyD(2) [OF wf_crcD(2) [OF c]]] in \<open>auto simp: int_bits\<close>)
qed

lemma table_round_lfsr:
  assumes "wf_crc c"
  shows "take_bit (tw c) (table_round c r) = lfsr (tw c) (tp c) (take_bit (tw c) r)"
proof -
  have msb: "push_bit (CrcShift c) (MSB_Mask c) = push_bit (tw c - 1) 1"
    using wf_crcD(1) [OF assms]
    by (simp only: wf_crcD(4) [OF assms] push_bit_push_bit)
      (rule arg_cong [where f = "\<lambda>n. push_bit n 1"], arith)
  have "table_round c r = push_bit 1 r XOR (if bit r (tw c - 1) then tp c else 0)"
    by (cases "bit r (tw c - 1)")
      (simp_all only: table_round_def msb and_push_1 if_True if_False xor.right_neutral simp_thms)
  then have "take_bit (tw c) (table_round c r) =
      take_bit (tw c) (push_bit 1 r) XOR (if bit r (tw c - 1) then tp c else 0)"
    using wf_polyD(2) [OF wf_shifted [OF assms]] by (simp add: take_bit_xor)
  also have "\<dots> = lfsr (tw c) (tp c) r"
    by (simp add: lfsr_def)
  finally show ?thesis
    using lfsr_take [OF wf_shifted [OF assms]] by simp
qed

lemma table_rounds_lfsr:
  assumes "wf_crc c"
  shows "take_bit (tw c) ((table_round c ^^ n) r) = (lfsr (tw c) (tp c) ^^ n) (take_bit (tw c) r)"
  by (induction n) (simp_all add: table_round_lfsr [OF assms])

section \<open>Entries\<close>

text \<open>What the register machine does with one octet from an empty register.\<close>

definition octet_effect :: "crc \<Rightarrow> int \<Rightarrow> int" where
  "octet_effect c x = feed_bits (Width c) (Poly c) 0 (msb_bits 8 x)"

lemma octet_effect_bound: "wf_crc c \<Longrightarrow> take_bit (Width c) (octet_effect c x) = octet_effect c x"
  by (simp add: octet_effect_def feed_bits_bound wf_crcD)

lemma octet_effect_shifted:
  assumes "wf_table c" and "take_bit 8 x = x"
  shows "push_bit (CrcShift c) (octet_effect c x) =
    (lfsr (tw c) (tp c) ^^ 8) (push_bit (tw c - 8) x)"
proof -
  have "push_bit (CrcShift c) (octet_effect c x) = feed_bits (tw c) (tp c) 0 (msb_bits 8 x)"
    using feed_bits_shift [OF wf_crcD(1) [OF wf_tableD(1) [OF assms(1)]], of "CrcShift c" "Poly c" 0]
    by (simp add: octet_effect_def)
  then show ?thesis
    using assms wf_tableD(1,3) [OF assms(1)] by (simp add: feed_bits_block wf_shifted)
qed

lemma and_shifted_mask:
  "take_bit w x = x \<Longrightarrow> push_bit s x AND push_bit s (mask w) = push_bit s x" for x :: int
  by (simp flip: push_bit_and take_bit_eq_mask)

lemma table_entry_ni:
  assumes "wf_table c" and "\<not> ReflectIn c" and "take_bit 8 x = x"
  shows "table_entry c (tw c - 8) x = push_bit (CrcShift c) (octet_effect c x)"
proof -
  let ?r = "(table_round c ^^ 8) (push_bit (tw c - 8) x)"
  let ?s = "CrcShift c"
  note c = wf_tableD(1) [OF assms(1)]
  have "take_bit (tw c) (push_bit (tw c - 8) x) = push_bit (tw c - 8) x"
    using wf_tableD(3) [OF assms(1)] by (intro take_bit_push_self [OF assms(3)]) simp
  then have "take_bit (tw c) ?r = push_bit ?s (octet_effect c x)"
    by (simp add: table_rounds_lfsr [OF c] octet_effect_shifted [OF assms(1,3)])
  moreover have "?r AND push_bit ?s (mask (Width c)) =
      take_bit (tw c) ?r AND push_bit ?s (mask (Width c))"
    by (rule int_bit_eqI) (auto simp: int_bits)
  ultimately show ?thesis
    using assms wf_tableD(2,4) [OF assms(1)] wf_crcD(5) [OF c]
    by (simp add: table_entry_def Let_def and_shifted_mask octet_effect_bound [OF c])
qed

lemma table_entry_ri:
  assumes "wf_table c" and "ReflectIn c" and "take_bit 8 x = x"
  shows "table_entry c (tw c - 8) x =
    push_bit (CrcShift c) (reflect (octet_effect c (reflect x 8)) (Width c))"
proof -
  let ?x = "reflect x 8"
  let ?r = "(table_round c ^^ 8) (push_bit (tw c - 8) ?x)"
  let ?s = "CrcShift c"
  note c = wf_tableD(1) [OF assms(1)]
  note w = wf_crcD(1) [OF c]
  have x8: "take_bit 8 ?x = ?x"
    by (rule reflect_bound) simp
  have "take_bit (tw c) (push_bit (tw c - 8) ?x) = push_bit (tw c - 8) ?x"
    using wf_tableD(3) [OF assms(1)] by (intro take_bit_push_self [OF x8]) simp
  then have "take_bit (tw c) ?r = push_bit ?s (octet_effect c ?x)"
    by (simp add: table_rounds_lfsr [OF c] octet_effect_shifted [OF assms(1) x8])
  moreover have "take_bit (Width c) (drop_bit ?s ?r) = drop_bit ?s (take_bit (tw c) ?r)"
    by (rule int_bit_eqI) (auto simp: int_bits add.commute)
  ultimately have "take_bit (Width c) (drop_bit ?s ?r) = octet_effect c ?x"
    by (simp add: drop_push)
  then have "reflect (drop_bit ?s ?r) (Width c) = reflect (octet_effect c ?x) (Width c)"
    by (metis reflect_take w)
  then show ?thesis
    using assms wf_tableD(2,4) [OF assms(1)] wf_crcD(5) [OF c]
    by (simp add: table_entry_def Let_def and_shifted_mask reflect_bound w)
qed

section \<open>One octet through the table\<close>

text \<open>The register machine's step for an octet, split at the top 8 bits of the shifted register.\<close>

lemma octet_step_shifted:
  assumes "wf_table c" and "take_bit (Width c) r = r" and "take_bit 8 x = x"
  defines "q \<equiv> push_bit (CrcShift c) r"
  shows "push_bit (CrcShift c) (feed_bits (Width c) (Poly c) r (msb_bits 8 x)) =
    push_bit 8 (take_bit (tw c - 8) q) XOR
    push_bit (CrcShift c) (octet_effect c (drop_bit (tw c - 8) q XOR x))"
proof -
  let ?w = "tw c"
  let ?f = "lfsr ?w (tp c) ^^ 8"
  let ?hi = "drop_bit (?w - 8) q XOR x"
  note c = wf_tableD(1) [OF assms(1)]
  note w8 = wf_tableD(3) [OF assms(1)]
  have q: "take_bit ?w q = q"
    unfolding q_def by (intro take_bit_push_self [OF assms(2)]) simp
  have hi: "take_bit 8 ?hi = ?hi"
    using w8 q by (intro take_bit_self_xor take_bit_drop_self assms(3)) simp
  have split: "q XOR push_bit (?w - 8) x = take_bit (?w - 8) q XOR push_bit (?w - 8) ?hi"
    (is "?l = ?r")
  proof (rule int_bit_eqI)
    fix n
    show "bit ?l n = bit ?r n"
      by (cases "n < ?w - 8") (auto simp: int_bits)
  qed
  have "push_bit (CrcShift c) (feed_bits (Width c) (Poly c) r (msb_bits 8 x)) =
      feed_bits ?w (tp c) q (msb_bits 8 x)"
    unfolding q_def using feed_bits_shift [OF wf_crcD(1) [OF c]] by simp
  also have "\<dots> = ?f (q XOR push_bit (?w - 8) x)"
    using w8 by (simp add: feed_bits_block [OF wf_shifted [OF c]] assms(3))
  also have "\<dots> = ?f (take_bit (?w - 8) q) XOR ?f (push_bit (?w - 8) ?hi)"
    by (simp only: split lfsr.pow_xor)
  also have "?f (take_bit (?w - 8) q) = push_bit 8 (take_bit (?w - 8) q)"
    using w8 by (intro lfsr_pow_small wf_shifted [OF c]) simp_all
  also have "?f (push_bit (?w - 8) ?hi) = push_bit (CrcShift c) (octet_effect c ?hi)"
    by (simp only: octet_effect_shifted [OF assms(1) hi])
  finally show ?thesis .
qed

lemma gen_table_ok:
  assumes "wf_table c"
  shows "gen_table c = Inr (map (\<lambda>i. table_entry c (tw c - 8) (int i)) [0..<256])"
  using wf_tableD [OF assms] by (simp add: gen_table_def)

lemma and_255: "x AND 0xff = take_bit 8 x" for x :: int
  by (simp add: take_bit_eq_mask mask_numeral)

lemma tbl_lookup_ok:
  assumes "gen_table c = Inr tbl" and "wf_table c"
  shows "tbl_lookup tbl (x AND 0xff) =
    Inr (table_entry c (tw c - 8) (take_bit 8 x))"
proof -
  have "0 \<le> take_bit 8 x" and "take_bit 8 x < 2 ^ 8"
    by (simp_all add: take_bit_nonnegative take_bit_int_less_exp del: power_numeral)
  then have "nat (take_bit 8 x) < 256" and "int (nat (take_bit 8 x)) = take_bit 8 x"
    by simp_all
  then show ?thesis
    using assms by (auto simp: tbl_lookup_def and_255 gen_table_ok)
qed

lemma table_step_ni_reg:
  assumes "wf_table c" and "\<not> ReflectIn c" and "gen_table c = Inr tbl"
    and "take_bit (Width c) r = r"
  shows "table_step_ni c tbl (push_bit (CrcShift c) r) ch =
    Inr (push_bit (CrcShift c) (reg_octet c r ch))"
proof -
  let ?s = "CrcShift c" and ?w = "Width c"
  let ?q = "push_bit ?s r"
  let ?hi = "drop_bit (tw c - 8) ?q XOR ord ch"
  note c = wf_tableD(1) [OF assms(1)]
  have q: "take_bit (tw c) ?q = ?q"
    by (intro take_bit_push_self [OF assms(4)]) simp
  have hi: "take_bit 8 ?hi = ?hi"
    using wf_tableD(3) [OF assms(1)] q
    by (intro take_bit_self_xor take_bit_drop_self ord_bound) simp
  have nonneg: "int 8 - int ?s < 0 \<longleftrightarrow> False"
    using wf_tableD(6) [OF assms(1)] by simp
  have "(push_bit (8 - ?s) ?q XOR push_bit ?s (octet_effect c ?hi)) AND push_bit ?s (mask ?w) =
      push_bit 8 (take_bit (tw c - 8) ?q) XOR push_bit ?s (octet_effect c ?hi)"
  proof -
    have "push_bit (8 - ?s) ?q AND push_bit ?s (mask ?w) = push_bit 8 (take_bit (tw c - 8) ?q)"
      using wf_tableD(3,6,7) [OF assms(1)] by (intro int_bit_eqI) (auto simp: int_bits)
    moreover have "push_bit ?s (octet_effect c ?hi) AND push_bit ?s (mask ?w) =
        push_bit ?s (octet_effect c ?hi)"
      by (simp add: and_shifted_mask octet_effect_bound [OF c])
    ultimately show ?thesis
      by (metis and.commute bit.conj_xor_distrib)
  qed
  then show ?thesis
    using assms(2) octet_step_shifted [OF assms(1,4) ord_bound, of ch]
    by (simp only: table_step_ni_def Let_def wf_tableD(2,4) [OF assms(1)] wf_crcD(5) [OF c] nonneg
        tbl_lookup_ok [OF assms(3,1)] hi table_entry_ni [OF assms(1,2) hi] bind_res_simps
        reg_octet_def in_octet_def if_False)
qed

lemma reflect_octet_index:
  assumes "wf_table c" and "take_bit (Width c) r = r"
  shows "reflect (take_bit 8 (reflect r (Width c) XOR x)) 8 =
    drop_bit (tw c - 8) (push_bit (CrcShift c) r) XOR reflect x 8"
proof (rule int_bit_eqI)
  fix i
  note w = wf_crcD(1) [OF wf_tableD(1) [OF assms(1)]]
  have s: "CrcShift c = 8 - Width c"
    using wf_crcD(8) [OF wf_tableD(1) [OF assms(1)]] .
  show "bit (reflect (take_bit 8 (reflect r (Width c) XOR x)) 8) i =
      bit (drop_bit (tw c - 8) (push_bit (CrcShift c) r) XOR reflect x 8) i"
  proof (cases "i < 8")
    case True
    have "7 - i < 8" by arith
    with True w have lhs: "bit (reflect (take_bit 8 (reflect r (Width c) XOR x)) 8) i \<longleftrightarrow>
        (7 - i < Width c \<and> bit r (Width c - 1 - (7 - i))) \<noteq> bit x (7 - i)"
      by (simp add: int_bits)
    have rhs: "bit (drop_bit (tw c - 8) (push_bit (CrcShift c) r) XOR reflect x 8) i \<longleftrightarrow>
        (CrcShift c \<le> tw c - 8 + i \<and> bit r (tw c - 8 + i - CrcShift c)) \<noteq> bit x (7 - i)"
      using True by (simp add: int_bits)
    have same: "7 - i < Width c \<longleftrightarrow> CrcShift c \<le> tw c - 8 + i"
      "7 - i < Width c \<Longrightarrow> Width c - 1 - (7 - i) = tw c - 8 + i - CrcShift c"
      using True s by arith+
    show ?thesis
      by (cases "7 - i < Width c") (simp_all only: lhs rhs same simp_thms)
  next
    case False
    have "\<not> bit r (tw c - 8 + i - CrcShift c)"
      using False wf_tableD(3) [OF assms(1)] by (intro bit_above [OF assms(2)]) arith
    with False show ?thesis by (simp add: int_bits)
  qed
qed

lemma table_step_ri_reg:
  assumes "wf_table c" and "ReflectIn c" and "gen_table c = Inr tbl"
    and "take_bit (Width c) r = r"
  shows "table_step_ri c tbl (push_bit (CrcShift c) (reflect r (Width c))) ch =
    Inr (push_bit (CrcShift c) (reflect (reg_octet c r ch) (Width c)))"
proof -
  let ?s = "CrcShift c" and ?w = "Width c"
  let ?rr = "reflect r ?w"
  let ?i = "take_bit 8 (?rr XOR ord ch)"
  let ?hi = "drop_bit (tw c - 8) (push_bit ?s r) XOR reflect (ord ch) 8"
  note c = wf_tableD(1) [OF assms(1)]
  note w = wf_crcD(1) [OF c]
  have s: "?s = 8 - ?w" by (rule wf_crcD(8) [OF c])
  have entry: "table_entry c (tw c - 8) ?i =
      push_bit ?s (reflect (octet_effect c ?hi) ?w)"
    using reflect_octet_index [OF assms(1,4), of "ord ch"]
    by (subst table_entry_ri [OF assms(1,2)]) simp_all
  have "push_bit ?s (reg_octet c r ch) =
      push_bit 8 (take_bit (tw c - 8) (push_bit ?s r)) XOR push_bit ?s (octet_effect c ?hi)"
    using assms(2) by (simp add: reg_octet_def in_octet_def
        octet_step_shifted [OF assms(1,4) reflect_bound])
  then have "drop_bit ?s (push_bit ?s (reg_octet c r ch)) =
      drop_bit ?s (push_bit 8 (take_bit (tw c - 8) (push_bit ?s r))) XOR
      drop_bit ?s (push_bit ?s (octet_effect c ?hi))"
    by (simp only: drop.xor)
  then have "reg_octet c r ch =
      push_bit (8 - ?s) (take_bit (tw c - 8) (push_bit ?s r)) XOR octet_effect c ?hi"
    using wf_tableD(6) [OF assms(1)]
    by (simp only: drop_push order_refl diff_self_eq_0 push_bit_0_id id_apply less_imp_le)
  then have refl: "reflect (reg_octet c r ch) ?w =
      reflect (push_bit (8 - ?s) (take_bit (tw c - 8) (push_bit ?s r))) ?w
        XOR reflect (octet_effect c ?hi) ?w"
    by (simp only: reflect_xor [OF w])
  have shifted: "drop_bit 8 (push_bit ?s ?rr) AND push_bit ?s (mask ?w) =
      push_bit ?s (reflect (push_bit (8 - ?s) (take_bit (tw c - 8) (push_bit ?s r))) ?w)"
    (is "?l = ?r")
  proof (rule int_bit_eqI)
    fix i
    show "bit ?l i = bit ?r i"
      using w s by (cases "8 \<le> ?w") (auto simp: int_bits)
  qed
  have "(drop_bit 8 (push_bit ?s ?rr) XOR push_bit ?s (reflect (octet_effect c ?hi) ?w))
      AND push_bit ?s (mask ?w) = push_bit ?s (reflect (reg_octet c r ch) ?w)"
    unfolding refl push.xor shifted [symmetric]
    using and_shifted_mask [OF reflect_bound [OF w], of ?s "octet_effect c ?hi"]
    by (metis and.commute bit.conj_xor_distrib)
  then show ?thesis
    using wf_tableD(2) [OF assms(1)] wf_crcD(5) [OF c]
    by (simp only: table_step_ri_def Let_def tbl_lookup_ok [OF assms(3,1)] drop_push [OF order_refl]
        diff_self_eq_0 push_bit_0_id id_apply entry bind_res_simps)
qed

section \<open>The whole message\<close>

interpretation table_ni: raising_simulation
  "\<lambda>s r. wf_table c \<and> \<not> ReflectIn c \<and> gen_table c = Inr tbl \<and> take_bit (Width c) r = r \<and>
     s = push_bit (CrcShift c) r"
  "table_step_ni c tbl" "reg_octet c" for c tbl
  by unfold_locales
    (auto simp: table_step_ni_reg reg_octet_bound wf_tableD(1))

interpretation table_ri: raising_simulation
  "\<lambda>s r. wf_table c \<and> ReflectIn c \<and> gen_table c = Inr tbl \<and> take_bit (Width c) r = r \<and>
     s = push_bit (CrcShift c) (reflect r (Width c))"
  "table_step_ri c tbl" "reg_octet c" for c tbl
  by unfold_locales
    (auto simp: table_step_ri_reg reg_octet_bound wf_tableD(1))

lemma table_driven_register:
  assumes "wf_table c"
  shows "table_driven c s = Inr (out_value c (crc_register c s))"
proof -
  obtain tbl where tbl: "gen_table c = Inr tbl"
    using gen_table_ok [OF assms] by blast
  note c = wf_tableD(1) [OF assms]
  note w = wf_crcD(1) [OF c]
  let ?x = "XorIn c" and ?w = "Width c" and ?s = "CrcShift c"
  show ?thesis
  proof (cases "ReflectIn c")
    case False
    then have "fold_res (table_step_ni c tbl) (push_bit ?s ?x) s =
        Inr (push_bit ?s (crc_register c s))"
      using table_ni.fold_res [of c tbl ?x "push_bit ?s ?x" s] assms tbl wf_crcD(3) [OF c]
      by (auto simp: crc_register_def)
    then show ?thesis
      using False tbl wf_crcD(6) [OF c]
      by (simp add: table_driven_def Let_def drop_push)
  next
    case True
    then have "fold_res (table_step_ri c tbl) (push_bit ?s (reflect ?x ?w)) s =
        Inr (push_bit ?s (reflect (crc_register c s) ?w))"
      using table_ri.fold_res [of c tbl ?x "push_bit ?s (reflect ?x ?w)" s] assms tbl
        wf_crcD(3) [OF c]
      by (auto simp: crc_register_def)
    moreover have "reflect (reflect (crc_register c s) ?w) ?w AND mask ?w = crc_register c s"
      using crc_register_bound [OF c] by (simp add: reflect_reflect w flip: take_bit_eq_mask)
    ultimately show ?thesis
      using True tbl wf_crcD(5,6) [OF c]
      by (simp add: table_driven_def Let_def reflect_push w)
  qed
qed

end
