(* ===== verification/CrcProps.thy ===== *)
theory CrcProps
  imports CrcTable
begin

text \<open>
  What the class \<open>Crc\<close> guarantees: the constructor's contract, the agreement of the three
  algorithms, their meaning as the remainder of a polynomial division, the errors a checksum
  detects, and what happens outside these conditions.
\<close>

unbundle bit_operations_syntax

section \<open>Message polynomials\<close>

text \<open>The message as a number in base 256, octets reflected where the input is.\<close>

definition message_poly :: "crc \<Rightarrow> string \<Rightarrow> int" where
  "message_poly c s = foldl (\<lambda>v ch. push_bit 8 v XOR in_octet c ch) 0 s"

lemma length_message_bits: "length (message_bits c s) = 8 * length s"
  by (induction s) (simp_all add: message_bits_def)

lemma bits_val_append_msb:
  "bits_val (bs @ msb_bits n x) = push_bit n (bits_val bs) XOR take_bit n x"
proof (induction n arbitrary: x)
  case 0
  then show ?case by (simp add: msb_bits_def)
next
  case (Suc n)
  have "msb_bits (Suc n) x = msb_bits n (drop_bit 1 x) @ [bit x 0]"
    by (simp add: msb_bits_def int_bits Suc_diff_Suc)
  then have "bits_val (bs @ msb_bits (Suc n) x) =
      push_bit 1 (bits_val (bs @ msb_bits n (drop_bit 1 x))) XOR of_bool (bit x 0)"
    by (metis append_assoc bits_val_snoc)
  also have "\<dots> = push_bit (Suc n) (bits_val bs) XOR take_bit (Suc n) x"
    unfolding Suc.IH
  proof (rule int_bit_eqI)
    fix m
    show "bit (push_bit 1 (push_bit n (bits_val bs) XOR take_bit n (drop_bit 1 x))
        XOR of_bool (bit x 0)) m = bit (push_bit (Suc n) (bits_val bs) XOR take_bit (Suc n) x) m"
      by (cases m) (auto simp: int_bits)
  qed
  finally show ?case .
qed

lemma bits_val_message: "bits_val (message_bits c s) = message_poly c s"
proof (induction s rule: rev_induct)
  case (snoc ch s)
  have "message_bits c (s @ [ch]) = message_bits c s @ msb_bits 8 (in_octet c ch)"
    by (simp add: message_bits_def)
  with snoc show ?case
    by (simp only: bits_val_append_msb message_poly_def foldl_append foldl.simps in_octet_bound)
qed (simp add: message_bits_def message_poly_def)

section \<open>The final value\<close>

lemma out_value_inj:
  assumes "wf_crc c" and "take_bit (Width c) a = a" and "take_bit (Width c) b = b"
  shows "out_value c a = out_value c b \<longleftrightarrow> a = b"
proof -
  have "reflect a (Width c) = reflect b (Width c) \<longleftrightarrow> a = b"
    using reflect_reflect [OF wf_crcD(1) [OF assms(1)] assms(2)]
      reflect_reflect [OF wf_crcD(1) [OF assms(1)] assms(3)] by metis
  then show ?thesis
    by (cases "ReflectOut c") (simp_all only: out_value_def xor_right_inj if_True if_False)
qed

lemma out_value_bound:
  assumes "wf_crc c" and "take_bit (Width c) (XorOut c) = XorOut c"
    and "take_bit (Width c) r = r"
  shows "take_bit (Width c) (out_value c r) = out_value c r"
  using assms reflect_bound [OF wf_crcD(1) [OF assms(1)]]
  by (simp add: out_value_def take_bit_self_xor)

section \<open>A concrete object\<close>

text \<open>The CCITT model's parameters, for the instances below.\<close>

definition ccitt_crc :: crc where
  "ccitt_crc = \<lparr>Width = 16, Poly = 0x1021, ReflectIn = False, XorIn = 0xffff,
     ReflectOut = False, XorOut = 0, TableIdxWidth = 8, TableWidth = 256,
     MSB_Mask = 0x8000, Mask = 0xffff, DirectInit = 0xffff, 
     NonDirectInit = get_nondirect_init 16 0x1021 0x8000 0xffff 0xffff, CrcShift = 0\<rparr>"

text \<open>An object with an even polynomial.\<close>

definition even_crc :: crc where
  "even_crc = \<lparr>Width = 2, Poly = 2, ReflectIn = False, XorIn = 1,
     ReflectOut = False, XorOut = 0, TableIdxWidth = 8, TableWidth = 256,
     MSB_Mask = 2, Mask = 3, DirectInit = 1,
     NonDirectInit = get_nondirect_init 2 2 2 3 1, CrcShift = 6\<rparr>"

lemma ccitt_crc_init:
  "Crc_init 16 0x1021 False 0xffff False 0 None = Inr ccitt_crc"
  by (simp add: Crc_init_def ccitt_crc_def)


lemma ccitt_wf: "wf_table ccitt_crc"
proof -
  have "(0xffff :: int) = mask 16" and "(0x8000 :: int) = push_bit 15 1"
    by (simp_all add: mask_numeral)
  then show ?thesis
    by (simp add: wf_table_def wf_crc_def ccitt_crc_def take_bit_id)
qed

section \<open>The constructor\<close>

lemma crc_init_Inl_iff:
  "Crc_init width poly reflect_in xor_in reflect_out xor_out tiw = Inl e \<longleftrightarrow>
     e = ValueError \<and> (width \<le> 0 \<or> (\<exists>t. tiw = Some t \<and> t < 0))"
  by (cases tiw) (auto simp: Crc_init_def Let_def)

lemma crc_init_wf:
  assumes "Crc_init width poly reflect_in xor_in reflect_out xor_out tiw = Inr c"
    and "0 \<le> poly" and "poly < 2 ^ nat width" and "0 \<le> xor_in" and "xor_in < 2 ^ nat width"
  shows "wf_crc c \<and> int (Width c) = width \<and> Poly c = poly \<and> XorIn c = xor_in \<and>
    XorOut c = xor_out \<and> ReflectIn c = reflect_in \<and> ReflectOut c = reflect_out \<and>
    TableIdxWidth c = (case tiw of None \<Rightarrow> 8 | Some t \<Rightarrow> nat t)"
proof -
  have w: "0 < nat width" and "\<not> width - 1 < 0"
    using assms(1) by (auto simp: Crc_init_def split: if_splits)
  have n: "nat (width - 1) = nat width - 1" by (simp add: nat_diff_distrib)
  have "(if width < 8 then nat (8 - width) else 0) = 8 - nat width"
    using w by (auto simp: nat_diff_distrib)
  then show ?thesis
    using assms w mask_of_msb [OF w]
    by (auto simp: Crc_init_def Let_def wf_crc_def take_bit_id n simp del: push_bit_of_1
        split: if_splits option.splits)
qed

text \<open>C37: the constructor raises \<open>ValueError\<close> exactly when the width is not positive or the given
  table index width is negative, and raises nothing else.  For a polynomial and an initial value that
  fit the width, the object it returns is well formed (masks, shift, direct and non-direct initial
  value), keeps the parameters and has a table index width of 8 unless another one is given.\<close>

theorem crc_init_establishes:
  "case Crc_init width poly reflect_in xor_in reflect_out xor_out tiw of
     Inl e \<Rightarrow> e = ValueError \<and> (width \<le> 0 \<or> (\<exists>t. tiw = Some t \<and> t < 0))
   | Inr c \<Rightarrow> 0 < width \<and> (\<forall>t. tiw = Some t \<longrightarrow> 0 \<le> t) \<and>
       (0 \<le> poly \<and> poly < 2 ^ nat width \<and> 0 \<le> xor_in \<and> xor_in < 2 ^ nat width \<longrightarrow>
         wf_crc c \<and> int (Width c) = width \<and> Poly c = poly \<and> XorIn c = xor_in \<and>
         XorOut c = xor_out \<and> ReflectIn c = reflect_in \<and> ReflectOut c = reflect_out \<and>
         TableIdxWidth c = (case tiw of None \<Rightarrow> 8 | Some t \<Rightarrow> nat t))"
proof (cases "Crc_init width poly reflect_in xor_in reflect_out xor_out tiw")
  case (Inl e)
  with iffD1 [OF crc_init_Inl_iff Inl] show ?thesis by simp
next
  case (Inr c)
  then have "\<not> (width \<le> 0 \<or> (\<exists>t. tiw = Some t \<and> t < 0))"
    using crc_init_Inl_iff [of width poly reflect_in xor_in reflect_out xor_out tiw ValueError] by auto
  with Inr crc_init_wf [OF Inr] show ?thesis by auto
qed

theorem crc_init_establishes_witness:
  "Crc_init 16 0x1021 False 0xffff False 0 None = Inr ccitt_crc \<and> wf_crc ccitt_crc"
  using ccitt_crc_init crc_init_establishes
    [where width = 16 and poly = "0x1021" and reflect_in = False and xor_in = "0xffff" and reflect_out = False
      and xor_out = 0 and tiw = None]
  by simp

section \<open>The algorithms agree\<close>

text \<open>C1: for an odd polynomial the three implementations return the same checksum of every
  string; the table-driven one does not raise.\<close>

theorem algorithms_agree:
  assumes "wf_table c" and "odd (Poly c)"
  shows "bit_by_bit_fast c s = bit_by_bit c s \<and> table_driven c s = Inr (bit_by_bit c s)"
  using assms wf_tableD(1) [OF assms(1)]
  by (simp add: bit_by_bit_register bit_by_bit_fast_register table_driven_register)

theorem algorithms_agree_witness:
  "bit_by_bit_fast ccitt_crc ''RFID'' = bit_by_bit ccitt_crc ''RFID''"
  using algorithms_agree [OF ccitt_wf, of "''RFID''"] by (simp add: ccitt_crc_def)

text \<open>The table-driven and the fast bitwise implementation agree for every polynomial, odd or
  even.\<close>

lemma table_driven_fast:
  assumes "wf_table c"
  shows "table_driven c s = Inr (bit_by_bit_fast c s)"
  using wf_tableD(1) [OF assms]
  by (simp add: table_driven_register [OF assms] bit_by_bit_fast_register)

text \<open>For an even polynomial (which the option parser only warns about) the classic
  implementation can differ from the other two: the non-direct initial value does not exist.\<close>

lemma even_poly_disagrees:
  "\<exists>c. wf_table c \<and> even (Poly c) \<and> bit_by_bit c [] \<noteq> bit_by_bit_fast c []"
proof -
  have "(3 :: int) = mask 2" and "(2 :: int) = push_bit 1 1"
    by (simp_all add: mask_numeral)
  then have "wf_table even_crc"
    by (simp add: wf_table_def wf_crc_def even_crc_def take_bit_id)
  moreover have "even (Poly even_crc)"
    by (simp add: even_crc_def)
  moreover have "bit_by_bit even_crc [] \<noteq> bit_by_bit_fast even_crc []"
    by code_simp
  ultimately show ?thesis by (intro exI [of _ even_crc]) simp
qed

section \<open>The checksum is a remainder\<close>

text \<open>The dividend: the initial value and the message, shifted up by the width.\<close>

definition augmented_poly :: "crc \<Rightarrow> string \<Rightarrow> int" where
  "augmented_poly c s =
     push_bit (8 * length s) (XorIn c) XOR push_bit (Width c) (message_poly c s)"

lemma crc_register_cong:
  assumes "wf_crc c"
  shows "gmultiple (generator (Width c) (Poly c)) (augmented_poly c s XOR crc_register c s)"
  using feed_bits_cong [OF wf_crcD(2,3) [OF assms], of "message_bits c s"]
  by (simp add: augmented_poly_def crc_register_bits length_message_bits bits_val_message)

text \<open>C2: the checksum is the final value (reflection and output mask) of the one remainder, of
  degree below the width, of the augmented message divided by the generator polynomial over
  GF(2).\<close>

theorem crc_is_remainder:
  assumes "wf_crc c"
  shows "\<exists>r. take_bit (Width c) r = r \<and>
    gmultiple (generator (Width c) (Poly c)) (augmented_poly c s XOR r) \<and>
    bit_by_bit_fast c s = out_value c r \<and>
    (\<forall>r'. take_bit (Width c) r' = r' \<longrightarrow>
       gmultiple (generator (Width c) (Poly c)) (augmented_poly c s XOR r') \<longrightarrow> r' = r)"
  using crc_register_cong [OF assms] crc_register_bound [OF assms]
    remainder_unique [OF wf_crcD(2) [OF assms]] bit_by_bit_fast_register [OF assms]
  by blast

theorem crc_is_remainder_witness:
  "\<exists>r. take_bit 16 r = r \<and> gmultiple 0x11021 (augmented_poly ccitt_crc ''RFID'' XOR r) \<and>
     bit_by_bit_fast ccitt_crc ''RFID'' = out_value ccitt_crc r"
proof -
  have "generator (Width ccitt_crc) (Poly ccitt_crc) = 0x11021" and "Width ccitt_crc = 16"
    by (simp_all add: generator_def ccitt_crc_def)
  then show ?thesis
    using crc_is_remainder [OF wf_tableD(1) [OF ccitt_wf], of "''RFID''"] by metis
qed

lemma bit_by_bit_bound:
  assumes "wf_crc c" and "take_bit (Width c) (XorOut c) = XorOut c"
  shows "take_bit (Width c) (bit_by_bit c s) = bit_by_bit c s"
proof -
  let ?aug = "bbb_augment c" and ?r = "foldl (bbb_octet c) (NonDirectInit c) s"
  have "take_bit (Width c) (?aug r) = ?aug r" for r
    using bbb_augment_lfsr [OF assms(1)] lfsr_bound [OF wf_crcD(2) [OF assms(1)]] by simp
  moreover have "(?aug ^^ Width c) ?r = ?aug ((?aug ^^ (Width c - 1)) ?r)"
    using wf_crcD(1) [OF assms(1)] by (cases "Width c") simp_all
  ultimately have "take_bit (Width c) ((?aug ^^ Width c) ?r) = (?aug ^^ Width c) ?r"
    by metis
  with out_value_bound [OF assms this] show ?thesis
    by (simp add: bit_by_bit_def)
qed

text \<open>C34: for a well-formed object whose table index width is 8 and whose output mask fits the width, the
  checksum of every string lies in the range of the width under each of the three algorithms, for every
  polynomial, odd or even.  The table-driven algorithm returns a value without raising (with an index
  width below 8 it can raise, see \<open>small_index_raises\<close>), the fast bitwise one returns the same, and so
  does the classic one if the polynomial is odd.\<close>

theorem crc_in_range:
  assumes "wf_table c" and "0 \<le> XorOut c" and "XorOut c < 2 ^ Width c"
  shows "\<exists>v. 0 \<le> v \<and> v < 2 ^ Width c \<and> table_driven c s = Inr v \<and> bit_by_bit_fast c s = v \<and>
    0 \<le> bit_by_bit c s \<and> bit_by_bit c s < 2 ^ Width c \<and> (odd (Poly c) \<longrightarrow> bit_by_bit c s = v)"
proof (intro exI [of _ "bit_by_bit_fast c s"] conjI impI)
  note wf = wf_tableD(1) [OF assms(1)]
  show "0 \<le> bit_by_bit c s" "bit_by_bit c s < 2 ^ Width c"
    using bit_by_bit_bound [OF wf take_bit_id [OF assms(2,3)]] by (simp_all add: take_bit_self_iff)
  have "0 \<le> bit_by_bit_fast c s \<and> bit_by_bit_fast c s < 2 ^ Width c"
    using out_value_bound [OF wf take_bit_id [OF assms(2,3)] crc_register_bound [OF wf]]
    by (simp add: bit_by_bit_fast_register [OF wf] take_bit_self_iff)
  then show "0 \<le> bit_by_bit_fast c s" "bit_by_bit_fast c s < 2 ^ Width c" by blast+
  show "table_driven c s = Inr (bit_by_bit_fast c s)"
    by (rule table_driven_fast [OF assms(1)])
  show "bit_by_bit c s = bit_by_bit_fast c s" if "odd (Poly c)"
    using that by (simp add: bit_by_bit_register [OF wf] bit_by_bit_fast_register [OF wf])
qed simp

theorem crc_in_range_witness:
  "\<exists>v. 0 \<le> v \<and> v < 2 ^ 16 \<and> table_driven ccitt_crc ''RFID'' = Inr v"
  using crc_in_range [OF ccitt_wf, of "''RFID''"] by (auto simp: ccitt_crc_def)

section \<open>Errors a checksum detects\<close>

lemma crc_eq_iff:
  assumes "wf_crc c" and "odd (Poly c)" and "length s = length t"
  shows "bit_by_bit_fast c s = bit_by_bit_fast c t \<longleftrightarrow>
    gmultiple (generator (Width c) (Poly c)) (message_poly c s XOR message_poly c t)"
proof -
  have "crc_register c s = crc_register c t \<longleftrightarrow>
      gmultiple (generator (Width c) (Poly c)) (message_poly c s XOR message_poly c t)"
    using feed_bits_eq_iff [OF wf_crcD(2) [OF assms(1)] assms(2) wf_crcD(3) [OF assms(1)],
        of "message_bits c s" "message_bits c t"] assms(3)
    by (simp add: crc_register_bits length_message_bits bits_val_message)
  then show ?thesis
    by (simp add: bit_by_bit_fast_register [OF assms(1)] crc_register_bound [OF assms(1)]
        out_value_inj [OF assms(1)])
qed

lemma crc_burst:
  assumes "wf_crc c" and "odd (Poly c)" and "length s = length t"
    and "message_poly c s XOR message_poly c t = push_bit k e"
    and "take_bit (Width c) e = e" and "e \<noteq> 0"
  shows "bit_by_bit_fast c s \<noteq> bit_by_bit_fast c t"
proof
  note c = wf_crcD(2) [OF assms(1)]
  assume "bit_by_bit_fast c s = bit_by_bit_fast c t"
  then have "gmultiple (generator (Width c) (Poly c)) (push_bit k e)"
    using crc_eq_iff [OF assms(1-3)] assms(4) by simp
  then have "gmultiple (generator (Width c) (Poly c)) e"
    by (simp add: gmultiple_push_iff [OF c assms(2,5)])
  then show False
    using gmultiple_small [OF c _ assms(5)] assms(6) by blast
qed

text \<open>C36: for a well-formed object with an odd polynomial, two messages of one length have the same
  checksum exactly when their difference is a multiple of the generator polynomial.\<close>

theorem undetected_errors:
  assumes "wf_crc c" and "odd (Poly c)" and "length s = length t"
  shows "bit_by_bit_fast c s = bit_by_bit_fast c t \<longleftrightarrow>
    gmultiple (generator (Width c) (Poly c)) (message_poly c s XOR message_poly c t)"
  using assms by (rule crc_eq_iff)

theorem undetected_errors_witness:
  "bit_by_bit_fast ccitt_crc ''RFID'' = bit_by_bit_fast ccitt_crc ''RFIC'' \<longleftrightarrow>
   gmultiple 0x11021 (message_poly ccitt_crc ''RFID'' XOR message_poly ccitt_crc ''RFIC'')"
  using undetected_errors [OF wf_tableD(1) [OF ccitt_wf], of "''RFID''" "''RFIC''"]
  by (simp add: generator_def ccitt_crc_def)

text \<open>C35: for a well-formed object with an odd polynomial, every burst error changes the checksum: two
  messages of one length whose nonzero difference is confined to as many consecutive bits as the width
  have different checksums.\<close>

theorem burst_detected:
  assumes "wf_crc c" and "odd (Poly c)" and "length s = length t"
    and "message_poly c s XOR message_poly c t = push_bit k e"
    and "0 < e" and "e < 2 ^ Width c"
  shows "bit_by_bit_fast c s \<noteq> bit_by_bit_fast c t"
  using assms(5,6) by (intro crc_burst [OF assms(1-4)] take_bit_id) simp_all

theorem burst_detected_witness:
  "bit_by_bit_fast ccitt_crc ''AB'' \<noteq> bit_by_bit_fast ccitt_crc ''AC''"
  by (rule burst_detected [OF wf_tableD(1) [OF ccitt_wf], where k = 0 and e = 1])
    (simp_all add: ccitt_crc_def message_poly_def in_octet_def)

lemma in_octet_inj: "in_octet c x = in_octet c y \<longleftrightarrow> x = y"
proof
  assume eq: "in_octet c x = in_octet c y"
  have "reflect (reflect (ord ch) 8) 8 = ord ch" for ch
    by (rule reflect_reflect [OF _ ord_bound]) simp
  then have "ord x = ord y"
    using eq unfolding in_octet_def by (metis (full_types))
  then show "x = y" by (simp add: of_char_eq_iff)
qed simp

lemma message_poly_append:
  "message_poly c (a @ b) = push_bit (8 * length b) (message_poly c a) XOR message_poly c b"
proof (induction b rule: rev_induct)
  case (snoc ch b)
  have "message_poly c (a @ b @ [ch]) = push_bit 8 (message_poly c (a @ b)) XOR in_octet c ch"
    and "message_poly c (b @ [ch]) = push_bit 8 (message_poly c b) XOR in_octet c ch"
    by (simp_all add: message_poly_def)
  with snoc show ?case by (simp add: xor.assoc)
qed (simp add: message_poly_def)

text \<open>With a width of at least 8 and an odd polynomial, replacing one character of a message
  by another always changes the checksum.\<close>

lemma single_octet_detected:
  assumes "wf_crc c" and "odd (Poly c)" and "8 \<le> Width c" and "x \<noteq> y"
  shows "bit_by_bit_fast c (a @ x # b) \<noteq> bit_by_bit_fast c (a @ y # b)"
proof (rule crc_burst [OF assms(1,2)])
  show "length (a @ x # b) = length (a @ y # b)" by simp
  have one: "message_poly c [z] = in_octet c z" for z
    by (simp add: message_poly_def)
  show "message_poly c (a @ x # b) XOR message_poly c (a @ y # b) =
      push_bit (8 * length b) (in_octet c x XOR in_octet c y)"
    using message_poly_append [of c a "x # b"] message_poly_append [of c a "y # b"]
      message_poly_append [of c "[x]" b] message_poly_append [of c "[y]" b]
    by (intro int_bit_eqI) (auto simp: one int_bits)
  show "take_bit (Width c) (in_octet c x XOR in_octet c y) = in_octet c x XOR in_octet c y"
    by (rule take_bit_self_mono [OF take_bit_self_xor [OF in_octet_bound in_octet_bound] assms(3)])
  show "in_octet c x XOR in_octet c y \<noteq> 0"
    using assms(4) by (simp add: xor_eq_0_iff in_octet_inj)
qed

section \<open>Bit reversal and the initial values\<close>

text \<open>\<open>reflect\<close> reverses the lowest \<open>width\<close> bits: bit \<open>i\<close> of the result is bit
  \<open>width - 1 - i\<close> of the data, and reflecting twice gives back a word that fits the width.\<close>

lemma reflect_reverses:
  assumes "0 < width"
  shows "(bit (reflect dat width) i \<longleftrightarrow> i < width \<and> bit dat (width - 1 - i)) \<and>
    reflect (reflect dat width) width = take_bit width dat"
  using bit_reflect [OF assms] reflect_reflect [OF assms, of "take_bit width dat"]
    reflect_take [OF assms] by simp

section \<open>Other table index widths\<close>

text \<open>With an index width below 8 the Python implementation fails with \<open>IndexError\<close> on a
  message whose first character does not fit the index (the documented restriction).\<close>

lemma small_index_raises:
  assumes "wf_crc c" and "\<not> ReflectIn c" and "8 \<le> Width c" and "TableIdxWidth c < 8"
    and "2 ^ TableIdxWidth c \<le> ord ch" and "0 \<le> table_shift c"
  shows "table_driven c (ch # s) = Inl IndexError"
proof -
  let ?t = "TableIdxWidth c"
  let ?hi = "drop_bit (nat (table_shift c)) (XorIn c)"
  have s: "CrcShift c = 0"
    using wf_crcD(8) [OF assms(1)] assms(3) by simp
  have "Width c = ?t + nat (table_shift c)"
    using s assms(3,4) by (simp add: table_shift_def)
  then have hi: "take_bit ?t ?hi = ?hi"
    using wf_crcD(3) [OF assms(1)] by (intro take_bit_drop_self) simp
  have "take_bit ?t (ord ch) \<noteq> ord ch"
    using assms(5) by (simp add: take_bit_self_iff)
  then have "take_bit ?t (?hi XOR ord ch) \<noteq> ?hi XOR ord ch"
    using hi by (metis take_bit_self_xor xor_cancel(1))
  moreover have eight: "take_bit 8 (?hi XOR ord ch) = ?hi XOR ord ch"
    using assms(4) by (intro take_bit_self_xor take_bit_self_mono [OF hi] ord_bound) simp
  moreover have nn: "0 \<le> ?hi XOR ord ch"
    using eight by (metis take_bit_nonnegative)
  ultimately have "\<not> ?hi XOR ord ch < 2 ^ ?t"
    using take_bit_self_iff by blast
  with nn have "2 ^ ?t \<le> nat (?hi XOR ord ch)"
    by (simp only: le_nat_iff not_less of_nat_power of_nat_numeral)
  then have "tbl_lookup (map f [0..<2 ^ ?t]) ((?hi XOR ord ch) AND 0xff) = Inl IndexError" for f
    by (simp add: tbl_lookup_def and_255 eight del: take_bit_xor)
  then show ?thesis
    using assms(2,6) s wf_crcD(6) [OF assms(1)]
    by (simp add: table_driven_def gen_table_def table_step_ni_def Let_def)
qed

end
