(* ===== verification/Gen2Crc5.thy ===== *)
theory Gen2Crc5
  imports CrcProps
begin

text \<open>
  The CRC-5 of the reader's downlink commands: \<open>string_xor\<close> and \<open>make3_crc_5\<close> of
  \<open>python/rfidbts_downlink.py\<close> (\<open>examples/bts_top.py\<close> has the same two functions).  The
  functions work on strings of the characters \<open>0\<close> and \<open>1\<close>; the theorems relate them to the shift
  register of the CRC component.
\<close>

unbundle bit_operations_syntax

section \<open>The code\<close>

text \<open>The slices of \<open>out\<close> never exceed it, so each round appends one character.\<close>

definition xor_char :: "string \<Rightarrow> string \<Rightarrow> string \<Rightarrow> nat \<Rightarrow> string res" where
  "xor_char str1 str2 out i =
     (if i < length str1 \<and> i < length str2 then
        if str1 ! i \<noteq> str2 ! i
        then Inr (take i out @ ''1'' @ drop (i + 1) out)
        else Inr (take i out @ ''0'' @ drop (i + 1) out)
      else Inl IndexError)"

definition string_xor :: "string \<Rightarrow> string \<Rightarrow> string res" where
  "string_xor str1 str2 = fold_res (xor_char str1 str2) [] [0..<length str1]"

definition crc5_round :: "string \<times> string \<Rightarrow> nat \<Rightarrow> (string \<times> string) res" where
  "crc5_round st i =
     (case st of (register, bit_stream) \<Rightarrow>
        if register = [] \<or> bit_stream = [] then Inl IndexError
        else
          let flag = (register ! 0 \<noteq> bit_stream ! 0);
              register' = drop 1 register @ ''0'';
              bit_stream' = drop 1 bit_stream
          in if flag
             then bind_res (string_xor register' ''01001'') (\<lambda>r. Inr (r, bit_stream'))
             else Inr (register', bit_stream'))"

definition make3_crc_5 :: "string \<Rightarrow> string res" where
  "make3_crc_5 bit_stream =
     bind_res (fold_res crc5_round (''01001'', bit_stream) [0..<length bit_stream])
       (\<lambda>(register, _). Inr register)"

section \<open>Strings of bits\<close>

definition bit_char :: "bool \<Rightarrow> char" where
  "bit_char b = (if b then CHR ''1'' else CHR ''0'')"

definition bit_string :: "bool list \<Rightarrow> string" where
  "bit_string = map bit_char"

lemma bit_char_inj [simp]: "bit_char a = bit_char b \<longleftrightarrow> a = b"
  by (simp add: bit_char_def)

lemma bit_string_simps [simp]:
  "bit_string [] = []"
  "bit_string (b # bs) = bit_char b # bit_string bs"
  "bit_string (bs @ cs) = bit_string bs @ bit_string cs"
  "length (bit_string bs) = length bs"
  "bit_string bs = bit_string cs \<longleftrightarrow> bs = cs"
  by (auto simp: bit_string_def inj_def intro!: map_inj_on dest: map_injective)

section \<open>The exclusive or of two strings\<close>

lemma xor_char_prefix:
  assumes "n \<le> length str1" and "n \<le> length str2"
  shows "fold_res (xor_char str1 str2) [] [0..<n] =
    Inr (map (\<lambda>i. bit_char (str1 ! i \<noteq> str2 ! i)) [0..<n])"
  using assms by (induction n) (simp_all add: fold_res_append xor_char_def bit_char_def)

text \<open>\<open>string_xor\<close> compares the strings position by position; it raises \<open>IndexError\<close> exactly when
  the second string is shorter than the first.\<close>

lemma string_xor_eq:
  "string_xor str1 str2 =
     (if length str1 \<le> length str2
      then Inr (map (\<lambda>(a, b). bit_char (a \<noteq> b)) (zip str1 str2))
      else Inl IndexError)"
proof (cases "length str1 \<le> length str2")
  case True
  then show ?thesis
    by (auto simp: string_xor_def xor_char_prefix intro!: nth_equalityI)
next
  case False
  then have "[0..<length str1] = [0..<length str2] @ length str2 # [Suc (length str2)..<length str1]"
    by (metis le0 le_add_diff_inverse less_imp_le_nat not_le upt_add_eq_append upt_conv_Cons)
  with False show ?thesis
    by (simp add: string_xor_def fold_res_append xor_char_prefix xor_char_def)
qed

section \<open>The register\<close>

lemma bit_feed [int_bits]:
  "0 < w \<Longrightarrow> bit (feed w p r b) n \<longleftrightarrow>
     (n < w \<and> 0 < n \<and> bit r (n - 1)) \<noteq> ((bit r (w - 1) \<noteq> b) \<and> bit p n)"
  by (auto simp: feed_def lfsr_def int_bits)

lemma bit_string_xor:
  "length bs = length cs \<Longrightarrow>
   string_xor (bit_string bs) (bit_string cs) = Inr (bit_string (map2 (\<noteq>) bs cs))"
  by (auto simp: string_xor_eq bit_string_def intro!: nth_equalityI)

lemma preset_string:
  "''01001'' = bit_string [False, True, False, False, True]" "''0'' = bit_string [False]"
  by (simp_all add: bit_char_def)

lemma bit_nine: "bit (9 :: int) n \<longleftrightarrow> n = 0 \<or> n = 3"
proof -
  have "bit (push_bit 3 1 XOR 1 :: int) n \<longleftrightarrow> n = 0 \<or> n = 3"
    by (auto simp: int_bits simp del: push_bit_of_1)
  then show ?thesis by simp
qed

lemma msb_bits_5: "msb_bits 5 r = [bit r 4, bit r 3, bit r 2, bit r 1, bit r 0]"
  by (simp add: msb_bits_def upt_conv_Cons)

lemma crc5_round_feed:
  "crc5_round (bit_string (msb_bits 5 r), bit_char b # s) i =
     Inr (bit_string (msb_bits 5 (feed 5 9 r b)), s)"
proof -
  have "drop 1 (bit_string (msb_bits 5 r)) @ ''0'' =
      bit_string [bit r 3, bit r 2, bit r 1, bit r 0, False]"
    by (simp add: msb_bits_5 preset_string(2) del: bit_string_simps(2))
      (simp add: bit_string_def)
  moreover have "bit_string (msb_bits 5 r) ! 0 = bit_char (bit r 4)"
    and "bit_string (msb_bits 5 r) \<noteq> []"
    by (simp_all add: msb_bits_5)
  ultimately show ?thesis
    by (cases "bit r 4 = b") (auto simp: crc5_round_def bit_string_xor preset_string(1) Let_def
        msb_bits_5 bit_feed bit_nine simp del: bit_string_simps(2))
qed

lemma crc5_loop:
  "length is = length bs \<Longrightarrow>
   fold_res crc5_round (bit_string (msb_bits 5 r), bit_string bs) is =
     Inr (bit_string (msb_bits 5 (feed_bits 5 9 r bs)), [])"
proof (induction bs arbitrary: r "is")
  case Nil
  then show ?case by simp
next
  case (Cons b bs)
  then show ?case by (cases "is") (simp_all add: crc5_round_feed)
qed

lemma crc5_register:
  "make3_crc_5 (bit_string bs) = Inr (bit_string (msb_bits 5 (feed_bits 5 9 9 bs)))"
proof -
  have "''01001'' = bit_string (msb_bits 5 9)"
    unfolding preset_string msb_bits_5 bit_nine by (rule arg_cong [where f = bit_string]) simp
  then have "make3_crc_5 (bit_string bs) = bind_res (fold_res crc5_round
      (bit_string (msb_bits 5 9), bit_string bs) [0..<length bs]) (\<lambda>(register, _). Inr register)"
    unfolding make3_crc_5_def by (simp only: bit_string_simps)
  also have "\<dots> = Inr (bit_string (msb_bits 5 (feed_bits 5 9 9 bs)))"
    using crc5_loop [of "[0..<length bs]" bs 9] by (simp only: length_upt minus_nat.diff_0 bind_res_simps prod.case)
  finally show ?thesis .
qed

lemma wf_poly_5: "wf_poly 5 9"
  by (simp add: wf_poly_def take_bit_id)

lemma nine_odd: "odd (9 :: int)"
  by simp

lemma nine_bound: "take_bit 5 (9 :: int) = 9"
  by (simp add: take_bit_id)

lemma msb_bits_5_inj:
  assumes "take_bit 5 r = r" and "take_bit 5 s = s" and "msb_bits 5 r = msb_bits 5 s"
  shows "r = s"
proof (rule int_bit_eqI)
  fix n
  have "n < 5 \<Longrightarrow> n = 0 \<or> n = 1 \<or> n = 2 \<or> n = 3 \<or> n = 4" for n :: nat by linarith
  then show "bit r n = bit s n"
    using assms bit_above [of 5 r n] bit_above [of 5 s n]
    by (cases "n < 5") (auto simp: msb_bits_5)
qed

lemma crc5_eq_iff:
  assumes "length bs = length cs"
  shows "make3_crc_5 (bit_string bs) = make3_crc_5 (bit_string cs) \<longleftrightarrow>
    gmultiple (generator 5 9) (bits_val bs XOR bits_val cs)"
proof -
  have "msb_bits 5 (feed_bits 5 9 9 bs) = msb_bits 5 (feed_bits 5 9 9 cs) \<longleftrightarrow>
      feed_bits 5 9 9 bs = feed_bits 5 9 9 cs"
    using msb_bits_5_inj [OF feed_bits_bound [OF wf_poly_5 nine_bound]
        feed_bits_bound [OF wf_poly_5 nine_bound], of bs cs] by auto
  then show ?thesis
    using feed_bits_eq_iff [OF wf_poly_5 nine_odd nine_bound assms]
    by (simp only: crc5_register sum.inject bit_string_simps)
qed

text \<open>Characters that are not bits differ from every register bit, so the register is shifted and
  the preset added.\<close>

lemma crc5_round_total:
  assumes "length reg = 5"
  shows "\<exists>reg'. crc5_round (bit_string reg, x # s) i = Inr (bit_string reg', s) \<and> length reg' = 5"
proof -
  obtain b rest where reg: "reg = b # rest" "length rest = 4"
    using assms by (cases reg) auto
  let ?pre = "[False, True, False, False, True]"
  have "drop 1 (bit_string reg) @ ''0'' = bit_string (rest @ [False])"
    by (simp add: reg) (simp add: bit_char_def)
  moreover have "bit_string reg ! 0 = bit_char b" and "bit_string reg \<noteq> []"
    by (simp_all add: reg)
  moreover have "string_xor (bit_string (rest @ [False])) ''01001'' =
      Inr (bit_string (map2 (\<noteq>) (rest @ [False]) ?pre))"
    unfolding preset_string(1) by (rule bit_string_xor) (simp add: reg)
  ultimately have "crc5_round (bit_string reg, x # s) i =
      Inr (bit_string (if bit_char b \<noteq> x then map2 (\<noteq>) (rest @ [False]) ?pre
        else rest @ [False]), s)"
    by (simp add: crc5_round_def Let_def del: bit_string_simps)
  then show ?thesis using reg(2) by auto
qed

lemma crc5_loop_total:
  "length is = length s \<Longrightarrow> length reg = 5 \<Longrightarrow>
   \<exists>reg'. fold_res crc5_round (bit_string reg, s) is = Inr (bit_string reg', []) \<and> length reg' = 5"
proof (induction s arbitrary: reg "is")
  case Nil
  then show ?case by auto
next
  case (Cons x s)
  then obtain i is' where "is": "is = i # is'" by (cases "is") auto
  obtain reg' where "crc5_round (bit_string reg, x # s) i = Inr (bit_string reg', s)"
    and "length reg' = 5"
    using crc5_round_total [OF Cons.prems(2)] by blast
  then show ?case using Cons.IH [of is' reg'] Cons.prems(1) by (simp add: "is")
qed

section \<open>Properties\<close>

text \<open>\<open>make3_crc_5\<close> raises on no string, whatever its characters, and its result is always five
  characters \<open>0\<close> or \<open>1\<close>.\<close>

lemma crc5_total:
  "\<exists>bs. make3_crc_5 s = Inr (bit_string bs) \<and> length bs = 5"
  unfolding make3_crc_5_def preset_string(1)
  using crc5_loop_total [of "[0..<length s]" s "[False, True, False, False, True]"]
  by (auto simp del: bit_string_simps(2))

text \<open>C39: on the bits of a byte string, \<open>make3_crc_5\<close> computes the checksum that the general
  algorithms compute for width 5, polynomial 9, initial value 9 and no reflection.\<close>

theorem crc5_is_crc:
  assumes "Crc_init 5 9 False 9 False 0 tiw = Inr c"
  shows "make3_crc_5 (bit_string (message_bits c s)) =
    Inr (bit_string (msb_bits 5 (bit_by_bit c s)))"
proof -
  have c: "wf_crc c" "Width c = 5" "Poly c = 9" "XorIn c = 9"
    "\<not> ReflectOut c" "XorOut c = 0"
    using crc_init_wf [OF assms] assms by (auto simp: Crc_init_def Let_def split: if_splits)
  then show ?thesis
    by (simp add: bit_by_bit_register out_value_def crc_register_bits crc5_register)
qed

theorem crc5_is_crc_witness:
  "\<exists>c. Crc_init 5 9 False 9 False 0 None = Inr c \<and>
     make3_crc_5 (bit_string (message_bits c ''Q'')) =
       Inr (bit_string (msb_bits 5 (bit_by_bit c ''Q'')))"
proof -
  have "Crc_init 5 9 False 9 False 0 None \<noteq> Inl e" for e
    by (simp add: crc_init_Inl_iff)
  then obtain c where "Crc_init 5 9 False 9 False 0 None = Inr c"
    by (cases "Crc_init 5 9 False 9 False 0 None") auto
  then show ?thesis using crc5_is_crc by blast
qed

text \<open>C40: a command followed by its own CRC has the residue \<open>00000\<close>, which is what the receiving
  tag checks.\<close>

theorem crc5_residue:
  assumes "make3_crc_5 (bit_string bs) = Inr crc"
  shows "make3_crc_5 (bit_string bs @ crc) = Inr ''00000''"
proof -
  let ?r = "feed_bits 5 9 9 bs"
  have "take_bit 5 ?r = ?r"
    by (rule feed_bits_bound [OF wf_poly_5 nine_bound])
  then have "feed_bits 5 9 ?r (msb_bits 5 ?r) = 0"
    by (simp add: feed_bits_block [OF wf_poly_5] lfsr.pow_zero)
  moreover have "crc = bit_string (msb_bits 5 ?r)"
    using assms by (simp add: crc5_register)
  then have "bit_string bs @ crc = bit_string (bs @ msb_bits 5 ?r)"
    by simp
  moreover have "bit_string (msb_bits 5 0) = ''00000''"
    by (simp add: msb_bits_5 bit_char_def)
  ultimately show ?thesis
    by (simp only: crc5_register feed_bits_simps)
qed

lemma bits_val_append:
  "bits_val (bs @ cs) = push_bit (length cs) (bits_val bs) XOR bits_val cs"
proof (induction cs rule: rev_induct)
  case (snoc c cs)
  then show ?case
    by (simp flip: append_assoc) (auto intro!: int_bit_eqI simp: int_bits)
qed simp

lemma bits_val_inj: "length bs = length cs \<Longrightarrow> bits_val bs = bits_val cs \<Longrightarrow> bs = cs"
proof (induction bs arbitrary: cs rule: rev_induct)
  case (snoc b bs)
  then obtain c cs' where cs: "cs = cs' @ [c]"
    by (metis length_0_conv rev_exhaust snoc_eq_iff_butlast)
  have bit: "bit (bits_val bs) n = bit (bits_val cs') n" for n
    using arg_cong [OF snoc.prems(2), of "\<lambda>v. bit v (Suc n)"]
    by (simp add: cs int_bits bit_of_bool_iff)
  have "b = c"
    using arg_cong [OF snoc.prems(2), of "\<lambda>v. bit v 0"] by (simp add: cs int_bits bit_of_bool_iff)
  with snoc cs int_bit_eqI [OF bit] show ?case by simp
qed simp

theorem crc5_residue_witness:
  "make3_crc_5 ''100000111'' = Inr ''00000''"
proof -
  let ?q = "[True, False, False, False]"
  have "msb_bits 5 (feed_bits 5 9 9 ?q) = [False, False, True, True, True]"
    by (simp add: msb_bits_5 bit_feed bit_nine)
  then have "make3_crc_5 (bit_string ?q) = Inr (bit_string [False, False, True, True, True])"
    by (simp only: crc5_register)
  from crc5_residue [OF this] show ?thesis
    by (simp add: bit_char_def)
qed

text \<open>Two commands of one length that differ only within five consecutive bits have different
  CRCs.\<close>

lemma crc5_burst:
  assumes "length x = length y" and "length x \<le> 5" and "x \<noteq> y"
  shows "make3_crc_5 (bit_string (a @ x @ b)) \<noteq> make3_crc_5 (bit_string (a @ y @ b))"
proof
  let ?e = "bits_val x XOR bits_val y"
  assume "make3_crc_5 (bit_string (a @ x @ b)) = make3_crc_5 (bit_string (a @ y @ b))"
  then have "gmultiple (generator 5 9) (bits_val (a @ x @ b) XOR bits_val (a @ y @ b))"
    using crc5_eq_iff [of "a @ x @ b" "a @ y @ b"] assms(1) by simp
  moreover have "bits_val (a @ x @ b) XOR bits_val (a @ y @ b) = push_bit (length b) ?e"
    using assms(1) by (intro int_bit_eqI) (auto simp: bits_val_append int_bits)
  moreover have e: "take_bit 5 ?e = ?e"
    using bits_val_bound [of x] bits_val_bound [of y] assms(1,2)
    by (metis take_bit_self_mono take_bit_self_xor)
  ultimately have "gmultiple (generator 5 9) ?e"
    by (simp only: gmultiple_push_iff [OF wf_poly_5 nine_odd e])
  then have "?e = 0"
    by (rule gmultiple_small [OF wf_poly_5 _ e])
  then show False
    using bits_val_inj [OF assms(1)] assms(3) by (simp add: xor_eq_0_iff)
qed

end
