(* ===== verification/PyString.thy ===== *)
theory PyString
  imports Prelude
begin

text \<open>
  The string operations of Python 2's standard library that the program uses, on byte strings:
  number formatting (\<open>%d\<close>, \<open>%x\<close>, \<open>%0*x\<close>), \<open>int()\<close>, \<open>isdigit\<close>, \<open>startswith\<close>, and the round trip
  between formatting and parsing.
\<close>

section \<open>Formatting integers\<close>

definition digit_char :: "nat \<Rightarrow> char" where
  "digit_char d = (if d < 10 then char_of (48 + d) else char_of (87 + d))"

function nat_str :: "nat \<Rightarrow> nat \<Rightarrow> string" where
  "nat_str b n = (if b \<le> 1 \<or> n < b then [digit_char n]
     else nat_str b (n div b) @ [digit_char (n mod b)])"
  by pat_completeness auto
termination by (relation "measure snd") auto

declare nat_str.simps [simp del]

text \<open>\<open>'%d'\<close> and \<open>'%x'\<close>.\<close>

definition py_dec :: "int \<Rightarrow> string" where
  "py_dec i = (if i < 0 then ''-'' @ nat_str 10 (nat (- i)) else nat_str 10 (nat i))"

definition py_hex :: "int \<Rightarrow> string" where
  "py_hex i = (if i < 0 then ''-'' @ nat_str 16 (nat (- i)) else nat_str 16 (nat i))"

text \<open>\<open>'%0nx'\<close>: zeros between the sign and the digits up to \<open>n\<close> characters.\<close>

definition zero_fill :: "nat \<Rightarrow> string \<Rightarrow> string" where
  "zero_fill n s = replicate (n - length s) (CHR ''0'') @ s"

definition py_zhex :: "nat \<Rightarrow> int \<Rightarrow> string" where
  "py_zhex n i = (if i < 0 then ''-'' @ zero_fill (n - 1) (nat_str 16 (nat (- i)))
     else zero_fill n (nat_str 16 (nat i)))"

section \<open>Parsing integers\<close>

definition is_space :: "char \<Rightarrow> bool" where
  "is_space c \<longleftrightarrow> (9 \<le> (of_char c :: nat) \<and> of_char c \<le> (13 :: nat)) \<or> c = CHR '' ''"

definition strip :: "string \<Rightarrow> string" where
  "strip s = rev (dropWhile is_space (rev (dropWhile is_space s)))"

definition digit_val :: "char \<Rightarrow> nat option" where
  "digit_val c = (let n = of_char c :: nat in
     if 48 \<le> n \<and> n \<le> 57 then Some (n - 48)
     else if 97 \<le> n \<and> n \<le> 122 then Some (n - 87)
     else if 65 \<le> n \<and> n \<le> 90 then Some (n - 55)
     else None)"

definition is_base_digit :: "nat \<Rightarrow> char \<Rightarrow> bool" where
  "is_base_digit b c = (case digit_val c of None \<Rightarrow> False | Some d \<Rightarrow> d < b)"

definition digits_val :: "nat \<Rightarrow> string \<Rightarrow> nat" where
  "digits_val b s = foldl (\<lambda>v c. v * b + the (digit_val c)) 0 s"

definition parse_nat :: "nat \<Rightarrow> string \<Rightarrow> nat option" where
  "parse_nat b s =
     (if s \<noteq> [] \<and> list_all (is_base_digit b) s then Some (digits_val b s) else None)"

definition is_0x :: "string \<Rightarrow> bool" where
  "is_0x s \<longleftrightarrow> take 2 s = ''0x'' \<or> take 2 s = ''0X''"

text \<open>\<open>int(s, b)\<close>: surrounding white space, a sign, for base 16 a prefix \<open>0x\<close>, and digits.\<close>

definition py_int :: "nat \<Rightarrow> string \<Rightarrow> int res" where
  "py_int b s =
     (let t = strip s;
          neg = (take 1 t = ''-'');
          u = (if neg \<or> take 1 t = ''+'' then drop 1 t else t);
          v = (if b = 16 \<and> is_0x u then drop 2 u else u)
      in case parse_nat b v of
           None \<Rightarrow> Inl ValueError
         | Some n \<Rightarrow> Inr (if neg then - int n else int n))"

text \<open>\<open>str.isdigit\<close> and \<open>str.startswith\<close>.\<close>

definition py_isdigit :: "string \<Rightarrow> bool" where
  "py_isdigit s \<longleftrightarrow> s \<noteq> [] \<and> list_all (is_base_digit 10) s"

definition startswith :: "string \<Rightarrow> string \<Rightarrow> bool" where
  "startswith s p \<longleftrightarrow> take (length p) s = p"

fun py_join :: "string \<Rightarrow> string list \<Rightarrow> string" where
  "py_join sep [] = []"
| "py_join sep [x] = x"
| "py_join sep (x # y # zs) = x @ sep @ py_join sep (y # zs)"

section \<open>Round trip\<close>

lemma digit_val_char: "d < 36 \<Longrightarrow> digit_val (digit_char d) = Some d"
  by (auto simp: digit_val_def digit_char_def Let_def)

lemma digit_char_not_special:
  assumes "d < 36"
  shows "\<not> is_space (digit_char d)" and "digit_char d \<noteq> CHR ''-''" and "digit_char d \<noteq> CHR ''+''"
proof -
  have "digit_val c = None" if "is_space c \<or> c = CHR ''-'' \<or> c = CHR ''+''" for c
    using that by (auto simp: is_space_def digit_val_def Let_def)
  then show "\<not> is_space (digit_char d)" and "digit_char d \<noteq> CHR ''-''"
    and "digit_char d \<noteq> CHR ''+''"
    using digit_val_char [OF assms] by force+
qed

lemma nat_str_digits:
  assumes "2 \<le> b" and "b \<le> 36"
  shows "list_all (is_base_digit b) (nat_str b n) \<and> nat_str b n \<noteq> [] \<and>
    digits_val b (nat_str b n) = n"
proof (induction n rule: less_induct)
  case (less n)
  show ?case
  proof (cases "n < b")
    case True
    then show ?thesis
      using assms by (simp add: nat_str.simps [of b n] is_base_digit_def digit_val_char digits_val_def)
  next
    case False
    then have "n div b < n" using assms by simp
    from less.IH [OF this] False assms show ?thesis
      by (simp add: nat_str.simps [of b n] is_base_digit_def digit_val_char digits_val_def
          order_less_le_trans [OF mod_less_divisor])
  qed
qed

lemma parse_nat_str: "2 \<le> b \<Longrightarrow> b \<le> 36 \<Longrightarrow> parse_nat b (nat_str b n) = Some n"
  using nat_str_digits [of b n] by (simp add: parse_nat_def)

lemma base_digit_plain:
  "is_base_digit b c \<Longrightarrow> \<not> is_space c \<and> c \<noteq> CHR ''-'' \<and> c \<noteq> CHR ''+''"
  by (auto simp: is_base_digit_def digit_val_def is_space_def Let_def split: if_splits option.splits)

lemma strip_plain:
  assumes "list_all (\<lambda>c. \<not> is_space c) s"
  shows "strip s = s"
proof -
  have drop: "dropWhile is_space t = t" if "list_all (\<lambda>c. \<not> is_space c) t" for t
    using that by (cases t) auto
  have "list_all (\<lambda>c. \<not> is_space c) (rev s)"
    using assms by (simp add: list_all_iff)
  then show ?thesis
    by (simp add: strip_def drop assms)
qed

lemma digit_val_x: "\<not> is_base_digit 10 (CHR ''x'')" "\<not> is_base_digit 16 (CHR ''x'')"
  "\<not> is_base_digit 10 (CHR ''X'')" "\<not> is_base_digit 16 (CHR ''X'')"
  by (simp_all add: is_base_digit_def digit_val_def)

lemma digits_not_0x: "b = 10 \<or> b = 16 \<Longrightarrow> list_all (is_base_digit b) s \<Longrightarrow> \<not> is_0x s"
  using digit_val_x by (cases s; cases "tl s") (auto simp: is_0x_def)

lemma py_int_digits:
  assumes "b = 10 \<or> b = 16"
  shows "py_int b (nat_str b n) = Inr (int n)"
    and "py_int b (''-'' @ nat_str b n) = Inr (- int n)"
    and "b = 16 \<Longrightarrow> py_int b (''0x'' @ nat_str b n) = Inr (int n)"
proof -
  let ?s = "nat_str b n"
  have d: "list_all (is_base_digit b) ?s" "?s \<noteq> []" "parse_nat b ?s = Some n"
    using nat_str_digits [of b n] parse_nat_str [of b n] assms by auto
  then obtain c s' where s: "?s = c # s'" by (cases ?s) auto
  have plain: "list_all (\<lambda>c. \<not> is_space c) ?s" and c: "c \<noteq> CHR ''-''" "c \<noteq> CHR ''+''"
    using d(1) base_digit_plain by (auto simp: list_all_iff s)
  have "strip (''-'' @ ?s) = ''-'' @ ?s" "strip (''0x'' @ ?s) = ''0x'' @ ?s" "strip ?s = ?s"
    using plain by (auto intro!: strip_plain simp: is_space_def)
  moreover have "\<not> is_0x ?s" by (rule digits_not_0x [OF assms d(1)])
  ultimately show "py_int b ?s = Inr (int n)" "py_int b (''-'' @ ?s) = Inr (- int n)"
    "b = 16 \<Longrightarrow> py_int b (''0x'' @ ?s) = Inr (int n)"
    using d(3) c by (auto simp: py_int_def Let_def s is_0x_def)
qed

lemma py_int_dec: "py_int 10 (py_dec i) = Inr i"
  using py_int_digits [of 10 "nat i"] py_int_digits [of 10 "nat (- i)"] by (auto simp: py_dec_def)

end
