(* ===== verification/CrcModels.thy ===== *)
theory CrcModels
  imports CrcProps
begin

text \<open>
  The table of predefined parameter sets of \<open>python/pycrc/crc_models.py\<close>: the class attribute
  \<open>models\<close> and the methods \<open>getList\<close> and \<open>getParams\<close>.  The theorems show that every model is a
  valid input of the CRC component and which of the stored check values are the checksums the
  algorithms compute.
\<close>

unbundle bit_operations_syntax

section \<open>The table\<close>

record crc_model =
  m_name :: string
  m_width :: int
  m_poly :: int
  m_reflect_in :: bool
  m_xor_in :: int
  m_reflect_out :: bool
  m_xor_out :: int
  m_direct :: bool
  m_check :: int

text \<open>The widths up to 16, and the wider models.\<close>

definition models_narrow :: "crc_model list" where
  "models_narrow = [
    \<lparr>m_name = ''crc-5'', m_width = 5, m_poly = 0x05, m_reflect_in = True, m_xor_in = 0x1f,
      m_reflect_out = True, m_xor_out = 0x1f, m_direct = True, m_check = 0x19\<rparr>,
    \<lparr>m_name = ''crc-8'', m_width = 8, m_poly = 0x07, m_reflect_in = False, m_xor_in = 0x0,
      m_reflect_out = False, m_xor_out = 0x0, m_direct = True, m_check = 0xf4\<rparr>,
    \<lparr>m_name = ''dallas-1-wire'', m_width = 8, m_poly = 0x31, m_reflect_in = True, m_xor_in = 0x0,
      m_reflect_out = True, m_xor_out = 0x0, m_direct = True, m_check = 0xa1\<rparr>,
    \<lparr>m_name = ''crc-15'', m_width = 15, m_poly = 0x4599, m_reflect_in = False, m_xor_in = 0x0,
      m_reflect_out = False, m_xor_out = 0x0, m_direct = True, m_check = 0x59e\<rparr>,
    \<lparr>m_name = ''crc-16'', m_width = 16, m_poly = 0x8005, m_reflect_in = True, m_xor_in = 0x0,
      m_reflect_out = True, m_xor_out = 0x0, m_direct = True, m_check = 0xbb3d\<rparr>,
    \<lparr>m_name = ''crc-16-usb'', m_width = 16, m_poly = 0x8005, m_reflect_in = True, m_xor_in = 0xffff,
      m_reflect_out = True, m_xor_out = 0xffff, m_direct = True, m_check = 0xb4c8\<rparr>,
    \<lparr>m_name = ''crc-16-modbus'', m_width = 16, m_poly = 0x8005, m_reflect_in = True, m_xor_in = 0xffff,
      m_reflect_out = True, m_xor_out = 0x0, m_direct = True, m_check = 0x4b37\<rparr>,
    \<lparr>m_name = ''ccitt'', m_width = 16, m_poly = 0x1021, m_reflect_in = False, m_xor_in = 0xffff,
      m_reflect_out = False, m_xor_out = 0x0, m_direct = True, m_check = 0x29b1\<rparr>,
    \<lparr>m_name = ''r-crc-16'', m_width = 16, m_poly = 0x0589, m_reflect_in = False, m_xor_in = 0x0,
      m_reflect_out = False, m_xor_out = 0x0001, m_direct = True, m_check = 0x007e\<rparr>,
    \<lparr>m_name = ''kermit'', m_width = 16, m_poly = 0x1021, m_reflect_in = True, m_xor_in = 0x0,
      m_reflect_out = True, m_xor_out = 0x0, m_direct = True, m_check = 0x2189\<rparr>,
    \<lparr>m_name = ''x-25'', m_width = 16, m_poly = 0x1021, m_reflect_in = True, m_xor_in = 0xffff,
      m_reflect_out = True, m_xor_out = 0xffff, m_direct = True, m_check = 0x906e\<rparr>,
    \<lparr>m_name = ''xmodem'', m_width = 16, m_poly = 0x1021, m_reflect_in = False, m_xor_in = 0x0,
      m_reflect_out = False, m_xor_out = 0x0, m_direct = True, m_check = 0x31c3\<rparr>,
    \<lparr>m_name = ''zmodem'', m_width = 16, m_poly = 0x1021, m_reflect_in = False, m_xor_in = 0x0,
      m_reflect_out = False, m_xor_out = 0x0, m_direct = True, m_check = 0x31c3\<rparr>]"

definition models_wide :: "crc_model list" where
  "models_wide = [
    \<lparr>m_name = ''crc-24'', m_width = 24, m_poly = 0x864cfb, m_reflect_in = False, m_xor_in = 0xb704ce,
      m_reflect_out = False, m_xor_out = 0x0, m_direct = True, m_check = 0x21cf02\<rparr>,
    \<lparr>m_name = ''crc-32'', m_width = 32, m_poly = 0x4c11db7, m_reflect_in = True, m_xor_in = 0xffffffff,
      m_reflect_out = True, m_xor_out = 0xffffffff, m_direct = True, m_check = 0xcbf43926\<rparr>,
    \<lparr>m_name = ''crc-32c'', m_width = 32, m_poly = 0x1edc6f41, m_reflect_in = True, m_xor_in = 0xffffffff,
      m_reflect_out = True, m_xor_out = 0xffffffff, m_direct = True, m_check = 0xe3069283\<rparr>,
    \<lparr>m_name = ''crc-32-mpeg'', m_width = 32, m_poly = 0x4c11db7, m_reflect_in = False, m_xor_in = 0xffffffff,
      m_reflect_out = False, m_xor_out = 0x0, m_direct = False, m_check = 0x0376e6e7\<rparr>,
    \<lparr>m_name = ''posix'', m_width = 32, m_poly = 0x4c11db7, m_reflect_in = False, m_xor_in = 0x0,
      m_reflect_out = False, m_xor_out = 0xffffffff, m_direct = True, m_check = 0x765e7680\<rparr>,
    \<lparr>m_name = ''jam'', m_width = 32, m_poly = 0x4c11db7, m_reflect_in = True, m_xor_in = 0xffffffff,
      m_reflect_out = True, m_xor_out = 0x0, m_direct = True, m_check = 0x340bc6d9\<rparr>,
    \<lparr>m_name = ''xfer'', m_width = 32, m_poly = 0x000000af, m_reflect_in = False, m_xor_in = 0x0,
      m_reflect_out = False, m_xor_out = 0x0, m_direct = True, m_check = 0xbd0be338\<rparr>,
    \<lparr>m_name = ''crc-64'', m_width = 64, m_poly = 0x000000000000001b, m_reflect_in = True, m_xor_in = 0x0,
      m_reflect_out = True, m_xor_out = 0x0, m_direct = True, m_check = 0x46a5a9388a5beffe\<rparr>,
    \<lparr>m_name = ''crc-64-jones'', m_width = 64, m_poly = 0xad93d23594c935a9, m_reflect_in = True, m_xor_in = 0xffffffffffffffff,
      m_reflect_out = True, m_xor_out = 0x0, m_direct = True, m_check = 0xe9c6d914c4b8d9ca\<rparr>]"

definition models :: "crc_model list" where
  "models = models_narrow @ models_wide"

lemmas models_eval = models_def models_narrow_def models_wide_def

definition getList :: "string list" where
  "getList = map m_name models"

text \<open>The loop returns the first model whose name is the argument in lower case.\<close>

definition getParams :: "string \<Rightarrow> crc_model option" where
  "getParams model = find (\<lambda>i. m_name i = py_lower model) models"

text \<open>The object that the program builds for a model.\<close>

definition model_crc :: "crc_model \<Rightarrow> crc res" where
  "model_crc m = Crc_init (m_width m) (m_poly m) (m_reflect_in m) (m_xor_in m)
     (m_reflect_out m) (m_xor_out m) (Some 8)"

section \<open>Every model is a valid parameter set\<close>

text \<open>
  The initial value of a model is a bit palindrome wherever the input is reflected; the file
  checksum relies on it.
\<close>

definition model_ok :: "crc_model \<Rightarrow> bool" where
  "model_ok m \<longleftrightarrow>
     0 < m_width m \<and> odd (m_poly m) \<and>
     0 \<le> m_poly m \<and> m_poly m < 2 ^ nat (m_width m) \<and>
     0 \<le> m_xor_in m \<and> m_xor_in m < 2 ^ nat (m_width m) \<and>
     0 \<le> m_xor_out m \<and> m_xor_out m < 2 ^ nat (m_width m) \<and>
     (m_reflect_in m \<longrightarrow> m_xor_in m = 0 \<or> m_xor_in m = 2 ^ nat (m_width m) - 1)"

lemma models_ok: "list_all model_ok models"
  by (simp add: models_eval model_ok_def)

text \<open>Every model of the table has a positive width, an odd polynomial and initial and final
  masks that fit the width; where it reflects the input, its initial value is all zeros or all
  ones.\<close>

lemma models_valid:
  "list_all model_ok models"
  by (rule models_ok)

lemma model_crc_wf:
  assumes "m \<in> set models"
  shows "\<exists>c. model_crc m = Inr c \<and> wf_table c \<and> odd (Poly c) \<and> Poly c = m_poly m \<and>
    XorIn c = m_xor_in m \<and> int (Width c) = m_width m"
proof -
  have ok: "model_ok m"
    using models_ok assms by (simp add: list_all_iff)
  then obtain c where c: "model_crc m = Inr c"
    using crc_init_Inl_iff [of "m_width m" "m_poly m"]
    by (cases "model_crc m") (auto simp: model_crc_def model_ok_def)
  have "wf_table c \<and> Poly c = m_poly m \<and> XorIn c = m_xor_in m \<and> int (Width c) = m_width m"
    using crc_init_wf [OF c [unfolded model_crc_def]] ok
    by (simp add: model_ok_def wf_table_def)
  with c ok show ?thesis by (auto simp: model_ok_def)
qed

text \<open>On every model of the table the three algorithms agree on every message.\<close>

lemma models_agree:
  assumes "m \<in> set models" and "model_crc m = Inr c"
  shows "bit_by_bit_fast c s = bit_by_bit c s \<and> table_driven c s = Inr (bit_by_bit c s)"
  using model_crc_wf [OF assms(1)] assms(2)
  by (auto simp: bit_by_bit_register bit_by_bit_fast_register table_driven_register wf_table_def)

section \<open>Lookup\<close>

lemma names_distinct: "distinct (map m_name models)"
  by (simp add: models_eval)

lemma names_lower: "list_all (\<lambda>m. py_lower (m_name m) = m_name m) models"
  by (simp add: models_eval py_lower_def char_lower_def)

lemma find_unique_key:
  "distinct (map f xs) \<Longrightarrow> find (\<lambda>x. f x = k) xs = Some y \<longleftrightarrow> y \<in> set xs \<and> f y = k"
  by (induction xs) auto

lemma getParams_Some:
  "(getParams nm = Some m \<longleftrightarrow> m \<in> set models \<and> m_name m = py_lower nm) \<and>
   (nm \<in> set getList \<longrightarrow> (\<exists>m. getParams nm = Some m \<and> m_name m = nm))"
proof -
  have "m \<in> set models \<Longrightarrow> py_lower (m_name m) = m_name m" for m
    using names_lower by (simp add: list_all_iff)
  then show ?thesis
    using find_unique_key [OF names_distinct] by (auto simp: getParams_def getList_def)
qed

text \<open>\<open>getParams\<close> finds a model exactly when its name is the argument in lower case; every
  name that \<open>getList\<close> returns finds its own model.\<close>

lemma getParams_iff:
  "(getParams nm = Some m \<longleftrightarrow> m \<in> set models \<and> m_name m = py_lower nm) \<and>
   (nm \<in> set getList \<longrightarrow> (\<exists>m. getParams nm = Some m \<and> m_name m = nm))"
  by (rule getParams_Some)

section \<open>Check values\<close>

definition model_checksum :: "crc_model \<Rightarrow> int res" where
  "model_checksum m =
     bind_res (model_crc m) (\<lambda>c. Inr (bit_by_bit_fast c ''123456789''))"

text \<open>
  Evaluation of the fast algorithm in the kernel: the attributes it reads, its eight rounds
  spelled out, and the reflection as a recursion on a numeral.
\<close>

definition fast_crc :: "nat \<Rightarrow> int \<Rightarrow> bool \<Rightarrow> int \<Rightarrow> bool \<Rightarrow> int \<Rightarrow> int \<Rightarrow> crc" where
  "fast_crc w p ri xi ro xo nd =
     \<lparr>Width = w, Poly = p, ReflectIn = ri, XorIn = xi, ReflectOut = ro, XorOut = xo,
      TableIdxWidth = 8, TableWidth = 256, MSB_Mask = 2 ^ (w - 1), Mask = 2 ^ w - 1,
      DirectInit = xi, NonDirectInit = nd, CrcShift = (if w < 8 then 8 - w else 0)\<rparr>"

lemma fast_crc_nondirect:
  "bit_by_bit_fast (fast_crc w p ri xi ro xo nd) s = bit_by_bit_fast (fast_crc w p ri xi ro xo 0) s"
  by (simp add: bit_by_bit_fast_def bbf_octet_def [abs_def] bbf_bit_def [abs_def]
      in_octet_def [abs_def] out_value_def fast_crc_def Let_def cong: if_cong)

lemma model_crc_fast:
  assumes "0 < w" and "m_width m = int w"
  shows "\<exists>nd. model_crc m =
    Inr (fast_crc w (m_poly m) (m_reflect_in m) (m_xor_in m) (m_reflect_out m) (m_xor_out m) nd)"
proof -
  have msk: "2 ^ (w - Suc 0) * 2 - 2 OR 1 = (2 ^ w - 1 :: int)"
    using mask_of_msb [OF assms(1)] by (simp add: mask_eq_exp_minus_1 push_bit_eq_mult)
  have w: "nat (int w - 1) = w - Suc 0" "nat (8 - int w) = 8 - w"
    by (simp_all add: nat_diff_distrib')
  show ?thesis
    using assms by (simp add: model_crc_def Crc_init_def fast_crc_def Let_def w msk push_bit_eq_mult)
qed

lemma model_checksum_eval:
  "model_checksum \<lparr>m_name = n, m_width = numeral v, m_poly = p, m_reflect_in = ri,
      m_xor_in = xi, m_reflect_out = ro, m_xor_out = xo, m_direct = d, m_check = k\<rparr> =
    Inr (bit_by_bit_fast (fast_crc (numeral v) p ri xi ro xo 0) ''123456789'')"
  using model_crc_fast [of "numeral v" "\<lparr>m_name = n, m_width = numeral v, m_poly = p,
      m_reflect_in = ri, m_xor_in = xi, m_reflect_out = ro, m_xor_out = xo, m_direct = d,
      m_check = k\<rparr>"] fast_crc_nondirect
  by (auto simp: model_checksum_def)

lemma bbf_octet_eval:
  "bbf_octet c r ch =
     bbf_bit c (in_octet c ch) (bbf_bit c (in_octet c ch) (bbf_bit c (in_octet c ch)
    (bbf_bit c (in_octet c ch) (bbf_bit c (in_octet c ch) (bbf_bit c (in_octet c ch)
    (bbf_bit c (in_octet c ch) (bbf_bit c (in_octet c ch) r 0) 1) 2) 3) 4) 5) 6) 7 AND Mask c"
proof -
  have "[0..<8] = [0, 1, 2, 3, 4, 5, 6, 7 :: nat]"
    by (simp add: upt_conv_Cons)
  then show ?thesis by (simp add: bbf_octet_def)
qed

lemma reflect_loop_numeral:
  "reflect_loop (numeral k) dat x =
     reflect_loop (pred_numeral k) (drop_bit 1 dat) (push_bit 1 x OR (drop_bit 1 dat AND 1))"
  by (simp add: numeral_eq_Suc Let_def)

lemma octet_bits:
  "drop_bit 0 (0x80 :: int) = 0x80" "drop_bit 1 (0x80 :: int) = 0x40"
  "drop_bit 2 (0x80 :: int) = 0x20" "drop_bit 3 (0x80 :: int) = 0x10"
  "drop_bit 4 (0x80 :: int) = 8" "drop_bit 5 (0x80 :: int) = 4"
  "drop_bit 6 (0x80 :: int) = 2" "drop_bit 7 (0x80 :: int) = 1"
  by (simp_all add: drop_bit_eq_div)

lemma push_1_int: "push_bit 1 k = 2 * k" for k :: int
  by (simp add: push_bit_eq_mult)

lemmas checksum_eval = fast_crc_def bit_by_bit_fast_def bbf_octet_eval bbf_bit_def in_octet_def
  reflect_def reflect_loop_numeral octet_bits push_1_int out_value_def

lemma fast_values_1:
  "bit_by_bit_fast (fast_crc 5 0x5 True 0x1f True 0x1f 0)
     ''123456789'' = 0x19"
  "bit_by_bit_fast (fast_crc 8 0x7 False 0x0 False 0x0 0)
     ''123456789'' = 0xf4"
  "bit_by_bit_fast (fast_crc 8 0x31 True 0x0 True 0x0 0)
     ''123456789'' = 0xa1"
  "bit_by_bit_fast (fast_crc 15 0x4599 False 0x0 False 0x0 0)
     ''123456789'' = 0x59e"
  "bit_by_bit_fast (fast_crc 16 0x8005 True 0x0 True 0x0 0)
     ''123456789'' = 0xbb3d"
  "bit_by_bit_fast (fast_crc 16 0x8005 True 0xffff True 0xffff 0)
     ''123456789'' = 0xb4c8"
  "bit_by_bit_fast (fast_crc 16 0x8005 True 0xffff True 0x0 0)
     ''123456789'' = 0x4b37"
  "bit_by_bit_fast (fast_crc 16 0x1021 False 0xffff False 0x0 0)
     ''123456789'' = 0x29b1"
  by (simp_all add: checksum_eval)

lemma fast_values_2:
  "bit_by_bit_fast (fast_crc 16 0x589 False 0x0 False 0x1 0)
     ''123456789'' = 0x7e"
  "bit_by_bit_fast (fast_crc 16 0x1021 True 0x0 True 0x0 0)
     ''123456789'' = 0x2189"
  "bit_by_bit_fast (fast_crc 16 0x1021 True 0xffff True 0xffff 0)
     ''123456789'' = 0x906e"
  "bit_by_bit_fast (fast_crc 16 0x1021 False 0x0 False 0x0 0)
     ''123456789'' = 0x31c3"
  "bit_by_bit_fast (fast_crc 24 0x864cfb False 0xb704ce False 0x0 0)
     ''123456789'' = 0x21cf02"
  by (simp_all add: checksum_eval)

lemma fast_values_3:
  "bit_by_bit_fast (fast_crc 32 0x4c11db7 True 0xffffffff True 0xffffffff 0)
     ''123456789'' = 0xcbf43926"
  "bit_by_bit_fast (fast_crc 32 0x1edc6f41 True 0xffffffff True 0xffffffff 0)
     ''123456789'' = 0xe3069283"
  "bit_by_bit_fast (fast_crc 32 0x4c11db7 False 0xffffffff False 0x0 0)
     ''123456789'' = 0x376e6e7"
  "bit_by_bit_fast (fast_crc 32 0x4c11db7 False 0x0 False 0xffffffff 0)
     ''123456789'' = 0x765e7680"
  by (simp_all add: checksum_eval)

lemma fast_values_4:
  "bit_by_bit_fast (fast_crc 32 0x4c11db7 True 0xffffffff True 0x0 0)
     ''123456789'' = 0x340bc6d9"
  "bit_by_bit_fast (fast_crc 32 0xaf False 0x0 False 0x0 0)
     ''123456789'' = 0xbd0be338"
  "bit_by_bit_fast (fast_crc 64 0x1b True 0x0 True 0x0 0)
     ''123456789'' = 0x46a5a9388a5beffe"
  "bit_by_bit_fast (fast_crc 64 0xad93d23594c935a9 True 0xffffffffffffffff True 0x0 0)
     ''123456789'' = 0xcaa717168609f281"
  by (simp_all add: checksum_eval)

lemmas fast_values = fast_values_1 fast_values_2 fast_values_3 fast_values_4

lemma stored_checks:
  "list_all (\<lambda>m. model_checksum m = Inr (m_check m)) (butlast models)"
  by (simp add: models_eval model_checksum_eval fast_values)

lemma model_check_values:
  assumes "m \<in> set (butlast models)"
  shows "\<exists>c. model_crc m = Inr c \<and> bit_by_bit c ''123456789'' = m_check m \<and>
    bit_by_bit_fast c ''123456789'' = m_check m \<and>
    table_driven c ''123456789'' = Inr (m_check m)"
proof -
  have m: "m \<in> set models" and chk: "model_checksum m = Inr (m_check m)"
    using assms stored_checks by (auto simp: list_all_iff dest: in_set_butlastD)
  obtain c where c: "model_crc m = Inr c" "wf_table c" "odd (Poly c)"
    using model_crc_wf [OF m] by blast
  with chk show ?thesis
    by (auto simp: model_checksum_def bit_by_bit_register bit_by_bit_fast_register
        table_driven_register wf_table_def)
qed

text \<open>C38: for every model but the last, \<open>crc-64-jones\<close>, the stored check value is the checksum of
  \<open>123456789\<close> under each of the three algorithms.\<close>

theorem models_checksums:
  assumes "m \<in> set (butlast models)"
  shows "\<exists>c. model_crc m = Inr c \<and> bit_by_bit c ''123456789'' = m_check m \<and>
    bit_by_bit_fast c ''123456789'' = m_check m \<and>
    table_driven c ''123456789'' = Inr (m_check m)"
  using assms by (rule model_check_values)

theorem models_checksums_witness:
  "\<exists>c. model_crc (hd models) = Inr c \<and> table_driven c ''123456789'' = Inr 0x19"
proof -
  have m: "hd models \<in> set (butlast models)" and k: "m_check (hd models) = 0x19"
    by (simp_all add: models_eval)
  show ?thesis using models_checksums [OF m] k by auto
qed

text \<open>The check value stored for \<open>crc-64-jones\<close> is not the checksum of \<open>123456789\<close>, which is
  \<open>0xcaa717168609f281\<close>, the value the test script compares against.\<close>

lemma jones_check_stale:
  "m_name (last models) = ''crc-64-jones'' \<and>
   model_checksum (last models) = Inr 0xcaa717168609f281 \<and>
   m_check (last models) \<noteq> 0xcaa717168609f281"
  by (simp add: models_eval model_checksum_eval fast_values)

end
