(* ===== verification/Options.thy ===== *)
theory Options
  imports PyString CrcModels
begin

text \<open>
  The class \<open>Options\<close> of \<open>python/pycrc/crc_opt.py\<close>: its attributes, the converters \<open>check_hex\<close>
  and \<open>check_bool\<close>, the callback \<open>model_cb\<close> and the validation that \<open>parse\<close> does on the values
  \<open>optparse\<close> delivers.  What \<open>parse\<close> writes to standard error is threaded through its steps as
  a string; \<open>sys.exit\<close> is \<open>SystemExit\<close> with all that text.
\<close>

unbundle bit_operations_syntax

section \<open>State\<close>

abbreviation (input) Algo_None :: int where "Algo_None \<equiv> 0x00"
abbreviation (input) Algo_Bit_by_Bit :: int where "Algo_Bit_by_Bit \<equiv> 0x01"
abbreviation (input) Algo_Bit_by_Bit_Fast :: int where "Algo_Bit_by_Bit_Fast \<equiv> 0x02"
abbreviation (input) Algo_Table_Driven :: int where "Algo_Table_Driven \<equiv> 0x04"

datatype action =
    Check_String
  | Check_Hex_String
  | Check_File
  | Generate_H
  | Generate_C
  | Generate_C_Main
  | Generate_Table

text \<open>The attributes of an \<open>Options\<close> object; \<open>None\<close> is Python's \<open>None\<close>.\<close>

record options =
  o_Width :: "int option"
  o_Poly :: "int option"
  o_ReflectIn :: "bool option"
  o_XorIn :: "int option"
  o_ReflectOut :: "bool option"
  o_XorOut :: "int option"
  o_TableIdxWidth :: int
  o_TableWidth :: int
  o_Verbose :: bool
  o_CheckString :: string
  o_MSB_Mask :: "int option"
  o_Mask :: "int option"
  o_Algorithm :: int
  o_SymbolPrefix :: string
  o_CrcType :: "string option"
  o_IncludeFile :: "string option"
  o_OutputFile :: "string option"
  o_Action :: action
  o_CheckFile :: "string option"
  o_CStd :: "string option"
  o_UndefinedCrcParameters :: bool

definition Options_init :: options where
  "Options_init = \<lparr>o_Width = None, o_Poly = None, o_ReflectIn = None, o_XorIn = None,
     o_ReflectOut = None, o_XorOut = None, o_TableIdxWidth = 8, o_TableWidth = push_bit 8 1,
     o_Verbose = False, o_CheckString = ''123456789'', o_MSB_Mask = None, o_Mask = None,
     o_Algorithm = Algo_None, o_SymbolPrefix = ''crc_'', o_CrcType = None, o_IncludeFile = None,
     o_OutputFile = None, o_Action = Check_String, o_CheckFile = None, o_CStd = None,
     o_UndefinedCrcParameters = False\<rparr>"

text \<open>The values that \<open>optparse\<close> stores under the \<open>dest\<close> names of the options.\<close>

record opt_values =
  v_verbose :: bool
  v_check_string :: "string option"
  v_check_hexstring :: "string option"
  v_check_file :: "string option"
  v_generate :: "string option"
  v_c_std :: "string option"
  v_algorithm :: "string option"
  v_width :: "int option"
  v_poly :: "int option"
  v_reflect_in :: "bool option"
  v_xor_in :: "int option"
  v_reflect_out :: "bool option"
  v_xor_out :: "int option"
  v_table_idx_width :: "int option"
  v_symbol_prefix :: "string option"
  v_crc_type :: "string option"
  v_include_file :: "string option"
  v_output_file :: "string option"

definition default_values :: opt_values where
  "default_values = \<lparr>v_verbose = False, v_check_string = None, v_check_hexstring = None,
     v_check_file = None, v_generate = None, v_c_std = Some ''C99'', v_algorithm = Some ''all'',
     v_width = None, v_poly = None, v_reflect_in = None, v_xor_in = None, v_reflect_out = None,
     v_xor_out = None, v_table_idx_width = None, v_symbol_prefix = None, v_crc_type = None,
     v_include_file = None, v_output_file = None\<rparr>"

section \<open>Converters and callback\<close>

text \<open>The messages print the offending value with \<open>%r\<close>; the model leaves it as it is.\<close>

definition check_hex :: "string \<Rightarrow> string \<Rightarrow> int res" where
  "check_hex opt val =
     (let r = (if startswith (py_lower val) ''0x'' then py_int 16 val else py_int 10 val)
      in case r of
           Inl ValueError \<Rightarrow> Inl (OptionValueError
             (''option '' @ opt @ '': invalid integer or hexadecimal value: '' @ val))
         | _ \<Rightarrow> r)"

definition check_bool :: "string \<Rightarrow> string \<Rightarrow> bool res" where
  "check_bool opt val =
     (if py_isdigit val then bind_res (py_int 10 val) (\<lambda>i. Inr (i \<noteq> 0))
      else if py_lower val = ''false'' then Inr False
      else if py_lower val = ''true'' then Inr True
      else Inl (OptionValueError (''option '' @ opt @ '': invalid boolean value: '' @ val)))"

definition model_cb :: "string \<Rightarrow> opt_values \<Rightarrow> opt_values res" where
  "model_cb val v =
     (let model_name = py_lower val
      in case getParams model_name of
           Some m \<Rightarrow> Inr (v\<lparr>v_width := Some (m_width m), v_poly := Some (m_poly m),
             v_reflect_in := Some (m_reflect_in m), v_xor_in := Some (m_xor_in m),
             v_reflect_out := Some (m_reflect_out m), v_xor_out := Some (m_xor_out m)\<rparr>)
         | None \<Rightarrow> Inl (OptionValueError (''Error: unsupported model '' @ val)))"

section \<open>Validation\<close>

text \<open>
  The steps of \<open>parse\<close> after \<open>parser.parse_args\<close>, in its order.  A step maps the text on
  standard error and the object to the same after the step, or ends the program.
\<close>

type_synonym parse_state = "string \<times> options"

definition say :: "string \<Rightarrow> string \<Rightarrow> string" where
  "say argv0 msg = argv0 @ '': '' @ msg @ [CHR 0x0A]"

definition exit_error :: "string \<Rightarrow> string \<Rightarrow> string \<Rightarrow> 'a res" where
  "exit_error argv0 err msg = Inl (SystemExit 1 (err @ say argv0 (''error: '' @ msg)))"

definition orelse :: "'a option \<Rightarrow> 'a option \<Rightarrow> 'a option" where
  "orelse a b = (if a \<noteq> None then a else b)"

definition undefined_params :: "opt_values \<Rightarrow> string list" where
  "undefined_params v =
     (if v_width v \<noteq> None then [] else [''--width'']) @
     (if v_poly v \<noteq> None then [] else [''--poly'']) @
     (if v_reflect_in v \<noteq> None then [] else [''--reflect-in'']) @
     (if v_xor_in v \<noteq> None then [] else [''--xor-in'']) @
     (if v_reflect_out v \<noteq> None then [] else [''--reflect-out'']) @
     (if v_xor_out v \<noteq> None then [] else [''--xor-out''])"

definition set_params :: "opt_values \<Rightarrow> options \<Rightarrow> options" where
  "set_params v op = op\<lparr>o_Width := orelse (v_width v) (o_Width op),
     o_Poly := orelse (v_poly v) (o_Poly op),
     o_ReflectIn := orelse (v_reflect_in v) (o_ReflectIn op),
     o_XorIn := orelse (v_xor_in v) (o_XorIn op),
     o_ReflectOut := orelse (v_reflect_out v) (o_ReflectOut op),
     o_XorOut := orelse (v_xor_out v) (o_XorOut op)\<rparr>"

definition set_table_idx_width :: "string \<Rightarrow> opt_values \<Rightarrow> parse_state \<Rightarrow> parse_state res" where
  "set_table_idx_width argv0 v st = (case st of (err, op) \<Rightarrow>
     (case v_table_idx_width v of
        None \<Rightarrow> Inr (err, op)
      | Some t \<Rightarrow>
          if t = 1 \<or> t = 2 \<or> t = 4 \<or> t = 8
          then Inr (err, op\<lparr>o_TableIdxWidth := t, o_TableWidth := push_bit (nat t) 1\<rparr>)
          else exit_error argv0 err (''unsupported table-idx-width '' @ py_dec t)))"

definition warn_even :: "string \<Rightarrow> parse_state \<Rightarrow> parse_state" where
  "warn_even argv0 st = (case st of (err, op) \<Rightarrow>
     (case o_Poly op of
        None \<Rightarrow> (err, op)
      | Some p \<Rightarrow>
          if p mod 2 = 0
          then (err @ say argv0 (''warning: the polynomial 0x'' @ py_hex p @
                  '' is even. A valid CRC polynomial must be odd.''), op)
          else (err, op)))"

definition set_masks :: "string \<Rightarrow> parse_state \<Rightarrow> parse_state res" where
  "set_masks argv0 st = (case st of (err, op) \<Rightarrow>
     (case o_Width op of
        None \<Rightarrow> Inr (err, op\<lparr>o_MSB_Mask := None, o_Mask := None\<rparr>)
      | Some w \<Rightarrow>
          if w \<le> 0 then exit_error argv0 err ''Width must be strictly positive''
          else
            let msb = push_bit (nat (w - 1)) 1;
                msk = push_bit 1 (msb - 1) OR 1
            in Inr (err, op\<lparr>o_MSB_Mask := Some msb, o_Mask := Some msk,
                 o_Poly := map_option (\<lambda>p. p AND msk) (o_Poly op),
                 o_XorIn := map_option (\<lambda>x. x AND msk) (o_XorIn op),
                 o_XorOut := map_option (\<lambda>x. x AND msk) (o_XorOut op)\<rparr>)))"

definition set_undefined :: "options \<Rightarrow> options" where
  "set_undefined op = op\<lparr>o_UndefinedCrcParameters :=
     (o_Width op = None \<or> o_Poly op = None \<or> o_ReflectIn op = None \<or> o_XorIn op = None \<or>
      o_ReflectOut op = None \<or> o_XorOut op = None)\<rparr>"

definition set_algorithm :: "string \<Rightarrow> opt_values \<Rightarrow> parse_state \<Rightarrow> parse_state res" where
  "set_algorithm argv0 v st = (case st of (err, op) \<Rightarrow>
     (case v_algorithm v of
        None \<Rightarrow> Inr (err, op)
      | Some a \<Rightarrow>
          let alg = py_lower a;
              a0 = o_Algorithm op;
              a1 = (if alg = ''bit-by-bit'' \<or> alg = ''all'' then a0 OR Algo_Bit_by_Bit else a0);
              a2 = (if alg = ''bit-by-bit-fast'' \<or> alg = ''all''
                    then a1 OR Algo_Bit_by_Bit_Fast else a1);
              a3 = (if alg = ''table-driven'' \<or> alg = ''all'' then a2 OR Algo_Table_Driven else a2)
          in if a3 = 0 then exit_error argv0 err (''unknown algorithm '' @ a)
             else Inr (err, op\<lparr>o_Algorithm := a3\<rparr>)))"

definition set_c_std :: "string \<Rightarrow> opt_values \<Rightarrow> parse_state \<Rightarrow> parse_state res" where
  "set_c_std argv0 v st = (case st of (err, op) \<Rightarrow>
     (case v_c_std v of
        None \<Rightarrow> Inr (err, op)
      | Some c \<Rightarrow>
          let std = py_upper c
          in if std = ''ANSI'' \<or> std = ''C89'' then Inr (err, op\<lparr>o_CStd := Some ''C89''\<rparr>)
             else if std = ''C99'' then Inr (err, op\<lparr>o_CStd := Some std\<rparr>)
             else exit_error argv0 err (''unknown C standard '' @ c)))"

definition set_names :: "opt_values \<Rightarrow> options \<Rightarrow> options" where
  "set_names v op = op\<lparr>
     o_SymbolPrefix := (case v_symbol_prefix v of None \<Rightarrow> o_SymbolPrefix op | Some p \<Rightarrow> p),
     o_IncludeFile := orelse (v_include_file v) (o_IncludeFile op),
     o_CrcType := orelse (v_crc_type v) (o_CrcType op),
     o_OutputFile := orelse (v_output_file v) (o_OutputFile op)\<rparr>"

text \<open>The actions that read a string or a file, with their count.\<close>

definition set_check_actions :: "opt_values \<Rightarrow> options \<Rightarrow> nat \<times> options" where
  "set_check_actions v o0 =
     (let (n1, o1) = (case v_check_string v of None \<Rightarrow> (0, o0)
            | Some s \<Rightarrow> (1, o0\<lparr>o_Action := Check_String, o_CheckString := s\<rparr>));
          (n2, o2) = (case v_check_hexstring v of None \<Rightarrow> (n1, o1)
            | Some s \<Rightarrow> (n1 + 1, o1\<lparr>o_Action := Check_Hex_String, o_CheckString := s\<rparr>))
      in case v_check_file v of None \<Rightarrow> (n2, o2)
           | Some f \<Rightarrow> (n2 + 1, o2\<lparr>o_Action := Check_File, o_CheckFile := Some f\<rparr>))"

definition generate_action :: "string \<Rightarrow> action option" where
  "generate_action arg =
     (if arg = ''h'' then Some Generate_H
      else if arg = ''c'' then Some Generate_C
      else if arg = ''c-main'' then Some Generate_C_Main
      else if arg = ''table'' then Some Generate_Table
      else None)"

definition set_generate ::
  "string \<Rightarrow> opt_values \<Rightarrow> nat \<times> parse_state \<Rightarrow> (nat \<times> parse_state) res" where
  "set_generate argv0 v st = (case st of (op_count, err, op) \<Rightarrow>
     (case v_generate v of
        Some g \<Rightarrow>
          (case generate_action (py_lower g) of
             None \<Rightarrow> exit_error argv0 err (''don't know how to generate '' @ g)
           | Some act \<Rightarrow>
               if act = Generate_Table then
                 if o_Algorithm op AND Algo_Table_Driven = 0
                 then exit_error argv0 err
                   ''the --generate table option is incompatible with the --algorithm option''
                 else Inr (op_count + 1, err, op\<lparr>o_Action := act, o_Algorithm := Algo_Table_Driven\<rparr>)
               else if o_Algorithm op \<noteq> Algo_Bit_by_Bit \<and> o_Algorithm op \<noteq> Algo_Bit_by_Bit_Fast \<and>
                       o_Algorithm op \<noteq> Algo_Table_Driven
               then exit_error argv0 err ''select an algorithm to be used in the generated file''
               else Inr (op_count + 1, err, op\<lparr>o_Action := act\<rparr>))
      | None \<Rightarrow>
          if o_TableIdxWidth op \<noteq> 8
          then (case v_table_idx_width v of
                  None \<Rightarrow> Inl TypeError
                | Some t \<Rightarrow> Inr (op_count,
                    err @ say argv0 (''warning: reverting to Table Index Width = 8 for '' @
                      ''internal CRC calculation''),
                    op\<lparr>o_TableIdxWidth := 8, o_TableWidth := push_bit (nat t) 1\<rparr>))
          else Inr (op_count, err, op)))"

definition needs_params :: "action \<Rightarrow> bool" where
  "needs_params a \<longleftrightarrow> a \<in> {Check_String, Check_Hex_String, Check_File, Generate_Table}"

definition final_checks ::
  "string \<Rightarrow> opt_values \<Rightarrow> string list \<Rightarrow> nat \<times> parse_state \<Rightarrow> parse_state res" where
  "final_checks argv0 v args st = (case st of (op_count, err, o0) \<Rightarrow>
     (let op = (if op_count = 0 then o0\<lparr>o_Action := Check_String\<rparr> else o0)
      in if 1 < op_count then exit_error argv0 err ''too many actions scecified''
         else if length args \<noteq> 0
         then exit_error argv0 err (''unrecognized argument(s): '' @ py_join '' '' args)
         else if o_UndefinedCrcParameters op \<and> needs_params (o_Action op)
         then exit_error argv0 err (''undefined parameters: Add '' @
                py_join '', '' (undefined_params v) @ '' or use --model'')
         else Inr (err, op\<lparr>o_Verbose := v_verbose v\<rparr>)))"

definition validate ::
  "string \<Rightarrow> opt_values \<Rightarrow> string list \<Rightarrow> options \<Rightarrow> parse_state res" where
  "validate argv0 v args op =
     bind_res (set_table_idx_width argv0 v ([], set_params v op)) (\<lambda>st1.
     bind_res (set_masks argv0 (warn_even argv0 st1)) (\<lambda>(err2, o2).
     bind_res (set_algorithm argv0 v (err2, set_undefined o2)) (\<lambda>st3.
     bind_res (set_c_std argv0 v st3) (\<lambda>(err4, o4).
     let (op_count, o5) = set_check_actions v (set_names v o4)
     in bind_res (set_generate argv0 v (op_count, err4, o5)) (final_checks argv0 v args)))))"

section \<open>What the validation accepts\<close>

text \<open>The conditions on the command line, without the code's order of tests and state.\<close>

definition tiw_ok :: "opt_values \<Rightarrow> bool" where
  "tiw_ok v \<longleftrightarrow> v_table_idx_width v \<in> {None, Some 1, Some 2, Some 4, Some 8}"

definition width_ok :: "opt_values \<Rightarrow> bool" where
  "width_ok v \<longleftrightarrow> (case v_width v of None \<Rightarrow> True | Some w \<Rightarrow> 0 < w)"

definition algo_mask :: "string \<Rightarrow> int" where
  "algo_mask a =
     (if py_lower a = ''bit-by-bit'' then 1 else if py_lower a = ''bit-by-bit-fast'' then 2
      else if py_lower a = ''table-driven'' then 4 else if py_lower a = ''all'' then 7 else 0)"

definition std_name :: "string \<Rightarrow> string option" where
  "std_name c =
     (if py_upper c = ''ANSI'' \<or> py_upper c = ''C89'' then Some ''C89''
      else if py_upper c = ''C99'' then Some ''C99'' else None)"

definition params_given :: "opt_values \<Rightarrow> bool" where
  "params_given v \<longleftrightarrow> v_width v \<noteq> None \<and> v_poly v \<noteq> None \<and> v_reflect_in v \<noteq> None \<and>
     v_xor_in v \<noteq> None \<and> v_reflect_out v \<noteq> None \<and> v_xor_out v \<noteq> None"

definition action_count :: "opt_values \<Rightarrow> nat" where
  "action_count v = of_bool (v_check_string v \<noteq> None) + of_bool (v_check_hexstring v \<noteq> None) +
     of_bool (v_check_file v \<noteq> None) + of_bool (v_generate v \<noteq> None)"

definition chosen_action :: "opt_values \<Rightarrow> action" where
  "chosen_action v =
     (case v_generate v of
        Some g \<Rightarrow> the (generate_action (py_lower g))
      | None \<Rightarrow> if v_check_file v \<noteq> None then Check_File
                else if v_check_hexstring v \<noteq> None then Check_Hex_String else Check_String)"

text \<open>Whether the \<open>--generate\<close> option is one the chosen algorithm can serve.\<close>

definition generate_ok :: "opt_values \<Rightarrow> bool" where
  "generate_ok v \<longleftrightarrow>
     (case v_generate v of
        None \<Rightarrow> True
      | Some g \<Rightarrow>
          (case generate_action (py_lower g) of
             None \<Rightarrow> False
           | Some act \<Rightarrow>
               (case v_algorithm v of
                  None \<Rightarrow> False
                | Some a \<Rightarrow> if act = Generate_Table then algo_mask a \<in> {4, 7}
                            else algo_mask a \<in> {1, 2, 4})))"

definition acceptable :: "opt_values \<Rightarrow> string list \<Rightarrow> bool" where
  "acceptable v args \<longleftrightarrow>
     tiw_ok v \<and> width_ok v \<and>
     (case v_algorithm v of None \<Rightarrow> True | Some a \<Rightarrow> algo_mask a \<noteq> 0) \<and>
     (case v_c_std v of None \<Rightarrow> True | Some c \<Rightarrow> std_name c \<noteq> None) \<and>
     generate_ok v \<and> action_count v \<le> 1 \<and> args = [] \<and>
     (needs_params (chosen_action v) \<longrightarrow> params_given v)"

text \<open>The object that an accepted command line leaves.\<close>

definition width_masked :: "opt_values \<Rightarrow> int option \<Rightarrow> int option" where
  "width_masked v x =
     (case v_width v of None \<Rightarrow> x | Some w \<Rightarrow> map_option (take_bit (nat w)) x)"

definition accepted_options :: "opt_values \<Rightarrow> options" where
  "accepted_options v = \<lparr>
     o_Width = v_width v,
     o_Poly = width_masked v (v_poly v),
     o_ReflectIn = v_reflect_in v,
     o_XorIn = width_masked v (v_xor_in v),
     o_ReflectOut = v_reflect_out v,
     o_XorOut = width_masked v (v_xor_out v),
     o_TableIdxWidth = (if v_generate v = None then 8
       else case v_table_idx_width v of None \<Rightarrow> 8 | Some t \<Rightarrow> t),
     o_TableWidth = (case v_table_idx_width v of None \<Rightarrow> 256 | Some t \<Rightarrow> 2 ^ nat t),
     o_Verbose = v_verbose v,
     o_CheckString = (case v_check_string v of Some s \<Rightarrow> s
       | None \<Rightarrow> (case v_check_hexstring v of Some s \<Rightarrow> s | None \<Rightarrow> ''123456789'')),
     o_MSB_Mask = map_option (\<lambda>w. 2 ^ (nat w - 1)) (v_width v),
     o_Mask = map_option (\<lambda>w. mask (nat w)) (v_width v),
     o_Algorithm = (if chosen_action v = Generate_Table then 4
       else case v_algorithm v of None \<Rightarrow> 0 | Some a \<Rightarrow> algo_mask a),
     o_SymbolPrefix = (case v_symbol_prefix v of None \<Rightarrow> ''crc_'' | Some p \<Rightarrow> p),
     o_CrcType = v_crc_type v,
     o_IncludeFile = v_include_file v,
     o_OutputFile = v_output_file v,
     o_Action = chosen_action v,
     o_CheckFile = v_check_file v,
     o_CStd = (case v_c_std v of None \<Rightarrow> None | Some c \<Rightarrow> std_name c),
     o_UndefinedCrcParameters = (\<not> params_given v)\<rparr>"

text \<open>The default values of \<open>--algorithm\<close> and \<open>--std\<close>, in the case the code compares.\<close>

lemma py_all_C99: "py_lower ''all'' = ''all''" "py_upper ''C99'' = ''C99''"
  by (simp_all add: py_lower_def py_upper_def char_lower_def char_upper_def)

section \<open>The steps\<close>

definition tiw_update :: "opt_values \<Rightarrow> options \<Rightarrow> options" where
  "tiw_update v op = (case v_table_idx_width v of None \<Rightarrow> op
     | Some t \<Rightarrow> op\<lparr>o_TableIdxWidth := t, o_TableWidth := 2 ^ nat t\<rparr>)"

lemma set_table_idx_width_eq:
  "set_table_idx_width argv0 v (err, op) =
     (if tiw_ok v then Inr (err, tiw_update v op)
      else exit_error argv0 err (''unsupported table-idx-width '' @ py_dec (the (v_table_idx_width v))))"
  by (auto simp: set_table_idx_width_def tiw_ok_def tiw_update_def split: option.splits)

definition even_warning :: "string \<Rightarrow> int option \<Rightarrow> string" where
  "even_warning argv0 p = fst (warn_even argv0 ([], undefined\<lparr>o_Poly := p\<rparr>))"

lemma warn_even_eq: "warn_even argv0 (err, op) = (err @ even_warning argv0 (o_Poly op), op)"
  by (simp add: even_warning_def warn_even_def split: option.splits)

definition mask_update :: "options \<Rightarrow> options" where
  "mask_update op = (case o_Width op of
       None \<Rightarrow> op\<lparr>o_MSB_Mask := None, o_Mask := None\<rparr>
     | Some w \<Rightarrow> op\<lparr>o_MSB_Mask := Some (2 ^ (nat w - 1)), o_Mask := Some (mask (nat w)),
         o_Poly := map_option (take_bit (nat w)) (o_Poly op),
         o_XorIn := map_option (take_bit (nat w)) (o_XorIn op),
         o_XorOut := map_option (take_bit (nat w)) (o_XorOut op)\<rparr>)"

lemma set_masks_eq:
  "set_masks argv0 (err, op) =
     (if \<exists>w. o_Width op = Some w \<and> w \<le> 0
      then exit_error argv0 err ''Width must be strictly positive''
      else Inr (err, mask_update op))"
proof (cases "o_Width op")
  case None
  then show ?thesis by (simp add: set_masks_def mask_update_def)
next
  case (Some w)
  show ?thesis
  proof (cases "w \<le> 0")
    case True
    then show ?thesis using Some by (simp add: set_masks_def)
  next
    case False
    then have w: "0 < nat w" and n: "nat (w - 1) = nat w - 1"
      by (simp_all add: nat_diff_distrib)
    have "(\<lambda>p. p AND mask (nat w)) = (take_bit (nat w) :: int \<Rightarrow> int)"
      by (simp add: fun_eq_iff take_bit_eq_mask)
    then show ?thesis
      using False Some mask_of_msb [OF w]
      by (simp add: set_masks_def mask_update_def Let_def n del: push_bit_of_1)
        (simp add: push_bit_eq_mult)
  qed
qed

lemma set_algorithm_eq:
  assumes "o_Algorithm op = 0"
  shows "set_algorithm argv0 v (err, op) = (case v_algorithm v of
       None \<Rightarrow> Inr (err, op)
     | Some a \<Rightarrow> if algo_mask a = 0 then exit_error argv0 err (''unknown algorithm '' @ a)
         else Inr (err, op\<lparr>o_Algorithm := algo_mask a\<rparr>))"
  using assms by (auto simp: set_algorithm_def algo_mask_def Let_def split: option.splits)

lemma set_c_std_eq:
  "set_c_std argv0 v (err, op) = (case v_c_std v of
       None \<Rightarrow> Inr (err, op)
     | Some c \<Rightarrow> (case std_name c of
           None \<Rightarrow> exit_error argv0 err (''unknown C standard '' @ c)
         | Some n \<Rightarrow> Inr (err, op\<lparr>o_CStd := Some n\<rparr>)))"
  by (auto simp: set_c_std_def std_name_def Let_def split: option.splits)

lemma bind_exit_error [simp]: "bind_res (exit_error argv0 err m) f = exit_error argv0 err m"
  by (simp add: exit_error_def)

lemma exit_error_cases [simp]:
  "exit_error argv0 err m \<noteq> Inr x"
  "\<exists>m'. exit_error argv0 err m = Inl (SystemExit 1 m')"
  by (simp_all add: exit_error_def)

text \<open>The object after the parameters, the algorithm and the C standard have been stored.\<close>

definition params_stage :: "opt_values \<Rightarrow> options" where
  "params_stage v = Options_init\<lparr>
     o_Width := v_width v,
     o_Poly := width_masked v (v_poly v),
     o_ReflectIn := v_reflect_in v,
     o_XorIn := width_masked v (v_xor_in v),
     o_ReflectOut := v_reflect_out v,
     o_XorOut := width_masked v (v_xor_out v),
     o_TableIdxWidth := (case v_table_idx_width v of None \<Rightarrow> 8 | Some t \<Rightarrow> t),
     o_TableWidth := (case v_table_idx_width v of None \<Rightarrow> 256 | Some t \<Rightarrow> 2 ^ nat t),
     o_MSB_Mask := map_option (\<lambda>w. 2 ^ (nat w - 1)) (v_width v),
     o_Mask := map_option (\<lambda>w. mask (nat w)) (v_width v),
     o_Algorithm := (case v_algorithm v of None \<Rightarrow> 0 | Some a \<Rightarrow> algo_mask a),
     o_CStd := (case v_c_std v of None \<Rightarrow> None | Some c \<Rightarrow> std_name c),
     o_UndefinedCrcParameters := (\<not> params_given v)\<rparr>"

lemma orelse_None [simp]: "orelse a None = a"
  by (simp add: orelse_def)

lemma params_stage_masks:
  "set_undefined (mask_update (tiw_update v (set_params v Options_init))) =
     (params_stage v)\<lparr>o_Algorithm := 0, o_CStd := None\<rparr>"
  by (cases "v_width v"; cases "v_table_idx_width v")
    (simp_all add: set_undefined_def mask_update_def tiw_update_def set_params_def
      params_stage_def width_masked_def Options_init_def params_given_def)

lemma width_set_params: "o_Width (tiw_update v (set_params v Options_init)) = v_width v"
  by (simp add: tiw_update_def set_params_def Options_init_def split: option.splits)

definition algo_ok :: "opt_values \<Rightarrow> bool" where
  "algo_ok v \<longleftrightarrow> (case v_algorithm v of None \<Rightarrow> True | Some a \<Rightarrow> algo_mask a \<noteq> 0)"

definition std_ok :: "opt_values \<Rightarrow> bool" where
  "std_ok v \<longleftrightarrow> (case v_c_std v of None \<Rightarrow> True | Some c \<Rightarrow> std_name c \<noteq> None)"

lemma params_stage_algorithm:
  "set_algorithm argv0 v (err, (params_stage v)\<lparr>o_Algorithm := 0, o_CStd := None\<rparr>) =
     (if algo_ok v then Inr (err, (params_stage v)\<lparr>o_CStd := None\<rparr>)
      else exit_error argv0 err (''unknown algorithm '' @ the (v_algorithm v)))"
  by (cases "v_algorithm v") (simp_all add: set_algorithm_eq algo_ok_def params_stage_def)

lemma params_stage_std:
  "set_c_std argv0 v (err, (params_stage v)\<lparr>o_CStd := None\<rparr>) =
     (if std_ok v then Inr (err, params_stage v)
      else exit_error argv0 err (''unknown C standard '' @ the (v_c_std v)))"
  by (cases "v_c_std v"; cases "std_name (the (v_c_std v))")
    (simp_all add: set_c_std_eq std_ok_def params_stage_def)

text \<open>The part of the validation after the parameters.\<close>

definition action_part ::
  "string \<Rightarrow> opt_values \<Rightarrow> string list \<Rightarrow> parse_state \<Rightarrow> parse_state res" where
  "action_part argv0 v args st = (case st of (err, op) \<Rightarrow>
     (case set_check_actions v (set_names v op) of (op_count, op') \<Rightarrow>
        bind_res (set_generate argv0 v (op_count, err, op')) (final_checks argv0 v args)))"

definition params_ok :: "opt_values \<Rightarrow> bool" where
  "params_ok v \<longleftrightarrow> tiw_ok v \<and> width_ok v \<and> algo_ok v \<and> std_ok v"

lemma validate_params:
  "if params_ok v
   then \<exists>err. validate argv0 v args Options_init = action_part argv0 v args (err, params_stage v)
   else \<exists>m. validate argv0 v args Options_init = Inl (SystemExit 1 m)"
proof -
  have masks: "set_masks argv0 (err, tiw_update v (set_params v Options_init)) =
      (if width_ok v then Inr (err, mask_update (tiw_update v (set_params v Options_init)))
       else exit_error argv0 err ''Width must be strictly positive'')" for err
    by (auto simp: set_masks_eq width_set_params width_ok_def split: option.splits)
  have "validate argv0 v args Options_init =
    (if \<not> tiw_ok v then exit_error argv0 [] (''unsupported table-idx-width '' @
        py_dec (the (v_table_idx_width v)))
     else let err = even_warning argv0 (o_Poly (tiw_update v (set_params v Options_init)))
     in if \<not> width_ok v then exit_error argv0 err ''Width must be strictly positive''
     else if \<not> algo_ok v
     then exit_error argv0 err (''unknown algorithm '' @ the (v_algorithm v))
     else if \<not> std_ok v
     then exit_error argv0 err (''unknown C standard '' @ the (v_c_std v))
     else action_part argv0 v args (err, params_stage v))"
    by (cases "tiw_ok v"; cases "width_ok v"; cases "algo_ok v"; cases "std_ok v")
      (simp_all add: validate_def set_table_idx_width_eq warn_even_eq masks
        params_stage_masks params_stage_algorithm params_stage_std
        action_part_def Let_def case_prod_unfold)
  then show ?thesis
    by (auto simp: params_ok_def Let_def)
qed


section \<open>The actions\<close>

definition check_action :: "opt_values \<Rightarrow> action" where
  "check_action v = (if v_check_file v \<noteq> None then Check_File
     else if v_check_hexstring v \<noteq> None then Check_Hex_String else Check_String)"

definition check_stage :: "opt_values \<Rightarrow> options" where
  "check_stage v = (params_stage v)\<lparr>
     o_CheckString := (case v_check_hexstring v of Some s \<Rightarrow> s
       | None \<Rightarrow> (case v_check_string v of Some s \<Rightarrow> s | None \<Rightarrow> ''123456789'')),
     o_SymbolPrefix := (case v_symbol_prefix v of None \<Rightarrow> ''crc_'' | Some p \<Rightarrow> p),
     o_CrcType := v_crc_type v,
     o_IncludeFile := v_include_file v,
     o_OutputFile := v_output_file v,
     o_Action := check_action v,
     o_CheckFile := v_check_file v\<rparr>"

definition check_count :: "opt_values \<Rightarrow> nat" where
  "check_count v = of_bool (v_check_string v \<noteq> None) + of_bool (v_check_hexstring v \<noteq> None) +
     of_bool (v_check_file v \<noteq> None)"

lemma check_actions_stage:
  "set_check_actions v (set_names v (params_stage v)) = (check_count v, check_stage v)"
  by (cases "v_check_string v"; cases "v_check_hexstring v"; cases "v_check_file v";
      cases "v_symbol_prefix v")
    (simp_all add: set_check_actions_def set_names_def check_stage_def check_action_def
      check_count_def params_stage_def Options_init_def)

definition generated_stage :: "opt_values \<Rightarrow> options" where
  "generated_stage v =
     (case v_generate v of
        None \<Rightarrow> (check_stage v)\<lparr>o_TableIdxWidth := 8\<rparr>
      | Some g \<Rightarrow> (check_stage v)\<lparr>o_Action := chosen_action v,
          o_Algorithm := (if chosen_action v = Generate_Table then 4
            else o_Algorithm (check_stage v))\<rparr>)"

lemma check_stage_fields:
  "o_Algorithm (check_stage v) = (case v_algorithm v of None \<Rightarrow> 0 | Some a \<Rightarrow> algo_mask a)"
  "o_TableIdxWidth (check_stage v) = (case v_table_idx_width v of None \<Rightarrow> 8 | Some t \<Rightarrow> t)"
  "o_TableWidth (check_stage v) = (case v_table_idx_width v of None \<Rightarrow> 256 | Some t \<Rightarrow> 2 ^ nat t)"
  by (simp_all add: check_stage_def params_stage_def)

lemma algo_mask_cases: "algo_mask a = 0 \<or> algo_mask a = 1 \<or> algo_mask a = 2 \<or> algo_mask a = 4 \<or> algo_mask a = 7"
  by (simp add: algo_mask_def)

lemma set_generate_stage:
  "if generate_ok v
   then \<exists>err'. set_generate argv0 v (n, err, check_stage v) =
     Inr (n + of_bool (v_generate v \<noteq> None), err', generated_stage v)
   else \<exists>m. set_generate argv0 v (n, err, check_stage v) = Inl (SystemExit 1 m)"
proof (cases "v_generate v")
  case None
  then show ?thesis
    by (cases "v_table_idx_width v")
      (auto simp: set_generate_def generate_ok_def generated_stage_def check_stage_fields
        push_bit_eq_mult check_stage_def params_stage_def)
next
  case (Some g)
  show ?thesis
  proof (cases "generate_action (py_lower g)")
    case None
    with Some show ?thesis by (simp add: set_generate_def generate_ok_def)
  next
    case act: (Some act)
    then have chosen: "chosen_action v = act"
      using Some by (simp add: chosen_action_def)
    show ?thesis
      using Some act chosen algo_mask_cases [of "the (v_algorithm v)"]
      by (cases "v_algorithm v"; cases "act = Generate_Table")
        (auto simp: set_generate_def generate_ok_def generated_stage_def check_stage_fields)
  qed
qed

section \<open>The whole validation\<close>

lemma generated_stage_fields:
  "o_Action (generated_stage v) = chosen_action v"
  "o_UndefinedCrcParameters (generated_stage v) \<longleftrightarrow> \<not> params_given v"
  by (cases "v_generate v";
      simp add: generated_stage_def check_stage_def params_stage_def chosen_action_def check_action_def)+

lemma generated_stage_accepted:
  assumes "generate_ok v" and "action_count v \<le> 1"
  shows "(generated_stage v)\<lparr>o_Verbose := v_verbose v\<rparr> = accepted_options v"
proof (cases "v_generate v")
  case None
  then have "chosen_action v = check_action v" and "check_action v \<noteq> Generate_Table"
    by (simp_all add: chosen_action_def check_action_def)
  with None assms(2) show ?thesis
    by (cases "v_check_string v"; cases "v_check_hexstring v")
      (simp_all add: generated_stage_def check_stage_def params_stage_def accepted_options_def
        Options_init_def action_count_def)
next
  case (Some g)
  with assms(2) have "v_check_string v = None" "v_check_hexstring v = None"
    "v_check_file v = None"
    by (auto simp: action_count_def of_bool_def split: if_splits)
  with Some show ?thesis
    by (simp add: generated_stage_def check_stage_def params_stage_def accepted_options_def
        Options_init_def action_count_def)
qed

lemma final_checks_stage:
  "if action_count v \<le> 1 \<and> args = [] \<and> (needs_params (chosen_action v) \<longrightarrow> params_given v)
   then final_checks argv0 v args (action_count v, err, generated_stage v) =
     Inr (err, (generated_stage v)\<lparr>o_Verbose := v_verbose v\<rparr>)
   else \<exists>m. final_checks argv0 v args (action_count v, err, generated_stage v) = Inl (SystemExit 1 m)"
proof -
  have "(if action_count v = 0 then (generated_stage v)\<lparr>o_Action := Check_String\<rparr>
      else generated_stage v) = generated_stage v"
  proof (cases "action_count v = 0")
    case True
    then have "chosen_action v = Check_String"
      by (simp add: action_count_def chosen_action_def)
    then show ?thesis
      using generated_stage_fields(1) [of v] by (cases "generated_stage v") simp
  qed simp
  then show ?thesis
    by (auto simp: final_checks_def Let_def generated_stage_fields)
qed

lemma validate_result:
  "if acceptable v args
   then \<exists>err. validate argv0 v args Options_init = Inr (err, accepted_options v)
   else \<exists>m. validate argv0 v args Options_init = Inl (SystemExit 1 m)"
proof -
  let ?fin = "action_count v \<le> 1 \<and> args = [] \<and> (needs_params (chosen_action v) \<longrightarrow> params_given v)"
  have acc: "acceptable v args \<longleftrightarrow> params_ok v \<and> generate_ok v \<and> ?fin"
    by (auto simp: acceptable_def params_ok_def algo_ok_def std_ok_def)
  have count: "check_count v + of_bool (v_generate v \<noteq> None) = action_count v"
    by (simp add: check_count_def action_count_def)
  have part: "action_part argv0 v args (err, params_stage v) =
      bind_res (set_generate argv0 v (check_count v, err, check_stage v)) (final_checks argv0 v args)"
    for err
    by (simp add: action_part_def check_actions_stage)
  have "if generate_ok v \<and> ?fin
    then \<exists>err'. action_part argv0 v args (err, params_stage v) = Inr (err', accepted_options v)
    else \<exists>m. action_part argv0 v args (err, params_stage v) = Inl (SystemExit 1 m)" for err
  proof (cases "generate_ok v")
    case True
    then obtain err' where
      "set_generate argv0 v (check_count v, err, check_stage v) = Inr (action_count v, err', generated_stage v)"
      using set_generate_stage [of v argv0 "check_count v" err] count by auto
    with True final_checks_stage [of v args argv0 err'] generated_stage_accepted [of v] show ?thesis
      unfolding part by (cases ?fin) (auto split: if_splits)
  next
    case False
    then show ?thesis
      using set_generate_stage [of v argv0 "check_count v" err] unfolding part by auto
  qed
  then show ?thesis
    using validate_params [of v argv0 args] unfolding acc by (cases "params_ok v") (auto split: if_splits)
qed


section \<open>Consequences\<close>

text \<open>What the rest of the program relies on.\<close>

definition fits :: "int \<Rightarrow> int option \<Rightarrow> bool" where
  "fits w x \<longleftrightarrow> (case x of None \<Rightarrow> True | Some k \<Rightarrow> 0 \<le> k \<and> k < 2 ^ nat w)"

definition options_ok :: "options \<Rightarrow> bool" where
  "options_ok op \<longleftrightarrow>
     (case o_Width op of
        None \<Rightarrow> o_MSB_Mask op = None \<and> o_Mask op = None \<and> o_UndefinedCrcParameters op
      | Some w \<Rightarrow> 0 < w \<and> o_MSB_Mask op = Some (2 ^ (nat w - 1)) \<and> o_Mask op = Some (mask (nat w)) \<and>
          fits w (o_Poly op) \<and> fits w (o_XorIn op) \<and> fits w (o_XorOut op)) \<and>
     (\<not> o_UndefinedCrcParameters op \<longrightarrow> o_Width op \<noteq> None \<and> o_Poly op \<noteq> None \<and>
        o_ReflectIn op \<noteq> None \<and> o_XorIn op \<noteq> None \<and> o_ReflectOut op \<noteq> None \<and> o_XorOut op \<noteq> None) \<and>
     (needs_params (o_Action op) \<longrightarrow> \<not> o_UndefinedCrcParameters op) \<and>
     o_TableIdxWidth op \<in> {1, 2, 4, 8} \<and>
     (o_Action op \<in> {Check_String, Check_Hex_String, Check_File} \<longrightarrow> o_TableIdxWidth op = 8) \<and>
     (o_Action op \<in> {Generate_H, Generate_C, Generate_C_Main} \<longrightarrow>
        o_Algorithm op \<in> {Algo_Bit_by_Bit, Algo_Bit_by_Bit_Fast, Algo_Table_Driven} \<and>
        o_TableWidth op = 2 ^ nat (o_TableIdxWidth op)) \<and>
     (o_Action op = Generate_Table \<longrightarrow> o_Algorithm op = Algo_Table_Driven \<and>
        o_TableWidth op = 2 ^ nat (o_TableIdxWidth op)) \<and>
     (o_Action op = Check_File \<longrightarrow> o_CheckFile op \<noteq> None) \<and>
     o_Algorithm op \<in> {0, 1, 2, 4, 7}"

lemma fits_masked:
  "fits w (map_option (take_bit (nat w)) x)"
  by (cases x) (simp_all add: fits_def)

lemma generate_action_not_check:
  "generate_action g = Some act \<Longrightarrow> act \<notin> {Check_String, Check_Hex_String, Check_File}"
  by (auto simp: generate_action_def split: if_splits)

lemma accepted_options_ok:
  assumes "acceptable v args"
  shows "options_ok (accepted_options v)"
proof -
  have tiw: "v_table_idx_width v \<in> {None, Some 1, Some 2, Some 4, Some 8}"
    and gen: "generate_ok v" and width: "width_ok v"
    and req: "needs_params (chosen_action v) \<Longrightarrow> params_given v"
    using assms by (auto simp: acceptable_def tiw_ok_def)
  have algo: "o_Algorithm (accepted_options v) \<in> {0, 1, 2, 4, 7}"
    using algo_mask_cases by (auto simp: accepted_options_def split: option.splits)
  have params: "case o_Width (accepted_options v) of
      None \<Rightarrow> o_MSB_Mask (accepted_options v) = None \<and> o_Mask (accepted_options v) = None \<and>
        o_UndefinedCrcParameters (accepted_options v)
    | Some w \<Rightarrow> 0 < w \<and> o_MSB_Mask (accepted_options v) = Some (2 ^ (nat w - 1)) \<and>
        o_Mask (accepted_options v) = Some (mask (nat w)) \<and> fits w (o_Poly (accepted_options v)) \<and>
        fits w (o_XorIn (accepted_options v)) \<and> fits w (o_XorOut (accepted_options v))"
    using width by (cases "v_width v")
      (simp_all add: accepted_options_def width_masked_def width_ok_def fits_masked params_given_def)
  have act: "chosen_action v \<in> {Check_String, Check_Hex_String, Check_File} \<longleftrightarrow> v_generate v = None"
  proof (cases "v_generate v")
    case (Some g)
    with gen obtain a where "generate_action (py_lower g) = Some a"
      by (auto simp: generate_ok_def split: option.splits)
    with Some generate_action_not_check [OF this] show ?thesis
      by (simp add: chosen_action_def)
  qed (simp add: chosen_action_def)
  have algos: "chosen_action v \<in> {Generate_H, Generate_C, Generate_C_Main} \<Longrightarrow>
      o_Algorithm (accepted_options v) \<in> {1, 2, 4}"
    using gen act by (auto simp: generate_ok_def chosen_action_def accepted_options_def
        split: option.splits if_splits)
  have cfile: "chosen_action v = Check_File \<Longrightarrow> v_check_file v \<noteq> None"
    using act by (auto simp: chosen_action_def split: if_splits)
  have tw: "v_generate v \<noteq> None \<Longrightarrow>
      o_TableWidth (accepted_options v) = 2 ^ nat (o_TableIdxWidth (accepted_options v))"
    and idx: "o_TableIdxWidth (accepted_options v) \<in> {1, 2, 4, 8}"
    and idx8: "v_generate v = None \<Longrightarrow> o_TableIdxWidth (accepted_options v) = 8"
    using tiw by (auto simp: accepted_options_def split: option.splits)
  have fields: "o_Action (accepted_options v) = chosen_action v"
    "o_UndefinedCrcParameters (accepted_options v) \<longleftrightarrow> \<not> params_given v"
    "o_CheckFile (accepted_options v) = v_check_file v"
    "params_given v \<Longrightarrow> o_Width (accepted_options v) \<noteq> None \<and> o_Poly (accepted_options v) \<noteq> None \<and>
        o_ReflectIn (accepted_options v) \<noteq> None \<and> o_XorIn (accepted_options v) \<noteq> None \<and>
        o_ReflectOut (accepted_options v) \<noteq> None \<and> o_XorOut (accepted_options v) \<noteq> None"
    "chosen_action v = Generate_Table \<Longrightarrow> o_Algorithm (accepted_options v) = 4"
    by (auto simp: accepted_options_def params_given_def width_masked_def split: option.splits)
  show ?thesis
    unfolding options_ok_def fields(1-3)
  proof (intro conjI impI)
    show "o_TableIdxWidth (accepted_options v) = 8"
      if "chosen_action v \<in> {Check_String, Check_Hex_String, Check_File}"
      using that act idx8 by blast
    show "o_TableWidth (accepted_options v) = 2 ^ nat (o_TableIdxWidth (accepted_options v))"
      if "chosen_action v = Generate_Table"
      using that act tw by auto
    show "o_TableWidth (accepted_options v) = 2 ^ nat (o_TableIdxWidth (accepted_options v))"
      if "chosen_action v \<in> {Generate_H, Generate_C, Generate_C_Main}"
      using that act tw by auto
    show "\<not> \<not> params_given v" if "needs_params (chosen_action v)"
      using that req by blast
    show "case o_Width (accepted_options v) of
        None \<Rightarrow> o_MSB_Mask (accepted_options v) = None \<and> o_Mask (accepted_options v) = None \<and>
          \<not> params_given v
      | Some w \<Rightarrow> 0 < w \<and> o_MSB_Mask (accepted_options v) = Some (2 ^ (nat w - 1)) \<and>
          o_Mask (accepted_options v) = Some (mask (nat w)) \<and> fits w (o_Poly (accepted_options v)) \<and>
          fits w (o_XorIn (accepted_options v)) \<and> fits w (o_XorOut (accepted_options v))"
      using params unfolding fields(2) .
  qed (use fields(4,5) cfile algos algo idx in blast)+
qed

text \<open>C18: an object that the validation accepts satisfies the contract \<open>options_ok\<close>: a positive
  width with its two masks, polynomial, initial value and final mask within the width, all
  parameters defined where the action computes or generates a table, a supported table index width
  (8 for the internal computation), and one single algorithm where code is generated.\<close>

theorem validate_establishes:
  assumes "validate argv0 v args Options_init = Inr (err, op)"
  shows "options_ok op"
  using assms validate_result [of v args argv0] accepted_options_ok [of v args]
  by (cases "acceptable v args") auto

theorem validate_establishes_witness:
  "options_ok (accepted_options (default_values\<lparr>v_width := Some 16, v_poly := Some 0x11021,
     v_reflect_in := Some False, v_xor_in := Some 0xffff, v_reflect_out := Some False,
     v_xor_out := Some 0\<rparr>))"
proof -
  let ?v = "default_values\<lparr>v_width := Some 16, v_poly := Some 0x11021,
     v_reflect_in := Some False, v_xor_in := Some 0xffff, v_reflect_out := Some False,
     v_xor_out := Some 0\<rparr>"
  note py_all_C99
  then have "acceptable ?v []"
    by (simp add: acceptable_def default_values_def tiw_ok_def width_ok_def algo_mask_def
        std_name_def generate_ok_def action_count_def params_given_def)
  then obtain err where "validate ''pycrc'' ?v [] Options_init = Inr (err, accepted_options ?v)"
    using validate_result [of ?v "[]" "''pycrc''"] by auto
  then show ?thesis by (rule validate_establishes)
qed

text \<open>Without \<open>--generate\<close>, an accepted \<open>--table-idx-width t\<close> leaves the index width at 8 but the
  table width at \<open>2 ^ t\<close>: the two attributes disagree unless \<open>t\<close> is 8.\<close>

lemma table_width_stale:
  assumes "validate argv0 v args Options_init = Inr (err, op)"
    and "v_table_idx_width v = Some t" and "v_generate v = None"
  shows "o_TableIdxWidth op = 8 \<and> o_TableWidth op = 2 ^ nat t \<and> (o_TableWidth op = 256 \<longleftrightarrow> t = 8)"
proof -
  have "acceptable v args" and op: "op = accepted_options v"
    using assms(1) validate_result [of v args argv0] by (auto split: if_splits)
  then have "t \<in> {1, 2, 4, 8}"
    using assms(2) by (auto simp: acceptable_def tiw_ok_def)
  then show ?thesis
    using assms(2,3) by (auto simp: op accepted_options_def)
qed

section \<open>Numbers on the command line\<close>

lemma char_lower_x: "char_lower c = CHR ''x'' \<longleftrightarrow> c = CHR ''x'' \<or> c = CHR ''X''"
proof -
  have nat: "c = d \<longleftrightarrow> of_char c = (of_char d :: nat)" for c d :: char
    by (simp add: of_char_eq_iff)
  show ?thesis
    unfolding nat char_lower_def by auto
qed

lemma char_lower_0: "char_lower c = CHR ''0'' \<longleftrightarrow> c = CHR ''0''"
proof -
  have nat: "c = d \<longleftrightarrow> of_char c = (of_char d :: nat)" for c d :: char
    by (simp add: of_char_eq_iff)
  show ?thesis
    unfolding nat char_lower_def by auto
qed

lemma lower_0x: "startswith (py_lower s) ''0x'' \<longleftrightarrow> is_0x s"
  by (cases s; cases "tl s")
    (auto simp: startswith_def py_lower_def is_0x_def char_lower_x char_lower_0)

text \<open>The converter of the numeric options reads back what the program prints: every integer in
  decimal, every non-negative one in hexadecimal after \<open>0x\<close>, whatever the option.\<close>

lemma check_hex_roundtrip:
  "check_hex opt (py_dec i) = Inr i \<and> check_hex opt (''0x'' @ py_hex (int n)) = Inr (int n)"
proof -
  have "list_all (is_base_digit 10) (nat_str 10 k)" for k
    using nat_str_digits [of 10 k] by simp
  then have "\<not> is_0x (nat_str 10 k)" for k
    using digits_not_0x by blast
  moreover have "\<not> is_0x (''-'' @ s)" for s
    by (simp add: is_0x_def)
  ultimately have "\<not> is_0x (py_dec i)"
    by (simp add: py_dec_def)
  moreover have "is_0x (''0x'' @ s)" for s
    by (simp add: is_0x_def)
  ultimately show ?thesis
    using py_int_dec [of i] py_int_digits(3) [of 16 n]
    by (simp add: check_hex_def lower_0x py_hex_def Let_def)
qed

text \<open>The boolean converter accepts exactly the digit strings, true unless they are zero, and
  \<open>true\<close> and \<open>false\<close> in any case.\<close>

lemma check_bool_accepts:
  "check_bool opt val = Inr b \<longleftrightarrow>
     (if py_isdigit val then b = (digits_val 10 val \<noteq> 0)
      else py_lower val = (if b then ''true'' else ''false''))"
proof (cases "py_isdigit val")
  case True
  then have d: "list_all (is_base_digit 10) val" and ne: "val \<noteq> []"
    by (simp_all add: py_isdigit_def)
  then have "strip val = val"
    using base_digit_plain by (intro strip_plain) (auto simp: list_all_iff)
  moreover obtain c cs where v: "val = c # cs" using ne by (cases val) auto
  moreover have "c \<noteq> CHR ''-''" and "c \<noteq> CHR ''+''"
    using d base_digit_plain by (auto simp: v)
  ultimately have "py_int 10 val = Inr (int (digits_val 10 val))"
    using d ne by (simp add: py_int_def parse_nat_def Let_def)
  with True show ?thesis by (auto simp: check_bool_def)
next
  case False
  then show ?thesis by (auto simp: check_bool_def)
qed

section \<open>Models\<close>

lemma py_lower_idem: "py_lower (py_lower s) = py_lower s"
proof -
  have nat: "c = d \<longleftrightarrow> of_char c = (of_char d :: nat)" for c d :: char
    by (simp add: of_char_eq_iff)
  have "char_lower (char_lower c) = char_lower c" for c
    unfolding nat char_lower_def by auto
  then show ?thesis by (simp add: py_lower_def)
qed

definition set_model :: "crc_model \<Rightarrow> opt_values \<Rightarrow> opt_values" where
  "set_model m v = v\<lparr>v_width := Some (m_width m), v_poly := Some (m_poly m),
     v_reflect_in := Some (m_reflect_in m), v_xor_in := Some (m_xor_in m),
     v_reflect_out := Some (m_reflect_out m), v_xor_out := Some (m_xor_out m)\<rparr>"

text \<open>\<open>--model\<close> with the name of a model, in any case, sets the six parameters to those of the
  model; any other name is rejected.\<close>

lemma model_option:
  "if py_lower nm \<in> set getList
   then \<exists>m. m \<in> set models \<and> m_name m = py_lower nm \<and> model_cb nm v = Inr (set_model m v)
   else model_cb nm v = Inl (OptionValueError (''Error: unsupported model '' @ nm))"
proof (cases "py_lower nm \<in> set getList")
  case True
  then obtain m where "getParams (py_lower nm) = Some m" and "m_name m = py_lower nm"
    using getParams_Some [of "py_lower nm"] by blast
  with True show ?thesis
    using getParams_Some [of "py_lower nm" m] by (auto simp: model_cb_def set_model_def)
next
  case False
  have "getParams (py_lower nm) \<noteq> Some m" for m
    using False getParams_Some [of "py_lower nm" m] py_lower_idem [of nm]
    by (auto simp: getList_def image_iff)
  then have "getParams (py_lower nm) = None"
    by (cases "getParams (py_lower nm)") auto
  with False show ?thesis
    by (simp add: model_cb_def)
qed

end
