(* ===== verification/Lexer.thy ===== *)
theory Lexer
  imports PyString
begin

text \<open>
  The macro language's lexical analyser, class \<open>Lexer\<close> of \<open>python/pycrc/crc_lexer.py\<close>.  A
  \<open>lexer\<close> holds the attributes of the object; each method returns the object it leaves.  The
  regular expressions are written out as functions on the remaining input.
\<close>

section \<open>State\<close>

datatype token =
    tok_unknown
  | tok_EOF
  | tok_gibberish
  | tok_identifier
  | tok_block_open
  | tok_block_close
  | tok_num
  | tok_str
  | tok_par_open
  | tok_par_close
  | tok_op
  | tok_and
  | tok_or

datatype lex_state = state_gibberish | state_expr

record lexer =
  input_str :: string
  lex_text :: string
  next_token :: "token option"
  lex_mode :: lex_state

definition set_str :: "string \<Rightarrow> lexer \<Rightarrow> lexer" where
  "set_str s lx = lx\<lparr>input_str := s, lex_text := [], next_token := None\<rparr>"

definition Lexer_init :: lexer where
  "Lexer_init = \<lparr>input_str = [], lex_text = [], next_token = None, lex_mode = state_gibberish\<rparr>"

section \<open>Regular expressions\<close>

definition is_alpha :: "char \<Rightarrow> bool" where
  "is_alpha c = (let n = of_char c :: nat in 65 \<le> n \<and> n \<le> 90 \<or> 97 \<le> n \<and> n \<le> 122)"

definition is_digit :: "char \<Rightarrow> bool" where
  "is_digit c = (let n = of_char c :: nat in 48 \<le> n \<and> n \<le> 57)"

text \<open>The character class of identifiers and words, \<open>[a-zA-Z0-9_-]\<close>.\<close>

definition is_id_char :: "char \<Rightarrow> bool" where
  "is_id_char c \<longleftrightarrow> is_alpha c \<or> is_digit c \<or> c = CHR ''_'' \<or> c = CHR ''-''"

text \<open>\<open>re_id\<close>: a dollar sign, a letter, and all the identifier characters that follow.\<close>

fun match_id :: "string \<Rightarrow> string option" where
  "match_id (d # c # s) =
     (if d = CHR ''$'' \<and> is_alpha c then Some (d # c # takeWhile is_id_char s) else None)"
| "match_id _ = None"

text \<open>\<open>re_num\<close>.\<close>

definition match_num :: "string \<Rightarrow> string option" where
  "match_num s =
     (if is_0x s \<and> takeWhile (is_base_digit 16) (drop 2 s) \<noteq> []
      then Some (take 2 s @ takeWhile (is_base_digit 16) (drop 2 s))
      else if takeWhile is_digit s \<noteq> [] then Some (takeWhile is_digit s)
      else None)"

text \<open>\<open>re_op\<close>: the first alternative that fits.\<close>

definition match_op :: "string \<Rightarrow> string option" where
  "match_op s = find (startswith s) [''<='', ''<'', ''=='', ''!='', ''>='', ''>'']"

text \<open>\<open>re_str\<close>: the group and the number of characters matched.\<close>

definition quote_len :: "string \<Rightarrow> nat" where
  "quote_len s = (if take 1 s = [CHR 0x22] then 1 else 0)"

definition match_str :: "string \<Rightarrow> (string \<times> nat) option" where
  "match_str s =
     (let q = quote_len s;
          w = takeWhile is_id_char (drop q s)
      in if w = [] then None
         else Some (w, q + length w + quote_len (drop (q + length w) s)))"

text \<open>\<open>str.find\<close>.\<close>

fun str_find :: "string \<Rightarrow> string \<Rightarrow> int" where
  "str_find p [] = (if p = [] then 0 else -1)"
| "str_find p (c # s) =
     (if startswith (c # s) p then 0
      else let r = str_find p s in if r < 0 then -1 else r + 1)"

section \<open>Tokens\<close>

definition take_token :: "token \<Rightarrow> string \<Rightarrow> nat \<Rightarrow> lexer \<Rightarrow> token \<times> lexer" where
  "take_token tok txt n lx = (tok, lx\<lparr>lex_text := txt, input_str := drop n (input_str lx)\<rparr>)"

text \<open>The position of the next special character, or negative.\<close>

definition min_pos :: "int \<Rightarrow> int \<Rightarrow> int" where
  "min_pos pos tmp = (if pos < 0 \<or> (0 \<le> tmp \<and> tmp < pos) then tmp else pos)"

definition special_pos :: "string \<Rightarrow> int" where
  "special_pos s =
     min_pos (min_pos (str_find ''$'' s) (str_find ''{:'' s)) (str_find '':}'' s)"

definition parse_gibberish_token :: "lexer \<Rightarrow> token \<times> lexer" where
  "parse_gibberish_token lx =
     (let s = input_str lx in
      case match_id s of
        Some m \<Rightarrow> take_token tok_identifier (drop 1 m) (length m) lx
      | None \<Rightarrow>
          if 1 < length s \<and> take 2 s = ''{:'' then take_token tok_block_open (take 2 s) 2 lx
          else if 1 < length s \<and> take 2 s = '':}'' then take_token tok_block_close (take 2 s) 2 lx
          else if 1 < length s \<and> take 2 s = ''$$'' then take_token tok_gibberish (take 1 s) 2 lx
          else if 1 < length s \<and> s ! 0 = CHR ''$'' then (tok_unknown, lx\<lparr>lex_text := take 1 s\<rparr>)
          else
            let pos = special_pos s
            in if pos < 0 \<or> length s = 1
               then take_token tok_gibberish s (length s) lx
               else take_token tok_gibberish (take (nat pos) s) (nat pos) lx)"

definition parse_expr_token :: "lexer \<Rightarrow> token \<times> lexer" where
  "parse_expr_token lx0 =
     (let s = dropWhile (\<lambda>c. c = CHR '' '') (input_str lx0);
          lx = lx0\<lparr>input_str := s\<rparr>
      in if length s = 0 then (tok_EOF, lx)
         else case match_id s of
           Some m \<Rightarrow> take_token tok_identifier (drop 1 m) (length m) lx
         | None \<Rightarrow>
         (case match_num s of
           Some m \<Rightarrow> take_token tok_num m (length m) lx
         | None \<Rightarrow>
         (case match_op s of
           Some m \<Rightarrow> take_token tok_op m (length m) lx
         | None \<Rightarrow>
             if take 4 s = ''and '' then take_token tok_and ''and'' 4 lx
             else if take 3 s = ''or '' then take_token tok_or ''or'' 3 lx
             else case match_str s of
               Some (w, n) \<Rightarrow> take_token tok_str w n lx
             | None \<Rightarrow>
                 if s ! 0 = CHR ''('' then take_token tok_par_open (take 1 s) 1 lx
                 else if s ! 0 = CHR '')'' then take_token tok_par_close (take 1 s) 1 lx
                 else (tok_unknown, lx))))"

definition parse_next :: "lexer \<Rightarrow> token \<times> lexer" where
  "parse_next lx =
     (if length (input_str lx) = 0 then (tok_EOF, lx)
      else if lex_mode lx = state_gibberish then parse_gibberish_token lx
      else if lex_mode lx = state_expr then parse_expr_token lx
      else (tok_unknown, lx))"

section \<open>Interface\<close>

definition peek :: "lexer \<Rightarrow> token \<times> lexer" where
  "peek lx =
     (case next_token lx of
        Some t \<Rightarrow> (t, lx)
      | None \<Rightarrow> (case parse_next lx of (t, lx') \<Rightarrow> (t, lx'\<lparr>next_token := Some t\<rparr>)))"

definition advance :: "bool \<Rightarrow> lexer \<Rightarrow> lexer" where
  "advance skip_nl lx =
     (let lx' = lx\<lparr>next_token := None\<rparr>
      in if skip_nl \<and> 1 < length (input_str lx') \<and> input_str lx' ! 0 = CHR 0x0A
         then lx'\<lparr>input_str := drop 1 (input_str lx')\<rparr> else lx')"

definition delete_spaces :: "bool \<Rightarrow> lexer \<Rightarrow> lexer" where
  "delete_spaces skip_unconditional lx =
     (let new_input = dropWhile (\<lambda>c. c = CHR '' '' \<or> c = CHR 0x09) (input_str lx);
          skip = (case match_id new_input of
              None \<Rightarrow> skip_unconditional
            | Some m \<Rightarrow> skip_unconditional \<or> drop 1 m \<in> {''if'', ''elif'', ''else''})
      in if skip then lx\<lparr>next_token := None, input_str := new_input\<rparr> else lx)"

definition prepend :: "string \<Rightarrow> lexer \<Rightarrow> lexer" where
  "prepend in_str lx = lx\<lparr>input_str := in_str @ input_str lx\<rparr>"

definition set_state :: "lex_state \<Rightarrow> lexer \<Rightarrow> lexer" where
  "set_state new_state lx = lx\<lparr>lex_mode := new_state, next_token := None\<rparr>"

end
