(* ===== verification/Parser.thy ===== *)
theory Parser
  imports Lexer
begin

text \<open>
  The macro processor, class \<open>MacroParser\<close> of \<open>python/pycrc/crc_parser.py\<close>.  The symbol table it
  consults is a parameter: a function from its state and a name to the value of
  \<open>getTerminal\<close> (which may be \<open>None\<close>) and its next state, or the exception.  An identifier's value
  is pushed back onto the input, so expansion need not end: every method takes fuel, and \<open>None\<close> is
  a run whose fuel is used up.
\<close>

section \<open>State\<close>

type_synonym 't get_terminal = "'t \<Rightarrow> string \<Rightarrow> (string option \<times> 't) res"

record 't pstate =
  p_lex :: lexer
  p_sym :: 't
  p_out :: string

type_synonym 'a run = "'a res option"

definition ret :: "'a \<Rightarrow> 'a run" where
  "ret x = Some (Inr x)"

definition raise_exn :: "exn \<Rightarrow> 'a run" where
  "raise_exn e = Some (Inl e)"

definition bind_run :: "'a run \<Rightarrow> ('a \<Rightarrow> 'b run) \<Rightarrow> 'b run" where
  "bind_run r f = (case r of None \<Rightarrow> None | Some (Inl e) \<Rightarrow> Some (Inl e) | Some (Inr x) \<Rightarrow> f x)"

lemma bind_run_simps [simp]:
  "bind_run None f = None"
  "bind_run (raise_exn e) f = raise_exn e"
  "bind_run (ret x) f = f x"
  by (simp_all add: bind_run_def raise_exn_def ret_def)

lemma run_inject [simp]:
  "ret x = ret y \<longleftrightarrow> x = y"
  "raise_exn d = raise_exn e \<longleftrightarrow> d = e"
  "ret x \<noteq> raise_exn e" "raise_exn e \<noteq> ret x"
  "ret x \<noteq> None" "None \<noteq> ret x" "raise_exn e \<noteq> None" "None \<noteq> raise_exn e"
  by (simp_all add: ret_def raise_exn_def)

definition parse_error :: "string \<Rightarrow> string \<Rightarrow> string \<Rightarrow> 'a run" where
  "parse_error argv0 msg text = raise_exn (ParseError (argv0 @ '': error: '' @ msg @ [CHR 0x27] @ text @ [CHR 0x27]))"

text \<open>\<open>self.lex.peek()\<close> and \<open>self.lex.advance()\<close>.\<close>

definition p_peek :: "'t pstate \<Rightarrow> token \<times> 't pstate" where
  "p_peek st = (case peek (p_lex st) of (tok, lx) \<Rightarrow> (tok, st\<lparr>p_lex := lx\<rparr>))"

definition on_lex :: "(lexer \<Rightarrow> lexer) \<Rightarrow> 't pstate \<Rightarrow> 't pstate" where
  "on_lex f st = st\<lparr>p_lex := f (p_lex st)\<rparr>"

definition p_text :: "'t pstate \<Rightarrow> string" where
  "p_text st = lex_text (p_lex st)"

section \<open>Comparisons\<close>

text \<open>A term is a string, or the truth value of a parenthesised expression.\<close>

datatype term_value = Term_str string | Term_bool bool

text \<open>\<open>re_is_int\<close> and \<open>re_is_hex\<close>; the \<open>$\<close> of a regular expression also matches before a final
  newline.\<close>

definition chomp :: "string \<Rightarrow> string" where
  "chomp s = (if s \<noteq> [] \<and> last s = CHR 0x0A then butlast s else s)"

definition is_int_str :: "string \<Rightarrow> bool" where
  "is_int_str s =
     (let t = chomp s;
          u = (if take 1 t = ''-'' \<or> take 1 t = ''+'' then drop 1 t else t)
      in u \<noteq> [] \<and> list_all is_digit u)"

definition is_hex_str :: "string \<Rightarrow> bool" where
  "is_hex_str s =
     (let t = chomp s in is_0x t \<and> drop 2 t \<noteq> [] \<and> list_all (is_base_digit 16) (drop 2 t))"

definition get_num :: "term_value \<Rightarrow> int option res" where
  "get_num v =
     (case v of
        Term_bool b \<Rightarrow> Inl TypeError
      | Term_str s \<Rightarrow>
          if is_hex_str s then bind_res (py_int 16 s) (\<lambda>i. Inr (Some i))
          else if is_int_str s then bind_res (py_int 10 s) (\<lambda>i. Inr (Some i))
          else Inr None)"

fun str_less :: "string \<Rightarrow> string \<Rightarrow> bool" where
  "str_less s [] = False"
| "str_less [] (d # t) = True"
| "str_less (c # s) (d # t) =
     ((of_char c :: nat) < of_char d \<or> c = d \<and> str_less s t)"

definition compare_with :: "string \<Rightarrow> bool \<Rightarrow> bool \<Rightarrow> bool option" where
  "compare_with op lt eq =
     (if op = ''<='' then Some (lt \<or> eq)
      else if op = ''<'' then Some lt
      else if op = ''=='' then Some eq
      else if op = ''!='' then Some (\<not> eq)
      else if op = ''>='' then Some (\<not> lt)
      else if op = ''>'' then Some (\<not> lt \<and> \<not> eq)
      else None)"

text \<open>The comparison of two terms whose numbers have been looked for; both are strings here.\<close>

definition compare_terms :: "string \<Rightarrow> term_value \<Rightarrow> term_value \<Rightarrow> bool option res" where
  "compare_terms op lhs rhs =
     bind_res (get_num lhs) (\<lambda>num_l.
     bind_res (get_num rhs) (\<lambda>num_r.
       case (num_l, num_r) of
         (Some l, Some r) \<Rightarrow> Inr (compare_with op (l < r) (l = r))
       | _ \<Rightarrow> (case (lhs, rhs) of
             (Term_str l, Term_str r) \<Rightarrow> Inr (compare_with op (str_less l r) (l = r))
           | _ \<Rightarrow> Inl TypeError)))"

section \<open>Methods without recursion\<close>

definition parse_gibberish :: "bool \<Rightarrow> 't pstate \<Rightarrow> 't pstate" where
  "parse_gibberish do_print st =
     on_lex (advance False) (if do_print then st\<lparr>p_out := p_out st @ p_text st\<rparr> else st)"

definition lookup_terminal ::
  "'t get_terminal \<Rightarrow> string \<Rightarrow> 't pstate \<Rightarrow> (string option \<times> 't pstate) run" where
  "lookup_terminal gt argv0 st =
     (case gt (p_sym st) (p_text st) of
        Inl LookupError \<Rightarrow> parse_error argv0 ''unknown terminal '' (p_text st)
      | Inl e \<Rightarrow> raise_exn e
      | Inr (v, t) \<Rightarrow> ret (v, st\<lparr>p_sym := t\<rparr>))"

definition parse_identifier ::
  "'t get_terminal \<Rightarrow> string \<Rightarrow> bool \<Rightarrow> 't pstate \<Rightarrow> 't pstate run" where
  "parse_identifier gt argv0 do_print st =
     bind_run (lookup_terminal gt argv0 st) (\<lambda>(sym_value, st1).
       let st2 = on_lex (advance False) st1
       in if do_print
          then (case sym_value of
                  None \<Rightarrow> raise_exn TypeError
                | Some v \<Rightarrow> ret (on_lex (prepend v) st2))
          else ret st2)"

section \<open>Expressions\<close>

function (sequential) parse_exp_or ::
    "'t get_terminal \<Rightarrow> string \<Rightarrow> nat \<Rightarrow> bool \<Rightarrow> 't pstate \<Rightarrow> (bool \<times> 't pstate) run"
  and parse_exp_and ::
    "'t get_terminal \<Rightarrow> string \<Rightarrow> nat \<Rightarrow> bool \<Rightarrow> 't pstate \<Rightarrow> (bool \<times> 't pstate) run"
  and parse_exp_comparison ::
    "'t get_terminal \<Rightarrow> string \<Rightarrow> nat \<Rightarrow> 't pstate \<Rightarrow> (bool \<times> 't pstate) run"
  and parse_exp_term ::
    "'t get_terminal \<Rightarrow> string \<Rightarrow> nat \<Rightarrow> 't pstate \<Rightarrow> (term_value \<times> 't pstate) run"
where
  "parse_exp_or gt argv0 0 ret0 st = None"
| "parse_exp_or gt argv0 (Suc n) ret0 st =
     bind_run (parse_exp_and gt argv0 n True st) (\<lambda>(v, st1).
       let ret1 = (v \<or> ret0)
       in case p_peek st1 of (tok, st2) \<Rightarrow>
            if tok = tok_par_close then ret (ret1, st2)
            else if tok = tok_or then parse_exp_or gt argv0 n ret1 (on_lex (advance False) st2)
            else ret (ret1, st2))"

| "parse_exp_and gt argv0 0 ret0 st = None"
| "parse_exp_and gt argv0 (Suc n) ret0 st =
     bind_run (parse_exp_comparison gt argv0 n st) (\<lambda>(v, st1).
       let ret1 = (v \<and> ret0)
       in case p_peek st1 of (tok, st2) \<Rightarrow>
            if tok = tok_par_close then ret (ret1, st2)
            else if tok = tok_and then parse_exp_and gt argv0 n ret1 (on_lex (advance False) st2)
            else ret (ret1, st2))"

| "parse_exp_comparison gt argv0 0 st = None"
| "parse_exp_comparison gt argv0 (Suc n) st =
     bind_run (parse_exp_term gt argv0 n st) (\<lambda>(lhs, st1).
       case p_peek st1 of (tok, st2) \<Rightarrow>
         if tok \<noteq> tok_op then parse_error argv0 ''operator expected: '' (p_text st2)
         else
           let operator = p_text st2
           in bind_run (parse_exp_term gt argv0 n (on_lex (advance False) st2)) (\<lambda>(rhs, st3).
                case compare_terms operator lhs rhs of
                  Inl e \<Rightarrow> raise_exn e
                | Inr None \<Rightarrow> parse_error argv0 ''unknow operator: '' (p_text st3)
                | Inr (Some v) \<Rightarrow> ret (v, st3)))"

| "parse_exp_term gt argv0 0 st = None"
| "parse_exp_term gt argv0 (Suc n) st0 =
     (case p_peek st0 of (tok, st) \<Rightarrow>
        if tok = tok_identifier
        then bind_run (lookup_terminal gt argv0 st) (\<lambda>(v, st1).
               ret (Term_str (case v of None \<Rightarrow> ''Undefined'' | Some s \<Rightarrow> s),
                 on_lex (advance False) st1))
        else if tok = tok_str \<or> tok = tok_num
        then ret (Term_str (p_text st), on_lex (advance False) st)
        else if tok = tok_par_open
        then bind_run (parse_exp_or gt argv0 n False (on_lex (advance False) st)) (\<lambda>(v, st1).
               case p_peek st1 of (tok, st2) \<Rightarrow>
                 if tok \<noteq> tok_par_close
                 then parse_error argv0 ''closed parenthesis expected: '' (p_text st2)
                 else ret (Term_bool v, on_lex (advance False) st2))
        else raise_exn UnboundLocalError)"
  by pat_completeness auto

termination
  by (relation "measure (case_sum
      (case_sum (\<lambda>(_, _, n, _). n) (\<lambda>(_, _, n, _). n))
      (case_sum (\<lambda>(_, _, n, _). n) (\<lambda>(_, _, n, _). n)))") auto

section \<open>Blocks\<close>

function (sequential) parse_data :: "'t get_terminal \<Rightarrow> string \<Rightarrow> nat \<Rightarrow> bool \<Rightarrow> 't pstate \<Rightarrow> 't pstate run"
  and parse_if_block :: "'t get_terminal \<Rightarrow> string \<Rightarrow> nat \<Rightarrow> bool \<Rightarrow> 't pstate \<Rightarrow> 't pstate run"
  and parse_elifs ::
    "'t get_terminal \<Rightarrow> string \<Rightarrow> nat \<Rightarrow> bool \<Rightarrow> 't pstate \<Rightarrow> (bool \<times> token \<times> 't pstate) run"
  and parse_conditional_block ::
    "'t get_terminal \<Rightarrow> string \<Rightarrow> nat \<Rightarrow> bool \<Rightarrow> 't pstate \<Rightarrow> (bool \<times> 't pstate) run"
  and parse_data_block :: "'t get_terminal \<Rightarrow> string \<Rightarrow> nat \<Rightarrow> bool \<Rightarrow> 't pstate \<Rightarrow> 't pstate run"
where
  "parse_data gt argv0 0 do_print st = None"
| "parse_data gt argv0 (Suc n) do_print st0 =
     (case p_peek st0 of (tok, st) \<Rightarrow>
        if tok = tok_EOF then ret st
        else if tok = tok_gibberish
        then parse_data gt argv0 n do_print (parse_gibberish do_print st)
        else if tok = tok_block_open
        then bind_run (parse_data_block gt argv0 n do_print st) (parse_data gt argv0 n do_print)
        else if tok = tok_identifier \<and> p_text st = ''if''
        then bind_run (parse_if_block gt argv0 n do_print st) (parse_data gt argv0 n do_print)
        else if tok = tok_identifier
        then bind_run (parse_identifier gt argv0 do_print st) (parse_data gt argv0 n do_print)
        else if tok = tok_block_close then ret st
        else parse_error argv0 ''wrong token '' (p_text st))"

| "parse_if_block gt argv0 0 do_print st = None"
| "parse_if_block gt argv0 (Suc n) do_print st =
     bind_run (parse_conditional_block gt argv0 n do_print st) (\<lambda>(exp_res, st1).
     bind_run (parse_elifs gt argv0 n (do_print \<and> \<not> exp_res) st1) (\<lambda>(dp, tok, st2).
       if tok = tok_identifier \<and> p_text st2 = ''else''
       then parse_data_block gt argv0 n dp (on_lex (delete_spaces True) (on_lex (advance False) st2))
       else ret st2))"

| "parse_elifs gt argv0 0 do_print st = None"
| "parse_elifs gt argv0 (Suc n) do_print st0 =
     (case p_peek st0 of (tok, st) \<Rightarrow>
        if tok = tok_identifier \<and> p_text st = ''elif''
        then bind_run (parse_conditional_block gt argv0 n do_print st) (\<lambda>(exp_res, st1).
               parse_elifs gt argv0 n (do_print \<and> \<not> exp_res) st1)
        else ret (do_print, tok, st))"

| "parse_conditional_block gt argv0 0 do_print st = None"
| "parse_conditional_block gt argv0 (Suc n) do_print st0 =
     (case p_peek (on_lex (set_state state_expr) (on_lex (advance False) st0)) of (tok, st1) \<Rightarrow>
        if tok \<noteq> tok_par_open then parse_error argv0 ''open parenthesis expected: '' (p_text st1)
        else bind_run (parse_exp_or gt argv0 n False (on_lex (advance False) st1)) (\<lambda>(exp_res, st2).
          case p_peek st2 of (tok, st3) \<Rightarrow>
            if tok \<noteq> tok_par_close
            then parse_error argv0 ''closed parenthesis expected: '' (p_text st3)
            else
              let st4 = on_lex (set_state state_gibberish)
                          (on_lex (delete_spaces True) (on_lex (advance False) st3))
              in bind_run (parse_data_block gt argv0 n (do_print \<and> exp_res) st4) (\<lambda>st5.
                   ret (exp_res, on_lex (delete_spaces False) st5))))"

| "parse_data_block gt argv0 0 do_print st = None"
| "parse_data_block gt argv0 (Suc n) do_print st0 =
     (case p_peek st0 of (tok, st1) \<Rightarrow>
        if tok \<noteq> tok_block_open then parse_error argv0 ''open block expected: '' (p_text st1)
        else bind_run (parse_data gt argv0 n do_print (on_lex (advance True) st1)) (\<lambda>st2.
          case p_peek st2 of (tok, st3) \<Rightarrow>
            if tok \<noteq> tok_block_close
            then parse_error argv0 ''closed block expected: '' (p_text st3)
            else ret (on_lex (advance True) st3)))"
  by pat_completeness auto

termination
  by (relation "measure (case_sum
      (case_sum (\<lambda>(_, _, n, _). n) (\<lambda>(_, _, n, _). n))
      (case_sum (\<lambda>(_, _, n, _). n) (case_sum (\<lambda>(_, _, n, _). n) (\<lambda>(_, _, n, _). n))))") auto

section \<open>The entry point\<close>

text \<open>The first component is the value that \<open>parse\<close> returns: it has no \<open>return\<close> statement.\<close>

definition parse ::
  "'t get_terminal \<Rightarrow> string \<Rightarrow> nat \<Rightarrow> string \<Rightarrow> 't pstate \<Rightarrow> (bool option \<times> 't pstate) run" where
  "parse gt argv0 n in_str st =
     bind_run (parse_data gt argv0 n True (st\<lparr>p_lex := set_str in_str (p_lex st), p_out := []\<rparr>))
       (\<lambda>st1. case p_peek st1 of (tok, st2) \<Rightarrow>
          if tok \<noteq> tok_EOF
          then parse_error argv0 ''misaligned closing block '' (p_text st2)
          else ret (None, st2))"

text \<open>The constructor: a new symbol table, the lexer of the class.\<close>

definition MacroParser_init :: "lexer \<Rightarrow> 't \<Rightarrow> 't pstate" where
  "MacroParser_init lx table = \<lparr>p_lex = lx, p_sym = table, p_out = []\<rparr>"

end
