(* ===== verification/Templates.thy ===== *)
theory Templates
  imports Prelude
begin

text \<open>
  The macro texts that \<open>SymbolTable.__getTerminal\<close> of \<open>python/pycrc/crc_symtable.py\<close> returns for
  the terminals with a constant value, line by line: the parts of the generated C files in the
  macro language of theory \<open>Parser\<close>.
\<close>

text \<open>Lines joined by newlines.\<close>

fun nl_join :: "string list \<Rightarrow> string" where
  "nl_join [] = []"
| "nl_join [l] = l"
| "nl_join (l # m # ls) = l @ CHR 0x0A # nl_join (m # ls)"

definition crc_final_value_text :: string where
  \<open>crc_final_value_text = nl_join [
    ''$if ($crc_algorithm == "table-driven") {:'',
    ''$if ($crc_reflect_in == $crc_reflect_out) {:'',
    ''$if ($crc_do_shift == True) {:(crc >> $cfg_shift):} $else {:crc:} ^ $crc_xor_out:} $else {:'',
    ''$crc_reflect_function($if ($crc_do_shift == True) {:(crc >> $cfg_shift):} $else {:crc:}, $crc_width) ^ $crc_xor_out:}:} $elif ($crc_reflect_out == True) {:'',
    ''$crc_reflect_function(crc, $crc_width) ^ $crc_xor_out:} $else {:'',
    ''crc ^ $crc_xor_out:}'']\<close>

definition h_template_text :: string where
  \<open>h_template_text = nl_join [
    ''$source_header'',
    ''#ifndef $header_protection'',
    ''#define $header_protection'',
    [],
    ''$if ($include_file != Undefined) {:'',
    ''#include $include_file'',
    '':}'',
    ''#include <stdint.h>'',
    ''#include <stdlib.h>'',
    ''$if ($undefined_parameters == True and $c_std != C89) {:'',
    ''#include <stdbool.h>'',
    '':}'',
    [],
    ''#ifdef __cplusplus'',
    ''extern "C" {'',
    ''#endif'',
    [],
    [],
    ''/**'',
    '' * The definition of the used algorithm.'',
    '' *****************************************************************************/'',
    ''$if ($crc_algorithm == "bit-by-bit") {:'',
    ''#define CRC_ALGO_BIT_BY_BIT 1'',
    '':} $elif ($crc_algorithm == "bit-by-bit-fast") {:'',
    ''#define CRC_ALGO_BIT_BY_BIT_FAST 1'',
    '':} $elif ($crc_algorithm == "table-driven") {:'',
    ''#define CRC_ALGO_TABLE_DRIVEN 1'',
    '':}'',
    [],
    [],
    ''/**'',
    '' * The type of the CRC values.'',
    '' *'',
    '' * This type must be big enough to contain at least $cfg_width bits.'',
    '' *****************************************************************************/'',
    ''typedef $underlying_crc_t $crc_t;'',
    [],
    [],
    ''$if ($undefined_parameters == True) {:'',
    ''/**'',
    '' * The configuration type of the CRC algorithm.'',
    '' *****************************************************************************/'',
    ''typedef struct {'',
    ''$if ($crc_width == Undefined) {:'',
    ''    unsigned int width;     /*!< The width of the polynomial */'',
    '':}'',
    ''$if ($crc_poly == Undefined) {:'',
    ''    $crc_t poly;             /*!< The CRC polynomial */'',
    '':}'',
    ''$if ($crc_reflect_in == Undefined) {:'',
    ''    $c_bool reflect_in;         /*!< Whether the input shall be reflected or not */'',
    '':}'',
    ''$if ($crc_xor_in == Undefined) {:'',
    ''    $crc_t xor_in;           /*!< The initial value of the algorithm */'',
    '':}'',
    ''$if ($crc_reflect_out == Undefined) {:'',
    ''    $c_bool reflect_out;        /*!< Wether the output shall be reflected or not */'',
    '':}'',
    ''$if ($crc_xor_out == Undefined) {:'',
    ''    $crc_t xor_out;          /*!< The value which shall be XOR-ed to the final CRC value */'',
    '':}'',
    ''$if ($crc_width == Undefined) {:'',
    [],
    ''    /* internal parameters */'',
    ''    $crc_t msb_mask;             /*!< a bitmask with the Most Significant Bit set to 1'',
    ''                                     initialise as 1UL << (width - 1) */'',
    ''    $crc_t crc_mask;             /*!< a bitmask with all width bits set to 1'',
    ''                                     initialise as (cfg->msb_mask - 1) | cfg->msb_mask */'',
    ''    unsigned int crc_shift;     /*!< a shift count that is used when width < 8'',
    ''                                     initialise as cfg->width < 8 ? 8 - cfg->width : 0 */'',
    '':}'',
    ''} $cfg_t;'',
    [],
    [],
    '':}'',
    ''$if ($use_reflect_func == True and $static_reflect_func != True) {:'',
    ''$crc_reflect_doc'',
    ''$crc_reflect_function_def;'',
    [],
    [],
    '':}'',
    ''$if ($crc_algorithm == "table-driven" and $constant_crc_table != True) {:'',
    ''$crc_table_gen_doc'',
    ''$crc_table_gen_function_def;'',
    [],
    [],
    '':}'',
    ''$crc_init_doc'',
    ''$if ($constant_crc_init == False) {:'',
    ''$crc_init_function_def;'',
    '':} $elif ($c_std == C89) {:'',
    ''#define $crc_init_function()      ($crc_init_value$if ($crc_do_shift == True) {: << $cfg_shift:})'',
    '':} $else {:'',
    ''static inline $crc_init_function_def$nop'',
    ''{'',
    ''    return $crc_init_value$if ($crc_do_shift == True) {: << $cfg_shift:};'',
    ''}'',
    '':}'',
    [],
    [],
    ''$crc_update_doc'',
    ''$crc_update_function_def;'',
    [],
    [],
    ''$crc_finalize_doc'',
    ''$if ($inline_crc_finalize == True) {:'',
    ''$if ($c_std == C89) {:'',
    ''#define $crc_finalize_function(crc)      ($crc_final_value)'',
    '':} $else {:'',
    ''static inline $crc_finalize_function_def$nop'',
    ''{'',
    ''    return $crc_final_value;'',
    ''}'',
    '':}'',
    '':} $else {:'',
    ''$crc_finalize_function_def;'',
    '':}'',
    [],
    [],
    ''#ifdef __cplusplus'',
    ''}           /* closing brace for extern "C" */'',
    ''#endif'',
    [],
    ''#endif      /* $header_protection */'',
    []]\<close>

definition source_header_text :: string where
  \<open>source_header_text = nl_join [
    ''/**'',
    '' * '' @ [CHR 0x5C] @ ''file $filename'',
    '' * Functions and types for CRC checks.'',
    '' *'',
    '' * Generated on $datetime,'',
    '' * by $program_version, $program_url'',
    '' * using the configuration:'',
    '' *    Width        = $crc_width'',
    '' *    Poly         = $crc_poly'',
    '' *    XorIn        = $crc_xor_in'',
    '' *    ReflectIn    = $crc_reflect_in'',
    '' *    XorOut       = $crc_xor_out'',
    '' *    ReflectOut   = $crc_reflect_out'',
    '' *    Algorithm    = $crc_algorithm'',
    '' *****************************************************************************/'']\<close>

definition crc_reflect_doc_text :: string where
  \<open>crc_reflect_doc_text = nl_join [
    ''/**'',
    '' * Reflect all bits of a '' @ [CHR 0x5C] @ ''a data word of '' @ [CHR 0x5C] @ ''a data_len bytes.'',
    '' *'',
    '' * '' @ [CHR 0x5C] @ ''param data         The data word to be reflected.'',
    '' * '' @ [CHR 0x5C] @ ''param data_len     The width of '' @ [CHR 0x5C] @ ''a data expressed in number of bits.'',
    '' * '' @ [CHR 0x5C] @ ''return             The reflected data.'',
    '' *****************************************************************************/'']\<close>

definition crc_reflect_function_def_text :: string where
  \<open>crc_reflect_function_def_text = nl_join [
    ''$crc_t $crc_reflect_function($crc_t data, size_t data_len)'']\<close>

definition crc_reflect_function_body_text :: string where
  \<open>crc_reflect_function_body_text = nl_join [
    ''$if ($crc_reflect_in == Undefined or $crc_reflect_in == True or $crc_reflect_out == Undefined or $crc_reflect_out == True) {:'',
    ''$crc_reflect_doc'',
    ''$crc_reflect_function_def$nop'',
    ''{'',
    ''    unsigned int i;'',
    ''    $crc_t ret;'',
    [],
    ''    ret = data & 0x01;'',
    ''    for (i = 1; i < data_len; i++) {'',
    ''        data >>= 1;'',
    ''        ret = (ret << 1) | (data & 0x01);'',
    ''    }'',
    ''    return ret;'',
    ''}'',
    '':}'']\<close>

definition crc_table_gen_doc_text :: string where
  \<open>crc_table_gen_doc_text = nl_join [
    ''/**'',
    '' * Populate the private static crc table.'',
    '' *'',
    '' * '' @ [CHR 0x5C] @ ''param cfg  A pointer to a initialised $cfg_t structure.'',
    '' * '' @ [CHR 0x5C] @ ''return     void'',
    '' *****************************************************************************/'']\<close>

definition crc_table_gen_function_def_text :: string where
  \<open>crc_table_gen_function_def_text = nl_join [
    ''void $crc_table_gen_function(const $cfg_t *cfg)'']\<close>

definition crc_init_doc_text :: string where
  \<open>crc_init_doc_text = nl_join [
    ''/**'',
    '' * Calculate the initial crc value.'',
    '' *'',
    ''$if ($use_cfg_t == True) {:'',
    '' * '' @ [CHR 0x5C] @ ''param cfg  A pointer to a initialised $cfg_t structure.'',
    '':}'',
    '' * '' @ [CHR 0x5C] @ ''return     The initial crc value.'',
    '' *****************************************************************************/'']\<close>

definition crc_init_function_def_text :: string where
  \<open>crc_init_function_def_text = nl_join [
    ''$if ($constant_crc_init == False) {:'',
    ''$crc_t $crc_init_function(const $cfg_t *cfg):} $else {:'',
    ''$crc_t $crc_init_function(void):}'']\<close>

definition crc_update_doc_text :: string where
  \<open>crc_update_doc_text = nl_join [
    ''/**'',
    '' * Update the crc value with new data.'',
    '' *'',
    '' * '' @ [CHR 0x5C] @ ''param crc      The current crc value.'',
    ''$if ($simple_crc_update_def != True) {:'',
    '' * '' @ [CHR 0x5C] @ ''param cfg      A pointer to a initialised $cfg_t structure.'',
    '':}'',
    '' * '' @ [CHR 0x5C] @ ''param data     Pointer to a buffer of '' @ [CHR 0x5C] @ ''a data_len bytes.'',
    '' * '' @ [CHR 0x5C] @ ''param data_len Number of bytes in the '' @ [CHR 0x5C] @ ''a data buffer.'',
    '' * '' @ [CHR 0x5C] @ ''return         The updated crc value.'',
    '' *****************************************************************************/'']\<close>

definition crc_update_function_def_text :: string where
  \<open>crc_update_function_def_text = nl_join [
    ''$if ($simple_crc_update_def != True) {:'',
    ''$crc_t $crc_update_function(const $cfg_t *cfg, $crc_t crc, const unsigned char *data, size_t data_len):} $else {:'',
    ''$crc_t $crc_update_function($crc_t crc, const unsigned char *data, size_t data_len):}'']\<close>

definition crc_finalize_doc_text :: string where
  \<open>crc_finalize_doc_text = nl_join [
    ''/**'',
    '' * Calculate the final crc value.'',
    '' *'',
    ''$if ($simple_crc_finalize_def != True) {:'',
    '' * '' @ [CHR 0x5C] @ ''param cfg  A pointer to a initialised $cfg_t structure.'',
    '':}'',
    '' * '' @ [CHR 0x5C] @ ''param crc  The current crc value.'',
    '' * '' @ [CHR 0x5C] @ ''return     The final crc value.'',
    '' *****************************************************************************/'']\<close>

definition crc_finalize_function_def_text :: string where
  \<open>crc_finalize_function_def_text = nl_join [
    ''$if ($simple_crc_finalize_def != True) {:'',
    ''$crc_t $crc_finalize_function(const $cfg_t *cfg, $crc_t crc):} $else {:'',
    ''$crc_t $crc_finalize_function($crc_t crc):}'']\<close>

definition c_template_text :: string where
  \<open>c_template_text = nl_join [
    ''$source_header'',
    ''$if ($include_file != Undefined) {:'',
    ''#include $include_file'',
    '':}'',
    ''#include "$header_filename"'',
    ''#include <stdint.h>'',
    ''#include <stdlib.h>'',
    ''$if ($undefined_parameters == True or $crc_algorithm == "bit-by-bit" or $crc_algorithm == "bit-by-bit-fast") {:'',
    ''$if ($c_std != C89) {:'',
    ''#include <stdbool.h>'',
    '':}'',
    '':}'',
    [],
    ''$if ($use_reflect_func == True and $static_reflect_func == True) {:'',
    ''static $crc_reflect_function_def;'',
    [],
    '':}'',
    ''$if ($crc_algorithm == "bit-by-bit") {:'',
    ''$c_bit_by_bit'',
    '':} $elif ($crc_algorithm == "bit-by-bit-fast") {:'',
    ''$c_bit_by_bit_fast'',
    '':} $elif ($crc_algorithm == "table-driven") {:'',
    ''$c_table_driven'',
    '':}'',
    []]\<close>

definition c_table_text :: string where
  \<open>c_table_text = nl_join [
    ''/**'',
    '' * Static table used for the table_driven implementation.'',
    ''$if ($undefined_parameters == True) {:'',
    '' * Must be initialised with the $crc_init_function function.'',
    '':}'',
    '' *****************************************************************************/'',
    ''$if ($constant_crc_table != True) {:'',
    ''static $crc_t crc_table[$crc_table_width];'',
    '':} $else {:'',
    ''static const $crc_t crc_table[$crc_table_width] = {'',
    ''$crc_table_init'',
    ''};'',
    '':}'',
    []]\<close>

definition c_bit_by_bit_text :: string where
  \<open>c_bit_by_bit_text = nl_join [
    ''$if ($use_reflect_func == True) {:'',
    ''$crc_reflect_function_body'',
    [],
    '':}'',
    ''$if ($constant_crc_init == False) {:'',
    ''$crc_init_doc'',
    ''$crc_init_function_def$nop'',
    ''{'',
    ''    unsigned int i;'',
    ''    $c_bool bit;'',
    ''    $crc_t crc = $cfg_xor_in;'',
    ''    for (i = 0; i < $cfg_width; i++) {'',
    ''        bit = crc & 0x01;'',
    ''        if (bit) {'',
    ''            crc = ((crc ^ $cfg_poly) >> 1) | $cfg_msb_mask;'',
    ''        } else {'',
    ''            crc >>= 1;'',
    ''        }'',
    ''    }'',
    ''    return crc & $cfg_mask;'',
    ''}'',
    '':}'',
    [],
    ''$crc_update_doc'',
    ''$crc_update_function_def$nop'',
    ''{'',
    ''    unsigned int i;'',
    ''    $c_bool bit;'',
    ''    unsigned char c;'',
    [],
    ''    while (data_len--) {'',
    ''$if ($crc_reflect_in == Undefined) {:'',
    ''        if ($cfg_reflect_in) {'',
    ''            c = $crc_reflect_function(*data++, 8);'',
    ''        } else {'',
    ''            c = *data++;'',
    ''        }'',
    '':} $elif ($crc_reflect_in == True) {:'',
    ''        c = $crc_reflect_function(*data++, 8);'',
    '':} $else {:'',
    ''        c = *data++;'',
    '':}'',
    ''        for (i = 0; i < 8; i++) {'',
    ''            bit = crc & $cfg_msb_mask;'',
    ''            crc = (crc << 1) | ((c >> (7 - i)) & 0x01);'',
    ''            if (bit) {'',
    ''                crc ^= $cfg_poly;'',
    ''            }'',
    ''        }'',
    ''        crc &= $cfg_mask;'',
    ''    }'',
    ''    return crc & $cfg_mask;'',
    ''}'',
    [],
    [],
    ''$crc_finalize_doc'',
    ''$crc_finalize_function_def$nop'',
    ''{'',
    ''    unsigned int i;'',
    ''    $c_bool bit;'',
    [],
    ''    for (i = 0; i < $cfg_width; i++) {'',
    ''        bit = crc & $cfg_msb_mask;'',
    ''        crc = (crc << 1) | 0x00;'',
    ''        if (bit) {'',
    ''            crc ^= $cfg_poly;'',
    ''        }'',
    ''    }'',
    ''$if ($crc_reflect_out == Undefined) {:'',
    ''    if ($cfg_reflect_out) {'',
    ''        crc = $crc_reflect_function(crc, $cfg_width);'',
    ''    }'',
    '':} $elif ($crc_reflect_out == True) {:'',
    ''    crc = $crc_reflect_function(crc, $cfg_width);'',
    '':}'',
    ''    return (crc ^ $cfg_xor_out) & $cfg_mask;'',
    ''}'',
    []]\<close>

definition c_bit_by_bit_fast_text :: string where
  \<open>c_bit_by_bit_fast_text = nl_join [
    ''$if ($use_reflect_func == True) {:'',
    ''$crc_reflect_function_body'',
    [],
    '':}'',
    ''$if ($constant_crc_init == False) {:'',
    ''$crc_init_doc'',
    ''$crc_init_function_def$nop'',
    ''{'',
    ''    return $cfg_xor_in & $cfg_mask;'',
    ''}'',
    '':}'',
    [],
    ''$crc_update_doc'',
    ''$crc_update_function_def$nop'',
    ''{'',
    ''    unsigned int i;'',
    ''    $c_bool bit;'',
    ''    unsigned char c;'',
    [],
    ''    while (data_len--) {'',
    ''$if ($crc_reflect_in == Undefined) {:'',
    ''        if ($cfg_reflect_in) {'',
    ''            c = $crc_reflect_function(*data++, 8);'',
    ''        } else {'',
    ''            c = *data++;'',
    ''        }'',
    '':} $else {:'',
    ''        c = *data++;'',
    '':}'',
    ''$if ($crc_reflect_in == True) {:'',
    ''        for (i = 0x01; i & 0xff; i <<= 1) {'',
    '':} $else {:'',
    ''        for (i = 0x80; i > 0; i >>= 1) {'',
    '':}'',
    ''            bit = crc & $cfg_msb_mask;'',
    ''            if (c & i) {'',
    ''                bit = !bit;'',
    ''            }'',
    ''            crc <<= 1;'',
    ''            if (bit) {'',
    ''                crc ^= $cfg_poly;'',
    ''            }'',
    ''        }'',
    ''        crc &= $cfg_mask;'',
    ''    }'',
    ''    return crc & $cfg_mask;'',
    ''}'',
    [],
    ''$if ($inline_crc_finalize != True) {:'',
    ''$crc_finalize_doc'',
    ''$crc_finalize_function_def$nop'',
    ''{'',
    ''$if ($crc_reflect_out == Undefined) {:'',
    ''    if (cfg->reflect_out) {'',
    ''        crc = $crc_reflect_function(crc, $cfg_width);'',
    ''    }'',
    '':} $elif ($crc_reflect_out == True) {:'',
    ''    crc = $crc_reflect_function(crc, $cfg_width);'',
    '':}'',
    ''    return (crc ^ $cfg_xor_out) & $cfg_mask;'',
    ''}'',
    [],
    '':}'',
    []]\<close>

definition c_table_driven_text :: string where
  \<open>c_table_driven_text = nl_join [
    ''$c_table'',
    ''$if ($use_reflect_func == True) {:'',
    ''$crc_reflect_function_body'',
    '':}'',
    [],
    ''$if ($constant_crc_init == False) {:'',
    ''$crc_init_doc'',
    ''$crc_init_function_def$nop'',
    ''{'',
    ''$if ($crc_reflect_in == Undefined) {:'',
    ''    if ($cfg_reflect_in) {'',
    ''        return $crc_reflect_function($cfg_xor_in & $cfg_mask, $cfg_width)$if ($crc_do_shift == True) {: << $cfg_shift:};'',
    ''    } else {'',
    ''        return $cfg_xor_in & $cfg_mask$if ($crc_do_shift == True) {: << $cfg_shift:};'',
    ''    }'',
    '':} $elif ($crc_reflect_in == True) {:'',
    ''    return $crc_reflect_function($cfg_xor_in & $cfg_mask, $cfg_width)$if ($crc_do_shift == True) {: << $cfg_shift:};'',
    '':} $else {:'',
    ''    return $cfg_xor_in & $cfg_mask$if ($crc_do_shift == True) {: << $cfg_shift:};'',
    '':}'',
    ''}'',
    '':}'',
    [],
    ''$if ($constant_crc_table != True) {:'',
    ''$crc_table_gen_doc'',
    ''$crc_table_gen_function_def'',
    ''{'',
    ''    $crc_t crc;'',
    ''    unsigned int i, j;'',
    [],
    ''    for (i = 0; i < $cfg_table_width; i++) {'',
    ''$if ($crc_reflect_in == Undefined) {:'',
    ''        if (cfg->reflect_in) {'',
    ''            crc = $crc_reflect_function(i, $cfg_table_idx_width);'',
    ''        } else {'',
    ''            crc = i;'',
    ''        }'',
    '':} $elif ($crc_reflect_in == True) {:'',
    ''        crc = $crc_reflect_function(i, $cfg_table_idx_width);'',
    '':} $else {:'',
    ''        crc = i;'',
    '':}'',
    ''$if ($crc_do_shift == True) {:'',
    ''        crc <<= ($cfg_width - $cfg_table_idx_width + $cfg_shift);'',
    '':} $else {:'',
    ''        crc <<= ($cfg_width - $cfg_table_idx_width);'',
    '':}'',
    ''        for (j = 0; j < $cfg_table_idx_width; j++) {'',
    ''            if (crc & $cfg_msb_mask_shifted) {'',
    ''                crc = (crc << 1) ^ $cfg_poly_shifted;'',
    ''            } else {'',
    ''                crc = crc << 1;'',
    ''            }'',
    ''        }'',
    ''$if ($crc_reflect_in == Undefined) {:'',
    ''        if (cfg->reflect_in) {'',
    ''$if ($crc_do_shift == True) {:'',
    ''            crc = $crc_reflect_function(crc >> $cfg_shift, $cfg_width) << $cfg_shift;'',
    '':} $else {:'',
    ''            crc = $crc_reflect_function(crc, $cfg_width);'',
    '':}'',
    ''        }'',
    '':} $elif ($crc_reflect_in == True) {:'',
    ''$if ($crc_do_shift == True) {:'',
    ''        crc = $crc_reflect_function(crc >> $cfg_shift, $cfg_width) << $cfg_shift;'',
    '':} $else {:'',
    ''        crc = $crc_reflect_function(crc, $cfg_width);'',
    '':}'',
    '':}'',
    ''        crc_table[i] = crc & $cfg_mask_shifted;'',
    ''    }'',
    ''}'',
    [],
    '':}'',
    ''$crc_update_doc'',
    ''$crc_update_function_def$nop'',
    ''{'',
    ''    unsigned int tbl_idx;'',
    [],
    ''$if ($crc_reflect_in == Undefined) {:'',
    ''    if (cfg->reflect_in) {'',
    ''        while (data_len--) {'',
    ''$crc_table_core_algorithm_ri'',
    ''            data++;'',
    ''        }'',
    ''    } else {'',
    ''        while (data_len--) {'',
    ''$crc_table_core_algorithm_ni'',
    ''            data++;'',
    ''        }'',
    ''    }'',
    '':} $else {:'',
    ''    while (data_len--) {'',
    ''$if ($crc_reflect_in == True) {:'',
    ''$crc_table_core_algorithm_ri'',
    '':} $elif ($crc_reflect_in == False) {:'',
    ''$crc_table_core_algorithm_ni'',
    '':}'',
    ''        data++;'',
    ''    }'',
    '':}'',
    ''    return crc & $cfg_mask_shifted;'',
    ''}'',
    [],
    ''$if ($inline_crc_finalize == False) {:'',
    ''$crc_finalize_doc'',
    ''$crc_finalize_function_def$nop'',
    ''{'',
    ''$if ($crc_do_shift == True) {:'',
    ''    crc >>= $cfg_shift;'',
    '':}'',
    ''$if ($crc_reflect_in == Undefined or $crc_reflect_out == Undefined) {:'',
    ''$if ($crc_reflect_in == Undefined and $crc_reflect_out == Undefined) {:'',
    ''    if (cfg->reflect_in == !cfg->reflect_out):}'',
    '' $elif ($crc_reflect_out == Undefined) {:'',
    ''    if ($if ($crc_reflect_in == True) {:!:}cfg->reflect_out):}'',
    '' $elif ($crc_reflect_in == Undefined) {:'',
    ''    if ($if ($crc_reflect_out == True) {:!:}cfg->reflect_in):} {'',
    ''        crc = $crc_reflect_function(crc, $cfg_width);'',
    ''    }'',
    '':} $elif ($crc_reflect_in != $crc_reflect_out) {:'',
    ''    crc = $crc_reflect_function(crc, $cfg_width);'',
    '':}'',
    ''    return (crc ^ $cfg_xor_out) & $cfg_mask;'',
    ''}'',
    '':}'',
    []]\<close>

definition main_template_text :: string where
  \<open>main_template_text = nl_join [
    ''$if ($include_file != Undefined) {:'',
    ''#include $include_file'',
    '':}'',
    ''#include <stdio.h>'',
    ''#include <getopt.h>'',
    ''$if ($undefined_parameters == True) {:'',
    ''#include <stdlib.h>'',
    ''#include <stdio.h>'',
    ''#include <ctype.h>'',
    '':}'',
    ''$if ($c_std != C89) {:'',
    ''#include <stdbool.h>'',
    '':}'',
    ''#include <string.h>'',
    [],
    ''static char str[256] = "123456789";'',
    ''static $c_bool verbose = $c_false;'',
    [],
    ''void print_params($if ($undefined_parameters == True) {:const $cfg_t *cfg:} $else {:void:});'',
    ''$getopt_template'',
    [],
    ''void print_params($if ($undefined_parameters == True) {:const $cfg_t *cfg:} $else {:void:})'',
    ''{'',
    ''    char format[20];'',
    [],
    ''    snprintf(format, sizeof(format), "%%-16s = 0x%%0%dx'' @ [CHR 0x5C] @ ''n", (unsigned int)($cfg_width + 3) / 4);'',
    ''    printf("%-16s = %d'' @ [CHR 0x5C] @ ''n", "width", (unsigned int)$cfg_width);'',
    ''    printf(format, "poly", (unsigned int)$cfg_poly);'',
    ''    printf("%-16s = %s'' @ [CHR 0x5C] @ ''n", "reflect_in", $if ($crc_reflect_in == Undefined) {:$cfg_reflect_in ? "true": "false":} $else {:$if ($crc_reflect_in == True) {:"true":} $else {:"false":}:});'',
    ''    printf(format, "xor_in", $cfg_xor_in);'',
    ''    printf("%-16s = %s'' @ [CHR 0x5C] @ ''n", "reflect_out", $if ($crc_reflect_out == Undefined) {:$cfg_reflect_out ? "true": "false":} $else {:$if ($crc_reflect_out == True) {:"true":} $else {:"false":}:});'',
    ''    printf(format, "xor_out", (unsigned int)$cfg_xor_out);'',
    ''    printf(format, "crc_mask", (unsigned int)$cfg_mask);'',
    ''    printf(format, "msb_mask", (unsigned int)$cfg_msb_mask);'',
    ''}'',
    [],
    ''/**'',
    '' * C main function.'',
    '' *'',
    '' * '' @ [CHR 0x5C] @ ''return     0 on success, != 0 on error.'',
    '' *****************************************************************************/'',
    ''int main(int argc, char *argv[])'',
    ''{'',
    ''$if ($undefined_parameters == True) {:'',
    ''    $cfg_t cfg = {'',
    ''$if ($crc_width == Undefined) {:'',
    ''            0,      /* width */'',
    '':}'',
    ''$if ($crc_poly == Undefined) {:'',
    ''            0,      /* poly */'',
    '':}'',
    ''$if ($crc_xor_in == Undefined) {:'',
    ''            0,      /* xor_in */'',
    '':}'',
    ''$if ($crc_reflect_in == Undefined) {:'',
    ''            0,      /* reflect_in */'',
    '':}'',
    ''$if ($crc_xor_out == Undefined) {:'',
    ''            0,      /* xor_out */'',
    '':}'',
    ''$if ($crc_reflect_out == Undefined) {:'',
    ''            0,      /* reflect_out */'',
    '':}'',
    ''$if ($crc_width == Undefined) {:'',
    [],
    ''            0,      /* crc_mask */'',
    ''            0,      /* msb_mask */'',
    ''            0,      /* crc_shift */'',
    '':}'',
    ''    };'',
    '':}'',
    ''    $crc_t crc;'',
    [],
    ''$if ($undefined_parameters == True) {:'',
    ''    get_config(argc, argv, &cfg);'',
    '':} $else {:'',
    ''    get_config(argc, argv);'',
    '':}'',
    ''$if ($crc_algorithm == "table-driven" and $constant_crc_table != True) {:'',
    ''    $crc_table_gen_function(&cfg);'',
    '':}'',
    ''    crc = $crc_init_function($if ($constant_crc_init != True) {:&cfg:});'',
    ''    crc = $crc_update_function($if ($simple_crc_update_def != True) {:&cfg, :}crc, (unsigned char *)str, strlen(str));'',
    ''    crc = $crc_finalize_function($if ($simple_crc_finalize_def != True) {:&cfg, :}crc);'',
    [],
    ''    if (verbose) {'',
    ''        print_params($if ($undefined_parameters == True) {:&cfg:});'',
    ''    }'',
    ''    printf("0x%lx'' @ [CHR 0x5C] @ ''n", (unsigned long)crc);'',
    ''    return 0;'',
    ''}'',
    []]\<close>

definition getopt_template_text :: string where
  \<open>getopt_template_text = nl_join [
    ''$if ($crc_reflect_in == Undefined or $crc_reflect_out == Undefined) {:'',
    ''static $c_bool atob(const char *str);'',
    '':}'',
    ''$if ($crc_poly == Undefined or $crc_xor_in == Undefined or $crc_xor_out == Undefined) {:'',
    ''static crc_t xtoi(const char *str);'',
    '':}'',
    ''static int get_config(int argc, char *argv[]$if ($undefined_parameters == True) {:, $cfg_t *cfg:});'',
    [],
    [],
    ''$if ($crc_reflect_in == Undefined or $crc_reflect_out == Undefined) {:'',
    ''$c_bool atob(const char *str)'',
    ''{'',
    ''    if (!str) {'',
    ''        return 0;'',
    ''    }'',
    ''    if (isdigit(str[0])) {'',
    ''        return ($c_bool)atoi(str);'',
    ''    }'',
    ''    if (tolower(str[0]) == 't') {'',
    ''        return $c_true;'',
    ''    }'',
    ''    return $c_false;'',
    ''}'',
    [],
    '':}'',
    ''$if ($crc_poly == Undefined or $crc_xor_in == Undefined or $crc_xor_out == Undefined) {:'',
    ''crc_t xtoi(const char *str)'',
    ''{'',
    ''    crc_t ret = 0;'',
    [],
    ''    if (!str) {'',
    ''        return 0;'',
    ''    }'',
    ''    if (str[0] == '0' && tolower(str[1]) == 'x') {'',
    ''        str += 2;'',
    ''        while (*str) {'',
    ''            if (isdigit(*str))'',
    ''                ret = 16 * ret + *str - '0';'',
    ''            else if (isxdigit(*str))'',
    ''                ret = 16 * ret + tolower(*str) - 'a' + 10;'',
    ''            else'',
    ''                return ret;'',
    ''            str++;'',
    ''        }'',
    ''    } else if (isdigit(*str)) {'',
    ''        while (*str) {'',
    ''            if (isdigit(*str))'',
    ''                ret = 10 * ret + *str - '0';'',
    ''            else'',
    ''                return ret;'',
    ''            str++;'',
    ''        }'',
    ''    }'',
    ''    return ret;'',
    ''}'',
    [],
    [],
    '':}'',
    ''static int get_config(int argc, char *argv[]$if ($undefined_parameters == True) {:, $cfg_t *cfg:})'',
    ''{'',
    ''    int c;'',
    ''    int this_option_optind;'',
    ''    int option_index;'',
    ''    static struct option long_options[] = {'',
    ''$if ($crc_width == Undefined) {:'',
    ''        {"width",           1, 0, 'w'},'',
    '':}'',
    ''$if ($crc_poly == Undefined) {:'',
    ''        {"poly",            1, 0, 'p'},'',
    '':}'',
    ''$if ($crc_reflect_in == Undefined) {:'',
    ''        {"reflect-in",      1, 0, 'n'},'',
    '':}'',
    ''$if ($crc_xor_in == Undefined) {:'',
    ''        {"xor-in",          1, 0, 'i'},'',
    '':}'',
    ''$if ($crc_reflect_out == Undefined) {:'',
    ''        {"reflect-out",     1, 0, 'u'},'',
    '':}'',
    ''$if ($crc_xor_out == Undefined) {:'',
    ''        {"xor-out",         1, 0, 'o'},'',
    '':}'',
    ''        {"verbose",         0, 0, 'v'},'',
    ''        {"check-string",    1, 0, 's'},'',
    ''$if ($crc_width == Undefined) {:'',
    ''        {"table-idx-with",  1, 0, 't'},'',
    '':}'',
    ''        {0, 0, 0, 0}'',
    ''    };'',
    [],
    ''    while (1) {'',
    ''        this_option_optind = optind ? optind : 1;'',
    ''        option_index = 0;'',
    [],
    ''        c = getopt_long (argc, argv, "w:p:n:i:u:o:s:vt", long_options, &option_index);'',
    ''        if (c == -1)'',
    ''            break;'',
    [],
    ''        switch (c) {'',
    ''            case 0:'',
    ''                printf ("option %s", long_options[option_index].name);'',
    ''                if (optarg)'',
    ''                    printf (" with arg %s", optarg);'',
    ''                printf ("'' @ [CHR 0x5C] @ ''n");'',
    ''$if ($crc_width == Undefined) {:'',
    ''            case 'w':'',
    ''                cfg->width = atoi(optarg);'',
    ''                break;'',
    '':}'',
    ''$if ($crc_poly == Undefined) {:'',
    ''            case 'p':'',
    ''                cfg->poly = xtoi(optarg);'',
    ''                break;'',
    '':}'',
    ''$if ($crc_reflect_in == Undefined) {:'',
    ''            case 'n':'',
    ''                cfg->reflect_in = atob(optarg);'',
    ''                break;'',
    '':}'',
    ''$if ($crc_xor_in == Undefined) {:'',
    ''            case 'i':'',
    ''                cfg->xor_in = xtoi(optarg);'',
    ''                break;'',
    '':}'',
    ''$if ($crc_reflect_out == Undefined) {:'',
    ''            case 'u':'',
    ''                cfg->reflect_out = atob(optarg);'',
    ''                break;'',
    '':}'',
    ''$if ($crc_xor_out == Undefined) {:'',
    ''            case 'o':'',
    ''                cfg->xor_out = xtoi(optarg);'',
    ''                break;'',
    '':}'',
    ''            case 's':'',
    ''                memcpy(str, optarg, strlen(optarg) < sizeof(str) ? strlen(optarg) + 1 : sizeof(str));'',
    ''                str[sizeof(str) - 1] = '' @ [CHR 0x27] @ [CHR 0x5C] @ ''0';'',
    ''                break;'',
    ''            case 'v':'',
    ''                verbose = $c_true;'',
    ''                break;'',
    ''$if ($crc_width == Undefined) {:'',
    ''            case 't':'',
    ''                /* ignore --table_idx_width option */'',
    ''                break;'',
    '':}'',
    ''            case '?':'',
    ''                return -1;'',
    ''            case ':':'',
    ''                fprintf(stderr, "missing argument to option %c'' @ [CHR 0x5C] @ ''n", c);'',
    ''                return -1;'',
    ''            default:'',
    ''                fprintf(stderr, "unhandled option %c'' @ [CHR 0x5C] @ ''n", c);'',
    ''                return -1;'',
    ''        }'',
    ''    }'',
    ''$if ($crc_width == Undefined) {:'',
    ''    cfg->msb_mask = 1UL << (cfg->width - 1);'',
    ''    cfg->crc_mask = (cfg->msb_mask - 1) | cfg->msb_mask;'',
    ''    cfg->crc_shift = cfg->width < 8 ? 8 - cfg->width : 0;'',
    '':}'',
    [],
    ''$if ($crc_poly == Undefined) {:'',
    ''    cfg->poly &= $cfg_mask;'',
    '':}'',
    ''$if ($crc_xor_in == Undefined) {:'',
    ''    cfg->xor_in &= $cfg_mask;'',
    '':}'',
    ''$if ($crc_xor_out == Undefined) {:'',
    ''    cfg->xor_out &= $cfg_mask;'',
    '':}'',
    ''    return 0;'',
    ''}'']\<close>

text \<open>The terminals with constant texts, in the order of the tests.\<close>

definition templates :: "(string \<times> string) list" where
  "templates = [
    (''crc_final_value'', crc_final_value_text),
    (''h_template'', h_template_text),
    (''source_header'', source_header_text),
    (''crc_reflect_doc'', crc_reflect_doc_text),
    (''crc_reflect_function_def'', crc_reflect_function_def_text),
    (''crc_reflect_function_body'', crc_reflect_function_body_text),
    (''crc_table_gen_doc'', crc_table_gen_doc_text),
    (''crc_table_gen_function_def'', crc_table_gen_function_def_text),
    (''crc_init_doc'', crc_init_doc_text),
    (''crc_init_function_def'', crc_init_function_def_text),
    (''crc_update_doc'', crc_update_doc_text),
    (''crc_update_function_def'', crc_update_function_def_text),
    (''crc_finalize_doc'', crc_finalize_doc_text),
    (''crc_finalize_function_def'', crc_finalize_function_def_text),
    (''c_template'', c_template_text),
    (''c_table'', c_table_text),
    (''c_bit_by_bit'', c_bit_by_bit_text),
    (''c_bit_by_bit_fast'', c_bit_by_bit_fast_text),
    (''c_table_driven'', c_table_driven_text),
    (''main_template'', main_template_text),
    (''getopt_template'', getopt_template_text)]"

end
