(* ===== verification/Symtable.thy ===== *)
theory Symtable
  imports Options Parser Templates
begin

text \<open>
  The symbol table, class \<open>SymbolTable\<close> of \<open>python/pycrc/crc_symtable.py\<close>: the table that the
  constructor fills, the terminals computed from the options, the constant macro texts of theory
  \<open>Templates\<close>, and \<open>getTerminal\<close>, which stores a computed value in the table.  The table is an
  attribute of the class, so the constructor receives the table that earlier objects left.
\<close>

unbundle bit_operations_syntax

section \<open>Formatting\<close>

definition pretty_str :: "int option \<Rightarrow> string" where
  "pretty_str v = (case v of None \<Rightarrow> ''Undefined'' | Some i \<Rightarrow> py_dec i)"

text \<open>The width is positive wherever it is given.\<close>

definition pretty_hex :: "int option \<Rightarrow> int option \<Rightarrow> string" where
  "pretty_hex v width =
     (case v of
        None \<Rightarrow> ''Undefined''
      | Some k \<Rightarrow> (case width of
            None \<Rightarrow> ''0x'' @ py_hex k
          | Some w \<Rightarrow> ''0x'' @ py_zhex (nat ((w + 3) div 4)) k))"

definition pretty_bool :: "bool option \<Rightarrow> string" where
  "pretty_bool v = (case v of None \<Rightarrow> ''Undefined'' | Some b \<Rightarrow> if b then ''True'' else ''False'')"

text \<open>\<open>os.path.basename\<close>: what follows the last slash.\<close>

definition basename :: "string \<Rightarrow> string" where
  "basename s = rev (takeWhile (\<lambda>c. c \<noteq> CHR ''/'') (rev s))"

definition pretty_hdrprotection :: "options \<Rightarrow> string" where
  "pretty_hdrprotection op =
     (let out_str = (case o_OutputFile op of None \<Rightarrow> ''stdout'' | Some f \<Rightarrow> f);
          tr = (\<lambda>c. if is_alpha c then char_upper c else CHR ''_'')
      in ''__'' @ map tr (py_upper (basename out_str)) @ ''__'')"

definition get_underlying_crc_t :: "options \<Rightarrow> string" where
  "get_underlying_crc_t op =
     (case o_CrcType op of
        Some t \<Rightarrow> t
      | None \<Rightarrow> (case o_Width op of
          None \<Rightarrow> ''unsigned long''
        | Some w \<Rightarrow>
            if o_CStd op = Some ''C89''
            then (if w \<le> 8 then ''unsigned char''
                  else if w \<le> 16 then ''unsigned int''
                  else ''unsigned long'')
            else (if w \<le> 8 then ''uint8_t''
                  else if w \<le> 16 then ''uint16_t''
                  else if w \<le> 32 then ''uint32_t''
                  else ''unsigned long'')))"

definition get_include_file :: "options \<Rightarrow> string option res" where
  "get_include_file op =
     (case o_IncludeFile op of
        None \<Rightarrow> Inr None
      | Some [] \<Rightarrow> Inl IndexError
      | Some (c # f) \<Rightarrow>
          if c = CHR 0x22 \<or> c = CHR ''<'' then Inr (Some (c # f))
          else Inr (Some (CHR 0x22 # (c # f) @ [CHR 0x22])))"

section \<open>Computed terminals\<close>

text \<open>A \<open>Crc\<close> object of which only the initial values are used; a missing flag counts as false,
  a missing final mask is stored and not read.\<close>

definition init_crc :: "options \<Rightarrow> int \<Rightarrow> int \<Rightarrow> int \<Rightarrow> crc res" where
  "init_crc op w p xi = Crc_init w p (o_ReflectIn op = Some True) xi (o_ReflectOut op = Some True)
     (case o_XorOut op of None \<Rightarrow> 0 | Some x \<Rightarrow> x) (Some (o_TableIdxWidth op))"

definition get_init_value :: "options \<Rightarrow> string option res" where
  "get_init_value op =
     (if o_Algorithm op = Algo_Bit_by_Bit then
        (case (o_XorIn op, o_Width op, o_Poly op) of
           (Some xi, Some w, Some p) \<Rightarrow>
             bind_res (init_crc op w p xi) (\<lambda>crc.
               Inr (Some (pretty_hex (Some (NonDirectInit crc)) (o_Width op))))
         | _ \<Rightarrow> Inr None)
      else if o_Algorithm op = Algo_Bit_by_Bit_Fast then
        (case o_XorIn op of
           None \<Rightarrow> Inr None
         | Some xi \<Rightarrow> Inr (Some (pretty_hex (Some xi) (o_Width op))))
      else if o_Algorithm op = Algo_Table_Driven then
        (case (o_ReflectIn op, o_XorIn op, o_Width op) of
           (Some ri, Some xi, Some w) \<Rightarrow>
             let poly = (case o_Poly op of None \<Rightarrow> 0 | Some p \<Rightarrow> p)
             in bind_res (init_crc op w poly xi) (\<lambda>crc.
                  let init = (if ri then reflect (DirectInit crc) (nat w) else DirectInit crc)
                  in Inr (Some (pretty_hex (Some init) (o_Width op))))
         | _ \<Rightarrow> Inr None)
      else Inr (Some (pretty_hex (Some 0) (o_Width op))))"

text \<open>One entry of the printed table, with the separator that follows it.\<close>

definition table_field :: "int list \<Rightarrow> nat \<Rightarrow> nat \<Rightarrow> int \<Rightarrow> string \<Rightarrow> nat \<Rightarrow> string res" where
  "table_field tbl table_width values_per_line format_width out i =
     (if i < length tbl then
        let out1 = (if i mod values_per_line = 0 then out @ ''    '' else out);
            field = pretty_hex (Some (tbl ! i)) (Some format_width)
        in Inr (out1 @
             (if i = table_width - 1 then field
              else if i mod values_per_line = values_per_line - 1 then field @ '','' @ [CHR 0x0A]
              else field @ '', ''))
      else Inl IndexError)"

definition get_table_init :: "options \<Rightarrow> string res" where
  "get_table_init op =
     (if o_Algorithm op \<noteq> Algo_Table_Driven then Inr ''0''
      else case (o_Width op, o_Poly op, o_ReflectIn op) of
        (Some w, Some p, Some ri) \<Rightarrow>
          bind_res (Crc_init w p ri 0 False 0 (Some (o_TableIdxWidth op))) (\<lambda>crc.
          bind_res (gen_table crc) (\<lambda>tbl.
            let values_per_line = (if 32 \<le> w then 4 else if 16 \<le> w then 8 else 16);
                format_width = max w 8
            in fold_res
                 (table_field tbl (nat (o_TableWidth op)) values_per_line format_width)
                 [] [0..<nat (o_TableWidth op)]))
      | _ \<Rightarrow> Inr ''0'')"

definition loop_indent :: "options \<Rightarrow> string" where
  "loop_indent op = (if o_UndefinedCrcParameters op then ''            '' else ''        '')"

definition get_table_core_algorithm_ni :: "options \<Rightarrow> string" where
  "get_table_core_algorithm_ni op =
     (if o_Algorithm op \<noteq> Algo_Table_Driven then []
      else
        let indent = loop_indent op;
            shr = (case o_Width op of
                None \<Rightarrow> ''($cfg_width - $cfg_table_idx_width + $cfg_shift)''
              | Some w \<Rightarrow>
                  if w < 8 then py_dec (w - o_TableIdxWidth op + 8 - w)
                  else py_dec (w - o_TableIdxWidth op));
            reg_shift = ''$if ($crc_do_shift == True) {:($cfg_table_idx_width - $cfg_shift):} '' @
              ''$else {:$cfg_table_idx_width:}''
        in if o_TableIdxWidth op = 8
           then indent @ ''tbl_idx = ((crc >> '' @ shr @ '') ^ *data) & $crc_table_mask;'' @ [CHR 0x0A] @
                indent @ ''crc = (crc_table[tbl_idx] ^ (crc << '' @ reg_shift @
                  '')) & $cfg_mask_shifted;'' @ [CHR 0x0A]
           else concat (map (\<lambda>i.
                  let str_idx = py_dec (8 - (int i + 1) * o_TableIdxWidth op)
                  in indent @ ''tbl_idx = (crc >> '' @ shr @ '') ^ (*data >> '' @ str_idx @ '');'' @
                       [CHR 0x0A] @
                     indent @ ''crc = crc_table[tbl_idx & $crc_table_mask] ^ (crc << '' @ reg_shift @
                       '');'' @ [CHR 0x0A])
                [0..<nat (8 div o_TableIdxWidth op)]))"

definition get_table_core_algorithm_ri :: "options \<Rightarrow> string" where
  "get_table_core_algorithm_ri op =
     (if o_Algorithm op \<noteq> Algo_Table_Driven then []
      else
        let indent = loop_indent op;
            crc_shifted = ''$if ($crc_do_shift == True) {:(crc >> $cfg_shift):} $else {:crc:}''
        in if o_TableIdxWidth op = 8
           then indent @ ''tbl_idx = ('' @ crc_shifted @ '' ^ *data) & $crc_table_mask;'' @ [CHR 0x0A] @
                indent @ ''crc = (crc_table[tbl_idx] ^ (crc >> $cfg_table_idx_width)) & '' @
                  ''$cfg_mask_shifted;'' @ [CHR 0x0A]
           else concat (map (\<lambda>i.
                  let str_idx = py_dec (int i)
                  in indent @ ''tbl_idx = '' @ crc_shifted @ '' ^ (*data >> ('' @ str_idx @
                       '' * $cfg_table_idx_width));'' @ [CHR 0x0A] @
                     indent @ ''crc = crc_table[tbl_idx & $crc_table_mask] ^ '' @
                       ''(crc >> $cfg_table_idx_width);'' @ [CHR 0x0A])
                [0..<nat (8 div o_TableIdxWidth op)]))"

text \<open>The flags of the generated code.\<close>

definition constant_crc_table :: "options \<Rightarrow> bool" where
  "constant_crc_table op \<longleftrightarrow> o_Width op \<noteq> None \<and> o_Poly op \<noteq> None \<and> o_ReflectIn op \<noteq> None"

definition simple_crc_update_def :: "options \<Rightarrow> bool" where
  "simple_crc_update_def op \<longleftrightarrow>
     (if o_Algorithm op = Algo_Bit_by_Bit \<or> o_Algorithm op = Algo_Bit_by_Bit_Fast
      then o_Width op \<noteq> None \<and> o_Poly op \<noteq> None \<and> o_ReflectIn op \<noteq> None
      else if o_Algorithm op = Algo_Table_Driven
      then o_Width op \<noteq> None \<and> o_ReflectIn op \<noteq> None
      else False)"

definition inline_crc_finalize :: "options \<Rightarrow> bool" where
  "inline_crc_finalize op \<longleftrightarrow>
     (o_Algorithm op = Algo_Bit_by_Bit_Fast \<or> o_Algorithm op = Algo_Table_Driven) \<and>
     o_Width op \<noteq> None \<and> o_ReflectIn op \<noteq> None \<and> o_ReflectOut op \<noteq> None \<and> o_XorOut op \<noteq> None"

definition simple_crc_finalize_def :: "options \<Rightarrow> bool" where
  "simple_crc_finalize_def op \<longleftrightarrow>
     (if o_Algorithm op = Algo_Bit_by_Bit
      then o_Width op \<noteq> None \<and> o_Poly op \<noteq> None \<and> o_ReflectOut op \<noteq> None \<and> o_XorOut op \<noteq> None
      else if o_Algorithm op = Algo_Bit_by_Bit_Fast
      then o_Width op \<noteq> None \<and> o_ReflectOut op \<noteq> None \<and> o_XorOut op \<noteq> None
      else if o_Algorithm op = Algo_Table_Driven
      then o_Width op \<noteq> None \<and> o_ReflectIn op \<noteq> None \<and> o_ReflectOut op \<noteq> None \<and> o_XorOut op \<noteq> None
      else False)"

definition use_reflect_func :: "options \<Rightarrow> bool" where
  "use_reflect_func op \<longleftrightarrow> \<not> (o_ReflectOut op = Some False \<and> o_ReflectIn op = Some False)"

definition static_reflect_func :: "options \<Rightarrow> bool" where
  "static_reflect_func op \<longleftrightarrow>
     (if o_Algorithm op = Algo_Table_Driven then False
      else if o_ReflectOut op \<noteq> None \<and> o_Algorithm op = Algo_Bit_by_Bit_Fast then False
      else True)"

definition crc_algorithm :: "options \<Rightarrow> string" where
  "crc_algorithm op =
     (if o_Algorithm op = Algo_Bit_by_Bit then ''bit-by-bit''
      else if o_Algorithm op = Algo_Bit_by_Bit_Fast then ''bit-by-bit-fast''
      else if o_Algorithm op = Algo_Table_Driven then ''table-driven''
      else ''UNDEFINED'')"

text \<open>\<open>__getTerminal\<close>; \<open>None\<close> for a name that is none of its cases.\<close>

definition compute_terminal :: "options \<Rightarrow> string \<Rightarrow> string option res" where
  "compute_terminal op name =
     (let flag = (\<lambda>b. Inr (Some (pretty_bool (Some b)))) in
      if name = ''constant_crc_init'' then
        bind_res (get_init_value op) (\<lambda>v. flag (v \<noteq> None))
      else if name = ''constant_crc_table'' then flag (constant_crc_table op)
      else if name = ''simple_crc_update_def'' then flag (simple_crc_update_def op)
      else if name = ''inline_crc_finalize'' then flag (inline_crc_finalize op)
      else if name = ''simple_crc_finalize_def'' then flag (simple_crc_finalize_def op)
      else if name = ''use_reflect_func'' then flag (use_reflect_func op)
      else if name = ''static_reflect_func'' then flag (static_reflect_func op)
      else if name = ''crc_algorithm'' then Inr (Some (crc_algorithm op))
      else if name = ''crc_table_init'' then bind_res (get_table_init op) (\<lambda>s. Inr (Some s))
      else if name = ''crc_table_core_algorithm_ni''
      then Inr (Some (get_table_core_algorithm_ni op))
      else if name = ''crc_table_core_algorithm_ri''
      then Inr (Some (get_table_core_algorithm_ri op))
      else if name = ''header_protection'' then Inr (Some (pretty_hdrprotection op))
      else if name = ''crc_init_value'' then
        bind_res (get_init_value op) (\<lambda>v. Inr (Some (case v of None \<Rightarrow> [] | Some s \<Rightarrow> s)))
      else Inr (map_of templates name))"

section \<open>The table\<close>

type_synonym sym_table = "string \<rightharpoonup> string option"

definition header_filename :: "string option \<Rightarrow> string" where
  "header_filename out =
     (case out of
        None \<Rightarrow> ''stdout.h''
      | Some f \<Rightarrow>
          if drop (length f - 2) f = ''.c'' then butlast f @ ''h'' else f @ ''.h'')"

definition cfg_terminals :: "(string \<times> string) list" where
  "cfg_terminals = [
    (''cfg_width'', ''$if ($crc_width != Undefined) {:$crc_width:} $else {:cfg->width:}''),
    (''cfg_poly'', ''$if ($crc_poly != Undefined) {:$crc_poly:} $else {:cfg->poly:}''),
    (''cfg_poly_shifted'',
      ''$if ($crc_do_shift == True) {:($cfg_poly << $cfg_shift):} $else {:$cfg_poly:}''),
    (''cfg_reflect_in'',
      ''$if ($crc_reflect_in != Undefined) {:$crc_reflect_in:} $else {:cfg->reflect_in:}''),
    (''cfg_xor_in'', ''$if ($crc_xor_in != Undefined) {:$crc_xor_in:} $else {:cfg->xor_in:}''),
    (''cfg_reflect_out'',
      ''$if ($crc_reflect_out != Undefined) {:$crc_reflect_out:} $else {:cfg->reflect_out:}''),
    (''cfg_xor_out'', ''$if ($crc_xor_out != Undefined) {:$crc_xor_out:} $else {:cfg->xor_out:}''),
    (''cfg_table_idx_width'', ''$if ($crc_table_idx_width != Undefined) {:$crc_table_idx_width:} '' @
      ''$else {:cfg->table_idx_width:}''),
    (''cfg_table_width'',
      ''$if ($crc_table_width != Undefined) {:$crc_table_width:} $else {:cfg->table_width:}''),
    (''cfg_mask'', ''$if ($crc_mask != Undefined) {:$crc_mask:} $else {:cfg->crc_mask:}''),
    (''cfg_mask_shifted'',
      ''$if ($crc_do_shift == True) {:($cfg_mask << $cfg_shift):} $else {:$cfg_mask:}''),
    (''cfg_msb_mask'',
      ''$if ($crc_msb_mask != Undefined) {:$crc_msb_mask:} $else {:cfg->msb_mask:}''),
    (''cfg_msb_mask_shifted'',
      ''$if ($crc_do_shift == True) {:($cfg_msb_mask << $cfg_shift):} $else {:$cfg_msb_mask:}''),
    (''cfg_shift'', ''$if ($crc_shift != Undefined) {:$crc_shift:} $else {:cfg->crc_shift:}'')]"

text \<open>The entries of the constructor in its order; \<open>datetime\<close> is \<open>time.asctime()\<close>.\<close>

definition param_terminals :: "options \<Rightarrow> string \<Rightarrow> (string \<times> string) list" where
  "param_terminals op datetime =
     (let shifted = (o_Algorithm op = Algo_Table_Driven \<and>
            (case o_Width op of None \<Rightarrow> True | Some w \<Rightarrow> w < 8))
      in [(''nop'', []),
          (''datetime'', datetime),
          (''program_version'', ''pycrc v0.7.7''),
          (''program_url'', ''http://www.tty1.net/pycrc/''),
          (''filename'', case o_OutputFile op of None \<Rightarrow> ''stdout'' | Some f \<Rightarrow> f),
          (''header_filename'', header_filename (o_OutputFile op)),
          (''crc_width'', pretty_str (o_Width op)),
          (''crc_poly'', pretty_hex (o_Poly op) (o_Width op)),
          (''crc_reflect_in'', pretty_bool (o_ReflectIn op)),
          (''crc_xor_in'', pretty_hex (o_XorIn op) (o_Width op)),
          (''crc_reflect_out'', pretty_bool (o_ReflectOut op)),
          (''crc_xor_out'', pretty_hex (o_XorOut op) (o_Width op)),
          (''crc_table_idx_width'', py_dec (o_TableIdxWidth op)),
          (''crc_table_width'', py_dec (push_bit (nat (o_TableIdxWidth op)) 1)),
          (''crc_table_mask'', pretty_hex (Some (o_TableWidth op - 1)) (Some 8)),
          (''crc_mask'', pretty_hex (o_Mask op) (o_Width op)),
          (''crc_msb_mask'', pretty_hex (o_MSB_Mask op) (o_Width op)),
          (''crc_do_shift'', pretty_bool (Some shifted)),
          (''crc_shift'', if shifted then (case o_Width op of
              None \<Rightarrow> pretty_str None | Some w \<Rightarrow> pretty_str (Some (8 - w)))
            else pretty_str (Some 0))])"

definition name_terminals :: "options \<Rightarrow> string option \<Rightarrow> (string \<times> string option) list" where
  "name_terminals op include_file =
     [(''undefined_parameters'', Some (pretty_bool (Some (o_UndefinedCrcParameters op)))),
      (''use_cfg_t'', Some (pretty_bool (Some (o_UndefinedCrcParameters op)))),
      (''c_std'', o_CStd op),
      (''c_bool'', Some ''$if ($c_std == C89) {:int:} $else {:bool:}''),
      (''c_true'', Some ''$if ($c_std == C89) {:1:} $else {:true:}''),
      (''c_false'', Some ''$if ($c_std == C89) {:0:} $else {:false:}''),
      (''underlying_crc_t'', Some (get_underlying_crc_t op)),
      (''include_file'', include_file),
      (''crc_prefix'', Some (o_SymbolPrefix op)),
      (''crc_t'', Some (o_SymbolPrefix op @ ''t'')),
      (''cfg_t'', Some (o_SymbolPrefix op @ ''cfg_t'')),
      (''crc_reflect_function'', Some (o_SymbolPrefix op @ ''reflect'')),
      (''crc_table_gen_function'', Some (o_SymbolPrefix op @ ''table_gen'')),
      (''crc_init_function'', Some (o_SymbolPrefix op @ ''init'')),
      (''crc_update_function'', Some (o_SymbolPrefix op @ ''update'')),
      (''crc_finalize_function'', Some (o_SymbolPrefix op @ ''finalize''))]"

definition SymbolTable_init :: "options \<Rightarrow> string \<Rightarrow> sym_table \<Rightarrow> sym_table res" where
  "SymbolTable_init op datetime table =
     bind_res (get_include_file op) (\<lambda>include_file.
       Inr (foldl (\<lambda>t (k, v). t(k \<mapsto> v)) table
         (map (\<lambda>(k, v). (k, Some v)) (param_terminals op datetime @ cfg_terminals) @
          name_terminals op include_file)))"

definition getTerminal :: "options \<Rightarrow> sym_table get_terminal" where
  "getTerminal op table name =
     (if name = [] then Inr (Some [], table)
      else case table name of
        Some v \<Rightarrow> Inr (v, table)
      | None \<Rightarrow>
          bind_res (compute_terminal op name) (\<lambda>key.
            case key of
              Some s \<Rightarrow> Inr (Some s, table(name \<mapsto> Some s))
            | None \<Rightarrow> Inl LookupError))"

end
