(* ===== verification/SymbolSource.thy ===== *)
theory SymbolSource
  imports Parser
begin

text \<open>
  The interface between the macro processor and its symbol table.  A symbol source answers every
  name with a value that does not depend on its state, or with an exception; the state it moves to
  keeps its invariant.  Under this contract the text the processor produces is a function of the
  input and the values alone.
\<close>

locale symbol_source =
  fixes gt :: "'t get_terminal"
    and inv :: "'t \<Rightarrow> bool"
    and val :: "string \<Rightarrow> string option res"
  assumes value_known: "inv t \<Longrightarrow> val n = Inr v \<Longrightarrow> \<exists>t'. gt t n = Inr (v, t') \<and> inv t'"
    and value_error: "inv t \<Longrightarrow> val n = Inl e \<Longrightarrow> gt t n = Inl e"

section \<open>Texts without macros\<close>

text \<open>Characters that begin no special sequence.\<close>

definition plain :: "string \<Rightarrow> bool" where
  "plain s \<longleftrightarrow> list_all (\<lambda>c. c \<noteq> CHR ''$'' \<and> c \<noteq> CHR ''{'' \<and> c \<noteq> CHR '':'') s"

lemma plain_simps [simp]:
  "plain []"
  "plain (c # s) \<longleftrightarrow> c \<noteq> CHR ''$'' \<and> c \<noteq> CHR ''{'' \<and> c \<noteq> CHR '':'' \<and> plain s"
  "plain (s @ t) \<longleftrightarrow> plain s \<and> plain t"
  by (auto simp: plain_def)

lemma str_find_plain:
  assumes "plain p" and "q \<in> {''$'', ''{:'', '':}''}"
  shows "str_find q (p @ s) = (if str_find q s < 0 then -1 else int (length p) + str_find q s)"
  using assms(1)
proof (induction p)
  case Nil
  have "str_find q s < 0 \<Longrightarrow> str_find q s = -1"
    by (induction s) (auto simp: Let_def split: if_splits)
  then show ?case by simp
next
  case (Cons c p)
  then have "\<not> startswith (c # p @ s) q"
    using assms(2) by (auto simp: startswith_def)
  with Cons show ?case by (simp add: Let_def)
qed

lemma str_find_nonneg: "str_find q s \<ge> -1"
  by (induction s) (auto simp: Let_def)

lemma special_pos_plain:
  assumes "plain p"
  shows "special_pos (p @ CHR ''$'' # s) = int (length p)"
proof -
  have "str_find ''$'' (CHR ''$'' # s) = 0"
    by (simp add: startswith_def)
  then show ?thesis
    using str_find_plain [OF assms, of _ "CHR ''$'' # s"]
    by (auto simp: special_pos_def min_pos_def)
qed

lemma special_pos_all_plain: "plain p \<Longrightarrow> special_pos p < 0"
  using str_find_plain [of p _ "[]"] by (simp add: special_pos_def min_pos_def)

lemma match_id_plain: "plain (c # s) \<Longrightarrow> match_id (c # s) = None"
  by (cases s) simp_all

section \<open>Tokens of a flat text\<close>

definition at_input :: "lexer \<Rightarrow> string \<Rightarrow> bool" where
  "at_input lx s \<longleftrightarrow> input_str lx = s \<and> next_token lx = None \<and> lex_mode lx = state_gibberish"

lemma peek_EOF:
  assumes "at_input lx []"
  shows "peek lx = (tok_EOF, lx\<lparr>next_token := Some tok_EOF\<rparr>)"
  using assms by (simp add: at_input_def peek_def parse_next_def)

lemma peek_plain:
  assumes "at_input lx (c # s)" and "plain (c # s)"
  shows "peek lx = (tok_gibberish,
    lx\<lparr>input_str := [], lex_text := c # s, next_token := Some tok_gibberish\<rparr>)"
  using assms special_pos_all_plain [OF assms(2)]
  by (cases s) (auto simp: at_input_def peek_def parse_next_def parse_gibberish_token_def Let_def
      match_id_plain take_token_def split: option.splits)

lemma peek_plain_then:
  assumes "at_input lx (c # p @ CHR ''$'' # s)" and "plain (c # p)"
  shows "peek lx = (tok_gibberish, lx\<lparr>input_str := CHR ''$'' # s, lex_text := c # p,
    next_token := Some tok_gibberish\<rparr>)"
proof -
  have "match_id (c # p @ CHR ''$'' # s) = None"
    using assms(2) by (cases p) simp_all
  moreover have "special_pos (c # p @ CHR ''$'' # s) = 1 + int (length p)"
    using special_pos_plain [OF assms(2), of s] by simp
  ultimately show ?thesis
    using assms
    by (cases p) (auto simp: at_input_def peek_def parse_next_def parse_gibberish_token_def Let_def
      take_token_def nat_add_distrib)
qed

definition is_id :: "string \<Rightarrow> bool" where
  "is_id n = (case n of [] \<Rightarrow> False | c # s \<Rightarrow> is_alpha c \<and> list_all is_id_char s)"

definition no_id_char :: "string \<Rightarrow> bool" where
  "no_id_char s = (case s of [] \<Rightarrow> True | c # _ \<Rightarrow> \<not> is_id_char c)"

lemma peek_id:
  assumes "at_input lx (CHR ''$'' # n @ s)" and "is_id n" and "no_id_char s"
  shows "peek lx = (tok_identifier, lx\<lparr>input_str := s, lex_text := n,
    next_token := Some tok_identifier\<rparr>)"
proof -
  obtain c m where n: "n = c # m" "is_alpha c" "list_all is_id_char m"
    using assms(2) by (cases n) (auto simp: is_id_def)
  have "takeWhile is_id_char (m @ s) = m"
    using n(3) assms(3) by (induction m) (auto simp: no_id_char_def split: list.splits)
  then have "match_id (CHR ''$'' # n @ s) = Some (CHR ''$'' # n)"
    using n by simp
  then show ?thesis
    using assms(1)
    by (auto simp: at_input_def peek_def parse_next_def parse_gibberish_token_def Let_def take_token_def)
qed

section \<open>Flat templates\<close>

text \<open>A template of plain texts and identifiers, as the program writes it and as it is expanded.\<close>

datatype piece = Txt string | Sym string

fun flat_text :: "piece list \<Rightarrow> string" where
  "flat_text [] = []"
| "flat_text (Txt s # ps) = s @ flat_text ps"
| "flat_text (Sym n # ps) = CHR ''$'' # n @ flat_text ps"

fun flat_ok :: "piece list \<Rightarrow> bool" where
  "flat_ok [] = True"
| "flat_ok (Txt s # ps) = (plain s \<and> flat_ok ps)"
| "flat_ok (Sym n # ps) = (is_id n \<and> n \<noteq> ''if'' \<and> no_id_char (flat_text ps) \<and> flat_ok ps)"

fun flat_out :: "(string \<Rightarrow> string) \<Rightarrow> piece list \<Rightarrow> string" where
  "flat_out v [] = []"
| "flat_out v (Txt s # ps) = s @ flat_out v ps"
| "flat_out v (Sym n # ps) = v n @ flat_out v ps"

lemma parse_data_EOF:
  assumes "at_input (p_lex st) []"
  shows "parse_data gt argv0 (Suc n) dp st =
    ret (st\<lparr>p_lex := (p_lex st)\<lparr>next_token := Some tok_EOF\<rparr>\<rparr>)"
  using peek_EOF [OF assms] by (simp add: p_peek_def)

lemma parse_data_text:
  assumes "peek (p_lex st) = (tok_gibberish, lx\<lparr>next_token := t\<rparr>)" and "next_token lx = None"
  shows "parse_data gt argv0 (Suc n) True st =
    parse_data gt argv0 n True (st\<lparr>p_lex := lx, p_out := p_out st @ lex_text lx\<rparr>)"
proof -
  have "lx\<lparr>next_token := None\<rparr> = lx"
    using assms(2) by (cases lx) simp
  then show ?thesis
    using assms(1) by (cases st)
      (simp add: p_peek_def parse_gibberish_def on_lex_def advance_def p_text_def)
qed

context symbol_source
begin

lemma parse_data_sym:
  assumes "inv (p_sym st)" and "val x = Inr (Some v)" and "x \<noteq> ''if''"
    and "at_input (p_lex st) (CHR ''$'' # x @ s)" and "is_id x" and "no_id_char s"
  shows "\<exists>st'. parse_data gt argv0 (Suc n) True st = parse_data gt argv0 n True st' \<and>
    at_input (p_lex st') (v @ s) \<and> p_out st' = p_out st \<and> inv (p_sym st')"
proof -
  obtain t' where "gt (p_sym st) x = Inr (Some v, t')" and "inv t'"
    using value_known assms(1,2) by blast
  then show ?thesis
    using peek_id [OF assms(4-6)] assms(3,4)
    by (auto simp: p_peek_def p_text_def parse_identifier_def lookup_terminal_def on_lex_def
        advance_def prepend_def at_input_def Let_def)
qed

text \<open>A flat template whose values are plain is replaced piece by piece; two rounds of the loop per
  piece are enough.\<close>

lemma parse_data_flat:
  assumes "inv (p_sym st)" and "at_input (p_lex st) (p @ flat_text ps)"
    and "plain p" and "flat_ok ps" and "2 * length ps + 2 \<le> n"
    and "\<And>x. Sym x \<in> set ps \<Longrightarrow> val x = Inr (Some (v x)) \<and> plain (v x)"
  shows "\<exists>st'. parse_data gt argv0 n True st = ret st' \<and> inv (p_sym st') \<and>
    p_out st' = p_out st @ p @ flat_out v ps \<and> next_token (p_lex st') = Some tok_EOF"
  using assms
proof (induction ps arbitrary: p st n)
  case Nil
  then obtain m where n: "n = Suc (Suc m)"
    using le_Suc_ex [of 2 n] by auto
  show ?case
  proof (cases p)
    case Nil': Nil
    then show ?thesis
      using Nil.prems by (simp add: n parse_data_EOF del: parse_data.simps)
  next
    case (Cons c q)
    let ?lx = "(p_lex st)\<lparr>input_str := [], lex_text := c # q\<rparr>"
    have "peek (p_lex st) = (tok_gibberish, ?lx\<lparr>next_token := Some tok_gibberish\<rparr>)"
      using peek_plain [of "p_lex st" c q] Nil.prems Cons by simp
    moreover have at: "at_input ?lx []" and none: "next_token ?lx = None"
      using Nil.prems(2) by (simp_all add: at_input_def)
    ultimately show ?thesis
      using Nil.prems Cons parse_data_EOF [of "st\<lparr>p_lex := ?lx, p_out := p_out st @ p\<rparr>"]
      by (simp add: n parse_data_text del: parse_data.simps)
  qed
next
  case (Cons a ps)
  show ?case
  proof (cases a)
    case (Txt s)
    then show ?thesis
      using Cons.IH [of st "p @ s" n] Cons.prems by simp
  next
    case (Sym x)
    then have x: "val x = Inr (Some (v x))" "plain (v x)" "x \<noteq> ''if''" "is_id x"
      "no_id_char (flat_text ps)"
      using Cons.prems(4,6) by auto
    have sym: "\<exists>st'. parse_data gt argv0 (Suc k) True st1 = ret st' \<and> inv (p_sym st') \<and>
        p_out st' = p_out st1 @ flat_out v (a # ps) \<and> next_token (p_lex st') = Some tok_EOF"
      if i: "inv (p_sym st1)" and a: "at_input (p_lex st1) (CHR ''$'' # x @ flat_text ps)"
        and k: "2 * length ps + 2 \<le> k" for st1 k
    proof -
      obtain st2 where "parse_data gt argv0 (Suc k) True st1 = parse_data gt argv0 k True st2"
        "at_input (p_lex st2) (v x @ flat_text ps)" "p_out st2 = p_out st1" "inv (p_sym st2)"
        using parse_data_sym [OF i x(1,3) a x(4,5)] by blast
      then show ?thesis
        using Cons.IH [of st2 "v x" k] x(2) Cons.prems(4,6) k Sym by simp
    qed
    obtain k where n: "n = Suc (Suc k)" "2 * length ps + 2 \<le> k"
      using Cons.prems(5) le_Suc_ex [of 2 n] by auto
    show ?thesis
    proof (cases p)
      case Nil
      then show ?thesis
        using sym [of st "Suc k"] Cons.prems(1,2) n Sym by simp
    next
      case p: (Cons c q)
      let ?lx = "(p_lex st)\<lparr>input_str := CHR ''$'' # x @ flat_text ps, lex_text := c # q\<rparr>"
      have "peek (p_lex st) = (tok_gibberish, ?lx\<lparr>next_token := Some tok_gibberish\<rparr>)"
        using peek_plain_then [of "p_lex st" c q "x @ flat_text ps"] Cons.prems(2,3) p Sym by simp
      moreover have "at_input ?lx (CHR ''$'' # x @ flat_text ps)" and none: "next_token ?lx = None"
        using Cons.prems(2) by (simp_all add: at_input_def)
      ultimately show ?thesis
        using sym [of "st\<lparr>p_lex := ?lx, p_out := p_out st @ p\<rparr>" k] Cons.prems(1) n p
        by (simp add: parse_data_text del: parse_data.simps)
    qed
  qed
qed

lemma parse_flat:
  assumes "inv (p_sym st)" and "lex_mode (p_lex st) = state_gibberish"
    and "flat_ok ps" and "2 * length ps + 2 \<le> n"
    and "\<And>x. Sym x \<in> set ps \<Longrightarrow> val x = Inr (Some (v x)) \<and> plain (v x)"
  shows "\<exists>st'. parse gt argv0 n (flat_text ps) st = ret (None, st') \<and> p_out st' = flat_out v ps \<and>
    inv (p_sym st')"
proof -
  let ?st = "st\<lparr>p_lex := set_str (flat_text ps) (p_lex st), p_out := []\<rparr>"
  have "at_input (p_lex ?st) ([] @ flat_text ps)" and "inv (p_sym ?st)"
    using assms(1,2) by (simp_all add: at_input_def set_str_def)
  then obtain st' where st': "parse_data gt argv0 n True ?st = ret st'"
    "p_out st' = flat_out v ps" "next_token (p_lex st') = Some tok_EOF" "inv (p_sym st')"
    using parse_data_flat [of ?st "[]" ps n v argv0] assms(3-5) by auto
  moreover have "p_peek st' = (tok_EOF, st')"
    using st'(3) by (simp add: p_peek_def peek_def)
  ultimately show ?thesis
    by (simp add: parse_def)
qed

end

end
