(* ===== verification/Caching.thy ===== *)
theory Caching
  imports SymbolSource
begin

text \<open>
  The macro processor over a symbol source with state against the same processor over a pure
  function: the runs agree in result, output and exception, for every amount of fuel.
\<close>

section \<open>Related runs\<close>

definition pure_symbols :: "(string \<Rightarrow> string option res) \<Rightarrow> unit get_terminal" where
  "pure_symbols val t n = bind_res (val n) (\<lambda>v. Inr (v, ()))"

inductive rel_run :: "('a \<Rightarrow> 'b \<Rightarrow> bool) \<Rightarrow> 'a run \<Rightarrow> 'b run \<Rightarrow> bool" for Q where
  rel_none [simp, intro]: "rel_run Q None None"
| rel_raise [simp, intro]: "rel_run Q (raise_exn e) (raise_exn e)"
| rel_ret: "Q x y \<Longrightarrow> rel_run Q (ret x) (ret y)"

inductive_simps rel_run_ret [simp]: "rel_run Q (ret x) (ret y)"

lemma rel_bind:
  assumes "rel_run Q r s" and "\<And>x y. Q x y \<Longrightarrow> rel_run Q' (f x) (g y)"
  shows "rel_run Q' (bind_run r f) (bind_run s g)"
  using assms by (cases rule: rel_run.cases) auto

lemma rel_parse_error [simp, intro]: "rel_run Q (parse_error a m t) (parse_error a m t)"
  by (simp add: parse_error_def)

lemma rel_if:
  assumes "P = P'" and "P' \<Longrightarrow> rel_run Q A A'" and "\<not> P' \<Longrightarrow> rel_run Q B B'"
  shows "rel_run Q (if P then A else B) (if P' then A' else B')"
  using assms by simp

text \<open>A state without its symbol table.\<close>

definition erase :: "'t pstate \<Rightarrow> unit pstate" where
  "erase st = \<lparr>p_lex = p_lex st, p_sym = (), p_out = p_out st\<rparr>"

context symbol_source
begin

definition rel :: "'t pstate \<Rightarrow> unit pstate \<Rightarrow> bool" where
  "rel st u \<longleftrightarrow> p_lex st = p_lex u \<and> p_out st = p_out u \<and> inv (p_sym st)"

definition rel2 :: "'a \<times> 't pstate \<Rightarrow> 'a \<times> unit pstate \<Rightarrow> bool" where
  "rel2 x y \<longleftrightarrow> fst x = fst y \<and> rel (snd x) (snd y)"

definition rel3 :: "'a \<times> 'b \<times> 't pstate \<Rightarrow> 'a \<times> 'b \<times> unit pstate \<Rightarrow> bool" where
  "rel3 x y \<longleftrightarrow> fst x = fst y \<and> rel2 (snd x) (snd y)"

lemma rel_text: "rel st u \<Longrightarrow> p_text st = p_text u"
  by (simp add: rel_def p_text_def)

lemma rel_on_lex [intro]: "rel st u \<Longrightarrow> rel (on_lex f st) (on_lex f u)"
  by (simp add: rel_def on_lex_def)

lemma rel_gibberish: "rel st u \<Longrightarrow> rel (parse_gibberish dp st) (parse_gibberish dp u)"
  by (simp add: rel_def parse_gibberish_def on_lex_def p_text_def)

lemma rel_peek:
  assumes "rel st u" and "\<And>tok s s'. rel s s' \<Longrightarrow> rel_run Q (F tok s) (G tok s')"
  shows "rel_run Q (case p_peek st of (tok, s) \<Rightarrow> F tok s) (case p_peek u of (tok, s) \<Rightarrow> G tok s)"
proof -
  obtain tok lx where "peek (p_lex u) = (tok, lx)" by fastforce
  with assms show ?thesis
    by (simp add: p_peek_def rel_def)
qed

lemma rel_bind1:
  assumes "rel_run rel r s" and "\<And>x y. rel x y \<Longrightarrow> rel_run Q (f x) (g y)"
  shows "rel_run Q (bind_run r f) (bind_run s g)"
  using assms by (rule rel_bind)

lemma rel_bind2:
  assumes "rel_run rel2 r s" and "\<And>v x y. rel x y \<Longrightarrow> rel_run Q (f v x) (g v y)"
  shows "rel_run Q (bind_run r (\<lambda>(v, x). f v x)) (bind_run s (\<lambda>(v, y). g v y))"
  using assms by (auto simp: rel2_def intro!: rel_bind [OF assms(1)])

lemma rel_bind3:
  assumes "rel_run rel3 r s" and "\<And>v w x y. rel x y \<Longrightarrow> rel_run Q (f v w x) (g v w y)"
  shows "rel_run Q (bind_run r (\<lambda>(v, w, x). f v w x)) (bind_run s (\<lambda>(v, w, y). g v w y))"
  using assms by (auto simp: rel2_def rel3_def intro!: rel_bind [OF assms(1)])

lemma rel_lookup:
  assumes "rel st u"
  shows "rel_run rel2 (lookup_terminal gt a st) (lookup_terminal (pure_symbols val) a u)"
proof (cases "val (p_text st)")
  case (Inl e)
  then show ?thesis
    using value_error [of "p_sym st" "p_text st" e] assms rel_text [OF assms]
    by (cases e) (simp_all add: lookup_terminal_def pure_symbols_def rel_def)
next
  case (Inr v)
  then obtain t' where "gt (p_sym st) (p_text st) = Inr (v, t')" and "inv t'"
    using value_known assms by (meson rel_def)
  with Inr show ?thesis
    using assms rel_text [OF assms] by (simp add: lookup_terminal_def pure_symbols_def rel_def rel2_def)
qed

lemma rel_identifier:
  assumes "rel st u"
  shows "rel_run rel (parse_identifier gt a dp st) (parse_identifier (pure_symbols val) a dp u)"
  unfolding parse_identifier_def
  by (intro rel_bind2 rel_lookup assms) (auto simp: Let_def split: option.splits)

lemmas rel_intros = rel_bind3 rel_bind2 rel_bind1 rel_peek rel_if

section \<open>Expressions\<close>

definition rel_exp :: "string \<Rightarrow> nat \<Rightarrow> bool" where
  "rel_exp a n \<longleftrightarrow> (\<forall>st u r. rel st u \<longrightarrow>
     rel_run rel2 (parse_exp_or gt a n r st) (parse_exp_or (pure_symbols val) a n r u) \<and>
     rel_run rel2 (parse_exp_and gt a n r st) (parse_exp_and (pure_symbols val) a n r u) \<and>
     rel_run rel2 (parse_exp_comparison gt a n st) (parse_exp_comparison (pure_symbols val) a n u) \<and>
     rel_run rel2 (parse_exp_term gt a n st) (parse_exp_term (pure_symbols val) a n u))"

lemma rel_expD:
  assumes "rel_exp a n" and "rel st u"
  shows "rel_run rel2 (parse_exp_or gt a n r st) (parse_exp_or (pure_symbols val) a n r u)"
    and "rel_run rel2 (parse_exp_and gt a n r st) (parse_exp_and (pure_symbols val) a n r u)"
    and "rel_run rel2 (parse_exp_comparison gt a n st) (parse_exp_comparison (pure_symbols val) a n u)"
    and "rel_run rel2 (parse_exp_term gt a n st) (parse_exp_term (pure_symbols val) a n u)"
  using assms by (auto simp: rel_exp_def)

lemma rel_exp_step: "rel_exp a n \<Longrightarrow> rel_exp a (Suc n)"
  unfolding rel_exp_def [of a "Suc n"] parse_exp_or.simps parse_exp_and.simps
    parse_exp_comparison.simps parse_exp_term.simps Let_def
  by (intro allI impI conjI rel_intros rel_expD rel_lookup rel_on_lex; (assumption | fact)?)
    (auto simp: rel2_def rel_text split: sum.splits option.splits)

lemma rel_exp_all: "rel_exp a n"
  by (induction n) (simp_all add: rel_exp_step, simp add: rel_exp_def)

section \<open>Blocks\<close>

definition rel_blocks :: "string \<Rightarrow> nat \<Rightarrow> bool" where
  "rel_blocks a n \<longleftrightarrow> (\<forall>st u dp. rel st u \<longrightarrow>
     rel_run rel (parse_data gt a n dp st) (parse_data (pure_symbols val) a n dp u) \<and>
     rel_run rel (parse_if_block gt a n dp st) (parse_if_block (pure_symbols val) a n dp u) \<and>
     rel_run rel3 (parse_elifs gt a n dp st) (parse_elifs (pure_symbols val) a n dp u) \<and>
     rel_run rel2 (parse_conditional_block gt a n dp st)
       (parse_conditional_block (pure_symbols val) a n dp u) \<and>
     rel_run rel (parse_data_block gt a n dp st) (parse_data_block (pure_symbols val) a n dp u))"

lemma rel_blocksD:
  assumes "rel_blocks a n" and "rel st u"
  shows "rel_run rel (parse_data gt a n dp st) (parse_data (pure_symbols val) a n dp u)"
    and "rel_run rel (parse_if_block gt a n dp st) (parse_if_block (pure_symbols val) a n dp u)"
    and "rel_run rel3 (parse_elifs gt a n dp st) (parse_elifs (pure_symbols val) a n dp u)"
    and "rel_run rel2 (parse_conditional_block gt a n dp st)
       (parse_conditional_block (pure_symbols val) a n dp u)"
    and "rel_run rel (parse_data_block gt a n dp st) (parse_data_block (pure_symbols val) a n dp u)"
  using assms by (auto simp: rel_blocks_def)

lemma rel_blocks_step: "rel_blocks a n \<Longrightarrow> rel_blocks a (Suc n)"
  unfolding rel_blocks_def [of a "Suc n"] parse_data.simps parse_if_block.simps parse_elifs.simps
    parse_conditional_block.simps parse_data_block.simps Let_def
  by (intro allI impI conjI rel_intros rel_blocksD rel_expD rel_exp_all rel_identifier
        rel_gibberish rel_on_lex; (assumption | fact)?)
    (auto simp: rel2_def rel3_def rel_text)

lemma rel_blocks_all: "rel_blocks a n"
  by (induction n) (simp_all add: rel_blocks_step, simp add: rel_blocks_def)

section \<open>The processor\<close>

lemma parse_rel:
  assumes "inv (p_sym st)"
  shows "rel_run rel2 (parse gt a n s st) (parse (pure_symbols val) a n s (erase st))"
proof -
  have "rel (st\<lparr>p_lex := set_str s (p_lex st), p_out := []\<rparr>)
      ((erase st)\<lparr>p_lex := set_str s (p_lex (erase st)), p_out := []\<rparr>)"
    using assms by (simp add: rel_def erase_def)
  then show ?thesis
    unfolding parse_def
    by (intro rel_bind1 rel_blocksD(1) [OF rel_blocks_all] rel_peek rel_if; (assumption | fact)?)
      (auto simp: rel_text rel2_def)
qed

end

end
