(* ===== verification/CheckSum.thy ===== *)
theory CheckSum
  imports Options
begin

text \<open>
  The checksum functions of \<open>python/pycrc/pycrc.py\<close>: \<open>check_string\<close>, \<open>check_hexstring\<close>,
  \<open>crc_file_update\<close> and \<open>check_file\<close>.  They write attributes of the \<open>Options\<close> object, so they
  return it with the result.  A file is what the system calls of \<open>check_file\<close> see of it: whether
  \<open>open\<close> succeeds, and the results of the successive \<open>read\<close>s, \<open>None\<close> for an \<open>IOError\<close>.
\<close>

unbundle bit_operations_syntax

section \<open>Strings\<close>

text \<open>The \<open>Crc\<close> object for the options.  A missing parameter is a \<open>None\<close> in its arithmetic.\<close>

definition opt_crc :: "options \<Rightarrow> crc res" where
  "opt_crc op =
     (case (o_Width op, o_Poly op, o_XorIn op, o_XorOut op, o_ReflectIn op, o_ReflectOut op) of
        (Some w, Some p, Some xi, Some xo, Some ri, Some ro) \<Rightarrow>
          Crc_init w p ri xi ro xo (Some (o_TableIdxWidth op))
      | _ \<Rightarrow> Inl TypeError)"

text \<open>The local variables \<open>crc\<close> and \<open>error\<close>, and how each algorithm's result updates them.\<close>

definition note_sum :: "int \<Rightarrow> int option \<times> bool \<Rightarrow> int option \<times> bool" where
  "note_sum v st = (case st of (crc, err) \<Rightarrow>
     (Some v, if crc \<noteq> None \<and> Some v \<noteq> crc then True else err))"

definition sum_line :: "bool \<Rightarrow> string \<Rightarrow> int \<Rightarrow> string" where
  "sum_line shown label v =
     (if shown then ''       '' @ label @ ''0x'' @ py_hex v @ [CHR 0x0A] else [])"

definition check_string :: "string \<Rightarrow> options \<Rightarrow> (int option \<times> options) res" where
  "check_string argv0 op =
     (if o_UndefinedCrcParameters op then exit_error argv0 [] ''undefined parameters''
      else
        let op1 = (if o_Algorithm op = 0
              then op\<lparr>o_Algorithm := Algo_Bit_by_Bit OR Algo_Bit_by_Bit_Fast OR Algo_Table_Driven\<rparr>
              else op);
            bbb = (o_Algorithm op1 AND Algo_Bit_by_Bit \<noteq> 0);
            bbf = (o_Algorithm op1 AND Algo_Bit_by_Bit_Fast \<noteq> 0);
            tbl = (o_Algorithm op1 AND Algo_Table_Driven \<noteq> 0)
        in bind_res (opt_crc op1) (\<lambda>alg.
             let s = o_CheckString op1;
                 bbb_crc = bit_by_bit alg s;
                 st1 = (if bbb then note_sum bbb_crc (None, False) else (None, False));
                 bbf_crc = bit_by_bit_fast alg s;
                 st2 = (if bbf then note_sum bbf_crc st1 else st1);
                 op2 = (if tbl then op1\<lparr>o_TableIdxWidth := 8\<rparr> else op1)
             in bind_res (if tbl then table_driven alg s else Inr 0) (\<lambda>tbl_crc.
                  let (crc, err) = (if tbl then note_sum tbl_crc st2 else st2)
                  in if err
                     then Inl (SystemExit 1 (say argv0 ''error: different checksums!'' @
                       sum_line bbb ''bit-by-bit:        '' bbb_crc @
                       sum_line bbf ''bit-by-bit-fast:   '' bbf_crc @
                       sum_line tbl ''table_driven:      '' tbl_crc))
                     else Inr (crc, op2))))"

section \<open>Hexadecimal strings\<close>

text \<open>\<open>binascii.unhexlify\<close> raises \<open>TypeError\<close> in Python 2.\<close>

fun unhexlify :: "string \<Rightarrow> string res" where
  "unhexlify [] = Inr []"
| "unhexlify [c] = Inl TypeError"
| "unhexlify (c # d # s) =
     (if is_base_digit 16 c \<and> is_base_digit 16 d
      then bind_res (unhexlify s) (\<lambda>t.
        Inr (char_of (16 * the (digit_val c) + the (digit_val d)) # t))
      else Inl TypeError)"

definition check_hexstring :: "string \<Rightarrow> options \<Rightarrow> (int option \<times> options) res" where
  "check_hexstring argv0 op =
     (if o_UndefinedCrcParameters op then exit_error argv0 [] ''undefined parameters''
      else
        let op1 = (if length (o_CheckString op) mod 2 \<noteq> 0
              then op\<lparr>o_CheckString := ''0'' @ o_CheckString op\<rparr> else op)
        in case unhexlify (o_CheckString op1) of
             Inl TypeError \<Rightarrow> exit_error argv0 [] (''invalid hex string '' @ o_CheckString op1)
           | Inl e \<Rightarrow> Inl e
           | Inr check_str \<Rightarrow> check_string argv0 (op1\<lparr>o_CheckString := check_str\<rparr>))"

section \<open>Files\<close>

definition file_bit :: "crc \<Rightarrow> int \<Rightarrow> int \<Rightarrow> nat \<Rightarrow> int" where
  "file_bit alg octet register j =
     (let topbit = register AND MSB_Mask alg;
          register' = push_bit 1 register;
          topbit' = (if octet AND drop_bit j 0x80 \<noteq> 0 then topbit XOR MSB_Mask alg else topbit)
      in if topbit' \<noteq> 0 then register' XOR Poly alg else register')"

definition file_octet :: "crc \<Rightarrow> int \<Rightarrow> char \<Rightarrow> int" where
  "file_octet alg register ch =
     (let octet = (if ReflectIn alg then reflect (ord ch) 8 else ord ch)
      in foldl (file_bit alg octet) register [0..<8] AND Mask alg)"

definition crc_file_update :: "crc \<Rightarrow> int \<Rightarrow> string \<Rightarrow> int" where
  "crc_file_update alg register check_str = foldl (file_octet alg) register check_str"

text \<open>The results of \<open>read\<close> in order; after the last one \<open>read\<close> returns the empty string.\<close>

fun read_loop :: "string \<Rightarrow> string \<Rightarrow> crc \<Rightarrow> int \<Rightarrow> string option list \<Rightarrow> int res" where
  "read_loop argv0 name alg register [] = Inr register"
| "read_loop argv0 name alg register (None # reads) =
     exit_error argv0 [] (''can't open read '' @ name)"
| "read_loop argv0 name alg register (Some check_str # reads) =
     (if length check_str = 0 then Inr register
      else read_loop argv0 name alg (crc_file_update alg register check_str) reads)"

definition file_init :: "crc \<Rightarrow> int \<Rightarrow> int" where
  "file_init alg xor_in = (if \<not> ReflectIn alg then xor_in else reflect xor_in (Width alg))"

definition check_file ::
  "string \<Rightarrow> (string \<Rightarrow> string option list option) \<Rightarrow> options \<Rightarrow> (int \<times> options) res" where
  "check_file argv0 files op =
     (if o_UndefinedCrcParameters op then exit_error argv0 [] ''undefined parameters''
      else bind_res (opt_crc op) (\<lambda>alg.
        case o_CheckFile op of
          None \<Rightarrow> Inl TypeError
        | Some name \<Rightarrow>
            (case files name of
               None \<Rightarrow> exit_error argv0 [] (''can't open file '' @ name)
             | Some reads \<Rightarrow>
                 bind_res (read_loop argv0 name alg (file_init alg (XorIn alg)) reads) (\<lambda>register.
                 let register' = (if ReflectOut alg then reflect register (Width alg) else register)
                 in Inr (register' XOR XorOut alg, op)))))"

section \<open>The string functions\<close>

lemma options_okD:
  assumes "options_ok op"
  shows "case o_Width op of
        None \<Rightarrow> o_MSB_Mask op = None \<and> o_Mask op = None \<and> o_UndefinedCrcParameters op
      | Some w \<Rightarrow> 0 < w \<and> o_MSB_Mask op = Some (2 ^ (nat w - 1)) \<and> o_Mask op = Some (mask (nat w)) \<and>
          fits w (o_Poly op) \<and> fits w (o_XorIn op) \<and> fits w (o_XorOut op)"
    and "\<not> o_UndefinedCrcParameters op \<longrightarrow> o_Width op \<noteq> None \<and> o_Poly op \<noteq> None \<and>
        o_ReflectIn op \<noteq> None \<and> o_XorIn op \<noteq> None \<and> o_ReflectOut op \<noteq> None \<and> o_XorOut op \<noteq> None"
    and "needs_params (o_Action op) \<longrightarrow> \<not> o_UndefinedCrcParameters op"
    and "o_TableIdxWidth op \<in> {1, 2, 4, 8}"
    and "o_Algorithm op \<in> {0, 1, 2, 4, 7}"
  using assms unfolding options_ok_def by - (elim conjE, assumption)+

lemma opt_crc_ok:
  assumes "options_ok op" and "\<not> o_UndefinedCrcParameters op"
  shows "\<exists>c. opt_crc op = Inr c \<and> wf_crc c \<and> o_Poly op = Some (Poly c) \<and>
    o_XorIn op = Some (XorIn c) \<and> TableIdxWidth c = nat (o_TableIdxWidth op) \<and>
    o_ReflectIn op = Some (ReflectIn c) \<and> o_XorOut op = Some (XorOut c) \<and>
    o_ReflectOut op = Some (ReflectOut c) \<and> o_Width op = Some (int (Width c))"
proof -
  obtain w p ri xi ro xo where s: "o_Width op = Some w" "o_Poly op = Some p"
    "o_ReflectIn op = Some ri" "o_XorIn op = Some xi" "o_ReflectOut op = Some ro"
    "o_XorOut op = Some xo"
    using options_okD(2) [OF assms(1)] assms(2) by blast
  have r: "0 < w" "0 \<le> p" "p < 2 ^ nat w" "0 \<le> xi" "xi < 2 ^ nat w"
    using options_okD(1) [OF assms(1)] by (simp_all add: s fits_def)
  have t: "0 < o_TableIdxWidth op"
    using options_okD(4) [OF assms(1)] by auto
  have crc: "opt_crc op = Crc_init w p ri xi ro xo (Some (o_TableIdxWidth op))"
    by (simp add: opt_crc_def s)
  have "opt_crc op \<noteq> Inl e" for e
    using r(1) t by (simp add: crc crc_init_Inl_iff)
  then obtain c where c: "opt_crc op = Inr c"
    by (cases "opt_crc op") auto
  show ?thesis
    using crc_init_wf [OF c [unfolded crc] r(2-5)] by (simp add: c s)
qed

lemma opt_crc_update [simp]:
  "opt_crc (op\<lparr>o_Algorithm := a\<rparr>) = opt_crc op"
  "opt_crc (op\<lparr>o_CheckFile := f\<rparr>) = opt_crc op"
  "opt_crc (op\<lparr>o_CheckString := s\<rparr>) = opt_crc op"
  by (simp_all add: opt_crc_def split: option.split)

text \<open>The checks run with index width 8 and one, two or three of the algorithms.\<close>

lemma check_string_result:
  assumes "options_ok op" and "\<not> o_UndefinedCrcParameters op" and "o_TableIdxWidth op = 8"
    and "opt_crc op = Inr c" and "odd (Poly c)"
  shows "\<exists>op'. check_string argv0 op = Inr (Some (bit_by_bit c (o_CheckString op)), op') \<and>
    op' = op\<lparr>o_Algorithm := (if o_Algorithm op = 0 then 7 else o_Algorithm op)\<rparr>"
proof -
  obtain c' where "opt_crc op = Inr c'" and "wf_crc c'" and "TableIdxWidth c' = 8"
    using opt_crc_ok [OF assms(1,2)] assms(3) by auto
  then have c: "wf_table c"
    using assms(4) by (simp add: wf_table_def)
  have alg: "o_Algorithm op \<in> {0, 1, 2, 4, 7}"
    by (rule options_okD(5) [OF assms(1)])
  have eq: "bit_by_bit_fast c s = bit_by_bit c s" "table_driven c s = Inr (bit_by_bit c s)" for s
    using c assms(5) wf_tableD(1) [OF c]
    by (simp_all add: bit_by_bit_register bit_by_bit_fast_register table_driven_register)
  have idx: "op\<lparr>o_TableIdxWidth := 8\<rparr> = op" using assms(3) by simp
  have upd: "op\<lparr>o_TableIdxWidth := 8, o_Algorithm := a\<rparr> = op\<lparr>o_Algorithm := a\<rparr>" for a
    using assms(3) by (cases op) simp
  from alg show ?thesis
    using assms(2-4) eq
    by (auto simp: check_string_def note_sum_def Let_def idx upd)
qed

text \<open>C21: on validated options with an odd polynomial \<open>check_string\<close> returns the checksum of the string,
  whatever the choice of algorithms; it never ends with different checksums.\<close>

theorem check_string_checksum:
  assumes "options_ok op" and "\<not> o_UndefinedCrcParameters op" and "o_TableIdxWidth op = 8"
    and "opt_crc op = Inr c" and "odd (Poly c)"
  shows "\<exists>op'. check_string argv0 op = Inr (Some (bit_by_bit c (o_CheckString op)), op')"
  using check_string_result [OF assms] by blast

text \<open>The options of an accepted command line, for the instances below.\<close>

definition ccitt_values :: opt_values where
  "ccitt_values = default_values\<lparr>v_width := Some 16, v_poly := Some 0x1021,
     v_reflect_in := Some False, v_xor_in := Some 0xffff, v_reflect_out := Some False,
     v_xor_out := Some 0\<rparr>"

lemma ccitt_acceptable: "acceptable ccitt_values []"
proof -
  note py_all_C99
  then show ?thesis
    by (simp add: acceptable_def default_values_def tiw_ok_def width_ok_def algo_mask_def
        std_name_def generate_ok_def action_count_def params_given_def ccitt_values_def)
qed

lemma ccitt_options:
  "options_ok (accepted_options ccitt_values)"
  "\<not> o_UndefinedCrcParameters (accepted_options ccitt_values)"
  "o_TableIdxWidth (accepted_options ccitt_values) = 8"
  using accepted_options_ok [OF ccitt_acceptable]
  by (simp_all add: accepted_options_def ccitt_values_def default_values_def params_given_def)

lemma ccitt_opt_crc:
  "\<exists>c. opt_crc (accepted_options ccitt_values) = Inr c \<and> wf_crc c \<and> odd (Poly c) \<and> \<not> ReflectIn c"
proof -
  obtain c where "opt_crc (accepted_options ccitt_values) = Inr c" "wf_crc c"
    "o_Poly (accepted_options ccitt_values) = Some (Poly c)"
    "o_ReflectIn (accepted_options ccitt_values) = Some (ReflectIn c)"
    using opt_crc_ok [OF ccitt_options(1,2)] by blast
  moreover have "o_Poly (accepted_options ccitt_values) = Some 0x1021"
    and "o_ReflectIn (accepted_options ccitt_values) = Some False"
    by (simp_all add: accepted_options_def ccitt_values_def default_values_def width_masked_def
        take_bit_id)
  ultimately show ?thesis by auto
qed

theorem check_string_checksum_witness:
  "\<exists>c op'. check_string ''pycrc'' (accepted_options ccitt_values) =
     Inr (Some (bit_by_bit c ''123456789''), op')"
proof -
  obtain c where "opt_crc (accepted_options ccitt_values) = Inr c" "odd (Poly c)"
    using ccitt_opt_crc by blast
  moreover have "o_CheckString (accepted_options ccitt_values) = ''123456789''"
    by (simp add: accepted_options_def ccitt_values_def default_values_def)
  ultimately show ?thesis
    using check_string_checksum [OF ccitt_options] by metis
qed

section \<open>The hexadecimal form\<close>

definition hexlify :: "string \<Rightarrow> string" where
  "hexlify s = concat (map (\<lambda>c. [digit_char (of_char c div 16), digit_char (of_char c mod 16)]) s)"

lemma hexlify_simps [simp]:
  "hexlify [] = []"
  "hexlify (c # s) = digit_char (of_char c div 16) # digit_char (of_char c mod 16) # hexlify s"
  by (simp_all add: hexlify_def)

lemma of_char_less: "of_char c < (256 :: nat)"
proof -
  have "ord c < 256"
    using ord_bound [of c] take_bit_self_iff [of 8 "ord c"] by simp
  then show ?thesis
    by (metis of_nat_less_iff of_nat_numeral of_nat_of_char)
qed

lemma unhexlify_hexlify: "unhexlify (hexlify s) = Inr s"
proof (induction s)
  case (Cons c s)
  have d: "of_char c div 16 < (16 :: nat)"
    using of_char_less [of c] by (simp add: less_mult_imp_div_less)
  then have "is_base_digit 16 (digit_char (of_char c div 16))"
    and "is_base_digit 16 (digit_char (of_char c mod 16))"
    by (simp_all add: is_base_digit_def digit_val_char)
  then show ?case
    using Cons d by (simp add: digit_val_char)
qed simp

lemma length_hexlify: "length (hexlify s) = 2 * length s"
  by (induction s) simp_all

text \<open>The checksum of a hexadecimal string is that of the bytes it encodes; a leading zero digit
  may be left out.\<close>

lemma check_hexstring_bytes:
  assumes "\<not> o_UndefinedCrcParameters op"
  shows "check_hexstring argv0 (op\<lparr>o_CheckString := hexlify s\<rparr>) =
      check_string argv0 (op\<lparr>o_CheckString := s\<rparr>) \<and>
    (hexlify s = CHR ''0'' # h \<longrightarrow>
      check_hexstring argv0 (op\<lparr>o_CheckString := h\<rparr>) = check_string argv0 (op\<lparr>o_CheckString := s\<rparr>))"
proof -
  have "length h mod 2 = 1" if "hexlify s = CHR ''0'' # h" for h
  proof -
    have "Suc (length h) = 2 * length s"
      using that length_hexlify [of s] by simp
    then show ?thesis by presburger
  qed
  then show ?thesis
    using assms unhexlify_hexlify [of s] length_hexlify [of s]
    by (auto simp: check_hexstring_def)
qed

lemma unhexlify_error: "\<not> list_all (is_base_digit 16) s \<Longrightarrow> even (length s) \<Longrightarrow> unhexlify s = Inl TypeError"
  by (induction s rule: unhexlify.induct) auto

text \<open>A check string with a character that is no hexadecimal digit ends the program with the
  message that names it.\<close>

lemma check_hexstring_invalid:
  assumes "\<not> o_UndefinedCrcParameters op" and "\<not> list_all (is_base_digit 16) (o_CheckString op)"
  shows "\<exists>s. check_hexstring argv0 op =
      Inl (SystemExit 1 (say argv0 (''error: invalid hex string '' @ s))) \<and>
    (s = o_CheckString op \<or> s = ''0'' @ o_CheckString op)"
proof -
  have "unhexlify (o_CheckString op) = Inl TypeError" if "even (length (o_CheckString op))"
    using unhexlify_error assms(2) that by blast
  moreover have "unhexlify (''0'' @ o_CheckString op) = Inl TypeError"
    if "odd (length (o_CheckString op))"
    using assms(2) that by (intro unhexlify_error) auto
  ultimately show ?thesis
    using assms(1) by (cases "even (length (o_CheckString op))")
      (auto simp: check_hexstring_def exit_error_def even_iff_mod_2_eq_zero)
qed

section \<open>Files\<close>

lemma file_octet_bbf: "file_octet c = bbf_octet c"
proof -
  have bits: "file_bit c = bbf_bit c"
    by (simp add: fun_eq_iff file_bit_def bbf_bit_def Let_def)
  show ?thesis
    by (intro ext) (simp add: bits file_octet_def bbf_octet_def in_octet_def Let_def)
qed

text \<open>The checksum of a file whose reads deliver the string \<open>s\<close>.\<close>

definition file_checksum :: "crc \<Rightarrow> string \<Rightarrow> int" where
  "file_checksum c s = out_value c (crc_file_update c (file_init c (XorIn c)) s)"

lemma read_loop_chunks:
  "read_loop argv0 name c register (map Some chunks) =
     Inr (crc_file_update c register (concat (takeWhile (\<lambda>s. s \<noteq> []) chunks)))"
  by (induction chunks arbitrary: register) (simp_all add: crc_file_update_def)

lemma read_loop_error:
  "[] \<notin> set chunks \<Longrightarrow> read_loop argv0 name c register (map Some chunks @ None # reads) =
     exit_error argv0 [] (''can't open read '' @ name)"
  by (induction chunks arbitrary: register) auto

text \<open>C20: a file is read up to the first empty read, and how it is cut into chunks does not matter: the
  result is the checksum of their concatenation.  A failing read ends the program.\<close>

theorem check_file_chunks:
  assumes "\<not> o_UndefinedCrcParameters op" and "opt_crc op = Inr c"
    and "o_CheckFile op = Some name"
  shows "(files name = Some (map Some chunks) \<longrightarrow> check_file argv0 files op =
      Inr (file_checksum c (concat (takeWhile (\<lambda>s. s \<noteq> []) chunks)), op)) \<and>
    (files name = Some (map Some chunks @ None # reads) \<and> [] \<notin> set chunks \<longrightarrow>
      check_file argv0 files op = exit_error argv0 [] (''can't open read '' @ name)) \<and>
    (files name = None \<longrightarrow>
      check_file argv0 files op = exit_error argv0 [] (''can't open file '' @ name))"
  using assms
  by (auto simp: check_file_def read_loop_chunks read_loop_error file_checksum_def out_value_def Let_def)

theorem check_file_chunks_witness:
  "\<exists>c. check_file ''pycrc'' (\<lambda>_. Some [Some ''RF'', Some ''ID'', Some []])
       ((accepted_options ccitt_values)\<lparr>o_CheckFile := Some ''f''\<rparr>) =
     Inr (file_checksum c ''RFID'', (accepted_options ccitt_values)\<lparr>o_CheckFile := Some ''f''\<rparr>)"
proof -
  let ?op = "(accepted_options ccitt_values)\<lparr>o_CheckFile := Some ''f''\<rparr>"
  obtain c where "opt_crc (accepted_options ccitt_values) = Inr c"
    using ccitt_opt_crc by blast
  then show ?thesis
    using check_file_chunks [of ?op c "''f''" "\<lambda>_. Some [Some ''RF'', Some ''ID'', Some []]"
        "[''RF'', ''ID'', []]" "''pycrc''"] ccitt_options(2)
    by auto
qed

lemma feed_bits_inj:
  assumes "wf_poly w p" and "odd p" and "take_bit w r = r" and "take_bit w s = s"
  shows "feed_bits w p r bs = feed_bits w p s bs \<longleftrightarrow> r = s"
  using assms(3,4)
proof (induction bs arbitrary: r s)
  case (Cons b bs)
  have "feed w p r b XOR feed w p s b = lfsr w p (r XOR s)"
    by (auto simp: feed_eq lfsr.xor intro!: int_bit_eqI simp: int_bits)
  then have "feed w p r b = feed w p s b \<longleftrightarrow> r = s"
    using lfsr_eq_0_iff [OF assms(1,2), of "r XOR s"] Cons.prems
    by (metis take_bit_self_xor xor_eq_0_iff)
  then show ?case
    using Cons.IH [of "feed w p r b" "feed w p s b"] feed_bound [OF assms(1)] by simp
qed simp

lemma file_checksum_register:
  assumes "wf_crc c"
  shows "file_checksum c s =
    out_value c (feed_bits (Width c) (Poly c) (file_init c (XorIn c)) (message_bits c s))"
    and "take_bit (Width c) (file_init c (XorIn c)) = file_init c (XorIn c)"
proof -
  show bound: "take_bit (Width c) (file_init c (XorIn c)) = file_init c (XorIn c)"
    using wf_crcD(1,3) [OF assms] reflect_bound by (simp add: file_init_def)
  show "file_checksum c s =
    out_value c (feed_bits (Width c) (Poly c) (file_init c (XorIn c)) (message_bits c s))"
    using bbf.fold [of c "file_init c (XorIn c)" "file_init c (XorIn c)" s] assms bound
    by (simp add: file_checksum_def crc_file_update_def file_octet_bbf foldl_reg_octet)
qed

definition palindrome :: "nat \<Rightarrow> int \<Rightarrow> bool" where
  "palindrome w x \<longleftrightarrow> reflect x w = x"

lemma file_checksum_eq:
  assumes "wf_crc c" and "odd (Poly c)"
  shows "file_checksum c s = bit_by_bit_fast c s \<longleftrightarrow>
    (if ReflectIn c then palindrome (Width c) (XorIn c) else True)"
proof -
  note w = wf_crcD(2) [OF assms(1)] and xi = wf_crcD(3) [OF assms(1)]
  note reg = file_checksum_register [OF assms(1)]
  have "file_checksum c s = bit_by_bit_fast c s \<longleftrightarrow> file_init c (XorIn c) = XorIn c"
    unfolding reg(1) bit_by_bit_fast_register [OF assms(1)] crc_register_bits
    using out_value_inj [OF assms(1) feed_bits_bound [OF w reg(2)] feed_bits_bound [OF w xi]]
      feed_bits_inj [OF w assms(2) reg(2) xi] by blast
  then show ?thesis
    by (auto simp: file_init_def palindrome_def)
qed

text \<open>C19: \<open>check_file\<close> starts from the reflected initial value when the input is reflected, although
  its update reflects the octets and not the register.  On validated options with defined parameters and
  an odd polynomial, and a file whose reads all succeed, it returns the checksum of the contents (up to
  the first empty read) exactly when the input is not reflected or the initial value is a bit
  palindrome.  For an even polynomial the algorithms themselves disagree (\<open>even_poly_disagrees\<close>).\<close>

theorem check_file_iff:
  assumes "options_ok op" and "\<not> o_UndefinedCrcParameters op" and "opt_crc op = Inr c" and "odd (Poly c)"
    and "o_CheckFile op = Some name" and "files name = Some (map Some chunks)"
  shows "check_file argv0 files op = Inr (bit_by_bit c (concat (takeWhile (\<lambda>s. s \<noteq> []) chunks)), op) \<longleftrightarrow>
    (if ReflectIn c then palindrome (Width c) (XorIn c) else True)"
proof -
  have c: "wf_crc c"
    using opt_crc_ok [OF assms(1,2)] assms(3) by auto
  let ?s = "concat (takeWhile (\<lambda>s. s \<noteq> []) chunks)"
  have "check_file argv0 files op = Inr (file_checksum c ?s, op)"
    using assms(2,3,5,6)
    by (simp add: check_file_def read_loop_chunks file_checksum_def out_value_def Let_def)
  then show ?thesis
    using file_checksum_eq [OF c assms(4), of ?s] c assms(4)
    by (simp add: bit_by_bit_register bit_by_bit_fast_register)
qed

definition reflected_values :: opt_values where
  "reflected_values = ccitt_values\<lparr>v_reflect_in := Some True, v_xor_in := Some 1\<rparr>"

lemma reflected_acceptable: "acceptable reflected_values []"
proof -
  note py_all_C99
  then show ?thesis
    by (simp add: acceptable_def default_values_def tiw_ok_def width_ok_def algo_mask_def std_name_def
        generate_ok_def action_count_def params_given_def ccitt_values_def reflected_values_def)
qed

theorem check_file_iff_witness:
  "\<exists>op c. opt_crc op = Inr c \<and>
     check_file ''pycrc'' (\<lambda>_. Some [Some ''RFID'', Some []]) op \<noteq> Inr (bit_by_bit c ''RFID'', op)"
proof -
  define op where "op = (accepted_options reflected_values)\<lparr>o_CheckFile := Some ''f''\<rparr>"
  have ok: "options_ok op" "\<not> o_UndefinedCrcParameters op"
    using accepted_options_ok [OF reflected_acceptable]
    by (simp_all add: op_def options_ok_def accepted_options_def reflected_values_def ccitt_values_def
        default_values_def params_given_def)
  obtain c where c: "opt_crc op = Inr c" "o_Poly op = Some (Poly c)" "o_XorIn op = Some (XorIn c)"
    "o_ReflectIn op = Some (ReflectIn c)" "o_Width op = Some (int (Width c))"
    using opt_crc_ok [OF ok] by blast
  then have "Poly c = 0x1021" "XorIn c = 1" "ReflectIn c" "Width c = 16"
    by (simp_all add: op_def accepted_options_def reflected_values_def ccitt_values_def
        default_values_def width_masked_def take_bit_id)
  moreover have "reflect 1 16 \<noteq> 1"
    by (simp add: reflect_def numeral_eq_Suc)
  ultimately have "check_file ''pycrc'' (\<lambda>_. Some [Some ''RFID'', Some []]) op \<noteq> Inr (bit_by_bit c ''RFID'', op)"
    using check_file_iff [OF ok c(1), of "''f''" "\<lambda>_. Some [Some ''RFID'', Some []]" "[''RFID'', []]" "''pycrc''"]
    by (simp add: palindrome_def op_def)
  with c(1) show ?thesis by blast
qed

text \<open>For every predefined model the file checksum is the checksum of the contents.\<close>

lemma model_files:
  assumes "m \<in> set models" and "model_crc m = Inr c"
  shows "file_checksum c s = bit_by_bit c s"
proof -
  have m: "model_ok m" using models_ok assms(1) by (simp add: list_all_iff)
  have c: "wf_crc c" "odd (Poly c)" "XorIn c = m_xor_in m" "int (Width c) = m_width m"
    using model_crc_wf [OF assms(1)] assms(2) by (auto simp: wf_table_def)
  have "ReflectIn c = m_reflect_in m"
    using assms(2) m crc_init_wf [of "m_width m" "m_poly m" "m_reflect_in m" "m_xor_in m"]
    by (auto simp: model_crc_def model_ok_def)
  moreover have "0 < n \<Longrightarrow> reflect 0 n = 0" and "0 < n \<Longrightarrow> reflect (2 ^ n - 1) n = 2 ^ n - 1" for n
    by (auto intro!: int_bit_eqI simp: int_bits simp flip: mask_eq_exp_minus_1)
  moreover have "m_reflect_in m \<Longrightarrow> XorIn c = 0 \<or> XorIn c = 2 ^ Width c - 1"
    using m unfolding model_ok_def c(3) c(4) [symmetric] nat_int by blast
  moreover have "0 < Width c" by (rule wf_crcD(1) [OF c(1)])
  ultimately have "if ReflectIn c then palindrome (Width c) (XorIn c) else True"
    unfolding palindrome_def by (cases "m_reflect_in m") (simp, metis, simp)
  with c show ?thesis
    using file_checksum_eq [OF c(1,2), of s] by (simp add: bit_by_bit_register bit_by_bit_fast_register)
qed

end
