(* ===== verification/SymbolProps.thy ===== *)
theory SymbolProps
  imports Symtable Caching CheckSum
begin

text \<open>
  The symbol table as the source of the macro processor (theory \<open>SymbolSource\<close>): storing the
  computed terminals does not change what a name stands for.  The generated table of constants
  reads back as the table that the algorithms use.
\<close>

unbundle bit_operations_syntax

section \<open>The table is a cache\<close>

text \<open>What a name stands for, given the table that the constructor left.\<close>

definition sym_value :: "options \<Rightarrow> sym_table \<Rightarrow> string \<Rightarrow> string option res" where
  "sym_value op t0 name =
     (if name = [] then Inr (Some [])
      else case t0 name of
        Some v \<Rightarrow> Inr v
      | None \<Rightarrow> bind_res (compute_terminal op name) (\<lambda>key.
          case key of Some s \<Rightarrow> Inr (Some s) | None \<Rightarrow> Inl LookupError))"

definition coherent :: "options \<Rightarrow> sym_table \<Rightarrow> sym_table \<Rightarrow> bool" where
  "coherent op t0 t \<longleftrightarrow>
     (\<forall>n. t n = t0 n \<or> (t0 n = None \<and> (\<exists>s. compute_terminal op n = Inr (Some s) \<and> t n = Some (Some s))))"

lemma coherent_refl: "coherent op t0 t0"
  by (simp add: coherent_def)

lemma coherent_update:
  "coherent op t0 t \<Longrightarrow> t n = None \<Longrightarrow> compute_terminal op n = Inr (Some s) \<Longrightarrow>
   coherent op t0 (t(n \<mapsto> Some s))"
  unfolding coherent_def by (metis fun_upd_apply option.distinct(1))

lemma getTerminal_value:
  assumes "coherent op t0 t"
  shows "case sym_value op t0 n of
      Inl e \<Rightarrow> getTerminal op t n = Inl e
    | Inr v \<Rightarrow> \<exists>t'. getTerminal op t n = Inr (v, t') \<and> coherent op t0 t'"
proof (cases "n = []")
  case True
  then show ?thesis using assms by (simp add: sym_value_def getTerminal_def)
next
  case False
  consider "t n = t0 n" | s where "t0 n = None" "compute_terminal op n = Inr (Some s)" "t n = Some (Some s)"
    using assms unfolding coherent_def by blast
  then show ?thesis
  proof cases
    case 1
    then show ?thesis
      using False assms coherent_update [OF assms, of n]
      by (cases "t n"; cases "compute_terminal op n")
        (auto simp: sym_value_def getTerminal_def split: option.splits)
  next
    case 2
    with False assms show ?thesis
      by (simp add: sym_value_def getTerminal_def)
  qed
qed

interpretation symtab: symbol_source "getTerminal op" "coherent op t0" "sym_value op t0" for op t0
proof
  fix t n v assume "coherent op t0 t" and "sym_value op t0 n = Inr v"
  then show "\<exists>t'. getTerminal op t n = Inr (v, t') \<and> coherent op t0 t'"
    using getTerminal_value [of op t0 t n] by simp
next
  fix t n e assume "coherent op t0 t" and "sym_value op t0 n = Inl e"
  then show "getTerminal op t n = Inl e"
    using getTerminal_value [of op t0 t n] by simp
qed

definition output_of :: "(bool option \<times> 't pstate) run \<Rightarrow> string run" where
  "output_of r = bind_run r (\<lambda>(_, st). ret (p_out st))"

lemma rel_output:
  assumes "rel_run (symtab.rel2 op t0) r s"
  shows "output_of r = output_of s"
  using assms by (cases rule: rel_run.cases) (auto simp: output_of_def symtab.rel2_def symtab.rel_def)

text \<open>C10: the terminals that the symbol table has stored do not change what the macro processor does:
  for every input and every amount of fuel its output, or its exception, is that of the processor
  over the pure function from names to values.\<close>

theorem parse_cache_free:
  assumes "coherent op t0 (p_sym st)"
  shows "output_of (parse (getTerminal op) argv0 n s st) =
    output_of (parse (pure_symbols (sym_value op t0)) argv0 n s (erase st))"
  by (rule rel_output [OF symtab.parse_rel [OF assms]])

theorem parse_cache_free_witness:
  "output_of (parse (getTerminal (accepted_options ccitt_values)) ''pycrc'' 9 ''$crc_algorithm''
     (MacroParser_init Lexer_init Map.empty)) =
   output_of (parse (pure_symbols (sym_value (accepted_options ccitt_values) Map.empty)) ''pycrc'' 9 ''$crc_algorithm''
     (erase (MacroParser_init Lexer_init (Map.empty :: sym_table))))"
proof -
  have "coherent (accepted_options ccitt_values) Map.empty (p_sym (MacroParser_init Lexer_init Map.empty))"
    by (simp add: MacroParser_init_def coherent_refl)
  then show ?thesis by (rule parse_cache_free)
qed

text \<open>The table belongs to the class: a terminal that one object has computed is what the next
  object returns, whatever its own options (here the algorithm's name).\<close>

lemma table_shared:
  assumes "SymbolTable_init op1 dt1 Map.empty = Inr t1"
    and "getTerminal op1 t1 ''crc_algorithm'' = Inr (v, t2)"
    and "SymbolTable_init op2 dt2 t2 = Inr t3"
  shows "v = Some (crc_algorithm op1) \<and> getTerminal op2 t3 ''crc_algorithm'' = Inr (v, t3)"
proof -
  have keep: "foldl (\<lambda>t (k, v). t(k \<mapsto> v)) t (map (\<lambda>(k, v). (k, Some v))
      (param_terminals op dt @ cfg_terminals) @ name_terminals op f) ''crc_algorithm'' =
      t ''crc_algorithm''" for op dt f and t :: sym_table
    by (simp add: param_terminals_def cfg_terminals_def name_terminals_def Let_def)
  have "t1 ''crc_algorithm'' = None"
    using assms(1) keep [of Map.empty] by (auto simp: SymbolTable_init_def bind_res_Inr_iff)
  then have "v = Some (crc_algorithm op1)" "t2 ''crc_algorithm'' = Some v"
    using assms(2) by (auto simp: getTerminal_def compute_terminal_def Let_def)
  moreover have "t3 ''crc_algorithm'' = t2 ''crc_algorithm''"
    using assms(3) keep [of t2] by (auto simp: SymbolTable_init_def bind_res_Inr_iff)
  ultimately show ?thesis
    by (simp add: getTerminal_def)
qed

section \<open>The generated table\<close>

fun split_on :: "char \<Rightarrow> string \<Rightarrow> string list" where
  "split_on d [] = [[]]"
| "split_on d (c # s) = (if c = d then [] # split_on d s
     else case split_on d s of [] \<Rightarrow> [[c]] | w # ws \<Rightarrow> (c # w) # ws)"

lemma split_on_nonempty: "split_on d s \<noteq> []"
  by (induction s) (auto split: list.splits)

lemma split_on_free: "d \<notin> set c \<Longrightarrow> split_on d c = [c]"
  by (induction c) auto

lemma split_on_step: "d \<notin> set c \<Longrightarrow> split_on d (c @ d # s) = c # split_on d s"
  by (induction c) auto

lemma split_on_concat:
  "\<forall>c \<in> set (cs @ [l]). d \<notin> set c \<Longrightarrow> split_on d (concat (map (\<lambda>c. c @ [d]) cs) @ l) = cs @ [l]"
  by (induction cs) (auto simp: split_on_free split_on_step)

text \<open>The white space before a field, and the field of an entry.\<close>

definition lead :: "nat \<Rightarrow> nat \<Rightarrow> string" where
  "lead per_line i = (if i = 0 then [] else if i mod per_line = 0 then [CHR 0x0A] else '' '')"

definition chunk :: "int list \<Rightarrow> nat \<Rightarrow> int \<Rightarrow> nat \<Rightarrow> string" where
  "chunk tbl per_line fw i = lead per_line i @ (if i mod per_line = 0 then ''    '' else []) @
     pretty_hex (Some (tbl ! i)) (Some fw)"

lemma table_field_lead:
  assumes "i < length tbl" and "0 < per_line"
  shows "table_field tbl w per_line fw (out @ lead per_line i) i =
    Inr (out @ chunk tbl per_line fw i @ (if i = w - 1 then [] else '','' @ lead per_line (Suc i)))"
proof -
  have "(i mod per_line = per_line - 1) \<longleftrightarrow> (Suc i mod per_line = 0)"
    using assms(2) by (auto simp: mod_Suc)
  then show ?thesis
    using assms(1) by (simp add: table_field_def chunk_def lead_def [of per_line "Suc i"] Let_def)
qed

lemma table_fields_prefix:
  assumes "k < w" and "w \<le> length tbl" and "0 < per_line"
  shows "fold_res (table_field tbl w per_line fw) [] [0..<k] =
    Inr (concat (map (\<lambda>c. c @ '','') (map (chunk tbl per_line fw) [0..<k])) @ lead per_line k)"
  using assms(1)
proof (induction k)
  case 0
  then show ?case by (simp add: lead_def)
next
  case (Suc k)
  then have "k < length tbl" and "k \<noteq> w - 1"
    using assms(2) by simp_all
  with Suc show ?case
    by (simp add: fold_res_append table_field_lead assms(3) del: append.simps)
qed

lemma table_fields_all:
  assumes "0 < w" and "w \<le> length tbl" and "0 < per_line"
  shows "fold_res (table_field tbl w per_line fw) [] [0..<w] =
    Inr (concat (map (\<lambda>c. c @ '','') (map (chunk tbl per_line fw) [0..<w - 1])) @
      chunk tbl per_line fw (w - 1))"
proof -
  have w: "[0..<w] = [0..<w - 1] @ [w - 1]"
    using assms(1) by (cases w) simp_all
  have "w - 1 < length tbl" using assms(1,2) by simp
  then show ?thesis
    using table_fields_prefix [of "w - 1" w tbl per_line fw] assms
    by (subst w) (simp add: fold_res_append table_field_lead del: upt_Suc)
qed

text \<open>A field reads back as its value.\<close>

lemma digits_val_zeros: "digits_val 16 (replicate m (CHR ''0'') @ s) = digits_val 16 s"
  by (induction m) (simp_all add: digits_val_def digit_val_def)

lemma pretty_hex_chars:
  "list_all (\<lambda>c. \<not> is_space c \<and> c \<noteq> CHR '','') (''0x'' @ zero_fill m (nat_str 16 n))"
proof -
  have "is_base_digit 16 c \<Longrightarrow> c \<noteq> CHR '',''" for c
    by (auto simp: is_base_digit_def digit_val_def)
  then show ?thesis
    using nat_str_digits [of 16 n] base_digit_plain
    by (auto simp: zero_fill_def list_all_iff is_space_def)
qed

lemma py_int_field:
  assumes "0 \<le> k" and "list_all is_space ws"
  shows "py_int 16 (ws @ pretty_hex (Some k) (Some fw)) = Inr k"
proof -
  define m where "m = nat ((fw + 3) div 4)"
  let ?d = "zero_fill m (nat_str 16 (nat k))"
  have f: "pretty_hex (Some k) (Some fw) = ''0x'' @ ?d"
    using assms(1) by (simp add: pretty_hex_def py_zhex_def m_def)
  have ns: "list_all (\<lambda>c. \<not> is_space c) (''0x'' @ ?d)"
    using pretty_hex_chars [of m "nat k"] by (auto simp: list_all_iff)
  have "strip (ws @ ''0x'' @ ?d) = strip (''0x'' @ ?d)"
    using assms(2) ns by (simp add: strip_def dropWhile_append list_all_iff dropWhile_eq_Nil_conv)
  moreover have "strip (''0x'' @ ?d) = ''0x'' @ ?d"
    by (rule strip_plain [OF ns])
  moreover have "list_all (is_base_digit 16) ?d" "?d \<noteq> []" "digits_val 16 ?d = nat k"
    using nat_str_digits [of 16 "nat k"] digits_val_zeros
    by (auto simp: zero_fill_def list_all_iff is_base_digit_def digit_val_def)
  ultimately show ?thesis
    using assms(1) by (simp add: f py_int_def parse_nat_def is_0x_def)
qed

text \<open>The formatted values contain no special characters.\<close>

lemma base_digit_char_plain: "is_base_digit b c \<Longrightarrow> c \<noteq> CHR ''$'' \<and> c \<noteq> CHR ''{'' \<and> c \<noteq> CHR '':''"
  by (auto simp: is_base_digit_def digit_val_def)

lemma plain_nat_str: "2 \<le> b \<Longrightarrow> b \<le> 36 \<Longrightarrow> plain (nat_str b n)"
  using nat_str_digits [of b n] base_digit_char_plain by (auto simp: plain_def list_all_iff)

lemma plain_zero_fill: "plain s \<Longrightarrow> plain (zero_fill n s)"
proof -
  have "plain (replicate k (CHR ''0''))" for k
    by (induction k) simp_all
  then show "plain s \<Longrightarrow> plain (zero_fill n s)"
    by (simp add: zero_fill_def)
qed

lemma plain_pretty:
  "plain (pretty_str i)" "plain (pretty_hex i w)" "plain (pretty_bool b)" "plain (crc_algorithm op)"
proof -
  show "plain (pretty_str i)"
    by (simp add: pretty_str_def py_dec_def plain_nat_str split: option.split)
  show "plain (pretty_hex i w)"
    by (simp add: pretty_hex_def py_hex_def py_zhex_def plain_nat_str plain_zero_fill split: option.split)
  show "plain (pretty_bool b)"
    by (simp add: pretty_bool_def split: option.split)
  show "plain (crc_algorithm op)"
    by (simp add: crc_algorithm_def)
qed

lemma plain_chunk: "plain (chunk tbl per_line fw i)"
  by (simp add: chunk_def lead_def plain_pretty)

lemma plain_concat: "\<forall>c \<in> set cs. plain c \<Longrightarrow> plain (concat cs)"
  by (induction cs) simp_all

lemma table_entry_nonneg: "0 \<le> table_entry c sh i"
  if "0 \<le> Mask c"
  using that by (simp add: table_entry_def Let_def)

lemma gen_table_entries:
  assumes "wf_crc c" and "0 \<le> table_shift c"
  shows "\<exists>tbl. gen_table c = Inr tbl \<and> length tbl = 2 ^ TableIdxWidth c \<and> (\<forall>k \<in> set tbl. 0 \<le> k)"
  using assms table_entry_nonneg [of c] wf_crcD(5) [OF assms(1)]
  by (auto simp: gen_table_def)

lemma table_text_entries:
  assumes "options_ok op" and s: "o_Width op = Some w" "o_Poly op = Some p" "o_ReflectIn op = Some ri"
    and alg: "o_Algorithm op = 4" and tw: "o_TableWidth op = 2 ^ nat (o_TableIdxWidth op)"
  shows "\<exists>c tbl tx. gen_table c = Inr tbl \<and> o_Width op = Some (int (Width c)) \<and>
    o_Poly op = Some (Poly c) \<and> o_ReflectIn op = Some (ReflectIn c) \<and>
    int (TableIdxWidth c) = o_TableIdxWidth op \<and> wf_crc c \<and>
    get_table_init op = Inr tx \<and> map (py_int 16) (split_on (CHR '','') tx) = map Inr tbl \<and> plain tx"
proof -
  have r: "0 < w" "0 \<le> p" "p < 2 ^ nat w"
    using options_okD(1) [OF assms(1)] by (simp_all add: s fits_def)
  have t: "o_TableIdxWidth op \<in> {1, 2, 4, 8}" by (rule options_okD(4) [OF assms(1)])
  have "Crc_init w p ri 0 False 0 (Some (o_TableIdxWidth op)) \<noteq> Inl e" for e
    using r(1) t by (auto simp: crc_init_Inl_iff)
  then obtain c where c: "Crc_init w p ri 0 False 0 (Some (o_TableIdxWidth op)) = Inr c"
    by (cases "Crc_init w p ri 0 False 0 (Some (o_TableIdxWidth op))") auto
  have wf: "wf_crc c" "int (Width c) = w" "Poly c = p" "ReflectIn c = ri"
    "TableIdxWidth c = nat (o_TableIdxWidth op)"
    using crc_init_wf [OF c r(2,3)] by simp_all
  have "0 \<le> table_shift c"
    using t wf(5) wf_crcD(8) [OF wf(1)] by (auto simp: table_shift_def)
  then obtain tbl where tbl: "gen_table c = Inr tbl" "length tbl = 2 ^ TableIdxWidth c"
    "\<forall>k \<in> set tbl. 0 \<le> k"
    using gen_table_entries [OF wf(1)] by blast
  define n where "n = length tbl"
  define per where "per = (if 32 \<le> w then 4 else if 16 \<le> w then 8 else 16 :: nat)"
  define fw where "fw = max w 8"
  have n: "nat (o_TableWidth op) = n" "0 < n"
    by (simp_all add: n_def tbl(2) tw wf(5) nat_power_eq)
  let ?cs = "map (chunk tbl per fw) [0..<n - 1]" and ?l = "chunk tbl per fw (n - 1)"
  have printed: "get_table_init op = Inr (concat (map (\<lambda>c. c @ '','') ?cs) @ ?l)"
    using table_fields_all [of n tbl per fw] n
    by (simp add: get_table_init_def alg s c tbl(1) per_def fw_def n_def Let_def)
  have all: "?cs @ [?l] = map (chunk tbl per fw) [0..<n]"
    using n(2) by (cases n) simp_all
  have entry: "0 \<le> tbl ! i" if "i < n" for i
    using tbl(3) that by (simp add: n_def)
  have free: "CHR '','' \<notin> set (chunk tbl per fw i)" if "i < n" for i
    using pretty_hex_chars [of "nat ((fw + 3) div 4)" "nat (tbl ! i)"] entry [OF that]
    by (auto simp: chunk_def lead_def pretty_hex_def py_zhex_def list_all_iff)
  then have "split_on (CHR '','') (concat (map (\<lambda>c. c @ '','') ?cs) @ ?l) = ?cs @ [?l]"
    using n(2) by (intro split_on_concat) (auto simp: all)
  moreover have "py_int 16 (chunk tbl per fw i) = Inr (tbl ! i)" if "i < n" for i
    using py_int_field [OF entry [OF that], of "lead per i @ (if i mod per = 0 then ''    '' else [])" fw]
    by (simp add: chunk_def lead_def is_space_def)
  then have "map (py_int 16) (map (chunk tbl per fw) [0..<n]) = map Inr tbl"
    by (intro nth_equalityI) (simp_all add: n_def)
  ultimately have reads: "map (py_int 16)
      (split_on (CHR '','') (concat (map (\<lambda>c. c @ '','') ?cs) @ ?l)) = map Inr tbl"
    by (simp only: all)
  have plain: "plain (concat (map (\<lambda>c. c @ '','') ?cs) @ ?l)"
    by (auto intro!: plain_concat simp: plain_chunk)
  have "int (TableIdxWidth c) = o_TableIdxWidth op"
    using t by (auto simp: wf(5))
  then show ?thesis
    using wf s tbl(1) printed reads plain by blast
qed

lemma table_text:
  assumes "options_ok op" and "o_Action op = Generate_Table"
  shows "\<exists>c tbl tx. gen_table c = Inr tbl \<and> o_Width op = Some (int (Width c)) \<and>
    o_Poly op = Some (Poly c) \<and> o_ReflectIn op = Some (ReflectIn c) \<and>
    int (TableIdxWidth c) = o_TableIdxWidth op \<and> wf_crc c \<and>
    get_table_init op = Inr tx \<and> map (py_int 16) (split_on (CHR '','') tx) = map Inr tbl \<and> plain tx"
proof -
  have t: "o_Algorithm op = 4 \<and> o_TableWidth op = 2 ^ nat (o_TableIdxWidth op)"
    using assms unfolding options_ok_def by blast
  have "\<not> o_UndefinedCrcParameters op"
    using options_okD(3) [OF assms(1)] assms(2) by (simp add: needs_params_def)
  then obtain w p ri where "o_Width op = Some w" "o_Poly op = Some p" "o_ReflectIn op = Some ri"
    using options_okD(2) [OF assms(1)] by blast
  then show ?thesis
    using table_text_entries [OF assms(1)] t by blast
qed

text \<open>C12: for validated options with \<open>--generate table\<close> the text of the table is well formed C: its
  comma-separated fields, white space aside, are the hexadecimal notation of exactly the entries of
  the table that \<open>gen_table\<close> computes, in their order.\<close>

theorem table_text_reads_back:
  assumes "options_ok op" and "o_Action op = Generate_Table"
  shows "\<exists>c tbl tx. gen_table c = Inr tbl \<and> o_Width op = Some (int (Width c)) \<and>
    o_Poly op = Some (Poly c) \<and> o_ReflectIn op = Some (ReflectIn c) \<and>
    int (TableIdxWidth c) = o_TableIdxWidth op \<and> wf_crc c \<and>
    get_table_init op = Inr tx \<and> map (py_int 16) (split_on (CHR '','') tx) = map Inr tbl"
  using table_text [OF assms] by blast

definition table_values :: opt_values where
  "table_values = ccitt_values\<lparr>v_generate := Some ''table'', v_algorithm := Some ''table-driven''\<rparr>"

lemma table_acceptable: "acceptable table_values []"
  and table_chosen: "chosen_action table_values = Generate_Table"
proof -
  have "py_lower ''table'' = ''table''" and "py_lower ''table-driven'' = ''table-driven''"
    and "py_upper ''C99'' = ''C99''"
    by (simp_all add: py_lower_def py_upper_def char_lower_def char_upper_def)
  then show "acceptable table_values []" and "chosen_action table_values = Generate_Table"
    by (simp_all add: acceptable_def default_values_def tiw_ok_def width_ok_def algo_mask_def
        std_name_def generate_ok_def generate_action_def chosen_action_def action_count_def
        params_given_def ccitt_values_def table_values_def)
qed

lemma table_options: "options_ok (accepted_options table_values)"
  and table_action: "o_Action (accepted_options table_values) = Generate_Table"
  subgoal by (rule accepted_options_ok [OF table_acceptable])
  subgoal by (simp add: accepted_options_def table_chosen)
  done

theorem table_text_reads_back_witness:
  "\<exists>tbl text. get_table_init (accepted_options table_values) = Inr text \<and>
     map (py_int 16) (split_on (CHR '','') text) = map Inr tbl"
  using table_text_reads_back [OF table_options table_action] by blast

end
