(* ===== verification/Pycrc.thy ===== *)
theory Pycrc
  imports SymbolProps
begin

text \<open>
  The program, \<open>python/pycrc/pycrc.py\<close>: \<open>print_parameters\<close> and \<open>main\<close> after \<open>optparse\<close> has
  delivered its values.  A run ends with what it printed on standard output and the file it wrote,
  or with the exception that ended it; \<open>fuel\<close> bounds the macro processor.  The environment is the
  date, the files that can be read and the names that can be written.
\<close>

unbundle bit_operations_syntax

section \<open>print_parameters\<close>

text \<open>The attributes that all \<open>MacroParser\<close> and \<open>SymbolTable\<close> objects share.\<close>

type_synonym shared = "lexer \<times> sym_table"

definition parameters_text :: string where
  "parameters_text =
     ''Width        = $crc_width'' @ [CHR 0x0A] @
     ''Poly         = $crc_poly'' @ [CHR 0x0A] @
     ''ReflectIn    = $crc_reflect_in'' @ [CHR 0x0A] @
     ''XorIn        = $crc_xor_in'' @ [CHR 0x0A] @
     ''ReflectOut   = $crc_reflect_out'' @ [CHR 0x0A] @
     ''XorOut       = $crc_xor_out'' @ [CHR 0x0A] @
     ''Algorithm    = $crc_algorithm'' @ [CHR 0x0A]"

definition new_parser :: "string \<Rightarrow> options \<Rightarrow> shared \<Rightarrow> sym_table pstate run" where
  "new_parser datetime op sh =
     Some (bind_res (SymbolTable_init op datetime (snd sh)) (\<lambda>t. Inr (MacroParser_init (fst sh) t)))"

definition run_parse ::
  "string \<Rightarrow> nat \<Rightarrow> options \<Rightarrow> string \<Rightarrow> sym_table pstate \<Rightarrow> (bool option \<times> sym_table pstate) run" where
  "run_parse argv0 fuel op in_str mp = parse (getTerminal op) argv0 fuel in_str mp"

definition print_parameters ::
  "string \<Rightarrow> nat \<Rightarrow> string \<Rightarrow> options \<Rightarrow> shared \<Rightarrow> (string \<times> shared) run" where
  "print_parameters argv0 fuel datetime op sh =
     bind_run (new_parser datetime op sh) (\<lambda>mp.
     bind_run (run_parse argv0 fuel op parameters_text mp) (\<lambda>(result, mp').
       if result \<noteq> Some True then raise_exn (SystemExit 1 [])
       else ret (p_out mp', (p_lex mp', p_sym mp'))))"

section \<open>main\<close>

definition print_line :: "string \<Rightarrow> string" where
  "print_line s = s @ [CHR 0x0A]"

definition print_crc :: "int option \<Rightarrow> string res" where
  "print_crc crc = (case crc of None \<Rightarrow> Inl TypeError | Some v \<Rightarrow> Inr (print_line (''0x'' @ py_hex v)))"

definition generate_input :: "action \<Rightarrow> string option" where
  "generate_input act =
     (case act of
        Generate_H \<Rightarrow> Some ''$h_template''
      | Generate_C \<Rightarrow> Some ''$c_template''
      | Generate_C_Main \<Rightarrow> Some (''$c_template'' @ [CHR 0x0A, CHR 0x0A] @ ''$main_template'')
      | Generate_Table \<Rightarrow> Some ''$crc_table_init''
      | _ \<Rightarrow> None)"

type_synonym outcome = "string \<times> (string \<times> string) option"

definition generate_output ::
  "string \<Rightarrow> (string \<Rightarrow> bool) \<Rightarrow> options \<Rightarrow> string \<Rightarrow> string \<Rightarrow> outcome res" where
  "generate_output argv0 writable op out text =
     (case o_OutputFile op of
        None \<Rightarrow> Inr (out @ print_line text, None)
      | Some f \<Rightarrow>
          if writable f then Inr (out, Some (f, text))
          else exit_error argv0 [] (''cannot write to file '' @ f))"

definition run_action ::
  "string \<Rightarrow> nat \<Rightarrow> string \<Rightarrow> (string \<Rightarrow> string option list option) \<Rightarrow> (string \<Rightarrow> bool) \<Rightarrow>
   options \<Rightarrow> string \<Rightarrow> shared \<Rightarrow> outcome run" where
  "run_action argv0 fuel datetime files writable op out sh =
     (case o_Action op of
        Check_String \<Rightarrow> Some (bind_res (check_string argv0 op) (\<lambda>(crc, _).
          bind_res (print_crc crc) (\<lambda>s. Inr (out @ s, None))))
      | Check_Hex_String \<Rightarrow> Some (bind_res (check_hexstring argv0 op) (\<lambda>(crc, _).
          bind_res (print_crc crc) (\<lambda>s. Inr (out @ s, None))))
      | Check_File \<Rightarrow> Some (bind_res (check_file argv0 files op) (\<lambda>(crc, _).
          bind_res (print_crc (Some crc)) (\<lambda>s. Inr (out @ s, None))))
      | act \<Rightarrow>
          bind_run (new_parser datetime op sh) (\<lambda>mp.
            case generate_input act of
              None \<Rightarrow> Some (exit_error argv0 [] ''unknown action. Please file a bug report!'')
            | Some in_str \<Rightarrow>
                bind_run (run_parse argv0 fuel op in_str mp) (\<lambda>(_, mp').
                  Some (generate_output argv0 writable op out (p_out mp')))))"

definition main ::
  "string \<Rightarrow> nat \<Rightarrow> string \<Rightarrow> (string \<Rightarrow> string option list option) \<Rightarrow> (string \<Rightarrow> bool) \<Rightarrow>
   opt_values \<Rightarrow> string list \<Rightarrow> outcome run" where
  "main argv0 fuel datetime files writable v args =
     bind_run (Some (validate argv0 v args Options_init)) (\<lambda>(_, op).
       let sh = (Lexer_init, Map.empty)
       in if o_Verbose op
          then bind_run (print_parameters argv0 fuel datetime op sh) (\<lambda>(text, sh').
            run_action argv0 fuel datetime files writable op (print_line text) sh')
          else run_action argv0 fuel datetime files writable op [] sh)"

section \<open>Check values, end to end\<close>

lemma bind_run_Some_Inr [simp]: "bind_run (Some (Inr x)) f = f x"
  by (simp add: bind_run_def)

lemma model_acceptable: "m \<in> set models \<Longrightarrow> acceptable (set_model m default_values) []"
proof -
  assume "m \<in> set models"
  then have "0 < m_width m"
    using models_ok by (auto simp: list_all_iff model_ok_def)
  moreover note py_all_C99
  ultimately show ?thesis
    by (simp add: acceptable_def set_model_def default_values_def tiw_ok_def width_ok_def
        algo_mask_def std_name_def generate_ok_def action_count_def params_given_def)
qed

lemma model_options:
  fixes m defines "op \<equiv> accepted_options (set_model m default_values)"
  assumes "m \<in> set models"
  shows "o_Action op = Check_String" "\<not> o_Verbose op" "o_CheckString op = ''123456789''"
    "\<not> o_UndefinedCrcParameters op" "o_TableIdxWidth op = 8" "opt_crc op = model_crc m"
proof -
  have "model_ok m" using models_ok assms(2) by (simp add: list_all_iff)
  then show "opt_crc op = model_crc m"
    by (simp add: op_def accepted_options_def set_model_def default_values_def opt_crc_def
        width_masked_def model_crc_def model_ok_def take_bit_id)
qed (simp_all add: op_def accepted_options_def chosen_action_def set_model_def default_values_def
      params_given_def)

text \<open>\<open>pycrc --model\<close> with any model but \<open>crc-64-jones\<close>, and nothing else, prints the check value
  of that model in hexadecimal and ends normally.\<close>

lemma main_prints_check:
  assumes "m \<in> set (butlast models)"
  shows "main argv0 fuel datetime files writable (set_model m default_values) [] =
    ret (print_line (''0x'' @ py_hex (m_check m)), None)"
proof -
  let ?v = "set_model m default_values"
  have m: "m \<in> set models" using assms by (rule in_set_butlastD)
  obtain err where val: "validate argv0 ?v [] Options_init = Inr (err, accepted_options ?v)"
    using validate_result [of ?v "[]" argv0] model_acceptable [OF m] by auto
  obtain c where c: "model_crc m = Inr c" "bit_by_bit c ''123456789'' = m_check m"
    using model_check_values [OF assms] by blast
  have "odd (Poly c)"
    using model_crc_wf [OF m] c(1) by auto
  then obtain op' where "check_string argv0 (accepted_options ?v) = Inr (Some (m_check m), op')"
    using check_string_result [OF accepted_options_ok [OF model_acceptable [OF m]], of c argv0]
      model_options [OF m] c by auto
  then show ?thesis
    using model_options(1,2) [OF m]
    by (simp add: main_def val run_action_def print_crc_def ret_def)
qed

section \<open>Verbose mode\<close>

definition parameters_pieces :: "piece list" where
  "parameters_pieces = [
     Txt ''Width        = '', Sym ''crc_width'', Txt ([CHR 0x0A] @ ''Poly         = ''),
     Sym ''crc_poly'', Txt ([CHR 0x0A] @ ''ReflectIn    = ''),
     Sym ''crc_reflect_in'', Txt ([CHR 0x0A] @ ''XorIn        = ''),
     Sym ''crc_xor_in'', Txt ([CHR 0x0A] @ ''ReflectOut   = ''),
     Sym ''crc_reflect_out'', Txt ([CHR 0x0A] @ ''XorOut       = ''),
     Sym ''crc_xor_out'', Txt ([CHR 0x0A] @ ''Algorithm    = ''),
     Sym ''crc_algorithm'', Txt [CHR 0x0A]]"

text \<open>The text that the parameters are meant to be printed as.\<close>

definition parameters_output :: "options \<Rightarrow> string" where
  "parameters_output op =
     ''Width        = '' @ pretty_str (o_Width op) @ [CHR 0x0A] @
     ''Poly         = '' @ pretty_hex (o_Poly op) (o_Width op) @ [CHR 0x0A] @
     ''ReflectIn    = '' @ pretty_bool (o_ReflectIn op) @ [CHR 0x0A] @
     ''XorIn        = '' @ pretty_hex (o_XorIn op) (o_Width op) @ [CHR 0x0A] @
     ''ReflectOut   = '' @ pretty_bool (o_ReflectOut op) @ [CHR 0x0A] @
     ''XorOut       = '' @ pretty_hex (o_XorOut op) (o_Width op) @ [CHR 0x0A] @
     ''Algorithm    = '' @ crc_algorithm op @ [CHR 0x0A]"

definition parameter_value :: "options \<Rightarrow> string \<Rightarrow> string" where
  "parameter_value op n =
     (if n = ''crc_width'' then pretty_str (o_Width op)
      else if n = ''crc_poly'' then pretty_hex (o_Poly op) (o_Width op)
      else if n = ''crc_reflect_in'' then pretty_bool (o_ReflectIn op)
      else if n = ''crc_xor_in'' then pretty_hex (o_XorIn op) (o_Width op)
      else if n = ''crc_reflect_out'' then pretty_bool (o_ReflectOut op)
      else if n = ''crc_xor_out'' then pretty_hex (o_XorOut op) (o_Width op)
      else crc_algorithm op)"

definition parameter_names :: "string set" where
  "parameter_names = {''crc_width'', ''crc_poly'', ''crc_reflect_in'', ''crc_xor_in'',
     ''crc_reflect_out'', ''crc_xor_out'', ''crc_algorithm''}"

lemma parameters_flat:
  "flat_text parameters_pieces = parameters_text" "flat_ok parameters_pieces"
  "flat_out (parameter_value op) parameters_pieces = parameters_output op"
  "Sym x \<in> set parameters_pieces \<Longrightarrow> x \<in> parameter_names" "length parameters_pieces = 15"
proof -
  show "flat_text parameters_pieces = parameters_text"
    by (simp add: parameters_pieces_def parameters_text_def)
  have al: "is_alpha c \<or> c = CHR ''_'' \<Longrightarrow> is_id_char c" for c
    by (auto simp: is_id_char_def)
  show "flat_ok parameters_pieces"
    by (simp add: parameters_pieces_def is_id_def no_id_char_def is_id_char_def is_alpha_def is_digit_def)
  show "flat_out (parameter_value op) parameters_pieces = parameters_output op"
    by (simp add: parameters_pieces_def parameters_output_def parameter_value_def)
  show "Sym x \<in> set parameters_pieces \<Longrightarrow> x \<in> parameter_names"
    by (auto simp: parameters_pieces_def parameter_names_def)
  show "length parameters_pieces = 15" by (simp add: parameters_pieces_def)
qed

text \<open>The last of the entries for a name is the one that stays.\<close>

lemma foldl_upd: "foldl (\<lambda>t (k, v). t(k \<mapsto> v)) t kvs n =
    (case map_of (rev kvs) n of Some v \<Rightarrow> Some v | None \<Rightarrow> t n)"
  by (induction kvs arbitrary: t) (auto split: option.splits)

lemma table_entries:
  assumes "SymbolTable_init op datetime Map.empty = Inr t"
  shows "t ''crc_width'' = Some (Some (pretty_str (o_Width op)))"
    "t ''crc_poly'' = Some (Some (pretty_hex (o_Poly op) (o_Width op)))"
    "t ''crc_reflect_in'' = Some (Some (pretty_bool (o_ReflectIn op)))"
    "t ''crc_xor_in'' = Some (Some (pretty_hex (o_XorIn op) (o_Width op)))"
    "t ''crc_reflect_out'' = Some (Some (pretty_bool (o_ReflectOut op)))"
    "t ''crc_xor_out'' = Some (Some (pretty_hex (o_XorOut op) (o_Width op)))"
    "t ''crc_algorithm'' = None" "t ''crc_table_init'' = None"
proof -
  obtain f where t: "t = foldl (\<lambda>t (k, v). t(k \<mapsto> v)) Map.empty
      (map (\<lambda>(k, v). (k, Some v)) (param_terminals op datetime @ cfg_terminals) @ name_terminals op f)"
    using assms by (auto simp: SymbolTable_init_def bind_res_Inr_iff)
  show "t ''crc_width'' = Some (Some (pretty_str (o_Width op)))"
    "t ''crc_poly'' = Some (Some (pretty_hex (o_Poly op) (o_Width op)))"
    "t ''crc_reflect_in'' = Some (Some (pretty_bool (o_ReflectIn op)))"
    "t ''crc_xor_in'' = Some (Some (pretty_hex (o_XorIn op) (o_Width op)))"
    "t ''crc_reflect_out'' = Some (Some (pretty_bool (o_ReflectOut op)))"
    "t ''crc_xor_out'' = Some (Some (pretty_hex (o_XorOut op) (o_Width op)))"
    "t ''crc_algorithm'' = None" "t ''crc_table_init'' = None"
    unfolding t foldl_upd
    by (simp_all only: rev_append rev_map map_append param_terminals_def cfg_terminals_def
        name_terminals_def Let_def rev.simps append.simps map_of.simps list.map prod.case)
      simp_all
qed

lemma sym_value_entry:
  "t n = Some v \<Longrightarrow> n \<noteq> [] \<Longrightarrow> sym_value op t n = Inr v"
  by (simp add: sym_value_def)

lemma parameter_values:
  assumes "SymbolTable_init op datetime Map.empty = Inr t" and "x \<in> parameter_names"
  shows "sym_value op t x = Inr (Some (parameter_value op x)) \<and> plain (parameter_value op x)"
proof -
  note entries = table_entries [OF assms(1)]
  have "sym_value op t ''crc_algorithm'' = Inr (Some (crc_algorithm op))"
    using entries(7) by (simp add: sym_value_def compute_terminal_def Let_def)
  then have "sym_value op t x = Inr (Some (parameter_value op x))"
    using assms(2) entries(1-6) unfolding parameter_names_def
    by (elim insertE emptyE) (simp_all add: parameter_value_def sym_value_entry)
  moreover have "plain (parameter_value op x)"
    by (simp add: parameter_value_def plain_pretty)
  ultimately show ?thesis by simp
qed

lemma new_parser_ready:
  "coherent op t (p_sym (MacroParser_init Lexer_init t))"
  "lex_mode (p_lex (MacroParser_init Lexer_init t)) = state_gibberish"
  by (simp_all add: MacroParser_init_def Lexer_init_def coherent_refl)

lemma parameters_parse:
  assumes "SymbolTable_init op datetime Map.empty = Inr t" and "32 \<le> fuel"
  shows "\<exists>mp. run_parse argv0 fuel op parameters_text (MacroParser_init Lexer_init t) = ret (None, mp) \<and>
    p_out mp = parameters_output op"
proof -
  have "2 * length parameters_pieces + 2 \<le> fuel"
    using assms(2) by (simp add: parameters_flat)
  from symtab.parse_flat [OF new_parser_ready parameters_flat(2) this parameter_values [OF assms(1)
      parameters_flat(4)], of argv0]
  show ?thesis
    by (auto simp: run_parse_def parameters_flat(1,3))
qed

lemma symbol_table_init_ok:
  assumes "o_IncludeFile op \<noteq> Some []"
  shows "\<exists>t. SymbolTable_init op datetime t0 = Inr t"
proof -
  have "\<exists>f. get_include_file op = Inr f"
    using assms by (auto simp: get_include_file_def split: option.split list.split)
  then show ?thesis by (auto simp: SymbolTable_init_def)
qed

text \<open>The macro processor does produce the text that \<open>print_parameters\<close> is for, each parameter
  in its notation; but \<open>parse\<close> returns nothing, so \<open>--verbose\<close> always ends the program with exit
  status 1, with nothing printed.\<close>

lemma verbose_exits:
  assumes "validate argv0 v args Options_init = Inr (err, op)" and "v_verbose v"
    and "o_IncludeFile op \<noteq> Some []" and "32 \<le> fuel"
  shows "main argv0 fuel datetime files writable v args = raise_exn (SystemExit 1 []) \<and>
    (\<exists>t mp. SymbolTable_init op datetime Map.empty = Inr t \<and>
       run_parse argv0 fuel op parameters_text (MacroParser_init Lexer_init t) = ret (None, mp) \<and>
       p_out mp = parameters_output op)"
proof -
  have op: "o_Verbose op"
    using assms(1,2) validate_result [of v args argv0]
    by (auto simp: accepted_options_def split: if_splits)
  obtain t where t: "SymbolTable_init op datetime Map.empty = Inr t"
    using symbol_table_init_ok [OF assms(3)] by blast
  obtain mp where mp: "run_parse argv0 fuel op parameters_text (MacroParser_init Lexer_init t) =
      ret (None, mp)" "p_out mp = parameters_output op"
    using parameters_parse [OF t assms(4)] by blast
  then have "print_parameters argv0 fuel datetime op (Lexer_init, Map.empty) =
      raise_exn (SystemExit 1 [])"
    by (simp add: print_parameters_def new_parser_def t)
  with op t mp show ?thesis
    by (simp add: main_def assms(1))
qed

text \<open>An empty name of an include file ends the program with an exception that is not caught, whenever
  a symbol table is made.\<close>

lemma empty_include_raises:
  assumes "validate argv0 v args Options_init = Inr (err, op)" and "o_IncludeFile op = Some []"
    and "o_Action op \<in> {Generate_H, Generate_C, Generate_C_Main, Generate_Table}"
  shows "main argv0 fuel datetime files writable v args = raise_exn IndexError"
proof -
  have "new_parser datetime op sh = raise_exn IndexError" for sh
    by (simp add: new_parser_def SymbolTable_init_def get_include_file_def assms(2) raise_exn_def)
  then show ?thesis
    using assms(3) by (elim insertE emptyE)
      (simp_all add: main_def assms(1) print_parameters_def run_action_def raise_exn_def bind_run_def Let_def)
qed

lemma ccitt_verbose:
  "\<exists>err op. validate ''pycrc'' (ccitt_values\<lparr>v_verbose := True\<rparr>) [] Options_init = Inr (err, op) \<and>
     o_IncludeFile op = None"
proof -
  have "acceptable (ccitt_values\<lparr>v_verbose := True\<rparr>) []"
    using py_all_C99
    by (simp add: acceptable_def default_values_def tiw_ok_def width_ok_def algo_mask_def
        std_name_def generate_ok_def action_count_def params_given_def ccitt_values_def)
  then show ?thesis
    using validate_result [of "ccitt_values\<lparr>v_verbose := True\<rparr>" "[]" "''pycrc''"]
    by (auto simp: accepted_options_def ccitt_values_def default_values_def)
qed

section \<open>Generating the table\<close>

lemma table_parse:
  assumes "SymbolTable_init op datetime Map.empty = Inr t" and "get_table_init op = Inr tx"
    and "plain tx" and "4 \<le> fuel"
  shows "\<exists>mp. run_parse argv0 fuel op ''$crc_table_init'' (MacroParser_init Lexer_init t) = ret (None, mp) \<and>
    p_out mp = tx"
proof -
  let ?ps = "[Sym ''crc_table_init'']"
  have ps: "flat_text ?ps = ''$crc_table_init''" "flat_ok ?ps" "2 * length ?ps + 2 \<le> fuel"
    using assms(4) by (simp_all add: is_id_def no_id_char_def is_id_char_def is_alpha_def is_digit_def)
  have "sym_value op t ''crc_table_init'' = Inr (Some tx)"
    using table_entries(8) [OF assms(1)] assms(2)
    by (simp add: sym_value_def compute_terminal_def Let_def)
  then have "\<And>x. Sym x \<in> set ?ps \<Longrightarrow> sym_value op t x = Inr (Some ((\<lambda>_. tx) x)) \<and> plain ((\<lambda>_. tx) x)"
    using assms(3) by simp
  from symtab.parse_flat [OF new_parser_ready ps(2,3) this, of argv0]
  show ?thesis
    by (auto simp: run_parse_def ps(1))
qed

text \<open>C11: \<open>--generate table\<close> on every accepted command line.  With an empty name of an include file the
  program ends with \<open>IndexError\<close>; otherwise with \<open>--verbose\<close> it ends with exit status 1, and nothing is
  written; otherwise it writes the text of the table, to standard output or to the file given with \<open>-o\<close>,
  and if the file cannot be written it ends with exit status 1.  A nesting depth of 4 (with \<open>--verbose\<close>
  32) is fuel enough.\<close>

theorem main_generates_table:
  assumes "validate argv0 v args Options_init = Inr (err, op)" and "o_Action op = Generate_Table"
    and "(if v_verbose v then 32 else 4) \<le> fuel"
  shows "\<exists>tx. get_table_init op = Inr tx \<and>
    main argv0 fuel datetime files writable v args =
      (if o_IncludeFile op = Some [] then raise_exn IndexError
       else if v_verbose v then raise_exn (SystemExit 1 [])
       else case o_OutputFile op of
         None \<Rightarrow> ret (print_line tx, None)
       | Some f \<Rightarrow>
           if writable f then ret ([], Some (f, tx))
           else Some (exit_error argv0 [] (''cannot write to file '' @ f)))"
proof -
  have acc: "acceptable v args" "op = accepted_options v"
    using assms(1) validate_result [of v args argv0] by (auto split: if_splits)
  have ok: "options_ok op"
    using accepted_options_ok [OF acc(1)] acc(2) by simp
  obtain tx where tx: "get_table_init op = Inr tx" "plain tx"
    using table_text [OF ok assms(2)] by blast
  show ?thesis
  proof (cases "o_IncludeFile op = Some [] \<or> v_verbose v")
    case True
    then show ?thesis
      using tx(1) assms(2,3) empty_include_raises [OF assms(1)] verbose_exits [OF assms(1)]
      by (cases "o_IncludeFile op = Some []") auto
  next
    case False
    then have op: "\<not> o_Verbose op"
      by (simp add: acc(2) accepted_options_def)
    obtain t where t: "SymbolTable_init op datetime Map.empty = Inr t"
      using symbol_table_init_ok [of op] False by blast
    obtain mp where "run_parse argv0 fuel op ''$crc_table_init'' (MacroParser_init Lexer_init t) =
        ret (None, mp)" "p_out mp = tx"
      using table_parse [OF t tx] assms(3) False by auto
    then show ?thesis
      using op tx(1) assms(2) t False
      by (simp add: main_def assms(1) run_action_def new_parser_def generate_input_def
          generate_output_def ret_def split: option.split)
  qed
qed

theorem main_generates_table_witness:
  "\<exists>tx. main ''pycrc'' 4 ''Mon'' (\<lambda>_. None) (\<lambda>_. False) table_values [] = ret (print_line tx, None)"
proof -
  obtain err where v: "validate ''pycrc'' table_values [] Options_init =
      Inr (err, accepted_options table_values)"
    using validate_result [of table_values "[]" "''pycrc''"] table_acceptable by auto
  have "\<not> v_verbose table_values" "o_IncludeFile (accepted_options table_values) \<noteq> Some []"
    "o_OutputFile (accepted_options table_values) = None"
    by (simp_all add: table_values_def ccitt_values_def default_values_def accepted_options_def)
  with main_generates_table [OF v table_action, of 4 "''Mon''" "\<lambda>_. None" "\<lambda>_. False"]
  show ?thesis
    by auto
qed

end
