(* ===== verification/CommandLine.thy ===== *)
theory CommandLine
  imports Pycrc "HOL-Library.List_Lexorder" "HOL-Library.Char_ord"
begin

text \<open>
  The command line of \<open>Options.parse\<close>, \<open>python/pycrc/crc_opt.py\<close>: the options it declares and what
  \<open>parse_args\<close> of Python's \<open>optparse\<close> makes of the arguments with them, abbreviations, bundled short
  options, explicit values and positional arguments included.  With \<open>validate\<close> and \<open>main\<close> this is
  the whole program as a function of its arguments.
\<close>

section \<open>The declared options\<close>

datatype dest =
    D_verbose | D_check_string | D_check_hexstring | D_check_file | D_generate | D_c_std
  | D_algorithm | D_model | D_width | D_poly | D_reflect_in | D_xor_in | D_reflect_out | D_xor_out
  | D_table_idx_width | D_symbol_prefix | D_crc_type | D_include_file | D_output_file
  | D_help | D_version

text \<open>The long options by name, with the two that \<open>optparse\<close> adds.\<close>

definition long_options :: "(string \<times> dest) list" where
  "long_options = [
     (''--verbose'', D_verbose),
     (''--check-string'', D_check_string),
     (''--check-hexstring'', D_check_hexstring),
     (''--check-file'', D_check_file),
     (''--generate'', D_generate),
     (''--std'', D_c_std),
     (''--algorithm'', D_algorithm),
     (''--model'', D_model),
     (''--width'', D_width),
     (''--poly'', D_poly),
     (''--reflect-in'', D_reflect_in),
     (''--xor-in'', D_xor_in),
     (''--reflect-out'', D_reflect_out),
     (''--xor-out'', D_xor_out),
     (''--table-idx-width'', D_table_idx_width),
     (''--symbol-prefix'', D_symbol_prefix),
     (''--crc-type'', D_crc_type),
     (''--include-file'', D_include_file),
     (''--output'', D_output_file),
     (''--help'', D_help),
     (''--version'', D_version)]"

definition short_options :: "(char \<times> dest) list" where
  "short_options = [(CHR ''v'', D_verbose), (CHR ''o'', D_output_file), (CHR ''h'', D_help)]"

definition usage_text :: "string \<Rightarrow> string" where
  \<open>usage_text prog = ''Usage: '' @ nl_join [
     prog @ '' [OPTIONS]'',
     [],
     ''To generate the checksum of a string or hexadecimal data:'',
     ''    '' @ prog @ '' [model] --check-string '' @ [CHR 0x22] @ ''123456789'' @ [CHR 0x22],
     ''    '' @ prog @ '' [model] --check-hexstring '' @ [CHR 0x22] @ ''313233343536373839'' @ [CHR 0x22],
     [],
     ''To generate the checksum of a file:'',
     ''    '' @ prog @ '' [model] --check-file filename'',
     [],
     ''To generate the c-source and write it to filename:'',
     ''    '' @ prog @ '' [model] --generate c -o filename'',
     [],
     ''The model can be defined by the --model switch or by specifying each of the'',
     ''following parameters:'',
     ''    --width --poly --reflect-in --xor-in --reflect-out --xor-out''] @ [CHR 0x0A, CHR 0x0A]\<close>

text \<open>\<open>parser.error\<close>: the usage and the message, exit status 2.\<close>

definition usage_error :: "string \<Rightarrow> string \<Rightarrow> 'a res" where
  "usage_error prog msg = Inl (SystemExit 2 (usage_text prog @ prog @ '': error: '' @ msg @ [CHR 0x0A]))"

section \<open>Storing a value\<close>

definition takes_value :: "dest \<Rightarrow> bool" where
  "takes_value d \<longleftrightarrow> d \<notin> {D_verbose, D_help, D_version}"

text \<open>\<open>optparse\<close>'s own type \<open>int\<close>: the prefix of the text selects the base.\<close>

definition check_int :: "string \<Rightarrow> string \<Rightarrow> int res" where
  "check_int opt val =
     (let pre = py_lower (take 2 val);
          r = (if pre = ''0x'' then py_int 16 val
               else if pre = ''0b'' then py_int 2 (if drop 2 val = [] then ''0'' else drop 2 val)
               else if take 1 val = ''0'' then
                 (let s = strip val;
                      t = (if py_lower (take 2 s) = ''0o'' then drop 2 s else s)
                  in case parse_nat 8 t of None \<Rightarrow> Inl ValueError | Some n \<Rightarrow> Inr (int n))
               else py_int 10 val)
      in case r of
           Inl ValueError \<Rightarrow>
             Inl (OptionValueError (''option '' @ opt @ '': invalid integer value: '' @ val))
         | _ \<Rightarrow> r)"

definition store_value :: "dest \<Rightarrow> string \<Rightarrow> string \<Rightarrow> opt_values \<Rightarrow> opt_values res" where
  "store_value d opt val v =
     (case d of
        D_check_string \<Rightarrow> Inr (v\<lparr>v_check_string := Some val\<rparr>)
      | D_check_hexstring \<Rightarrow> Inr (v\<lparr>v_check_hexstring := Some val\<rparr>)
      | D_check_file \<Rightarrow> Inr (v\<lparr>v_check_file := Some val\<rparr>)
      | D_generate \<Rightarrow> Inr (v\<lparr>v_generate := Some val\<rparr>)
      | D_c_std \<Rightarrow> Inr (v\<lparr>v_c_std := Some val\<rparr>)
      | D_algorithm \<Rightarrow> Inr (v\<lparr>v_algorithm := Some val\<rparr>)
      | D_model \<Rightarrow> model_cb val v
      | D_width \<Rightarrow> bind_res (check_hex opt val) (\<lambda>i. Inr (v\<lparr>v_width := Some i\<rparr>))
      | D_poly \<Rightarrow> bind_res (check_hex opt val) (\<lambda>i. Inr (v\<lparr>v_poly := Some i\<rparr>))
      | D_reflect_in \<Rightarrow> bind_res (check_bool opt val) (\<lambda>b. Inr (v\<lparr>v_reflect_in := Some b\<rparr>))
      | D_xor_in \<Rightarrow> bind_res (check_hex opt val) (\<lambda>i. Inr (v\<lparr>v_xor_in := Some i\<rparr>))
      | D_reflect_out \<Rightarrow> bind_res (check_bool opt val) (\<lambda>b. Inr (v\<lparr>v_reflect_out := Some b\<rparr>))
      | D_xor_out \<Rightarrow> bind_res (check_hex opt val) (\<lambda>i. Inr (v\<lparr>v_xor_out := Some i\<rparr>))
      | D_table_idx_width \<Rightarrow> bind_res (check_int opt val) (\<lambda>i. Inr (v\<lparr>v_table_idx_width := Some i\<rparr>))
      | D_symbol_prefix \<Rightarrow> Inr (v\<lparr>v_symbol_prefix := Some val\<rparr>)
      | D_crc_type \<Rightarrow> Inr (v\<lparr>v_crc_type := Some val\<rparr>)
      | D_include_file \<Rightarrow> Inr (v\<lparr>v_include_file := Some val\<rparr>)
      | D_output_file \<Rightarrow> Inr (v\<lparr>v_output_file := Some val\<rparr>)
      | _ \<Rightarrow> Inr v)"

text \<open>An option without a value: \<open>--help\<close> and \<open>--version\<close> print to standard output and exit.\<close>

definition flag_option :: "dest \<Rightarrow> opt_values \<Rightarrow> opt_values res" where
  "flag_option d v = (if d = D_verbose then Inr (v\<lparr>v_verbose := True\<rparr>) else Inl (SystemExit 0 []))"

definition value_option :: "string \<Rightarrow> dest \<Rightarrow> string \<Rightarrow> string \<Rightarrow> opt_values \<Rightarrow> opt_values res" where
  "value_option prog d opt val v =
     (case store_value d opt val v of
        Inl (OptionValueError msg) \<Rightarrow> usage_error prog msg
      | r \<Rightarrow> r)"

section \<open>Scanning\<close>

text \<open>\<open>_match_abbrev\<close>: the name itself, or the only one it begins.\<close>

definition match_long :: "string \<Rightarrow> string \<Rightarrow> (string \<times> dest) res" where
  "match_long prog opt =
     (case map_of long_options opt of
        Some d \<Rightarrow> Inr (opt, d)
      | None \<Rightarrow>
          (case filter (\<lambda>(n, d). startswith n opt) long_options of
             [] \<Rightarrow> usage_error prog (''no such option: '' @ opt)
           | [p] \<Rightarrow> Inr p
           | ps \<Rightarrow> usage_error prog (''ambiguous option: '' @ opt @ '' ('' @
               py_join '', '' (sort (map fst ps)) @ ''?)'')))"

text \<open>The results carry how many of the remaining arguments were consumed.\<close>

definition process_long ::
  "string \<Rightarrow> string \<Rightarrow> string list \<Rightarrow> opt_values \<Rightarrow> (opt_values \<times> nat) res" where
  "process_long prog arg rest v =
     (let opt = takeWhile (\<lambda>c. c \<noteq> CHR ''='') arg;
          explicit = (if CHR ''='' \<in> set arg
            then Some (drop 1 (dropWhile (\<lambda>c. c \<noteq> CHR ''='') arg)) else None)
      in bind_res (match_long prog opt) (\<lambda>(name, d).
        if takes_value d then
          (case explicit of
             Some val \<Rightarrow> bind_res (value_option prog d name val v) (\<lambda>v'. Inr (v', 0))
           | None \<Rightarrow>
               (case rest of
                  [] \<Rightarrow> usage_error prog (name @ '' option requires an argument'')
                | val # _ \<Rightarrow> bind_res (value_option prog d name val v) (\<lambda>v'. Inr (v', 1))))
        else if explicit \<noteq> None then usage_error prog (name @ '' option does not take a value'')
        else bind_res (flag_option d v) (\<lambda>v'. Inr (v', 0))))"

fun process_short ::
  "string \<Rightarrow> string \<Rightarrow> string list \<Rightarrow> opt_values \<Rightarrow> (opt_values \<times> nat) res" where
  "process_short prog [] rest v = Inr (v, 0)"
| "process_short prog (ch # chs) rest v =
     (let opt = [CHR ''-'', ch] in
      case map_of short_options ch of
        None \<Rightarrow> usage_error prog (''no such option: '' @ opt)
      | Some d \<Rightarrow>
          if takes_value d then
            (if chs \<noteq> [] then bind_res (value_option prog d opt chs v) (\<lambda>v'. Inr (v', 0))
             else case rest of
               [] \<Rightarrow> usage_error prog (opt @ '' option requires an argument'')
             | val # _ \<Rightarrow> bind_res (value_option prog d opt val v) (\<lambda>v'. Inr (v', 1)))
          else bind_res (flag_option d v) (process_short prog chs rest))"

text \<open>\<open>largs\<close> are the positional arguments seen so far.\<close>

function process_args ::
  "string \<Rightarrow> string list \<Rightarrow> string list \<Rightarrow> opt_values \<Rightarrow> (opt_values \<times> string list) res" where
  "process_args prog largs [] v = Inr (v, largs)"
| "process_args prog largs (arg # rest) v =
     (if arg = ''--'' then Inr (v, largs @ rest)
      else if take 2 arg = ''--'' then
        bind_res (process_long prog arg rest v) (\<lambda>(v', k). process_args prog largs (drop k rest) v')
      else if take 1 arg = ''-'' \<and> 1 < length arg then
        bind_res (process_short prog (drop 1 arg) rest v) (\<lambda>(v', k).
          process_args prog largs (drop k rest) v')
      else process_args prog (largs @ [arg]) rest v)"
  by pat_completeness auto

termination
  by (relation "measure (\<lambda>(_, _, rargs, _). length rargs)") auto

definition parse_args :: "string \<Rightarrow> string list \<Rightarrow> (opt_values \<times> string list) res" where
  "parse_args prog argv = process_args prog [] argv default_values"

text \<open>\<open>Options.parse\<close> and the program.\<close>

definition Options_parse :: "string \<Rightarrow> string list \<Rightarrow> options \<Rightarrow> parse_state res" where
  "Options_parse argv0 argv op =
     bind_res (parse_args (basename argv0) argv) (\<lambda>(v, args). validate argv0 v args op)"

definition pycrc ::
  "nat \<Rightarrow> string \<Rightarrow> (string \<Rightarrow> string option list option) \<Rightarrow> (string \<Rightarrow> bool) \<Rightarrow>
   string \<Rightarrow> string list \<Rightarrow> outcome run" where
  "pycrc fuel datetime files writable argv0 argv =
     bind_run (Some (parse_args (basename argv0) argv)) (\<lambda>(v, args).
       main argv0 fuel datetime files writable v args)"

section \<open>Exceptions\<close>

definition exits :: "exn \<Rightarrow> bool" where
  "exits e \<longleftrightarrow> e = SystemExit 0 [] \<or> (\<exists>m. e = SystemExit 2 m)"

definition only_exits :: "'a res \<Rightarrow> bool" where
  "only_exits r \<longleftrightarrow> (\<forall>e. r = Inl e \<longrightarrow> exits e)"

lemma only_exits_simps [simp]:
  "only_exits (Inr x)" "only_exits (usage_error prog m)" "only_exits (flag_option d v)"
  by (simp_all add: only_exits_def usage_error_def flag_option_def exits_def)

lemma only_exits_bind:
  "only_exits r \<Longrightarrow> (\<And>x. r = Inr x \<Longrightarrow> only_exits (f x)) \<Longrightarrow> only_exits (bind_res r f)"
  by (cases r) (auto simp: only_exits_def)

lemma py_int_error: "py_int b s = Inl e \<Longrightarrow> e = ValueError"
  by (auto simp: py_int_def Let_def split: option.splits)

lemma check_hex_error: "check_hex opt val = Inl e \<Longrightarrow> \<exists>m. e = OptionValueError m"
  using py_int_error by (fastforce simp: check_hex_def Let_def split: sum.splits exn.splits if_splits)

lemma check_int_error: "check_int opt val = Inl e \<Longrightarrow> \<exists>m. e = OptionValueError m"
  using py_int_error
  by (fastforce simp: check_int_def Let_def split: sum.splits exn.splits if_splits option.splits)

lemma check_bool_error: "check_bool opt val = Inl e \<Longrightarrow> \<exists>m. e = OptionValueError m"
  using check_bool_accepts [of opt val "digits_val 10 val \<noteq> 0"]
  by (cases "py_isdigit val") (auto simp: check_bool_def split: if_splits)

lemma store_value_error:
  assumes "store_value d opt val v = Inl e"
  shows "\<exists>m. e = OptionValueError m"
proof -
  have bind: "bind_res r f = Inl e \<Longrightarrow> r = Inl e \<or> (\<exists>x. f x = Inl e)" for r :: "'b res" and f :: "'b \<Rightarrow> opt_values res"
    by (cases r) auto
  show ?thesis
    using assms
    by (cases d) (auto simp: store_value_def model_cb_def Let_def check_hex_error check_bool_error
        check_int_error dest!: bind split: option.splits)
qed

lemma value_option_exits: "only_exits (value_option prog d opt val v)"
proof (cases "store_value d opt val v")
  case (Inl e)
  then show ?thesis using store_value_error [OF Inl] by (auto simp: value_option_def)
qed (simp add: value_option_def)

lemma process_long_exits: "only_exits (process_long prog arg rest v)"
proof -
  have "only_exits (match_long prog opt)" for opt
    by (simp add: match_long_def split: option.split list.split)
  then show ?thesis
    by (auto simp: process_long_def Let_def intro!: only_exits_bind value_option_exits
        split: option.split list.split)
qed

lemma process_short_exits: "only_exits (process_short prog chs rest v)"
  by (induction prog chs rest v rule: process_short.induct)
    (auto simp: Let_def intro!: only_exits_bind value_option_exits split: option.split list.split)

lemma process_args_exits: "only_exits (process_args prog largs rargs v)"
  by (induction prog largs rargs v rule: process_args.induct)
    (auto intro!: only_exits_bind process_long_exits process_short_exits)

text \<open>C17: scanning the command line ends for every list of arguments, and the only exceptions that
  escape are exits: with status 2 and a message on standard error, or with status 0 for \<open>--help\<close>
  and \<open>--version\<close>.\<close>

theorem parse_args_exits:
  "(\<exists>v args. parse_args prog argv = Inr (v, args)) \<or> parse_args prog argv = Inl (SystemExit 0 []) \<or>
   (\<exists>m. parse_args prog argv = Inl (SystemExit 2 m))"
  using process_args_exits [of prog "[]" argv default_values]
  by (cases "parse_args prog argv") (auto simp: only_exits_def exits_def parse_args_def)

section \<open>Writing a command line\<close>

text \<open>A record of option values as arguments.\<close>

definition option_arg :: "string \<Rightarrow> string option \<Rightarrow> string list" where
  "option_arg name x = (case x of None \<Rightarrow> [] | Some s \<Rightarrow> [name @ CHR ''='' # s])"

definition bool_arg :: "bool \<Rightarrow> string" where
  "bool_arg b = (if b then ''true'' else ''false'')"

definition option_args :: "opt_values \<Rightarrow> string list" where
  "option_args v =
     (if v_verbose v then [''--verbose''] else []) @
     option_arg ''--check-string'' (v_check_string v) @
     option_arg ''--check-hexstring'' (v_check_hexstring v) @
     option_arg ''--check-file'' (v_check_file v) @
     option_arg ''--generate'' (v_generate v) @
     option_arg ''--std'' (v_c_std v) @
     option_arg ''--algorithm'' (v_algorithm v) @
     option_arg ''--width'' (map_option py_dec (v_width v)) @
     option_arg ''--poly'' (map_option py_dec (v_poly v)) @
     option_arg ''--reflect-in'' (map_option bool_arg (v_reflect_in v)) @
     option_arg ''--xor-in'' (map_option py_dec (v_xor_in v)) @
     option_arg ''--reflect-out'' (map_option bool_arg (v_reflect_out v)) @
     option_arg ''--xor-out'' (map_option py_dec (v_xor_out v)) @
     option_arg ''--table-idx-width'' (map_option py_dec (v_table_idx_width v)) @
     option_arg ''--symbol-prefix'' (v_symbol_prefix v) @
     option_arg ''--crc-type'' (v_crc_type v) @
     option_arg ''--include-file'' (v_include_file v) @
     option_arg ''--output'' (v_output_file v)"

lemma long_options_names:
  assumes "(name, d) \<in> set long_options"
  shows "map_of long_options name = Some d" "take 2 name = ''--''" "CHR ''='' \<notin> set name" "2 < length name"
proof -
  have "distinct (map fst long_options)"
    by (simp add: long_options_def)
  then show "map_of long_options name = Some d"
    using assms by simp
  have "list_all (\<lambda>(n, d). take 2 n = ''--'' \<and> CHR ''='' \<notin> set n \<and> 2 < length n) long_options"
    by (simp add: long_options_def)
  then show "take 2 name = ''--''" "CHR ''='' \<notin> set name" "2 < length name"
    using assms by (auto simp: list_all_iff)
qed

lemma process_explicit:
  assumes "(name, d) \<in> set long_options" and "takes_value d" and "store_value d name val v = Inr v'"
  shows "process_args prog largs ((name @ CHR ''='' # val) # rest) v = process_args prog largs rest v'"
proof -
  note n = long_options_names [OF assms(1)]
  have "takeWhile (\<lambda>c. c \<noteq> CHR ''='') (name @ CHR ''='' # val) = name"
    "dropWhile (\<lambda>c. c \<noteq> CHR ''='') (name @ CHR ''='' # val) = CHR ''='' # val"
    using n(3) by (auto simp: takeWhile_append dropWhile_append)
  then have "process_long prog (name @ CHR ''='' # val) rest v = Inr (v', 0)"
    using n(1) assms(2,3) by (simp add: process_long_def match_long_def value_option_def)
  moreover have "take 2 (name @ CHR ''='' # val) = ''--''"
    using n(2,4) by simp
  moreover have "length (name @ CHR ''='' # val) \<noteq> length ''--''"
    using n(4) by simp
  then have "name @ CHR ''='' # val \<noteq> ''--''"
    by metis
  ultimately show ?thesis by simp
qed

lemma process_option_arg:
  assumes "(name, d) \<in> set long_options" and "takes_value d"
    and "\<And>s. x = Some s \<Longrightarrow> store_value d name s v = Inr v'" and "x = None \<Longrightarrow> v' = v"
  shows "process_args prog largs (option_arg name x @ rest) v = process_args prog largs rest v'"
  using assms process_explicit [OF assms(1,2), of _ v v'] by (cases x) (auto simp: option_arg_def)

lemma check_bool_arg: "check_bool opt (bool_arg b) = Inr b"
proof -
  have "\<not> py_isdigit (bool_arg b)"
    by (simp add: bool_arg_def py_isdigit_def is_base_digit_def digit_val_def)
  moreover have "py_lower (bool_arg b) = bool_arg b"
    by (simp add: bool_arg_def py_lower_def char_lower_def)
  ultimately show ?thesis
    by (simp add: check_bool_accepts) (simp add: bool_arg_def)
qed

lemma digit_char_0:
  assumes "d < 10" and "digit_char d = CHR ''0''"
  shows "d = 0"
proof -
  have "of_char (digit_char d) = 48 + d"
    using assms(1) by (simp add: digit_char_def)
  then show ?thesis by (simp add: assms(2))
qed

lemma nat_str_first:
  assumes "0 < n"
  shows "hd (nat_str 10 n) \<noteq> CHR ''0''"
  using assms
proof (induction n rule: less_induct)
  case (less n)
  show ?case
  proof (cases "n < 10")
    case True
    then show ?thesis
      using digit_char_0 less.prems by (auto simp: nat_str.simps [of 10 n])
  next
    case False
    then show ?thesis
      using less.IH [of "n div 10"] nat_str_digits [of 10 "n div 10"] by (simp add: nat_str.simps [of 10 n])
  qed
qed

lemma check_int_dec: "check_int opt (py_dec i) = Inr i"
proof (cases "i = 0")
  case True
  have "py_dec 0 = ''0''"
    by (simp add: py_dec_def nat_str.simps digit_char_def char_of_def bit_0)
  moreover have "is_base_digit 8 (CHR ''0'')" "digit_val (CHR ''0'') = Some 0"
    by (simp_all add: is_base_digit_def digit_val_def)
  ultimately show ?thesis
    using True by (simp add: check_int_def py_lower_def char_lower_def parse_nat_def digits_val_def
        strip_def is_space_def)
next
  case False
  have first: "c \<noteq> CHR ''0''" if "py_dec i = c # s" for c s
    using that False nat_str_first [of "nat i"] nat_str_digits [of 10 "nat i"]
    by (cases "nat_str 10 (nat i)") (auto simp: py_dec_def split: if_splits)
  obtain c s where "py_dec i = c # s"
    using nat_str_digits [of 10 "nat i"] by (cases "py_dec i") (auto simp: py_dec_def split: if_splits)
  then show ?thesis
    using first py_int_dec [of i] by (cases s) (auto simp: check_int_def py_lower_def char_lower_0)
qed

lemmas store_simps = store_value_def takes_value_def long_options_def check_hex_roundtrip
  check_bool_arg check_int_dec

text \<open>Every record of option values that names a C standard and an algorithm is what the scanner
  makes of the arguments written for it.\<close>

lemma process_steps:
  "process_args prog l (option_arg ''--check-string'' x @ rest) v =
     process_args prog l rest (v\<lparr>v_check_string := orelse x (v_check_string v)\<rparr>)"
  "process_args prog l (option_arg ''--check-hexstring'' x @ rest) v =
     process_args prog l rest (v\<lparr>v_check_hexstring := orelse x (v_check_hexstring v)\<rparr>)"
  "process_args prog l (option_arg ''--check-file'' x @ rest) v =
     process_args prog l rest (v\<lparr>v_check_file := orelse x (v_check_file v)\<rparr>)"
  "process_args prog l (option_arg ''--generate'' x @ rest) v =
     process_args prog l rest (v\<lparr>v_generate := orelse x (v_generate v)\<rparr>)"
  "process_args prog l (option_arg ''--std'' x @ rest) v =
     process_args prog l rest (v\<lparr>v_c_std := orelse x (v_c_std v)\<rparr>)"
  "process_args prog l (option_arg ''--algorithm'' x @ rest) v =
     process_args prog l rest (v\<lparr>v_algorithm := orelse x (v_algorithm v)\<rparr>)"
  "process_args prog l (option_arg ''--width'' (map_option py_dec i) @ rest) v =
     process_args prog l rest (v\<lparr>v_width := orelse i (v_width v)\<rparr>)"
  "process_args prog l (option_arg ''--poly'' (map_option py_dec i) @ rest) v =
     process_args prog l rest (v\<lparr>v_poly := orelse i (v_poly v)\<rparr>)"
  "process_args prog l (option_arg ''--reflect-in'' (map_option bool_arg b) @ rest) v =
     process_args prog l rest (v\<lparr>v_reflect_in := orelse b (v_reflect_in v)\<rparr>)"
  "process_args prog l (option_arg ''--xor-in'' (map_option py_dec i) @ rest) v =
     process_args prog l rest (v\<lparr>v_xor_in := orelse i (v_xor_in v)\<rparr>)"
  "process_args prog l (option_arg ''--reflect-out'' (map_option bool_arg b) @ rest) v =
     process_args prog l rest (v\<lparr>v_reflect_out := orelse b (v_reflect_out v)\<rparr>)"
  "process_args prog l (option_arg ''--xor-out'' (map_option py_dec i) @ rest) v =
     process_args prog l rest (v\<lparr>v_xor_out := orelse i (v_xor_out v)\<rparr>)"
  "process_args prog l (option_arg ''--table-idx-width'' (map_option py_dec i) @ rest) v =
     process_args prog l rest (v\<lparr>v_table_idx_width := orelse i (v_table_idx_width v)\<rparr>)"
  "process_args prog l (option_arg ''--symbol-prefix'' x @ rest) v =
     process_args prog l rest (v\<lparr>v_symbol_prefix := orelse x (v_symbol_prefix v)\<rparr>)"
  "process_args prog l (option_arg ''--crc-type'' x @ rest) v =
     process_args prog l rest (v\<lparr>v_crc_type := orelse x (v_crc_type v)\<rparr>)"
  "process_args prog l (option_arg ''--include-file'' x @ rest) v =
     process_args prog l rest (v\<lparr>v_include_file := orelse x (v_include_file v)\<rparr>)"
  "process_args prog l (option_arg ''--output'' x @ rest) v =
     process_args prog l rest (v\<lparr>v_output_file := orelse x (v_output_file v)\<rparr>)"
  subgoal by (rule process_option_arg [where d = D_check_string]) (auto simp: store_simps orelse_def)
  subgoal by (rule process_option_arg [where d = D_check_hexstring]) (auto simp: store_simps orelse_def)
  subgoal by (rule process_option_arg [where d = D_check_file]) (auto simp: store_simps orelse_def)
  subgoal by (rule process_option_arg [where d = D_generate]) (auto simp: store_simps orelse_def)
  subgoal by (rule process_option_arg [where d = D_c_std]) (auto simp: store_simps orelse_def)
  subgoal by (rule process_option_arg [where d = D_algorithm]) (auto simp: store_simps orelse_def)
  subgoal by (rule process_option_arg [where d = D_width]) (auto simp: store_simps orelse_def)
  subgoal by (rule process_option_arg [where d = D_poly]) (auto simp: store_simps orelse_def)
  subgoal by (rule process_option_arg [where d = D_reflect_in]) (auto simp: store_simps orelse_def)
  subgoal by (rule process_option_arg [where d = D_xor_in]) (auto simp: store_simps orelse_def)
  subgoal by (rule process_option_arg [where d = D_reflect_out]) (auto simp: store_simps orelse_def)
  subgoal by (rule process_option_arg [where d = D_xor_out]) (auto simp: store_simps orelse_def)
  subgoal by (rule process_option_arg [where d = D_table_idx_width]) (auto simp: store_simps orelse_def)
  subgoal by (rule process_option_arg [where d = D_symbol_prefix]) (auto simp: store_simps orelse_def)
  subgoal by (rule process_option_arg [where d = D_crc_type]) (auto simp: store_simps orelse_def)
  subgoal by (rule process_option_arg [where d = D_include_file]) (auto simp: store_simps orelse_def)
  subgoal by (rule process_option_arg [where d = D_output_file]) (auto simp: store_simps orelse_def)
  done

lemma process_verbose:
  "process_args prog l ((if b then [''--verbose''] else []) @ rest) v =
     process_args prog l rest (v\<lparr>v_verbose := b \<or> v_verbose v\<rparr>)"
proof -
  have "map_of long_options ''--verbose'' = Some D_verbose"
    by (rule long_options_names) (simp add: long_options_def)
  then have "process_long prog ''--verbose'' rest v = Inr (v\<lparr>v_verbose := True\<rparr>, 0)"
    by (simp add: process_long_def match_long_def takes_value_def flag_option_def)
  then show ?thesis by simp
qed

lemma parse_option_args:
  assumes "v_c_std v \<noteq> None" and "v_algorithm v \<noteq> None"
  shows "parse_args prog (option_args v) = Inr (v, [])"
proof -
  obtain c a where ca: "v_c_std v = Some c" "v_algorithm v = Some a"
    using assms by auto
  have orelse: "orelse x None = x" "orelse (Some z) y = Some z" for x y and z :: 'b
    by (simp_all add: orelse_def)
  note last = process_steps(17) [where rest = "[]", unfolded append_Nil2]
  show ?thesis
    unfolding parse_args_def option_args_def
    by (cases v) (use ca in \<open>simp add: process_verbose process_steps last default_values_def orelse\<close>)
qed

text \<open>C16: every record of option values that names a C standard and an algorithm is what the program
  reads from the arguments written for it, whatever characters the texts contain.\<close>

theorem command_line_roundtrip:
  assumes "v_c_std v \<noteq> None" and "v_algorithm v \<noteq> None"
  shows "parse_args prog (option_args v) = Inr (v, [])"
  using assms by (rule parse_option_args)

theorem command_line_roundtrip_witness:
  "\<exists>v. parse_args ''pycrc'' [''--std=C99'', ''--algorithm=all'', ''--width=16'', ''--symbol-prefix=a=b''] = Inr (v, []) \<and>
     v_width v = Some 16 \<and> v_symbol_prefix v = Some ''a=b''"
proof -
  let ?v = "default_values\<lparr>v_width := Some 16, v_symbol_prefix := Some ''a=b''\<rparr>"
  have "py_dec 16 = ''16''"
    by (simp add: py_dec_def nat_str.simps digit_char_def char_of_def bit_0)
  then have "option_args ?v = [''--std=C99'', ''--algorithm=all'', ''--width=16'', ''--symbol-prefix=a=b'']"
    by (simp add: option_args_def option_arg_def default_values_def)
  moreover have "parse_args ''pycrc'' (option_args ?v) = Inr (?v, [])"
    by (rule command_line_roundtrip) (simp_all add: default_values_def)
  ultimately show ?thesis by auto
qed

section \<open>A model on the command line\<close>

text \<open>C13: \<open>pycrc --model NAME\<close>, the name in any case and in two arguments or one, prints the check value
  of the model in hexadecimal, for every model but \<open>crc-64-jones\<close>; it reads no file and needs no
  fuel.\<close>

theorem pycrc_model:
  assumes "m \<in> set (butlast models)" and "py_lower name = m_name m"
    and "argv = [''--model'', name] \<or> argv = [''--model='' @ name]"
  shows "pycrc fuel datetime files writable argv0 argv = ret (print_line (''0x'' @ py_hex (m_check m)), None)"
proof -
  have m: "m \<in> set models" using assms(1) by (rule in_set_butlastD)
  then have "getParams (py_lower name) = Some m"
    using getParams_Some [of "py_lower name" m] assms(2) py_lower_idem [of name] by simp
  then have store: "store_value D_model opt name v = Inr (set_model m v)" for opt v
    by (simp add: store_value_def model_cb_def set_model_def)
  have opt: "(''--model'', D_model) \<in> set long_options" "takes_value D_model"
    by (simp_all add: long_options_def takes_value_def)
  have "process_long prog ''--model'' [name] v = Inr (set_model m v, 1)" for prog v
    using long_options_names(1) [OF opt(1)] opt(2) store
    by (simp add: process_long_def match_long_def value_option_def)
  then have "parse_args prog argv = Inr (set_model m default_values, [])" for prog
    using assms(3) process_explicit [OF opt store, of prog "[]" "[]" default_values]
    by (auto simp: parse_args_def)
  then show ?thesis
    using main_prints_check [OF assms(1)] by (simp add: pycrc_def)
qed

theorem pycrc_model_witness:
  "pycrc 0 [] (\<lambda>_. None) (\<lambda>_. False) ''pycrc'' [''--model'', ''CRC-5''] = ret (''0x19'' @ [CHR 0x0A], None)"
proof -
  have m: "hd models \<in> set (butlast models)" and k: "m_check (hd models) = 0x19"
    and n: "m_name (hd models) = ''crc-5''"
    by (simp_all add: models_eval)
  have "py_lower ''CRC-5'' = ''crc-5''"
    by (simp add: py_lower_def char_lower_def char_of_def bit_0)
  moreover have "py_hex 0x19 = ''19''"
    by (simp add: py_hex_def nat_str.simps digit_char_def char_of_def bit_0)
  ultimately show ?thesis
    using pycrc_model [OF m, of "''CRC-5''" "[''--model'', ''CRC-5'']" 0 "[]" "\<lambda>_. None" "\<lambda>_. False" "''pycrc''"]
    by (simp add: k n print_line_def)
qed

end
