(* ===== verification/BtsConsole.thy ===== *)
theory BtsConsole
  imports Prelude
begin

text \<open>
  The consoles of the base station, \<open>get_code\<close>, \<open>control_loop\<close> and \<open>main\<close> of
  \<open>examples/bts_top.py\<close> and the first two of \<open>examples/bts_snd_recv.py\<close>, as a state machine: a step
  reads a command or does one round of the inner loop.  What the flow graph is asked to do and what
  is printed is the trace.  The operator's input and the fill level of the message queue are the
  environment.
\<close>

section \<open>Command codes\<close>

datatype code =
    Code_int int
  | Code_bits "int list"
  | Code_digits string
  | Code_packet "int list" int

text \<open>The two versions of the function differ in the code of the command \<open>q\<close> only.\<close>

definition get_code_with :: "code \<Rightarrow> string \<Rightarrow> code res" where
  "get_code_with query com =
     (case com of
        [] \<Rightarrow> Inl IndexError
      | c # _ \<Rightarrow>
          if c = CHR ''s''
          then (if 2 < length com then Inr (Code_digits (''4'' @ drop 2 com)) else Inr (Code_int 0))
          else if com = ''q'' then Inr query
          else if com = ''ak'' then Inr (Code_digits ''5010000000000000111'')
          else if com = ''qr'' then Inr (Code_digits ''50001'')
          else if com = ''q2'' then Inr (Code_packet [0x4, 0x8, 0x5, 0x0, 0x7, 0xF, 0x3] 22)
          else if com = ''q1'' then Inr (Code_packet [0x4, 0x8, 0x6, 0x0, 0x0, 0x1, 0xD] 22)
          else if com = ''loop test'' then Inr (Code_packet [0x5, 0x8, 0x6, 0x0, 0x0, 0x8, 0x0] 22)
          else Inr (Code_int 0))"

definition query_bits :: "int list" where
  "query_bits = [1, 0, 0, 0, 0, 1, 0, 1, 0, 0, 0, 0, 0, 0, 0, 0, 0]"

definition get_code_top :: "string \<Rightarrow> code res" where
  "get_code_top = get_code_with (Code_bits query_bits)"

definition get_code_recv :: "string \<Rightarrow> code res" where
  "get_code_recv = get_code_with (Code_int 1)"

section \<open>The machine\<close>

datatype mode = Prompt | Looping int | Finished | Failed exn

record console =
  pwr_on :: bool
  mode :: mode

datatype event =
    Tb_start
  | Tb_stop
  | Tb_wait
  | Send_preamble code
  | Send_pkt code
  | Snd_query
  | Sleep
  | Print string
  | Print_data
  | Clear_data

text \<open>The body of the outer loop for one command.  The test \<open>pwr_on == true\<close> of \<open>stop\<close> reads a name
  that does not exist; the branches behind it are not reached.\<close>

definition do_command ::
  "(string \<Rightarrow> code res) \<Rightarrow> (code \<Rightarrow> event list) \<Rightarrow> string \<Rightarrow> console \<Rightarrow> event list \<times> console" where
  "do_command code_of send com st =
     (if com = ''start'' then
        (if pwr_on st = False
         then ([Tb_start, Print ''Sending power to device.''], st\<lparr>pwr_on := True\<rparr>)
         else ([Print ''Power already on.''], st))
      else if com = ''stop'' then ([], st\<lparr>mode := Failed (NameError ''true'')\<rparr>)
      else if com = ''loop'' then ([], st\<lparr>mode := Looping 0\<rparr>)
      else if com \<noteq> ''e'' then
        (case code_of com of
           Inl e \<Rightarrow> ([], st\<lparr>mode := Failed e\<rparr>)
         | Inr code \<Rightarrow>
             if code \<noteq> Code_int 0 then (send code, st) else ([Print ''Uknown command.''], st))
      else ([], st\<lparr>mode := Finished\<rparr>))"

definition send_top :: "code \<Rightarrow> event list" where
  "send_top code = [Send_preamble code, Sleep, Print ''Command sent'', Print_data, Clear_data]"

definition send_recv :: "code \<Rightarrow> event list" where
  "send_recv code = [Snd_query, Print ''Command sent'']"

text \<open>One test and round of \<open>while x != 12\<close>; \<open>full\<close> is what \<open>full_p\<close> answers.  The block of
  \<open>bts_snd_recv.py\<close> has no attribute \<open>tx_path\<close>.\<close>

definition loop_round_top :: "bool \<Rightarrow> int \<Rightarrow> event list \<times> mode" where
  "loop_round_top full x =
     (if x \<noteq> 12 then
        (if \<not> full
         then (case get_code_top ''q'' of
             Inl e \<Rightarrow> ([], Failed e)
           | Inr code \<Rightarrow> ([Send_pkt code], Looping x))
         else ([], Looping x))
      else ([], Prompt))"

definition loop_round_recv :: "bool \<Rightarrow> int \<Rightarrow> event list \<times> mode" where
  "loop_round_recv full x =
     (if x \<noteq> 12 then ([], Failed (AttributeError ''tx_path'')) else ([], Prompt))"

inductive console_step ::
  "(string \<Rightarrow> code res) \<Rightarrow> (code \<Rightarrow> event list) \<Rightarrow> (bool \<Rightarrow> int \<Rightarrow> event list \<times> mode) \<Rightarrow>
   console \<Rightarrow> event list \<Rightarrow> console \<Rightarrow> bool"
  for code_of send round
where
  command: "mode st = Prompt \<Longrightarrow> do_command code_of send com st = (evs, st') \<Longrightarrow>
    console_step code_of send round st evs st'"
| no_input: "mode st = Prompt \<Longrightarrow>
    console_step code_of send round st [] (st\<lparr>mode := Failed EOFError\<rparr>)"
| round: "mode st = Looping x \<Longrightarrow> round full x = (evs, m) \<Longrightarrow>
    console_step code_of send round st evs (st\<lparr>mode := m\<rparr>)"

inductive console_run ::
  "(string \<Rightarrow> code res) \<Rightarrow> (code \<Rightarrow> event list) \<Rightarrow> (bool \<Rightarrow> int \<Rightarrow> event list \<times> mode) \<Rightarrow>
   console \<Rightarrow> event list \<Rightarrow> console \<Rightarrow> bool"
  for code_of send round
where
  run_refl: "console_run code_of send round st [] st"
| run_step: "console_run code_of send round st evs st1 \<Longrightarrow>
    console_step code_of send round st1 evs' st2 \<Longrightarrow>
    console_run code_of send round st (evs @ evs') st2"

definition console_init :: console where
  "console_init = \<lparr>pwr_on = True, mode = Prompt\<rparr>"

text \<open>The console over a given list of input lines, up to the inner loop.\<close>

fun session :: "(string \<Rightarrow> code res) \<Rightarrow> (code \<Rightarrow> event list) \<Rightarrow> string list \<Rightarrow> console \<Rightarrow> event list \<times> console" where
  "session code_of send [] st =
     (if mode st = Prompt then ([], st\<lparr>mode := Failed EOFError\<rparr>) else ([], st))"
| "session code_of send (com # coms) st =
     (if mode st = Prompt
      then (case do_command code_of send com st of (evs, st1) \<Rightarrow>
             (case session code_of send coms st1 of (evs', st2) \<Rightarrow> (evs @ evs', st2)))
      else ([], st))"

text \<open>\<open>main\<close>: an exception of the loop ends it before \<open>tb.stop()\<close>.\<close>

definition main_top :: "string list \<Rightarrow> event list \<times> console" where
  "main_top coms =
     (case get_code_top ''q'' of
        Inl e \<Rightarrow> ([Tb_start, Sleep], console_init\<lparr>mode := Failed e\<rparr>)
      | Inr code \<Rightarrow>
          (case session get_code_top send_top coms console_init of (evs, st) \<Rightarrow>
             ([Tb_start, Sleep, Send_preamble code] @ evs @ (if mode st = Finished then [Tb_stop] else []),
              st)))"

text \<open>\<open>main\<close> of \<open>bts_snd_recv.py\<close>, uninterrupted or interrupted from the keyboard during its call
  number \<open>k\<close>.\<close>

definition main_recv :: "nat option \<Rightarrow> event list" where
  "main_recv interrupt =
     (case interrupt of
        None \<Rightarrow> [Tb_start, Snd_query, Tb_wait]
      | Some k \<Rightarrow> take k [Tb_start, Snd_query, Tb_wait] @ [Tb_stop])"

section \<open>What every console keeps\<close>

definition power_event :: "event \<Rightarrow> bool" where
  "power_event ev \<longleftrightarrow> ev \<in> {Tb_start, Tb_stop, Tb_wait}"

text \<open>A console program: sending and the inner loop do not touch the power, and the inner loop does
  not return to the prompt.\<close>

locale console_program =
  fixes code_of :: "string \<Rightarrow> code res"
    and send :: "code \<Rightarrow> event list"
    and round :: "bool \<Rightarrow> int \<Rightarrow> event list \<times> mode"
  assumes send_quiet: "ev \<in> set (send c) \<Longrightarrow> \<not> power_event ev"
    and round_quiet: "round full 0 = (evs, m) \<Longrightarrow> ev \<in> set evs \<Longrightarrow> \<not> power_event ev"
    and round_stays: "round full 0 = (evs, m) \<Longrightarrow> m = Looping 0 \<or> (\<exists>e. m = Failed e)"
begin

abbreviation steps :: "console \<Rightarrow> event list \<Rightarrow> console \<Rightarrow> bool" where
  "steps \<equiv> console_step code_of send round"

abbreviation runs :: "console \<Rightarrow> event list \<Rightarrow> console \<Rightarrow> bool" where
  "runs \<equiv> console_run code_of send round"

definition powered :: "console \<Rightarrow> bool" where
  "powered st \<longleftrightarrow> pwr_on st \<and> (\<forall>x. mode st = Looping x \<longrightarrow> x = 0)"

lemma command_powered:
  assumes "powered st" and "do_command code_of send com st = (evs, st')"
  shows "powered st' \<and> (\<forall>ev \<in> set evs. \<not> power_event ev)"
  using assms send_quiet
  by (auto simp: do_command_def powered_def power_event_def split: if_splits sum.splits)

lemma step_powered:
  assumes "steps st evs st'" and "powered st"
  shows "powered st' \<and> (\<forall>ev \<in> set evs. \<not> power_event ev)"
  using assms
proof (cases rule: console_step.cases)
  case (command com)
  then show ?thesis using command_powered assms(2) by blast
next
  case (round x full m)
  then have "x = 0" using assms(2) by (simp add: powered_def)
  with round show ?thesis
    using round_quiet [of full evs m] round_stays [of full evs m] assms(2) by (auto simp: powered_def)
qed (auto simp: powered_def)

lemma run_powered:
  assumes "runs st evs st'" and "powered st"
  shows "powered st' \<and> (\<forall>ev \<in> set evs. \<not> power_event ev)"
  using assms by (induction rule: console_run.induct) (auto dest: step_powered)

lemma loop_step:
  assumes "steps st evs st'" and "mode st = Looping 0 \<or> (\<exists>e. mode st = Failed e)"
  shows "mode st' = Looping 0 \<or> (\<exists>e. mode st' = Failed e)"
  using assms by (cases rule: console_step.cases) (auto dest: round_stays)

lemma loop_run:
  assumes "runs st evs st'" and "mode st = Looping 0"
  shows "mode st' = Looping 0 \<or> (\<exists>e. mode st' = Failed e)"
  using assms by (induction rule: console_run.induct) (blast dest: loop_step)+

end

interpretation top_console: console_program get_code_top send_top loop_round_top
  by unfold_locales
    (auto simp: send_top_def loop_round_top_def power_event_def split: if_splits sum.splits)

interpretation recv_console: console_program get_code_recv send_recv loop_round_recv
  by unfold_locales (auto simp: send_recv_def loop_round_recv_def power_event_def)

section \<open>The console of the base station\<close>

text \<open>C33: whatever the operator types and however full the queue is, the power stays on and the
  control loop neither starts, stops nor waits for the flow graph: the commands for it do not
  work.\<close>

theorem power_always_on:
  assumes "console_run get_code_top send_top loop_round_top console_init evs st"
  shows "pwr_on st \<and> {Tb_start, Tb_stop, Tb_wait} \<inter> set evs = {}"
proof -
  have "top_console.powered console_init"
    by (simp add: top_console.powered_def console_init_def)
  from top_console.run_powered [OF assms this] show ?thesis
    by (auto simp: top_console.powered_def power_event_def)
qed

theorem power_always_on_witness:
  "pwr_on (console_init\<lparr>mode := Failed (NameError ''true'')\<rparr>)"
proof -
  have "console_run get_code_top send_top loop_round_top console_init ([] @ [])
      (console_init\<lparr>mode := Failed (NameError ''true'')\<rparr>)"
    by (rule run_step [OF run_refl command [where com = "''stop''"]])
      (simp_all add: console_init_def do_command_def)
  from power_always_on [OF this] show ?thesis ..
qed

text \<open>The command \<open>loop\<close> never comes back to the prompt: every state reached from the inner loop
  is the same loop, and all that happens there is that query packets are sent, one in every round
  that finds room in the queue.\<close>

lemma loop_never_returns:
  assumes "console_run get_code_top send_top loop_round_top st evs st'" and "mode st = Looping 0"
  shows "mode st' = Looping 0 \<and> set evs \<subseteq> {Send_pkt (Code_bits query_bits)} \<and>
    console_step get_code_top send_top loop_round_top st' [Send_pkt (Code_bits query_bits)] st'"
proof -
  have round: "loop_round_top full 0 =
      (if full then [] else [Send_pkt (Code_bits query_bits)], Looping 0)" for full
    by (simp add: loop_round_top_def get_code_top_def get_code_with_def)
  have "mode st' = Looping 0 \<and> set evs \<subseteq> {Send_pkt (Code_bits query_bits)}"
    using assms
  proof (induction rule: console_run.induct)
    case (run_step st evs st1 evs' st2)
    then have "mode st1 = Looping 0" by blast
    with run_step(2) have "mode st2 = Looping 0 \<and> set evs' \<subseteq> {Send_pkt (Code_bits query_bits)}"
      by (cases rule: console_step.cases) (auto simp: round split: if_splits)
    with run_step show ?case by auto
  qed simp
  moreover from this have m: "mode st' = Looping 0" ..
  then have "st'\<lparr>mode := Looping 0\<rparr> = st'"
    by (cases st') simp
  with console_step.round [where code_of = get_code_top and send = send_top and round = loop_round_top,
      OF m round [of False]]
  have "console_step get_code_top send_top loop_round_top st' [Send_pkt (Code_bits query_bits)] st'"
    by simp
  ultimately show ?thesis by blast
qed

section \<open>Sessions\<close>

lemma session_run:
  "console_run get_code_top send_top loop_round_top st0 evs0 st \<Longrightarrow>
   session get_code_top send_top coms st = (evs, st') \<Longrightarrow>
   console_run get_code_top send_top loop_round_top st0 (evs0 @ evs) st'"
proof (induction coms arbitrary: st evs0 evs)
  case Nil
  then show ?case
    using run_step [OF Nil(1) no_input] by (auto split: if_splits)
next
  case (Cons com coms)
  show ?case
  proof (cases "mode st = Prompt")
    case True
    obtain evs1 st1 where cmd: "do_command get_code_top send_top com st = (evs1, st1)" by fastforce
    obtain evs2 where rest: "session get_code_top send_top coms st1 = (evs2, st')" "evs = evs1 @ evs2"
      using Cons.prems(2) True cmd by (auto split: prod.splits)
    from Cons.IH [OF run_step [OF Cons.prems(1) command [OF True cmd]] rest(1)] rest(2)
    show ?thesis by simp
  qed (use Cons.prems in auto)
qed

text \<open>The codes that a line stands for, none for the lines that end the session or change the mode.\<close>

definition transmits :: "string \<Rightarrow> code list" where
  "transmits com =
     (if com \<in> {''start'', ''stop'', ''loop'', ''e''} then []
      else case get_code_top com of Inr c \<Rightarrow> if c = Code_int 0 then [] else [c] | Inl e \<Rightarrow> [])"

definition sent_codes :: "event list \<Rightarrow> code list" where
  "sent_codes evs = concat (map (\<lambda>ev. case ev of Send_preamble c \<Rightarrow> [c] | Send_pkt c \<Rightarrow> [c] | _ \<Rightarrow> []) evs)"

lemma sent_codes_append [simp]: "sent_codes (xs @ ys) = sent_codes xs @ sent_codes ys"
  by (simp add: sent_codes_def)

definition harmless :: "string \<Rightarrow> bool" where
  "harmless com \<longleftrightarrow> com \<notin> {[], ''stop'', ''loop'', ''e''}"

lemma get_code_errors: "get_code_with q com = Inl e \<longleftrightarrow> com = [] \<and> e = IndexError"
  by (auto simp: get_code_with_def split: list.split)

lemma harmless_command:
  assumes "harmless com" and "pwr_on st"
  shows "\<exists>evs. do_command get_code_top send_top com st = (evs, st) \<and> sent_codes evs = transmits com \<and>
    Tb_stop \<notin> set evs"
proof -
  have "get_code_top com \<noteq> Inl e" for e
    using assms(1) get_code_errors by (auto simp: get_code_top_def harmless_def)
  then show ?thesis
    using assms
    by (auto simp: do_command_def harmless_def transmits_def sent_codes_def send_top_def split: sum.split)
qed

lemma harmless_session:
  assumes "list_all harmless coms" and "pwr_on st" and "mode st = Prompt"
  shows "\<exists>evs. session get_code_top send_top (coms @ rest) st =
      (evs @ fst (session get_code_top send_top rest st), snd (session get_code_top send_top rest st)) \<and>
    sent_codes evs = concat (map transmits coms) \<and> Tb_stop \<notin> set evs"
  using assms(1)
proof (induction coms)
  case (Cons com coms)
  then obtain evs1 evs2 where "do_command get_code_top send_top com st = (evs1, st)"
    "sent_codes evs1 = transmits com" "Tb_stop \<notin> set evs1"
    "session get_code_top send_top (coms @ rest) st =
      (evs2 @ fst (session get_code_top send_top rest st), snd (session get_code_top send_top rest st))"
    "sent_codes evs2 = concat (map transmits coms)" "Tb_stop \<notin> set evs2"
    using harmless_command [OF _ assms(2)] by (metis list.pred_inject(2))
  with assms(3) show ?case by auto
qed (auto simp: sent_codes_def intro!: exI [of _ "[]"])



text \<open>\<open>get_code\<close> raises, with \<open>IndexError\<close>, on the empty line only; a line that begins with \<open>s\<close> and
  has more than two characters is transmitted with a 4 in place of its first two.\<close>

lemma get_code_lines:
  "(get_code_top com = Inl e \<longleftrightarrow> com = [] \<and> e = IndexError) \<and>
   get_code_top (CHR ''s'' # d # x # s) = Inr (Code_digits (CHR ''4'' # x # s)) \<and>
   (com \<noteq> ''q'' \<longrightarrow> get_code_recv com = get_code_top com)"
  by (auto simp: get_code_top_def get_code_recv_def get_code_errors)
    (auto simp: get_code_with_def split: list.split)

end
