(* ===== verification/LexerProps.thy ===== *)
theory LexerProps
  imports Lexer
begin

text \<open>
  What the lexer guarantees: it loses nothing of its input but blanks, and every token that is not
  the end of the input or an error consumes some of it.
\<close>

lemma match_id_prefix:
  assumes "match_id s = Some m"
  shows "m @ drop (length m) s = s"
proof -
  obtain c t where s: "s = CHR ''$'' # c # t" and m: "m = CHR ''$'' # c # takeWhile is_id_char t"
    using assms by (cases s rule: match_id.cases) (auto split: if_splits)
  have "drop (length (takeWhile is_id_char t)) t = dropWhile is_id_char t"
    by (simp add: dropWhile_eq_drop)
  then show ?thesis
    by (simp add: s m)
qed

lemma match_id_dollar: "match_id s = Some m \<Longrightarrow> \<exists>n. m = CHR ''$'' # n \<and> n \<noteq> []"
  by (cases s rule: match_id.cases) (auto split: if_splits)

lemma match_id_again: "match_id s = Some m \<Longrightarrow> match_id (m @ drop (length m) s) = Some m"
  by (simp add: match_id_prefix)

lemma match_num_pos: "match_num s = Some m \<Longrightarrow> m \<noteq> []"
  by (auto simp: match_num_def split: if_splits)

lemma match_op_pos: "match_op s = Some m \<Longrightarrow> m \<noteq> []"
  by (auto simp: match_op_def split: if_splits)

lemma match_str_pos: "match_str s = Some (w, n) \<Longrightarrow> 0 < n"
  by (auto simp: match_str_def Let_def split: if_splits)

section \<open>The position of the next special character\<close>

lemma str_find_0: "str_find p s = 0 \<Longrightarrow> startswith s p"
  by (cases s) (auto simp: startswith_def Let_def split: if_splits)

lemma special_pos_0:
  assumes "special_pos s = 0"
  shows "take 1 s = ''$'' \<or> take 2 s = ''{:'' \<or> take 2 s = '':}''"
proof -
  have "str_find ''$'' s = 0 \<or> str_find ''{:'' s = 0 \<or> str_find '':}'' s = 0"
    using assms by (auto simp: special_pos_def min_pos_def split: if_splits)
  then show ?thesis
    using str_find_0 [of "''$''" s] str_find_0 [of "''{:''" s] str_find_0 [of "'':}''" s]
    by (auto simp: startswith_def numeral_2_eq_2)
qed

section \<open>Tokens\<close>

text \<open>The tokens that the parser can consume.\<close>

definition real_token :: "token \<Rightarrow> bool" where
  "real_token tok \<longleftrightarrow> tok \<noteq> tok_EOF \<and> tok \<noteq> tok_unknown"

text \<open>What one step of the lexer does: it skips blanks \<open>b\<close> and takes the characters \<open>p\<close>.\<close>

definition token_step :: "lexer \<Rightarrow> token \<Rightarrow> string \<Rightarrow> string \<Rightarrow> lexer \<Rightarrow> bool" where
  "token_step lx tok b p lx' \<longleftrightarrow>
     input_str lx = b @ p @ input_str lx' \<and> list_all (\<lambda>c. c = CHR '' '') b \<and>
     (real_token tok \<longleftrightarrow> p \<noteq> []) \<and>
     (tok = tok_identifier \<longrightarrow> p = CHR ''$'' # lex_text lx' \<and> match_id (p @ input_str lx') = Some p) \<and>
     next_token lx' = next_token lx \<and> lex_mode lx' = lex_mode lx"

lemma take_token_step:
  assumes "take_token tok t n lx = (tok', lx')" and "0 < n" and "input_str lx = s" and "s \<noteq> []"
    and "real_token tok" and "tok \<noteq> tok_identifier"
  shows "token_step lx tok' [] (take n s) lx'"
  using assms by (auto simp: take_token_def token_step_def)

lemma take_id_step:
  assumes "take_token tok_identifier (drop 1 m) (length m) lx = (tok', lx')"
    and "match_id (input_str lx) = Some m"
  shows "token_step lx tok' [] m lx'"
proof -
  obtain n where "m = CHR ''$'' # n"
    using match_id_dollar [OF assms(2)] by blast
  then show ?thesis
    using assms match_id_again [OF assms(2)] match_id_prefix [OF assms(2)]
    by (auto simp: take_token_def token_step_def real_token_def)
qed

lemma unknown_step: "tok = tok_unknown \<or> tok = tok_EOF \<Longrightarrow> token_step lx tok [] [] (lx\<lparr>lex_text := t\<rparr>)"
  by (auto simp: token_step_def real_token_def)

lemma gibberish_step:
  assumes "parse_gibberish_token lx = (tok, lx')" and "input_str lx \<noteq> []"
  shows "\<exists>p. token_step lx tok [] p lx'"
proof (cases "match_id (input_str lx)")
  case (Some m)
  then show ?thesis
    using assms take_id_step [of m lx tok lx'] by (auto simp: parse_gibberish_token_def Let_def)
next
  case None
  let ?s = "input_str lx"
  show ?thesis
  proof (cases "1 < length ?s \<and> (take 2 ?s \<in> {''{:'', '':}'', ''$$''} \<or> ?s ! 0 = CHR ''$'')")
    case True
    then show ?thesis
      using assms None unknown_step
      by (auto simp: parse_gibberish_token_def Let_def real_token_def intro!: exI take_token_step
          split: if_splits)
  next
    case False
    let ?p = "special_pos ?s"
    have "?p \<noteq> 0" if "length ?s \<noteq> 1"
    proof
      assume "?p = 0"
      moreover have "1 < length ?s" using that assms(2) by (cases ?s) auto
      ultimately show False
        using special_pos_0 [of ?s] False by (cases ?s) auto
    qed
    then show ?thesis
      using assms None False
      by (auto simp: parse_gibberish_token_def Let_def real_token_def intro!: exI take_token_step
          split: if_splits)
  qed
qed

lemma skip_blanks: "\<exists>b. s = b @ dropWhile (\<lambda>c. c = CHR '' '') s \<and> list_all (\<lambda>c. c = CHR '' '') b"
proof (intro exI conjI)
  show "s = takeWhile (\<lambda>c. c = CHR '' '') s @ dropWhile (\<lambda>c. c = CHR '' '') s"
    by simp
  show "list_all (\<lambda>c. c = CHR '' '') (takeWhile (\<lambda>c. c = CHR '' '') s)"
    by (auto simp: list_all_iff dest: set_takeWhileD)
qed

lemma token_step_blanks:
  assumes "token_step (lx\<lparr>input_str := s\<rparr>) tok [] p lx'" and "input_str lx = b @ s"
    and "list_all (\<lambda>c. c = CHR '' '') b"
  shows "token_step lx tok b p lx'"
  using assms by (auto simp: token_step_def)

lemma expr_step:
  assumes "parse_expr_token lx = (tok, lx')"
  shows "\<exists>b p. token_step lx tok b p lx'"
proof -
  let ?s = "dropWhile (\<lambda>c. c = CHR '' '') (input_str lx)"
  let ?lx = "lx\<lparr>input_str := ?s\<rparr>"
  obtain b where b: "input_str lx = b @ ?s" "list_all (\<lambda>c. c = CHR '' '') b"
    using skip_blanks [of "input_str lx"] by blast
  consider m where "match_id ?s = Some m" "take_token tok_identifier (drop 1 m) (length m) ?lx = (tok, lx')"
    | t w n where "take_token t w n ?lx = (tok, lx')" "0 < n" "?s \<noteq> []" "real_token t"
        "t \<noteq> tok_identifier"
    | "tok = tok_unknown \<or> tok = tok_EOF" "lx' = ?lx"
    using assms match_num_pos [of ?s] match_op_pos [of ?s] match_str_pos [of ?s]
    by (fastforce simp: parse_expr_token_def Let_def real_token_def split: if_splits option.splits)
  then have "\<exists>p. token_step ?lx tok [] p lx'"
  proof cases
    case (2 t w n)
    then show ?thesis
      using take_token_step [of t w n ?lx tok lx' ?s] by auto
  qed (use take_id_step [of _ ?lx tok lx'] unknown_step [of tok ?lx "lex_text lx"] in auto)
  then show ?thesis
    using token_step_blanks b by blast
qed

text \<open>The tokens and the blanks between them make up the input: nothing is lost or read twice, and
  exactly the end of the input and the unknown token take nothing.\<close>

lemma parse_next_step:
  assumes "parse_next lx = (tok, lx')"
  shows "\<exists>b p. token_step lx tok b p lx'"
  using assms expr_step [of lx tok lx'] gibberish_step [of lx tok lx'] unknown_step [of tok lx "lex_text lx"]
  by (auto simp: parse_next_def split: if_splits)

end
