(* ===== verification/ParserEnds.thy ===== *)
theory ParserEnds
  imports ParserFuel
begin

text \<open>
  Termination of the parser.  A cost function on texts pays for every character and for the
  expansion of every identifier; over a symbol source with such a function the parser ends, in a
  state or with an exception, within five rounds per unit of cost.
\<close>

lemmas parser_simps = parse_exp_or.simps parse_exp_and.simps parse_exp_comparison.simps
  parse_exp_term.simps parse_data.simps parse_if_block.simps parse_elifs.simps
  parse_conditional_block.simps parse_data_block.simps

declare parser_simps [simp del]

locale costed_source = symbol_source gt inv val
  for gt :: "'t get_terminal" and inv and val +
  fixes cost :: "string \<Rightarrow> nat"
  assumes cost_char: "cost s < cost (c # s)"
    and cost_expand: "inv t \<Longrightarrow> match_id s = Some m \<Longrightarrow> val (drop 1 m) = Inr (Some v) \<Longrightarrow>
      cost (v @ drop (length m) s) < cost s"

section \<open>Runs that end\<close>

definition ends :: "('a \<Rightarrow> bool) \<Rightarrow> 'a run \<Rightarrow> bool" where
  "ends Q r \<longleftrightarrow> (\<exists>e. r = raise_exn e) \<or> (\<exists>x. r = ret x \<and> Q x)"

lemma ends_simps [simp, intro]: "ends Q (raise_exn e)" "ends Q (ret x) \<longleftrightarrow> Q x" "\<not> ends Q None"
  "ends Q (parse_error a m t)"
  by (auto simp: ends_def parse_error_def)

lemma ends_bind:
  assumes "ends Q r" and "\<And>x. Q x \<Longrightarrow> ends Q' (f x)"
  shows "ends Q' (bind_run r f)"
  using assms unfolding ends_def by (metis bind_run_simps(2,3))

lemma ends_bind2:
  assumes "ends (\<lambda>(v, x). Q x) r" and "\<And>v x. Q x \<Longrightarrow> ends Q' (f v x)"
  shows "ends Q' (bind_run r (\<lambda>(v, x). f v x))"
  using assms by (auto intro: ends_bind [OF assms(1)])

lemma ends_bind_pair:
  assumes "ends Q r" and "\<And>v x. Q (v, x) \<Longrightarrow> ends Q' (f v x)"
  shows "ends Q' (bind_run r (\<lambda>(v, x). f v x))"
  using assms by (auto intro: ends_bind [OF assms(1)])

lemma ends_bind3:
  assumes "ends (\<lambda>(v, t, x). Q v t x) r" and "\<And>v t x. Q v t x \<Longrightarrow> ends Q' (f v t x)"
  shows "ends Q' (bind_run r (\<lambda>(v, t, x). f v t x))"
  using assms by (auto intro: ends_bind [OF assms(1)])

lemma ends_if: "(P \<Longrightarrow> ends Q r) \<Longrightarrow> (\<not> P \<Longrightarrow> ends Q s) \<Longrightarrow> ends Q (if P then r else s)"
  by simp

lemma ends_weaken: "ends Q r \<Longrightarrow> (\<And>x. Q x \<Longrightarrow> Q' x) \<Longrightarrow> ends Q' r"
  by (auto simp: ends_def)

context costed_source
begin

lemma cost_append: "cost s + length p \<le> cost (p @ s)"
proof (induction p)
  case (Cons c p)
  then show ?case using cost_char [of "p @ s" c] by simp
qed simp

text \<open>The cost of what a lexer has still to deliver: its input and the token it holds.\<close>

definition pot :: "lexer \<Rightarrow> nat" where
  "pot lx = (case next_token lx of
      None \<Rightarrow> cost (input_str lx)
    | Some t \<Rightarrow>
        if t = tok_identifier then cost (CHR ''$'' # lex_text lx @ input_str lx)
        else if real_token t then Suc (cost (input_str lx))
        else cost (input_str lx))"

definition wf_lex :: "lexer \<Rightarrow> bool" where
  "wf_lex lx \<longleftrightarrow> (next_token lx = Some tok_identifier \<longrightarrow>
     match_id (CHR ''$'' # lex_text lx @ input_str lx) = Some (CHR ''$'' # lex_text lx))"

lemma peek_pot:
  assumes "wf_lex lx" and "peek lx = (tok, lx')"
  shows "wf_lex lx' \<and> pot lx' \<le> pot lx \<and> next_token lx' = Some tok"
proof (cases "next_token lx")
  case None
  obtain lx1 where pn: "parse_next lx = (tok, lx1)" and lx': "lx' = lx1\<lparr>next_token := Some tok\<rparr>"
    using assms(2) None by (auto simp: peek_def split: prod.splits)
  obtain b p where step: "token_step lx tok b p lx1"
    using parse_next_step [OF pn] by blast
  then have "input_str lx = b @ p @ input_str lx1"
    by (simp add: token_step_def)
  moreover have "cost (p @ input_str lx1) \<le> cost (b @ p @ input_str lx1)"
    using cost_append [of "p @ input_str lx1" b] by simp
  moreover have "cost (input_str lx1) + length p \<le> cost (p @ input_str lx1)"
    by (rule cost_append)
  ultimately show ?thesis
    using step None by (cases p) (auto simp: lx' wf_lex_def pot_def token_step_def real_token_def)
next
  case (Some t)
  then show ?thesis using assms by (auto simp: peek_def)
qed

lemma advance_pot:
  assumes "wf_lex lx" and "next_token lx = Some tok"
  shows "wf_lex (advance b lx)" and "pot (advance b lx) \<le> pot lx"
    and "real_token tok \<Longrightarrow> pot (advance b lx) < pot lx"
proof -
  have "cost (drop 1 s) \<le> cost s" for s
    using cost_append [of "drop 1 s" "take 1 s"] by simp
  then have adv: "pot (advance b lx) \<le> cost (input_str lx)" "wf_lex (advance b lx)"
    by (auto simp: advance_def pot_def wf_lex_def Let_def)
  moreover have "cost (input_str lx) < cost (CHR ''$'' # lex_text lx @ input_str lx)"
    using cost_append [of "input_str lx" "CHR ''$'' # lex_text lx"] by simp
  ultimately show "wf_lex (advance b lx)" "pot (advance b lx) \<le> pot lx"
    "real_token tok \<Longrightarrow> pot (advance b lx) < pot lx"
    using assms(2) by (auto simp: pot_def)
qed

lemma delete_spaces_pot:
  assumes "wf_lex lx"
  shows "wf_lex (delete_spaces b lx)" and "pot (delete_spaces b lx) \<le> pot lx"
proof -
  have "cost (input_str lx) \<le> pot lx"
    using cost_append [of "input_str lx" "CHR ''$'' # lex_text lx"]
    by (auto simp: pot_def split: option.splits)
  moreover have "cost (dropWhile P (input_str lx)) \<le> cost (input_str lx)" for P
    using cost_append [of "dropWhile P (input_str lx)" "takeWhile P (input_str lx)"] by simp
  ultimately have "pot (lx\<lparr>next_token := None, input_str := dropWhile P (input_str lx)\<rparr>) \<le> pot lx" for P
    using order_trans by (fastforce simp: pot_def)
  then show "wf_lex (delete_spaces b lx)" and "pot (delete_spaces b lx) \<le> pot lx"
    using assms by (auto simp: delete_spaces_def wf_lex_def Let_def)
qed

lemma set_state_pot: "wf_lex (set_state m lx)" "pot (set_state m lx) \<le> pot lx"
  using cost_append [of "input_str lx" "CHR ''$'' # lex_text lx"]
  by (auto simp: set_state_def wf_lex_def pot_def split: option.split)

section \<open>States of the parser\<close>

definition ok :: "'t pstate \<Rightarrow> bool" where
  "ok st \<longleftrightarrow> inv (p_sym st) \<and> wf_lex (p_lex st)"

definition pend :: "'t pstate \<Rightarrow> token \<Rightarrow> bool" where
  "pend st tok \<longleftrightarrow> next_token (p_lex st) = Some tok"

abbreviation left :: "'t pstate \<Rightarrow> nat" where
  "left st \<equiv> pot (p_lex st)"

lemma ends_peek:
  assumes "ok st"
    and "\<And>tok st'. ok st' \<Longrightarrow> left st' \<le> left st \<Longrightarrow> pend st' tok \<Longrightarrow> ends Q (F tok st')"
  shows "ends Q (case p_peek st of (tok, st') \<Rightarrow> F tok st')"
proof -
  obtain tok lx where p: "peek (p_lex st) = (tok, lx)" by fastforce
  then have "wf_lex lx \<and> pot lx \<le> left st \<and> next_token lx = Some tok"
    using peek_pot assms(1) by (auto simp: ok_def)
  then show ?thesis
    using p assms by (simp add: p_peek_def ok_def pend_def)
qed

lemma ok_advance:
  assumes "ok st" and "pend st tok"
  shows "ok (on_lex (advance b) st)" and "left (on_lex (advance b) st) \<le> left st"
    and "real_token tok \<Longrightarrow> left (on_lex (advance b) st) < left st"
  using advance_pot [of "p_lex st" tok b] assms by (auto simp: ok_def on_lex_def pend_def)

lemma ok_spaces: "ok st \<Longrightarrow> ok (on_lex (delete_spaces b) st)"
  "ok st \<Longrightarrow> left (on_lex (delete_spaces b) st) \<le> left st"
  using delete_spaces_pot [of "p_lex st"] by (auto simp: ok_def on_lex_def)

lemma ok_mode: "ok st \<Longrightarrow> ok (on_lex (set_state m) st) \<and> left (on_lex (set_state m) st) \<le> left st"
  using set_state_pot [of m "p_lex st"] by (auto simp: ok_def on_lex_def)

lemma ok_gibberish:
  assumes "ok st" and "pend st tok_gibberish"
  shows "ok (parse_gibberish dp st)" and "left (parse_gibberish dp st) < left st"
  using advance_pot [of "p_lex st" tok_gibberish False] assms
  by (auto simp: parse_gibberish_def on_lex_def ok_def pend_def real_token_def)

lemma ends_lookup:
  assumes "ok st"
  shows "ends (\<lambda>(v, st'). val (p_text st) = Inr v \<and> ok st' \<and> p_lex st' = p_lex st)
    (lookup_terminal gt a st)"
proof (cases "val (p_text st)")
  case (Inl e)
  then show ?thesis
    using value_error [of "p_sym st" "p_text st" e] assms
    by (cases e) (simp_all add: lookup_terminal_def ok_def)
next
  case (Inr v)
  then obtain t' where "gt (p_sym st) (p_text st) = Inr (v, t')" and "inv t'"
    using value_known assms by (meson ok_def)
  with Inr show ?thesis
    using assms by (simp add: lookup_terminal_def ok_def)
qed

lemma ends_identifier:
  assumes "ok st" and "pend st tok_identifier"
  shows "ends (\<lambda>st'. ok st' \<and> left st' < left st) (parse_identifier gt a dp st)"
  unfolding parse_identifier_def
proof (rule ends_bind [OF ends_lookup [OF assms(1)]], clarify)
  fix v st1
  assume v: "val (p_text st) = Inr v" and st1: "ok st1" "p_lex st1 = p_lex st"
  then have adv: "ok (on_lex (advance False) st1)" "left (on_lex (advance False) st1) < left st"
    using ok_advance [of st1 tok_identifier False] assms(2) by (auto simp: real_token_def pend_def)
  have "cost (w @ input_str (p_lex st)) < left st" if "v = Some w" for w
  proof -
    let ?m = "CHR ''$'' # p_text st"
    have "match_id (?m @ input_str (p_lex st)) = Some ?m"
      using assms by (simp add: ok_def pend_def wf_lex_def p_text_def)
    from cost_expand [OF _ this, of "p_sym st"] show ?thesis
      using v that assms by (simp add: pot_def pend_def p_text_def ok_def)
  qed
  then show "ends (\<lambda>st'. ok st' \<and> left st' < left st)
      (let st2 = on_lex (advance False) st1
       in if dp then (case v of None \<Rightarrow> raise_exn TypeError | Some w \<Rightarrow> ret (on_lex (prepend w) st2))
          else ret st2)"
    using adv st1 by (auto simp: Let_def on_lex_def advance_def prepend_def ok_def wf_lex_def pot_def
        split: option.split)
qed

section \<open>Expressions\<close>

definition ends_exp :: "string \<Rightarrow> nat \<Rightarrow> bool" where
  "ends_exp a n \<longleftrightarrow> (\<forall>st r. ok st \<longrightarrow>
     (5 * left st + 4 \<le> n \<longrightarrow> ends (\<lambda>(v, st'). ok st' \<and> left st' < left st) (parse_exp_or gt a n r st)) \<and>
     (5 * left st + 3 \<le> n \<longrightarrow> ends (\<lambda>(v, st'). ok st' \<and> left st' < left st) (parse_exp_and gt a n r st)) \<and>
     (5 * left st + 2 \<le> n \<longrightarrow>
        ends (\<lambda>(v, st'). ok st' \<and> left st' < left st) (parse_exp_comparison gt a n st)) \<and>
     (5 * left st + 1 \<le> n \<longrightarrow>
        ends (\<lambda>(v, st'). ok st' \<and> left st' < left st) (parse_exp_term gt a n st)))"

lemma left_weaken:
  "ends (\<lambda>(v, st'). ok st' \<and> left st' < left st) r \<Longrightarrow> left st \<le> k \<Longrightarrow>
   ends (\<lambda>(v, st'). ok st' \<and> left st' < k) r"
  by (erule ends_weaken) auto

lemma ends_expD:
  assumes "ends_exp a n" and "ok st" and "left st \<le> k"
  shows "5 * left st + 4 \<le> n \<Longrightarrow> ends (\<lambda>(v, st'). ok st' \<and> left st' < k) (parse_exp_or gt a n r st)"
    and "5 * left st + 3 \<le> n \<Longrightarrow> ends (\<lambda>(v, st'). ok st' \<and> left st' < k) (parse_exp_and gt a n r st)"
    and "5 * left st + 2 \<le> n \<Longrightarrow>
      ends (\<lambda>(v, st'). ok st' \<and> left st' < k) (parse_exp_comparison gt a n st)"
    and "5 * left st + 1 \<le> n \<Longrightarrow>
      ends (\<lambda>(v, st'). ok st' \<and> left st' < k) (parse_exp_term gt a n st)"
  using assms unfolding ends_exp_def by (blast intro: left_weaken)+

lemma after_token:
  assumes "ok st" and "pend st tok" and "tok \<noteq> tok_EOF" and "tok \<noteq> tok_unknown" and "left st \<le> k"
  shows "ok (on_lex (advance b) st)" and "left (on_lex (advance b) st) < k"
  using ok_advance [OF assms(1,2), of b] assms(3-) by (auto simp: real_token_def)

lemma ends_or:
  assumes E: "ends_exp a n" and o: "ok st" and f: "5 * left st + 3 \<le> n"
  shows "ends (\<lambda>(v, st'). ok st' \<and> left st' < left st) (parse_exp_or gt a (Suc n) r st)"
  unfolding parse_exp_or.simps Let_def
proof (intro ends_bind2 [OF ends_expD(2) [OF E o order_refl f]] ends_peek ends_if)
  fix v st1 tok st2
  assume "ok st1 \<and> left st1 < left st" "ok st2" "left st2 \<le> left st1" "pend st2 tok" "tok = tok_or"
  then show "ends (\<lambda>(v, st'). ok st' \<and> left st' < left st)
      (parse_exp_or gt a n (v \<or> r) (on_lex (advance False) st2))"
    using after_token [of st2 tok "left st1" False] f by (intro ends_expD(1) [OF E]) auto
qed auto

lemma ends_and:
  assumes E: "ends_exp a n" and o: "ok st" and f: "5 * left st + 2 \<le> n"
  shows "ends (\<lambda>(v, st'). ok st' \<and> left st' < left st) (parse_exp_and gt a (Suc n) r st)"
  unfolding parse_exp_and.simps Let_def
proof (intro ends_bind2 [OF ends_expD(3) [OF E o order_refl f]] ends_peek ends_if)
  fix v st1 tok st2
  assume "ok st1 \<and> left st1 < left st" "ok st2" "left st2 \<le> left st1" "pend st2 tok" "tok = tok_and"
  then show "ends (\<lambda>(v, st'). ok st' \<and> left st' < left st)
      (parse_exp_and gt a n (v \<and> r) (on_lex (advance False) st2))"
    using after_token [of st2 tok "left st1" False] f by (intro ends_expD(2) [OF E]) auto
qed auto

lemma ends_comparison:
  assumes E: "ends_exp a n" and o: "ok st" and f: "5 * left st + 1 \<le> n"
  shows "ends (\<lambda>(v, st'). ok st' \<and> left st' < left st) (parse_exp_comparison gt a (Suc n) st)"
  unfolding parse_exp_comparison.simps Let_def
proof (intro ends_bind2 [OF ends_expD(4) [OF E o order_refl f]] ends_peek ends_if)
  fix lhs st1 tok st2
  assume "ok st1 \<and> left st1 < left st" "ok st2" "left st2 \<le> left st1" "pend st2 tok" "\<not> tok \<noteq> tok_op"
  then have "ends (\<lambda>(v, st'). ok st' \<and> left st' < left st)
      (parse_exp_term gt a n (on_lex (advance False) st2))"
    using after_token [of st2 tok "left st1" False] f by (intro ends_expD(4) [OF E]) auto
  then show "ends (\<lambda>(v, st'). ok st' \<and> left st' < left st)
      (bind_run (parse_exp_term gt a n (on_lex (advance False) st2)) (\<lambda>(rhs, st3).
        case compare_terms (p_text st2) lhs rhs of
          Inl e \<Rightarrow> raise_exn e
        | Inr None \<Rightarrow> parse_error a ''unknow operator: '' (p_text st3)
        | Inr (Some v) \<Rightarrow> ret (v, st3)))"
    by (rule ends_bind2) (auto split: sum.split option.split)
qed auto

lemma ends_term:
  assumes E: "ends_exp a n" and o: "ok st" and f: "5 * left st \<le> n"
  shows "ends (\<lambda>(v, st'). ok st' \<and> left st' < left st) (parse_exp_term gt a (Suc n) st)"
  unfolding parse_exp_term.simps Let_def
proof (intro ends_peek [OF o] ends_if)
  fix tok st1
  assume st1: "ok st1" "left st1 \<le> left st" "pend st1 tok"
  have adv: "ok (on_lex (advance False) st1) \<and> left (on_lex (advance False) st1) < left st"
    if "tok \<noteq> tok_EOF" "tok \<noteq> tok_unknown"
    using after_token [OF st1(1,3) that st1(2)] by blast
  {
    assume id: "tok = tok_identifier"
    show "ends (\<lambda>(v, st'). ok st' \<and> left st' < left st) (bind_run (lookup_terminal gt a st1)
        (\<lambda>(v, st1). ret (Term_str (case v of None \<Rightarrow> ''Undefined'' | Some s \<Rightarrow> s),
           on_lex (advance False) st1)))"
      using adv id by (intro ends_bind_pair [OF ends_lookup [OF st1(1)]]) (auto simp: on_lex_def ok_def)
  next
    assume "tok = tok_str \<or> tok = tok_num"
    then show "ends (\<lambda>(v, st'). ok st' \<and> left st' < left st)
        (ret (Term_str (p_text st1), on_lex (advance False) st1))"
      using adv by auto
  next
    assume "tok = tok_par_open"
    then have "ends (\<lambda>(v, st'). ok st' \<and> left st' < left st)
        (parse_exp_or gt a n False (on_lex (advance False) st1))"
      using adv f by (intro ends_expD(1) [OF E]) auto
    then show "ends (\<lambda>(v, st'). ok st' \<and> left st' < left st)
        (bind_run (parse_exp_or gt a n False (on_lex (advance False) st1)) (\<lambda>(v, st1).
          case p_peek st1 of (tok, st2) \<Rightarrow>
            if tok \<noteq> tok_par_close then parse_error a ''closed parenthesis expected: '' (p_text st2)
            else ret (Term_bool v, on_lex (advance False) st2)))"
    proof (rule ends_bind2, intro ends_peek ends_if)
      fix v st2 tok st3
      assume "ok st2 \<and> left st2 < left st" "ok st3" "left st3 \<le> left st2" "pend st3 tok"
        "\<not> tok \<noteq> tok_par_close"
      then show "ends (\<lambda>(v, st'). ok st' \<and> left st' < left st)
          (ret (Term_bool v, on_lex (advance False) st3))"
        using after_token [of st3 tok "left st2" False] by auto
    qed auto
  }
qed auto

lemma ends_exp_all: "ends_exp a n"
proof (induction n)
  case (Suc n)
  then show ?case
    by (auto simp: ends_exp_def [of a "Suc n"] intro: ends_or ends_and ends_comparison ends_term)
qed (simp add: ends_exp_def)

section \<open>Blocks\<close>

definition ends_blocks :: "string \<Rightarrow> nat \<Rightarrow> bool" where
  "ends_blocks a n \<longleftrightarrow> (\<forall>st dp. ok st \<longrightarrow>
     (5 * left st + 4 \<le> n \<longrightarrow> ends (\<lambda>st'. ok st' \<and> left st' \<le> left st) (parse_data gt a n dp st)) \<and>
     (5 * left st + 3 \<le> n \<longrightarrow> pend st tok_identifier \<longrightarrow>
        ends (\<lambda>st'. ok st' \<and> left st' < left st) (parse_if_block gt a n dp st)) \<and>
     (5 * left st + 2 \<le> n \<longrightarrow>
        ends (\<lambda>(dp, tok, st'). ok st' \<and> left st' \<le> left st \<and> pend st' tok) (parse_elifs gt a n dp st)) \<and>
     (5 * left st + 1 \<le> n \<longrightarrow> pend st tok_identifier \<longrightarrow>
        ends (\<lambda>(v, st'). ok st' \<and> left st' < left st) (parse_conditional_block gt a n dp st)) \<and>
     (5 * left st + 1 \<le> n \<longrightarrow>
        ends (\<lambda>st'. ok st' \<and> left st' < left st) (parse_data_block gt a n dp st)))"

lemma left_weaken_le:
  "ends (\<lambda>st'. ok st' \<and> left st' \<le> left st) r \<Longrightarrow> left st \<le> k \<Longrightarrow>
     ends (\<lambda>st'. ok st' \<and> left st' \<le> k) r"
  "ends (\<lambda>st'. ok st' \<and> left st' < left st) r \<Longrightarrow> left st \<le> k \<Longrightarrow>
     ends (\<lambda>st'. ok st' \<and> left st' < k) r"
  "ends (\<lambda>(dp, tok, st'). ok st' \<and> left st' \<le> left st \<and> pend st' tok) r' \<Longrightarrow> left st \<le> k \<Longrightarrow>
     ends (\<lambda>(dp, tok, st'). ok st' \<and> left st' \<le> k \<and> pend st' tok) r'"
  by (erule ends_weaken; auto)+

lemma ends_blocksD:
  assumes "ends_blocks a n" and "ok st" and "left st \<le> k"
  shows "5 * left st + 4 \<le> n \<Longrightarrow> ends (\<lambda>st'. ok st' \<and> left st' \<le> k) (parse_data gt a n dp st)"
    and "5 * left st + 3 \<le> n \<Longrightarrow> pend st tok_identifier \<Longrightarrow>
      ends (\<lambda>st'. ok st' \<and> left st' < k) (parse_if_block gt a n dp st)"
    and "5 * left st + 2 \<le> n \<Longrightarrow>
      ends (\<lambda>(dp, tok, st'). ok st' \<and> left st' \<le> k \<and> pend st' tok) (parse_elifs gt a n dp st)"
    and "5 * left st + 1 \<le> n \<Longrightarrow> pend st tok_identifier \<Longrightarrow>
      ends (\<lambda>(v, st'). ok st' \<and> left st' < k) (parse_conditional_block gt a n dp st)"
    and "5 * left st + 1 \<le> n \<Longrightarrow>
      ends (\<lambda>st'. ok st' \<and> left st' < k) (parse_data_block gt a n dp st)"
  using assms unfolding ends_blocks_def by (blast intro: left_weaken_le left_weaken)+

lemma ends_data_block:
  assumes B: "ends_blocks a n" and o: "ok st" and f: "5 * left st \<le> n"
  shows "ends (\<lambda>st'. ok st' \<and> left st' < left st) (parse_data_block gt a (Suc n) dp st)"
  unfolding parser_simps
proof (intro ends_peek [OF o] ends_if)
  fix tok st1
  assume "ok st1" "left st1 \<le> left st" "pend st1 tok" "\<not> tok \<noteq> tok_block_open"
  then have adv: "ok (on_lex (advance True) st1)" "left (on_lex (advance True) st1) < left st"
    using after_token [of st1 tok "left st" True] by auto
  then have "ends (\<lambda>st'. ok st' \<and> left st' \<le> left (on_lex (advance True) st1))
      (parse_data gt a n dp (on_lex (advance True) st1))"
    using f by (intro ends_blocksD(1) [OF B]) auto
  then show "ends (\<lambda>st'. ok st' \<and> left st' < left st)
      (bind_run (parse_data gt a n dp (on_lex (advance True) st1)) (\<lambda>st2.
        case p_peek st2 of (tok, st3) \<Rightarrow>
          if tok \<noteq> tok_block_close then parse_error a ''closed block expected: '' (p_text st3)
          else ret (on_lex (advance True) st3)))"
  proof (rule ends_bind, intro ends_peek ends_if)
    fix st2 tok st3
    assume "ok st2 \<and> left st2 \<le> left (on_lex (advance True) st1)" "ok st3" "left st3 \<le> left st2"
      "pend st3 tok" "\<not> tok \<noteq> tok_block_close"
    then show "ends (\<lambda>st'. ok st' \<and> left st' < left st) (ret (on_lex (advance True) st3))"
      using after_token [of st3 tok "left st2" True] adv by auto
  qed auto
qed auto

lemma ends_conditional:
  assumes B: "ends_blocks a n" and o: "ok st" "pend st tok_identifier" and f: "5 * left st \<le> n"
  shows "ends (\<lambda>(v, st'). ok st' \<and> left st' < left st) (parse_conditional_block gt a (Suc n) dp st)"
  unfolding parser_simps Let_def
proof -
  let ?st0 = "on_lex (set_state state_expr) (on_lex (advance False) st)"
  have st0: "ok ?st0" "left ?st0 < left st"
    using after_token [OF o, of "left st" False] ok_mode [of "on_lex (advance False) st" state_expr]
    by (auto simp: less_le_trans)
  show "ends (\<lambda>(v, st'). ok st' \<and> left st' < left st)
      (case p_peek ?st0 of (tok, st1) \<Rightarrow>
        if tok \<noteq> tok_par_open then parse_error a ''open parenthesis expected: '' (p_text st1)
        else bind_run (parse_exp_or gt a n False (on_lex (advance False) st1)) (\<lambda>(exp_res, st2).
          case p_peek st2 of (tok, st3) \<Rightarrow>
            if tok \<noteq> tok_par_close then parse_error a ''closed parenthesis expected: '' (p_text st3)
            else bind_run
              (parse_data_block gt a n (dp \<and> exp_res) (on_lex (set_state state_gibberish)
                (on_lex (delete_spaces True) (on_lex (advance False) st3))))
              (\<lambda>st5. ret (exp_res, on_lex (delete_spaces False) st5))))"
  proof (intro ends_peek [OF st0(1)] ends_if)
    fix tok st1
    assume st1: "ok st1" "left st1 \<le> left ?st0" "pend st1 tok" "\<not> tok \<noteq> tok_par_open"
    then have "ends (\<lambda>(v, st'). ok st' \<and> left st' < left ?st0)
        (parse_exp_or gt a n False (on_lex (advance False) st1))"
      using after_token [of st1 tok "left ?st0" False] st0(2) f
      by (intro ends_expD(1) [OF ends_exp_all]) auto
    then show "ends (\<lambda>(v, st'). ok st' \<and> left st' < left st)
        (bind_run (parse_exp_or gt a n False (on_lex (advance False) st1)) (\<lambda>(exp_res, st2).
          case p_peek st2 of (tok, st3) \<Rightarrow>
            if tok \<noteq> tok_par_close then parse_error a ''closed parenthesis expected: '' (p_text st3)
            else bind_run
              (parse_data_block gt a n (dp \<and> exp_res) (on_lex (set_state state_gibberish)
                (on_lex (delete_spaces True) (on_lex (advance False) st3))))
              (\<lambda>st5. ret (exp_res, on_lex (delete_spaces False) st5))))"
    proof (rule ends_bind2, intro ends_peek ends_if)
      fix v st2 tok st3
      assume st3: "ok st2 \<and> left st2 < left ?st0" "ok st3" "left st3 \<le> left st2" "pend st3 tok"
        "\<not> tok \<noteq> tok_par_close"
      let ?st4 = "on_lex (set_state state_gibberish)
        (on_lex (delete_spaces True) (on_lex (advance False) st3))"
      have st4: "ok ?st4" "left ?st4 < left st"
        using after_token [of st3 tok "left st" False] st3 st0(2)
          ok_spaces [of "on_lex (advance False) st3" True]
          ok_mode [of "on_lex (delete_spaces True) (on_lex (advance False) st3)" state_gibberish]
        by auto
      then have "ends (\<lambda>st'. ok st' \<and> left st' < left st) (parse_data_block gt a n (dp \<and> v) ?st4)"
        using f by (intro ends_blocksD(5) [OF B]) auto
      then show "ends (\<lambda>(v, st'). ok st' \<and> left st' < left st)
          (bind_run (parse_data_block gt a n (dp \<and> v) ?st4)
            (\<lambda>st5. ret (v, on_lex (delete_spaces False) st5)))"
        by (rule ends_bind) (auto simp: ok_spaces intro: le_less_trans [OF ok_spaces(2)])
    qed auto
  qed auto
qed

lemma ends_elifs:
  assumes B: "ends_blocks a n" and o: "ok st" and f: "5 * left st + 1 \<le> n"
  shows "ends (\<lambda>(dp, tok, st'). ok st' \<and> left st' \<le> left st \<and> pend st' tok) (parse_elifs gt a (Suc n) dp st)"
  unfolding parser_simps
proof (intro ends_peek [OF o] ends_if)
  fix tok st1
  assume st1: "ok st1" "left st1 \<le> left st" "pend st1 tok" "tok = tok_identifier \<and> p_text st1 = ''elif''"
  then have "ends (\<lambda>(v, st'). ok st' \<and> left st' < left st1) (parse_conditional_block gt a n dp st1)"
    using f by (intro ends_blocksD(4) [OF B]) auto
  then show "ends (\<lambda>(dp, tok, st'). ok st' \<and> left st' \<le> left st \<and> pend st' tok)
      (bind_run (parse_conditional_block gt a n dp st1) (\<lambda>(exp_res, st1).
        parse_elifs gt a n (dp \<and> \<not> exp_res) st1))"
  proof (rule ends_bind2)
    fix v st2 assume "ok st2 \<and> left st2 < left st1"
    then show "ends (\<lambda>(dp, tok, st'). ok st' \<and> left st' \<le> left st \<and> pend st' tok)
        (parse_elifs gt a n (dp \<and> \<not> v) st2)"
      using st1(2) f by (intro ends_blocksD(3) [OF B]) auto
  qed
qed auto

lemma ends_if_block:
  assumes B: "ends_blocks a n" and o: "ok st" "pend st tok_identifier" and f: "5 * left st + 2 \<le> n"
  shows "ends (\<lambda>st'. ok st' \<and> left st' < left st) (parse_if_block gt a (Suc n) dp st)"
  unfolding parser_simps
proof (rule ends_bind2 [OF ends_blocksD(4) [OF B o(1) order_refl _ o(2)]])
  fix v st1 assume st1: "ok st1 \<and> left st1 < left st"
  then have "ends (\<lambda>(dp, tok, st'). ok st' \<and> left st' \<le> left st1 \<and> pend st' tok)
      (parse_elifs gt a n (dp \<and> \<not> v) st1)"
    using f by (intro ends_blocksD(3) [OF B]) auto
  then show "ends (\<lambda>st'. ok st' \<and> left st' < left st)
      (bind_run (parse_elifs gt a n (dp \<and> \<not> v) st1) (\<lambda>(dp, tok, st2).
        if tok = tok_identifier \<and> p_text st2 = ''else''
        then parse_data_block gt a n dp (on_lex (delete_spaces True) (on_lex (advance False) st2))
        else ret st2))"
  proof (rule ends_bind3, intro ends_if)
    fix dp tok st2
    assume st2: "ok st2 \<and> left st2 \<le> left st1 \<and> pend st2 tok"
      "tok = tok_identifier \<and> p_text st2 = ''else''"
    let ?st3 = "on_lex (delete_spaces True) (on_lex (advance False) st2)"
    have "ok ?st3" "left ?st3 < left st"
      using after_token [of st2 tok "left st" False] st1 st2
        ok_spaces [of "on_lex (advance False) st2" True] by auto
    then show "ends (\<lambda>st'. ok st' \<and> left st' < left st) (parse_data_block gt a n dp ?st3)"
      using f by (intro ends_blocksD(5) [OF B]) auto
  qed (use st1 in auto)
qed (use f in simp)

lemma ends_data:
  assumes B: "ends_blocks a n" and o: "ok st" and f: "5 * left st + 3 \<le> n"
  shows "ends (\<lambda>st'. ok st' \<and> left st' \<le> left st) (parse_data gt a (Suc n) dp st)"
proof -
  have again: "ends (\<lambda>st'. ok st' \<and> left st' \<le> left st) (parse_data gt a n dp st2)"
    if "ok st2 \<and> left st2 < left st1" "left st1 \<le> left st" for st1 st2
    using that f by (intro ends_blocksD(1) [OF B]) auto
  have more: "ends (\<lambda>st'. ok st' \<and> left st' \<le> left st) (bind_run r (parse_data gt a n dp))"
    if "ends (\<lambda>st'. ok st' \<and> left st' < left st1) r" "left st1 \<le> left st" for st1 r
    using that again by (blast intro: ends_bind)
  show ?thesis
    unfolding parser_simps
  proof (intro ends_peek [OF o] ends_if)
    fix tok st1
    assume st1: "ok st1" "left st1 \<le> left st" "pend st1 tok"
    {
      assume "tok = tok_gibberish"
      then show "ends (\<lambda>st'. ok st' \<and> left st' \<le> left st)
          (parse_data gt a n dp (parse_gibberish dp st1))"
        using ok_gibberish st1 by (intro again [of _ st1]) auto
    next
      assume "tok = tok_block_open"
      then show "ends (\<lambda>st'. ok st' \<and> left st' \<le> left st)
          (bind_run (parse_data_block gt a n dp st1) (parse_data gt a n dp))"
        using st1 f by (intro more [of st1] ends_blocksD(5) [OF B]) auto
    next
      assume "tok = tok_identifier \<and> p_text st1 = ''if''"
      then show "ends (\<lambda>st'. ok st' \<and> left st' \<le> left st)
          (bind_run (parse_if_block gt a n dp st1) (parse_data gt a n dp))"
        using st1 f by (intro more [of st1] ends_blocksD(2) [OF B]) auto
    next
      assume "tok = tok_identifier"
      then show "ends (\<lambda>st'. ok st' \<and> left st' \<le> left st)
          (bind_run (parse_identifier gt a dp st1) (parse_data gt a n dp))"
        using st1 by (intro more [of st1] ends_identifier) auto
    }
  qed auto
qed

lemma ends_blocks_all: "ends_blocks a n"
proof (induction n)
  case (Suc n)
  then show ?case
    by (auto simp: ends_blocks_def [of a "Suc n"]
        intro: ends_data ends_if_block ends_elifs ends_conditional ends_data_block)
qed (simp add: ends_blocks_def)

lemma parse_ends:
  assumes "inv (p_sym st)" and "5 * cost s + 4 \<le> n"
  shows "parse gt a n s st \<noteq> None"
proof -
  let ?st = "st\<lparr>p_lex := set_str s (p_lex st), p_out := []\<rparr>"
  have "ok ?st" and "left ?st = cost s"
    using assms(1) by (simp_all add: ok_def wf_lex_def set_str_def pot_def)
  then have "ends (\<lambda>st'. ok st' \<and> left st' \<le> left ?st) (parse_data gt a n True ?st)"
    using assms(2) by (intro ends_blocksD(1) [OF ends_blocks_all]) auto
  then have "ends (\<lambda>_. True) (parse gt a n s st)"
    unfolding parse_def by (rule ends_bind) (intro ends_peek ends_if; auto)
  then show ?thesis by (metis ends_simps(3))
qed

end

end
