(* ===== verification/Expansion.thy ===== *)
theory Expansion
  imports ParserEnds
begin

text \<open>
  A symbol source whose values refer only to names of lower rank.  Every identifier can then be
  charged with the whole text that its expansion brings in, and the parser ends.
\<close>

section \<open>The identifiers of a text\<close>

fun ids :: "string \<Rightarrow> string list" where
  "ids [] = []"
| "ids (c # s) = (case match_id (c # s) of None \<Rightarrow> ids s | Some m \<Rightarrow> drop 1 m # ids s)"

text \<open>A text whose identifiers end before it does, so that what follows cannot be taken for a part
  of them.\<close>

fun closed_text :: "string \<Rightarrow> bool" where
  "closed_text [] = True"
| "closed_text (c # s) \<longleftrightarrow> c # s \<noteq> ''$'' \<and> match_id (c # s) \<noteq> Some (c # s) \<and> closed_text s"

lemma match_id_closed:
  assumes "closed_text (c # s)"
  shows "match_id (c # s @ t) = match_id (c # s)"
proof (cases s)
  case (Cons d u)
  have "takeWhile is_id_char (u @ t) = takeWhile is_id_char u"
    if "takeWhile is_id_char u \<noteq> u"
    using that by (induction u) (auto split: if_splits)
  then show ?thesis
    using assms by (auto simp: Cons)
qed (use assms in \<open>cases t; simp\<close>)

lemma ids_append: "closed_text s \<Longrightarrow> ids (s @ t) = ids s @ ids t"
  by (induction s) (auto simp: match_id_closed split: option.split simp del: match_id.simps)

lemma match_id_length: "match_id s = Some m \<Longrightarrow> length m \<le> length s"
  using match_id_prefix [of s m] by (metis length_append le_add1)

lemma closed_append:
  assumes "closed_text s" and "closed_text t"
  shows "closed_text (s @ t)"
  using assms(1)
proof (induction s)
  case (Cons c s)
  have "match_id (c # s @ t) \<noteq> Some (c # s @ t)"
  proof
    assume "match_id (c # s @ t) = Some (c # s @ t)"
    then have "match_id (c # s) = Some (c # s @ t)"
      using match_id_closed [OF Cons.prems, of t] by simp
    from match_id_length [OF this] this Cons.prems show False by simp
  qed
  moreover have "c # s @ t \<noteq> ''$''"
  proof
    assume "c # s @ t = ''$''"
    then show False using Cons.prems by simp
  qed
  ultimately show ?case
    using Cons.IH Cons.prems by (simp del: match_id.simps)
qed (simp add: assms(2))

definition dollar_free :: "string \<Rightarrow> bool" where
  "dollar_free s \<longleftrightarrow> list_all (\<lambda>c. c \<noteq> CHR ''$'') s"

lemma dollar_free_simps [simp]:
  "dollar_free []" "dollar_free (c # s) \<longleftrightarrow> c \<noteq> CHR ''$'' \<and> dollar_free s"
  "dollar_free (s @ t) \<longleftrightarrow> dollar_free s \<and> dollar_free t"
  by (simp_all add: dollar_free_def)

lemma dollar_free_text:
  assumes "dollar_free s"
  shows "closed_text s" and "ids s = []"
proof -
  have "match_id (c # t) = None" if "c \<noteq> CHR ''$''" for c t
    using that by (cases t) simp_all
  with assms show "closed_text s" and "ids s = []"
    by (induction s) (simp_all del: match_id.simps)
qed

lemma plain_dollar_free: "plain s \<Longrightarrow> dollar_free s"
  by (induction s) simp_all

section \<open>Charges\<close>

fun charge :: "(string \<Rightarrow> nat) \<Rightarrow> string \<Rightarrow> nat" where
  "charge k [] = 0"
| "charge k (c # s) =
     Suc (case match_id (c # s) of None \<Rightarrow> 0 | Some m \<Rightarrow> k (drop 1 m)) + charge k s"

lemma charge_append: "closed_text s \<Longrightarrow> charge k (s @ t) = charge k s + charge k t"
  by (induction s) (auto simp: match_id_closed simp del: match_id.simps)

lemma charge_suffix: "length s + charge k t \<le> charge k (s @ t)"
  by (induction s) auto

lemma charge_cong: "(\<And>x. x \<in> set (ids s) \<Longrightarrow> k x = k' x) \<Longrightarrow> charge k s = charge k' s"
  by (induction s) (auto split: option.splits simp del: match_id.simps)

locale ranked_source = symbol_source gt inv val
  for gt :: "'t get_terminal" and inv and val +
  fixes rank :: "string \<Rightarrow> nat" and top :: nat
  assumes rank_top: "rank n < top"
    and value_ids: "inv t \<Longrightarrow> val n = Inr (Some v) \<Longrightarrow> closed_text v \<and> (\<forall>x \<in> set (ids v). rank x < rank n)"
begin

fun price :: "nat \<Rightarrow> string \<Rightarrow> nat" where
  "price 0 n = 0"
| "price (Suc i) n = (case val n of Inr (Some v) \<Rightarrow> charge (price i) v | _ \<Rightarrow> 0)"

lemma price_stable:
  assumes "inv t"
  shows "rank n < i \<Longrightarrow> rank n < j \<Longrightarrow> price i n = price j n"
proof (induction "rank n" arbitrary: n i j rule: less_induct)
  case less
  obtain i' j' where ij: "i = Suc i'" "j = Suc j'"
    using less.prems by (cases i; cases j) auto
  have "charge (price i') v = charge (price j') v" if "val n = Inr (Some v)" for v
    using value_ids [OF assms that] less ij by (intro charge_cong less.hyps) fastforce+
  then show ?case
    by (simp add: ij split: sum.split option.split)
qed

lemma price_value:
  assumes "inv t" and "val n = Inr (Some v)"
  shows "charge (price top) v = price top n"
proof -
  obtain i where top: "top = Suc i"
    using rank_top [of n] by (cases top) auto
  have "charge (price top) v = charge (price i) v"
  proof (rule charge_cong)
    fix x assume "x \<in> set (ids v)"
    then have "rank x < rank n" using value_ids [OF assms] by blast
    then show "price top x = price i x"
      using rank_top [of n] top by (intro price_stable [OF assms(1)]) auto
  qed
  then show ?thesis by (simp add: assms(2) top)
qed

end

sublocale ranked_source \<subseteq> costed_source gt inv val "charge (price top)"
proof
  fix s c show "charge (price top) s < charge (price top) (c # s)" by simp
next
  fix t s m v assume i: "inv t" and m: "match_id s = Some m" and v: "val (drop 1 m) = Inr (Some v)"
  obtain n where n: "m = CHR ''$'' # n"
    using match_id_dollar [OF m] by blast
  let ?t = "drop (length m) s"
  have s: "s = CHR ''$'' # n @ ?t"
    using match_id_prefix [OF m] by (simp add: n)
  have "charge (price top) (v @ ?t) = price top n + charge (price top) ?t"
    using value_ids [OF i v] price_value [OF i v] by (simp add: charge_append n)
  moreover have "charge (price top) s = Suc (price top n) + charge (price top) (n @ ?t)"
    using m n s by (metis charge.simps(2) drop_Suc_Cons drop0 One_nat_def option.simps(5))
  moreover have "charge (price top) ?t \<le> charge (price top) (n @ ?t)"
    using charge_suffix [of n "price top" ?t] by simp
  ultimately show "charge (price top) (v @ ?t) < charge (price top) s" by simp
qed

end
