(* ===== verification/Macro.thy ===== *)
theory Macro
  imports Expansion
begin

text \<open>
  The macro language as a language: its abstract syntax with the text of a template, and what a
  template stands for, given the values of the names.  Theory \<open>MacroParse\<close> shows that the parser
  computes this meaning.
\<close>

section \<open>Syntax\<close>

text \<open>A condition is a disjunction of conjunctions of comparisons.\<close>

datatype operand = Name string | Word string | Quoted string

datatype comparison = Cmp operand string operand

type_synonym condition = "comparison list list"

text \<open>The tail of a conditional keeps the white space in front of \<open>$elif\<close>.\<close>

datatype item = Lit string | Ref string | Cond condition "item list" else_part
and else_part = Endif | Elif string condition "item list" else_part | Else "item list"

fun operand_text :: "operand \<Rightarrow> string" where
  "operand_text (Name n) = CHR ''$'' # n"
| "operand_text (Word w) = w"
| "operand_text (Quoted w) = CHR 0x22 # w @ [CHR 0x22]"

fun cmp_text :: "comparison \<Rightarrow> string" where
  "cmp_text (Cmp l op r) = operand_text l @ '' '' @ op @ '' '' @ operand_text r"

fun and_text :: "comparison list \<Rightarrow> string" where
  "and_text [] = []"
| "and_text [c] = cmp_text c"
| "and_text (c # d # cs) = cmp_text c @ '' and '' @ and_text (d # cs)"

fun or_text :: "condition \<Rightarrow> string" where
  "or_text [] = []"
| "or_text [a] = and_text a"
| "or_text (a # b # as) = and_text a @ '' or '' @ or_text (b # as)"

fun unparse :: "item list \<Rightarrow> string" and else_text :: "else_part \<Rightarrow> string" where
  "unparse [] = []"
| "unparse (Lit t # k) = t @ unparse k"
| "unparse (Ref n # k) = CHR ''$'' # n @ unparse k"
| "unparse (Cond e b el # k) =
     ''$if ('' @ or_text e @ '') {:'' @ unparse b @ '':}'' @ else_text el @ unparse k"
| "else_text Endif = []"
| "else_text (Elif g e b el) =
     g @ ''$elif ('' @ or_text e @ '') {:'' @ unparse b @ '':}'' @ else_text el"
| "else_text (Else b) = '' $else {:'' @ unparse b @ '':}''"

section \<open>Well-formed templates\<close>

text \<open>A text without special sequences, also together with the text after it.\<close>

fun clean :: "string \<Rightarrow> bool" where
  "clean [] = True"
| "clean [c] \<longleftrightarrow> c \<noteq> CHR ''$'' \<and> c \<noteq> CHR ''{'' \<and> c \<noteq> CHR '':''"
| "clean (c # d # s) \<longleftrightarrow> c \<noteq> CHR ''$'' \<and> \<not> (c = CHR ''{'' \<and> d = CHR '':'') \<and>
     \<not> (c = CHR '':'' \<and> d = CHR ''}'') \<and> clean (d # s)"

definition keyword :: "string \<Rightarrow> bool" where
  "keyword n \<longleftrightarrow> n = ''if'' \<or> n = ''elif'' \<or> n = ''else''"

definition is_blank :: "char \<Rightarrow> bool" where
  "is_blank c \<longleftrightarrow> c = CHR '' '' \<or> c = CHR 0x09"

fun operand_ok :: "operand \<Rightarrow> bool" where
  "operand_ok (Name n) = is_id n"
| "operand_ok (Word w) \<longleftrightarrow> w \<noteq> [] \<and> \<not> is_digit (hd w) \<and> list_all is_id_char w \<and>
     w \<noteq> ''and'' \<and> w \<noteq> ''or''"
| "operand_ok (Quoted w) \<longleftrightarrow> w \<noteq> [] \<and> list_all is_id_char w"

fun cmp_ok :: "comparison \<Rightarrow> bool" where
  "cmp_ok (Cmp l op r) \<longleftrightarrow> operand_ok l \<and> operand_ok r \<and>
     (op = ''<='' \<or> op = ''<'' \<or> op = ''=='' \<or> op = ''!='' \<or> op = ''>='' \<or> op = ''>'')"

definition cond_ok :: "condition \<Rightarrow> bool" where
  "cond_ok e \<longleftrightarrow> e \<noteq> [] \<and> list_all (\<lambda>a. a \<noteq> [] \<and> list_all cmp_ok a) e"

definition gap_ok :: "string \<Rightarrow> bool" where
  "gap_ok g \<longleftrightarrow> list_all is_blank (if take 1 g = [CHR 0x0A] then drop 1 g else g)"

fun items_ok :: "item list \<Rightarrow> bool" and else_ok :: "else_part \<Rightarrow> bool" where
  "items_ok [] = True"
| "items_ok (Lit t # k) \<longleftrightarrow> clean t \<and> items_ok k"
| "items_ok (Ref n # k) \<longleftrightarrow> is_id n \<and> \<not> keyword n \<and> no_id_char (unparse k) \<and> items_ok k"
| "items_ok (Cond e b el # k) \<longleftrightarrow> cond_ok e \<and> items_ok b \<and> else_ok el \<and> items_ok k"
| "else_ok Endif = True"
| "else_ok (Elif g e b el) \<longleftrightarrow> gap_ok g \<and> cond_ok e \<and> items_ok b \<and> else_ok el"
| "else_ok (Else b) = items_ok b"

section \<open>Meaning\<close>

type_synonym valuation = "string \<Rightarrow> string option res"

definition name_value :: "valuation \<Rightarrow> string \<Rightarrow> string res" where
  "name_value val n =
     bind_res (val n) (\<lambda>v. Inr (case v of None \<Rightarrow> ''Undefined'' | Some s \<Rightarrow> s))"

fun operand_value :: "valuation \<Rightarrow> operand \<Rightarrow> string res" where
  "operand_value val (Name n) = name_value val n"
| "operand_value val (Word w) = Inr w"
| "operand_value val (Quoted w) = Inr w"

text \<open>Numbers are compared as numbers, other terms as strings (\<open>compare_terms\<close>).\<close>

fun cmp_value :: "valuation \<Rightarrow> comparison \<Rightarrow> bool option res" where
  "cmp_value val (Cmp l op r) =
     bind_res (operand_value val l) (\<lambda>x.
     bind_res (operand_value val r) (\<lambda>y. compare_terms op (Term_str x) (Term_str y)))"

fun and_holds :: "valuation \<Rightarrow> comparison list \<Rightarrow> bool \<Rightarrow> bool" where
  "and_holds val [] v \<longleftrightarrow> v"
| "and_holds val (c # cs) v \<longleftrightarrow>
     (\<exists>x y. cmp_value val c = Inr (Some x) \<and> and_holds val cs y \<and> v = (x \<and> y))"

fun or_holds :: "valuation \<Rightarrow> condition \<Rightarrow> bool \<Rightarrow> bool" where
  "or_holds val [] v \<longleftrightarrow> \<not> v"
| "or_holds val (a # as) v \<longleftrightarrow> (\<exists>x y. and_holds val a x \<and> or_holds val as y \<and> v = (x \<or> y))"

text \<open>White space that the lexer drops behind a block mark: one newline, unless it is the last
  character of the input, and blanks in front of the next conditional.\<close>

fun drop_newline :: "bool \<Rightarrow> item list \<Rightarrow> item list" where
  "drop_newline fin (Lit [] # k) = drop_newline fin k"
| "drop_newline fin (Lit (c # t) # k) =
     (if c = CHR 0x0A \<and> (fin \<longrightarrow> t @ unparse k \<noteq> []) then Lit t # k else Lit (c # t) # k)"
| "drop_newline fin k = k"

fun strip_items :: "item list \<Rightarrow> item list" where
  "strip_items (Lit t # k) =
     (case dropWhile is_blank t of [] \<Rightarrow> strip_items k | c # u \<Rightarrow> Lit (c # u) # k)"
| "strip_items k = k"

fun starts_cond :: "item list \<Rightarrow> bool" where
  "starts_cond (Cond e b el # k) = True"
| "starts_cond k = False"

definition drop_blanks :: "item list \<Rightarrow> item list" where
  "drop_blanks k = (if starts_cond (strip_items k) then strip_items k else k)"

fun has_else :: "else_part \<Rightarrow> bool" where
  "has_else Endif = False"
| "has_else (Elif g e b el) = has_else el"
| "has_else (Else b) = True"

definition after_cond :: "bool \<Rightarrow> else_part \<Rightarrow> item list \<Rightarrow> item list" where
  "after_cond fin el k =
     (if has_else el then drop_newline fin k else drop_blanks (drop_newline fin k))"

definition shown :: "bool \<Rightarrow> string \<Rightarrow> string" where
  "shown dp s = (if dp then s else [])"

text \<open>\<open>fin\<close>: the input ends after the items; \<open>dp\<close>: they are printed and not only read over.  The text of a
  name is a template itself and takes the name's place; a name that is read over must be known.\<close>

inductive renders :: "valuation \<Rightarrow> bool \<Rightarrow> bool \<Rightarrow> item list \<Rightarrow> string \<Rightarrow> bool"
  and else_renders :: "valuation \<Rightarrow> bool \<Rightarrow> else_part \<Rightarrow> string \<Rightarrow> bool"
  for val :: valuation
where
  Nil: "renders val fin dp [] []"
| Lit: "renders val fin dp k out \<Longrightarrow> renders val fin dp (Lit t # k) (shown dp t @ out)"
| Ref: "val n = Inr (Some (unparse is)) \<Longrightarrow> items_ok is \<Longrightarrow> renders val fin True (is @ k) out \<Longrightarrow>
    renders val fin True (Ref n # k) out"
| Skip: "val n = Inr v \<Longrightarrow> renders val fin False k out \<Longrightarrow> renders val fin False (Ref n # k) out"
| Cond: "or_holds val e v \<Longrightarrow> renders val False (dp \<and> v) (drop_newline False b) o1 \<Longrightarrow>
    else_renders val (dp \<and> \<not> v) el o2 \<Longrightarrow> renders val fin dp (after_cond fin el k) o3 \<Longrightarrow>
    renders val fin dp (Cond e b el # k) (o1 @ o2 @ o3)"
| Endif: "else_renders val dp Endif []"
| Elif: "or_holds val e v \<Longrightarrow> renders val False (dp \<and> v) (drop_newline False b) o1 \<Longrightarrow>
    else_renders val (dp \<and> \<not> v) el o2 \<Longrightarrow> else_renders val dp (Elif g e b el) (o1 @ o2)"
| Else: "renders val False dp (drop_newline False b) out \<Longrightarrow> else_renders val dp (Else b) out"

lemma shown_simps [simp]: "shown True s = s" "shown False s = []" "shown dp [] = []"
  "shown dp (s @ t) = shown dp s @ shown dp t"
  by (simp_all add: shown_def)

section \<open>Dropping white space\<close>

text \<open>The same on the remaining input.\<close>

definition cut_newline :: "string \<Rightarrow> string" where
  "cut_newline s = (if 1 < length s \<and> s ! 0 = CHR 0x0A then drop 1 s else s)"

definition cut_blanks :: "string \<Rightarrow> string" where
  "cut_blanks s = (case match_id (dropWhile is_blank s) of
      None \<Rightarrow> s
    | Some m \<Rightarrow> if keyword (drop 1 m) then dropWhile is_blank s else s)"

text \<open>What follows a list of items: the end of the input or of the block.\<close>

definition ending :: "bool \<Rightarrow> string \<Rightarrow> bool" where
  "ending fin r \<longleftrightarrow> (if fin then r = [] else take 2 r = '':}'')"

lemma endingE:
  assumes "ending fin r"
  obtains "fin" "r = []" | s where "\<not> fin" "r = CHR '':'' # CHR ''}'' # s"
  using assms by (cases r rule: match_id.cases) (auto simp: ending_def split: if_splits)

lemma unparse_append: "unparse (a @ b) = unparse a @ unparse b"
proof (induction a)
  case (Cons x a)
  then show ?case by (cases x) simp_all
qed simp

lemma cut_newline_simps [simp]:
  "cut_newline [] = []" "cut_newline (c # s) = (if c = CHR 0x0A \<and> s \<noteq> [] then s else c # s)"
  by (simp_all add: cut_newline_def)

lemma cut_newline_items:
  assumes "ending fin r"
  shows "cut_newline (unparse k @ r) = unparse (drop_newline fin k) @ r"
  using assms
proof (induction fin k rule: drop_newline.induct)
  case (2 fin c t k)
  then show ?case by (auto elim: endingE)
qed (auto elim: endingE)

lemma clean_Cons: "clean (c # s) \<Longrightarrow> clean s"
  by (cases s) simp_all

lemma clean_no_dollar: "clean (c # s) \<Longrightarrow> c \<noteq> CHR ''$''"
  by (cases s) simp_all

lemma clean_append: "clean s \<Longrightarrow> clean t \<Longrightarrow> clean (s @ t)"
  by (induction s rule: clean.induct) (cases t, auto)+

lemma clean_dropWhile: "clean s \<Longrightarrow> clean (dropWhile P s)"
  by (induction s) (auto dest: clean_Cons)

lemma clean_plain: "plain s \<Longrightarrow> clean s"
  by (induction s rule: clean.induct) simp_all

lemma drop_newline_ok: "items_ok k \<Longrightarrow> items_ok (drop_newline fin k)"
  by (induction fin k rule: drop_newline.induct) (auto dest: clean_Cons)

lemma strip_items_ok: "items_ok k \<Longrightarrow> items_ok (strip_items k)"
  by (induction k rule: strip_items.induct) (auto split: list.split dest: clean_dropWhile [where P = is_blank])

lemma after_cond_ok: "items_ok k \<Longrightarrow> items_ok (after_cond fin el k)"
  by (simp add: after_cond_def drop_blanks_def drop_newline_ok strip_items_ok)

lemma match_id_name: "is_id n \<Longrightarrow> no_id_char s \<Longrightarrow> match_id (CHR ''$'' # n @ s) = Some (CHR ''$'' # n)"
proof -
  assume n: "is_id n" and s: "no_id_char s"
  obtain c m where n: "n = c # m" "is_alpha c" "list_all is_id_char m"
    using n by (cases n) (auto simp: is_id_def)
  have "takeWhile is_id_char (m @ s) = m"
    using n(3) s by (induction m) (auto simp: no_id_char_def split: list.splits)
  with n show ?thesis by simp
qed

lemma no_id_char_append: "no_id_char s \<Longrightarrow> no_id_char r \<Longrightarrow> no_id_char (s @ r)"
  by (cases s) (auto simp: no_id_char_def)

lemma no_id_char_ending: "ending fin r \<Longrightarrow> no_id_char r"
  by (erule endingE) (simp_all add: no_id_char_def is_id_char_def is_alpha_def is_digit_def)

lemma strip_items_text:
  assumes "ending fin r"
  shows "dropWhile is_blank (unparse k @ r) = unparse (strip_items k) @ r"
proof -
  have r: "dropWhile is_blank r = r" "\<not> is_blank (CHR ''$'')"
    using assms by (auto simp: is_blank_def elim: endingE)
  show ?thesis
  proof (induction k rule: strip_items.induct)
    case (1 t k)
    show ?case
    proof (cases "dropWhile is_blank t")
      case Nil
      then have "dropWhile is_blank (t @ s) = dropWhile is_blank s" for s
        by (intro dropWhile_append2) simp
      then show ?thesis using 1 Nil by (simp del: dropWhile_eq_Nil_conv)
    next
      case (Cons c u)
      then obtain x where "x \<in> set t" "\<not> is_blank x"
        by (metis dropWhile_eq_Nil_conv list.distinct(1))
      then have "dropWhile is_blank (t @ s) = dropWhile is_blank t @ s" for s
        by (rule dropWhile_append1)
      with Cons show ?thesis by simp
    qed
  qed (simp_all add: r)
qed

lemma strip_items_first: "strip_items k = Lit u # k' \<Longrightarrow> u \<noteq> []"
proof (induction k rule: strip_items.induct)
  case (1 t k)
  then show ?case
    by (cases "dropWhile is_blank t") (simp_all del: dropWhile_eq_Nil_conv, blast)
qed simp_all

lemma cut_blanks_items:
  assumes "ending fin r" and "items_ok k"
  shows "cut_blanks (unparse k @ r) = unparse (drop_blanks k) @ r"
proof -
  let ?u = "strip_items k"
  note cut = cut_blanks_def strip_items_text [OF assms(1)] drop_blanks_def
  have ok: "items_ok ?u"
    using assms(2) by (rule strip_items_ok)
  show ?thesis
  proof (cases ?u)
    case Nil
    then show ?thesis
      using assms(1) strip_items_text [OF assms(1), of k]
      by (elim endingE) (simp_all add: cut_blanks_def drop_blanks_def del: dropWhile_eq_Nil_conv)
  next
    case (Cons a k')
    show ?thesis
    proof (cases a)
      case (Lit t)
      then obtain c s where "t = c # s" "c \<noteq> CHR ''$''"
        using ok Cons strip_items_first [of k t k'] clean_no_dollar by (cases t) auto
      then have "match_id (unparse ?u @ r) = None"
        using Cons Lit by (cases "s @ unparse k' @ r") simp_all
      with Cons Lit show ?thesis by (simp add: cut)
    next
      case (Ref n)
      then have "match_id (unparse ?u @ r) = Some (CHR ''$'' # n)"
        using ok Cons no_id_char_ending [OF assms(1)] by (simp add: match_id_name no_id_char_append)
      with Ref Cons ok show ?thesis by (simp add: cut)
    next
      case (Cond e b el)
      have "match_id (''$'' @ ''if'' @ s) = Some ''$if''" if "no_id_char s" for s
        using that match_id_name [of "''if''" s]
        by (simp add: is_id_def is_id_char_def is_alpha_def)
      then show ?thesis
        using Cond Cons by (simp add: cut no_id_char_def is_id_char_def is_alpha_def is_digit_def keyword_def)
    qed
  qed
qed

end
