(* ===== verification/MacroParse.thy ===== *)
theory MacroParse
  imports Macro
begin

text \<open>
  The parser computes the meaning of a template.  A parser state is written as a function of its
  parts; a run \<open>goes\<close> to a condition when from some fuel on it returns one and the same result, which
  satisfies the condition.
\<close>

section \<open>Runs that return\<close>

definition goes :: "('a \<Rightarrow> bool) \<Rightarrow> (nat \<Rightarrow> 'a run) \<Rightarrow> bool" where
  "goes Q f \<longleftrightarrow> (\<exists>N x. Q x \<and> (\<forall>n \<ge> N. f n = ret x))"

lemma goes_ret: "Q x \<Longrightarrow> goes Q (\<lambda>n. ret x)"
  by (auto simp: goes_def)

lemma goes_bind:
  assumes "goes P f" and "\<And>x. P x \<Longrightarrow> goes Q (\<lambda>n. g n x)"
  shows "goes Q (\<lambda>n. bind_run (f n) (g n))"
proof -
  obtain N x where f: "P x" "\<forall>n \<ge> N. f n = ret x"
    using assms(1) by (auto simp: goes_def)
  obtain M y where g: "Q y" "\<forall>n \<ge> M. g n x = ret y"
    using assms(2) [OF f(1)] by (auto simp: goes_def)
  have "\<forall>n \<ge> max N M. bind_run (f n) (g n) = ret y"
    using f(2) g(2) by simp
  with g(1) show ?thesis
    unfolding goes_def by blast
qed

lemma goes_Suc:
  assumes "goes Q (\<lambda>n. f (Suc n))"
  shows "goes Q f"
proof -
  obtain N x where N: "Q x" "\<forall>n \<ge> N. f (Suc n) = ret x"
    using assms by (auto simp: goes_def)
  have "\<forall>n \<ge> Suc N. f n = ret x"
    using N(2) by (metis Suc_le_D Suc_le_mono)
  with N(1) show ?thesis
    unfolding goes_def by blast
qed

lemma goes_weaken: "goes Q f \<Longrightarrow> (\<And>x. Q x \<Longrightarrow> Q' x) \<Longrightarrow> goes Q' f"
  by (auto simp: goes_def)

lemma goes_cong: "goes Q f \<Longrightarrow> (\<And>n. f n = g n) \<Longrightarrow> goes Q g"
  by (simp add: goes_def)

section \<open>States\<close>

definition pst :: "lex_state \<Rightarrow> string \<Rightarrow> string \<Rightarrow> token option \<Rightarrow> 't \<Rightarrow> string \<Rightarrow> 't pstate" where
  "pst m s t tok y out = \<lparr>p_lex = \<lparr>input_str = s, lex_text = t, next_token = tok, lex_mode = m\<rparr>,
    p_sym = y, p_out = out\<rparr>"

lemma pst_simps [simp]:
  "p_peek (pst m s t (Some tok) y out) = (tok, pst m s t (Some tok) y out)"
  "p_text (pst m s t tk y out) = t"
  "p_sym (pst m s t tk y out) = y"
  "p_out (pst m s t tk y out) = out"
  "on_lex (advance False) (pst m s t tk y out) = pst m s t None y out"
  "on_lex (advance True) (pst m s t tk y out) = pst m (cut_newline s) t None y out"
  "on_lex (delete_spaces True) (pst m s t tk y out) = pst m (dropWhile is_blank s) t None y out"
  "on_lex (delete_spaces False) (pst m s t None y out) = pst m (cut_blanks s) t None y out"
  "on_lex (set_state m') (pst m s t tk y out) = pst m' s t None y out"
  "on_lex (prepend v) (pst m s t tk y out) = pst m (v @ s) t tk y out"
  by (auto simp: pst_def p_peek_def peek_def p_text_def on_lex_def advance_def delete_spaces_def
      cut_newline_def cut_blanks_def set_state_def prepend_def Let_def keyword_def
      is_blank_def [abs_def] split: option.split)

section \<open>Tokens of conditions\<close>

definition spaces :: "string \<Rightarrow> bool" where
  "spaces b \<longleftrightarrow> list_all (\<lambda>c. c = CHR '' '') b"

lemma spaces_simps [simp]: "spaces []" "spaces '' ''"
  by (simp_all add: spaces_def)

lemma peek_expr:
  assumes "spaces b" and "c \<noteq> CHR '' ''"
  shows "p_peek (pst state_expr (b @ c # s) t None y out) =
    (case parse_expr_token \<lparr>input_str = c # s, lex_text = t, next_token = None, lex_mode = state_expr\<rparr> of
       (tok, lx) \<Rightarrow> (tok, pst (lex_mode lx) (input_str lx) (lex_text lx) (Some tok) y out))"
proof -
  let ?l = "\<lambda>s. \<lparr>input_str = s, lex_text = t, next_token = None, lex_mode = state_expr\<rparr>"
  have "dropWhile (\<lambda>c. c = CHR '' '') (b @ c # s) = c # s"
    using assms by (subst dropWhile_append2) (auto simp: spaces_def list_all_iff)
  then have "parse_next (?l (b @ c # s)) = parse_expr_token (?l (c # s))"
    using assms(2) by (simp add: parse_next_def parse_expr_token_def Let_def)
  then show ?thesis
    by (simp add: p_peek_def pst_def peek_def split: prod.split)
qed

lemma match_none:
  assumes "c \<noteq> CHR ''$''"
  shows "match_id (c # s) = None"
  using assms by (cases s) simp_all

lemma id_char_other:
  assumes "is_id_char c"
  shows "c \<noteq> CHR '' ''" "c \<noteq> CHR ''$''" "c \<noteq> CHR 0x22" "c \<noteq> CHR ''<''" "c \<noteq> CHR ''=''"
    "c \<noteq> CHR ''!''" "c \<noteq> CHR ''>''"
  using assms by (auto simp: is_id_char_def is_alpha_def is_digit_def)

lemma match_num_none:
  assumes "\<not> is_digit c"
  shows "match_num (c # s) = None"
proof -
  have "c \<noteq> CHR ''0''" using assms by (auto simp: is_digit_def)
  then show ?thesis
    using assms by (simp add: match_num_def is_0x_def)
qed

lemma match_op_none:
  assumes "c \<noteq> CHR ''<''" "c \<noteq> CHR ''=''" "c \<noteq> CHR ''!''" "c \<noteq> CHR ''>''"
  shows "match_op (c # s) = None"
  using assms by (simp add: match_op_def startswith_def)

lemma take_ids: "list_all is_id_char w \<Longrightarrow> no_id_char s \<Longrightarrow> takeWhile is_id_char (w @ s) = w"
  by (induction w) (auto simp: no_id_char_def split: list.splits)

lemma peek_name:
  assumes "spaces b" and "is_id n" and "no_id_char s"
  shows "p_peek (pst state_expr (b @ CHR ''$'' # n @ s) t None y out) =
    (tok_identifier, pst state_expr s n (Some tok_identifier) y out)"
  using match_id_name [OF assms(2,3)]
  by (simp add: peek_expr [OF assms(1)] parse_expr_token_def take_token_def)

lemma peek_mark:
  assumes "spaces b"
  shows "p_peek (pst state_expr (b @ CHR ''('' # s) t None y out) =
      (tok_par_open, pst state_expr s ''('' (Some tok_par_open) y out)"
    "p_peek (pst state_expr (b @ CHR '')'' # s) t None y out) =
      (tok_par_close, pst state_expr s '')'' (Some tok_par_close) y out)"
    "p_peek (pst state_expr (b @ ''and '' @ s) t None y out) =
      (tok_and, pst state_expr s ''and'' (Some tok_and) y out)"
    "p_peek (pst state_expr (b @ ''or '' @ s) t None y out) =
      (tok_or, pst state_expr s ''or'' (Some tok_or) y out)"
  by (simp_all add: peek_expr [OF assms] parse_expr_token_def take_token_def match_none
      match_num_none match_op_none is_digit_def match_str_def quote_len_def is_id_char_def is_alpha_def)

lemma peek_op:
  assumes "spaces b" and "op = ''<='' \<or> op = ''<'' \<or> op = ''=='' \<or> op = ''!='' \<or> op = ''>='' \<or> op = ''>''"
  shows "p_peek (pst state_expr (b @ op @ '' '' @ s) t None y out) =
    (tok_op, pst state_expr ('' '' @ s) op (Some tok_op) y out)"
  using assms(2)
  by (elim disjE)
    (simp_all add: peek_expr [OF assms(1)] parse_expr_token_def take_token_def match_none
      match_num_none is_digit_def match_op_def startswith_def)

lemma peek_word:
  assumes "spaces b" and "operand_ok (Word w)" and "no_id_char s" and "take 1 s \<noteq> [CHR 0x22]"
  shows "p_peek (pst state_expr (b @ w @ s) t None y out) = (tok_str, pst state_expr s w (Some tok_str) y out)"
proof -
  obtain c v where w: "w = c # v" "\<not> is_digit c" "is_id_char c" "list_all is_id_char v"
    using assms(2) by (cases w) auto
  note c = id_char_other [OF w(3)]
  have ids: "takeWhile is_id_char (w @ s) = w"
    using take_ids [of w s] assms(2,3) by simp
  have "takeWhile is_id_char (''and '' @ u) = ''and''" "takeWhile is_id_char (''or '' @ u) = ''or''" for u
    by (simp_all add: is_id_char_def is_alpha_def is_digit_def)
  then have "take 4 (w @ s) \<noteq> ''and ''" "take 3 (w @ s) \<noteq> ''or ''"
    using assms(2) ids by (metis append_take_drop_id operand_ok.simps(2))+
  moreover have "match_str (w @ s) = Some (w, length w)"
    using take_ids [of w s] w assms(3,4) c by (simp add: match_str_def quote_len_def)
  ultimately show ?thesis
    using c by (simp add: w(1) peek_expr [OF assms(1)] parse_expr_token_def take_token_def match_none
      match_num_none [OF w(2)] match_op_none Let_def)
qed

lemma peek_quoted:
  assumes "spaces b" and "operand_ok (Quoted w)"
  shows "p_peek (pst state_expr (b @ CHR 0x22 # w @ CHR 0x22 # s) t None y out) =
    (tok_str, pst state_expr s w (Some tok_str) y out)"
proof -
  have "no_id_char (CHR 0x22 # s)"
    by (simp add: no_id_char_def is_id_char_def is_alpha_def is_digit_def)
  then have "match_str (CHR 0x22 # w @ CHR 0x22 # s) = Some (w, length w + 2)"
    using take_ids [of w "CHR 0x22 # s"] assms(2) by (simp add: match_str_def quote_len_def)
  then show ?thesis
    by (simp add: peek_expr [OF assms(1)] parse_expr_token_def take_token_def match_none
      match_num_none match_op_none is_digit_def)
qed

section \<open>Conditions\<close>

text \<open>Where a term may end.\<close>

definition term_end :: "string \<Rightarrow> bool" where
  "term_end s \<longleftrightarrow> take 1 s = '' '' \<or> take 1 s = '')''"

lemma term_end_simps [simp]: "term_end ('' '' @ s)" "term_end (CHR '')'' # s)" "term_end (CHR '' '' # s)"
  by (simp_all add: term_end_def)

lemma term_end_stop: "term_end s \<Longrightarrow> no_id_char s" "term_end s \<Longrightarrow> take 1 s \<noteq> [CHR 0x22]"
  by (cases s; simp add: term_end_def no_id_char_def is_id_char_def is_alpha_def is_digit_def; force)+

context symbol_source
begin

text \<open>The state with the input \<open>s\<close> left and the output \<open>out\<close>, with a token looked at or not.\<close>

definition reaches :: "lex_state \<Rightarrow> token option \<Rightarrow> string \<Rightarrow> string \<Rightarrow> 't pstate \<Rightarrow> bool" where
  "reaches m tok s out st \<longleftrightarrow> (\<exists>t y. inv y \<and> st = pst m s t tok y out)"

lemma reachesI: "inv y \<Longrightarrow> reaches m tok s out (pst m s t tok y out)"
  by (auto simp: reaches_def)

lemma reachesE:
  assumes "reaches m tok s out st"
  obtains t y where "inv y" "st = pst m s t tok y out"
  using assms by (auto simp: reaches_def)

lemma lookup_value:
  assumes "val n = Inr v" and "inv y"
  shows "\<exists>y'. inv y' \<and> lookup_terminal gt a (pst m s n tok y out) = ret (v, pst m s n tok y' out)"
proof -
  obtain y' where "gt y n = Inr (v, y')" "inv y'"
    using value_known [OF assms(2,1)] by blast
  then show ?thesis
    by (auto simp: lookup_terminal_def pst_def p_text_def)
qed

lemma goes_term:
  assumes "operand_value val w = Inr x" and "operand_ok w" and "term_end s" and "spaces b" and "inv y"
  shows "goes (\<lambda>(v, st). v = Term_str x \<and> reaches state_expr None s out st)
    (\<lambda>n. parse_exp_term gt a n (pst state_expr (b @ operand_text w @ s) t None y out))"
proof (rule goes_Suc, cases w)
  case (Name n)
  obtain v where v: "val n = Inr v" "x = (case v of None \<Rightarrow> ''Undefined'' | Some s \<Rightarrow> s)"
    using assms(1) Name by (auto simp: name_value_def bind_res_Inr_iff)
  obtain y' where "inv y'" "lookup_terminal gt a (pst state_expr s n (Some tok_identifier) y out) =
      ret (v, pst state_expr s n (Some tok_identifier) y' out)"
    using lookup_value [OF v(1) assms(5)] by blast
  then show "goes (\<lambda>(v, st). v = Term_str x \<and> reaches state_expr None s out st)
      (\<lambda>n. parse_exp_term gt a (Suc n) (pst state_expr (b @ operand_text w @ s) t None y out))"
    using assms(2) Name v(2)
    by (auto simp: parser_simps peek_name [OF assms(4) _ term_end_stop(1) [OF assms(3)]]
        intro!: goes_ret reachesI)
next
  case (Word u)
  then show "goes (\<lambda>(v, st). v = Term_str x \<and> reaches state_expr None s out st)
      (\<lambda>n. parse_exp_term gt a (Suc n) (pst state_expr (b @ operand_text w @ s) t None y out))"
    using assms(1,2,5)
    by (auto simp: parser_simps peek_word [OF assms(4) _ term_end_stop [OF assms(3)]]
        intro!: goes_ret reachesI)
next
  case (Quoted u)
  then show "goes (\<lambda>(v, st). v = Term_str x \<and> reaches state_expr None s out st)
      (\<lambda>n. parse_exp_term gt a (Suc n) (pst state_expr (b @ operand_text w @ s) t None y out))"
    using assms(1,2,5)
    by (auto simp: parser_simps peek_quoted [OF assms(4)] intro!: goes_ret reachesI)
qed

lemma goes_bind_reaches:
  assumes "goes (\<lambda>(u, st). u = v \<and> reaches m tk s out st) f"
    and "\<And>t y. inv y \<Longrightarrow> goes Q (\<lambda>n. g n (v, pst m s t tk y out))"
  shows "goes Q (\<lambda>n. bind_run (f n) (g n))"
  by (rule goes_bind [OF assms(1)]) (use assms(2) in \<open>auto simp: reaches_def\<close>)

lemma goes_comparison:
  assumes "cmp_value val c = Inr (Some v)" and "cmp_ok c" and "term_end s" and "spaces b" and "inv y"
  shows "goes (\<lambda>(u, st). u = v \<and> reaches state_expr None s out st)
    (\<lambda>n. parse_exp_comparison gt a n (pst state_expr (b @ cmp_text c @ s) t None y out))"
proof (rule goes_Suc)
  obtain l op r where c: "c = Cmp l op r" by (cases c)
  then obtain x z where xz: "operand_value val l = Inr x" "operand_value val r = Inr z"
    "compare_terms op (Term_str x) (Term_str z) = Inr (Some v)"
    using assms(1) by (auto simp: bind_res_Inr_iff)
  have ok: "operand_ok l" "operand_ok r"
    "op = ''<='' \<or> op = ''<'' \<or> op = ''=='' \<or> op = ''!='' \<or> op = ''>='' \<or> op = ''>''"
    using assms(2) c by auto
  let ?s = "'' '' @ op @ '' '' @ operand_text r @ s"
  have "goes (\<lambda>(u, st). u = v \<and> reaches state_expr None s out st)
    (\<lambda>n. parse_exp_comparison gt a (Suc n) (pst state_expr (b @ operand_text l @ ?s) t None y out))"
    unfolding parser_simps
  proof (rule goes_bind_reaches [OF goes_term [OF xz(1) ok(1) term_end_simps(1) assms(4,5)]])
    fix t1 y1 assume y1: "inv y1"
    show "goes (\<lambda>(u, st). u = v \<and> reaches state_expr None s out st) (\<lambda>n.
        case (Term_str x, pst state_expr ?s t1 None y1 out) of (lhs, st1) \<Rightarrow>
        case p_peek st1 of (tok, st2) \<Rightarrow>
          if tok \<noteq> tok_op then parse_error a ''operator expected: '' (p_text st2)
          else let operator = p_text st2
            in bind_run (parse_exp_term gt a n (on_lex (advance False) st2)) (\<lambda>(rhs, st3).
                case compare_terms operator lhs rhs of
                  Inl e \<Rightarrow> raise_exn e
                | Inr None \<Rightarrow> parse_error a ''unknow operator: '' (p_text st3)
                | Inr (Some v) \<Rightarrow> ret (v, st3)))"
      unfolding peek_op [OF spaces_simps(2) ok(3)] prod.case pst_simps Let_def simp_thms if_False
      by (rule goes_bind_reaches [OF goes_term [OF xz(2) ok(2) assms(3) spaces_simps(2) y1]])
        (auto simp: xz(3) intro: goes_ret reachesI)
  qed
  then show "goes (\<lambda>(u, st). u = v \<and> reaches state_expr None s out st)
      (\<lambda>n. parse_exp_comparison gt a (Suc n) (pst state_expr (b @ cmp_text c @ s) t None y out))"
    by (simp add: c)
qed

lemma goes_and:
  assumes "\<And>t (y :: 't). p_peek (pst state_expr s t None y out) = (tok, pst state_expr s' m (Some tok) y out)"
    and "tok \<noteq> tok_and" and "term_end s"
  shows "and_holds val cs v \<Longrightarrow> cs \<noteq> [] \<Longrightarrow> list_all cmp_ok cs \<Longrightarrow> inv y \<Longrightarrow> spaces b \<Longrightarrow>
    goes (\<lambda>(u, st). u = (v \<and> r) \<and> reaches state_expr (Some tok) s' out st)
      (\<lambda>n. parse_exp_and gt a n r (pst state_expr (b @ and_text cs @ s) t None y out))"
proof (induction cs arbitrary: v r t y b rule: and_text.induct)
  case (2 c)
  then have c: "cmp_value val c = Inr (Some v)" "cmp_ok c" by auto
  show ?case
    by (rule goes_Suc, cases "tok = tok_par_close")
      (auto simp: parser_simps assms Let_def
        intro!: goes_bind_reaches [OF goes_comparison [OF c assms(3) 2(5,4)]] goes_ret reachesI)
next
  case (3 c d cs)
  obtain x z where c: "cmp_value val c = Inr (Some x)" "cmp_ok c" and z: "and_holds val (d # cs) z"
    and v: "v = (z \<and> x)"
    using 3(2,4) by auto
  have "goes (\<lambda>(u, st). u = (v \<and> r) \<and> reaches state_expr (Some tok) s' out st)
      (\<lambda>n. parse_exp_and gt a n r (pst state_expr (b @ cmp_text c @ '' '' @ ''and '' @ and_text (d # cs) @ s) t None y out))"
    by (rule goes_Suc, unfold parser_simps, rule goes_bind_reaches [OF goes_comparison [OF c term_end_simps(1) 3(6,5)]])
      (use 3(1) [OF z _ _ _ spaces_simps(1)] 3(4) in \<open>simp add: peek_mark(3) [OF spaces_simps(2), simplified] v\<close>)
  then show ?case by simp
qed simp

lemma goes_or:
  "or_holds val e v \<Longrightarrow> cond_ok e \<Longrightarrow> inv y \<Longrightarrow> spaces b \<Longrightarrow>
    goes (\<lambda>(u, st). u = (v \<or> r) \<and> reaches state_expr (Some tok_par_close) s out st)
      (\<lambda>n. parse_exp_or gt a n r (pst state_expr (b @ or_text e @ '')'' @ s) t None y out))"
proof (induction e arbitrary: v r t y b rule: or_text.induct)
  case (2 c)
  then have c: "and_holds val c v" "c \<noteq> []" "list_all cmp_ok c"
    by (auto simp: cond_ok_def)
  show ?case
    by (rule goes_Suc)
      (auto simp: parser_simps Let_def
        intro!: goes_bind_reaches [OF goes_and [OF peek_mark(2) [OF spaces_simps(1), simplified] _ term_end_simps(2) c 2(3,4)]]
        goes_ret reachesI)
next
  case (3 c d cs)
  obtain x z where c: "and_holds val c x" "c \<noteq> []" "list_all cmp_ok c" and z: "or_holds val (d # cs) z"
    and v: "v = (z \<or> x)"
    using 3(2,3) by (auto simp: cond_ok_def)
  have ok: "cond_ok (d # cs)" using 3(3) by (simp add: cond_ok_def)
  have "goes (\<lambda>(u, st). u = (v \<or> r) \<and> reaches state_expr (Some tok_par_close) s out st)
      (\<lambda>n. parse_exp_or gt a n r (pst state_expr (b @ and_text c @ '' '' @ ''or '' @ or_text (d # cs) @ '')'' @ s) t None y out))"
    by (rule goes_Suc, unfold parser_simps, rule goes_bind_reaches [OF goes_and [OF peek_mark(4) [OF spaces_simps(2)] _ term_end_simps(1) c 3(4,5)]])
      (use 3(1) [OF z ok _ spaces_simps(1)] in \<open>simp_all add: v\<close>)
  then show ?case by simp
qed (simp add: cond_ok_def)

end

section \<open>Tokens of texts\<close>

text \<open>Where a text ends: at a special sequence or the end of the input.\<close>

definition stops :: "string \<Rightarrow> bool" where
  "stops s \<longleftrightarrow> s = [] \<or> take 1 s = ''$'' \<or> take 2 s = ''{:'' \<or> take 2 s = '':}''"

lemma clean_step:
  assumes "clean (c # p)" and "q \<in> {''$'', ''{:'', '':}''}"
  shows "\<not> startswith (c # p @ s) q"
  using assms by (cases p) (auto simp: startswith_def)

lemma str_find_clean:
  assumes "clean p" and "q \<in> {''$'', ''{:'', '':}''}"
  shows "str_find q (p @ s) = (if str_find q s < 0 then -1 else int (length p) + str_find q s)"
  using assms(1)
proof (induction p)
  case Nil
  have "str_find q s < 0 \<Longrightarrow> str_find q s = -1"
    by (induction s) (auto simp: Let_def split: if_splits)
  then show ?case by simp
next
  case (Cons c p)
  then show ?case
    using clean_step [OF Cons.prems assms(2), of s] by (simp add: Let_def clean_Cons)
qed

lemma special_pos_clean:
  assumes "clean p" and "stops s"
  shows "special_pos (p @ s) = (if s = [] then -1 else int (length p))"
proof -
  have "str_find q s = 0" if "startswith s q" for q
    using that by (cases s) (auto simp: startswith_def)
  then have zero: "s \<noteq> [] \<Longrightarrow> str_find ''$'' s = 0 \<or> str_find ''{:'' s = 0 \<or> str_find '':}'' s = 0"
    using assms(2) by (auto simp: stops_def startswith_def numeral_2_eq_2)
  let ?k = "\<lambda>z. if z < 0 then -1 else int (length p) + z"
  have least: "min_pos (min_pos (?k x) (?k y)) (?k z) = int (length p)"
    if "x = 0 \<or> y = 0 \<or> z = 0" "-1 \<le> x" "-1 \<le> y" "-1 \<le> z" for x y z
    using that by (simp add: min_pos_def) arith
  show ?thesis
  proof (cases "s = []")
    case True
    then show ?thesis
      by (simp add: special_pos_def min_pos_def str_find_clean [OF assms(1), of _ "[]", simplified])
  next
    case False
    then show ?thesis
      using least [OF zero [OF False] str_find_nonneg str_find_nonneg str_find_nonneg]
      by (simp only: special_pos_def str_find_clean [OF assms(1)] insert_iff simp_thms if_False)
  qed
qed

lemma peek_clean:
  assumes "clean p" and "p \<noteq> []" and "stops s"
  shows "p_peek (pst state_gibberish (p @ s) t None y out) =
    (tok_gibberish, pst state_gibberish s p (Some tok_gibberish) y out)"
proof -
  obtain c q where p: "p = c # q" using assms(2) by (cases p) auto
  note c = clean_step [OF assms(1) [unfolded p], of _ s]
  have "match_id (p @ s) = None"
    using c [of "''$''"] by (simp add: p startswith_def match_none)
  moreover have "take 2 (p @ s) \<noteq> ''{:''" "take 2 (p @ s) \<noteq> '':}''" "c \<noteq> CHR ''$''"
    using c [of "''{:''"] c [of "'':}''"] c [of "''$''"] by (auto simp: p startswith_def numeral_2_eq_2)
  ultimately have "parse_gibberish_token \<lparr>input_str = p @ s, lex_text = t, next_token = None,
      lex_mode = state_gibberish\<rparr> =
    (tok_gibberish, \<lparr>input_str = s, lex_text = p, next_token = None, lex_mode = state_gibberish\<rparr>)"
    using special_pos_clean [OF assms(1,3)] assms(2)
    by (cases "s = []") (simp_all add: parse_gibberish_token_def take_token_def p Let_def nat_add_distrib
        cong: conj_cong)
  then show ?thesis
    using assms(2) by (simp add: p_peek_def pst_def peek_def parse_next_def)
qed

lemma peek_macro:
  shows "p_peek (pst state_gibberish [] t None y out) = (tok_EOF, pst state_gibberish [] t (Some tok_EOF) y out)"
    and "p_peek (pst state_gibberish (''{:'' @ s) t None y out) =
      (tok_block_open, pst state_gibberish s ''{:'' (Some tok_block_open) y out)"
    and "p_peek (pst state_gibberish ('':}'' @ s) t None y out) =
      (tok_block_close, pst state_gibberish s '':}'' (Some tok_block_close) y out)"
    and "is_id n \<Longrightarrow> no_id_char s \<Longrightarrow> p_peek (pst state_gibberish (CHR ''$'' # n @ s) t None y out) =
      (tok_identifier, pst state_gibberish s n (Some tok_identifier) y out)"
  using match_id_name [of n s]
  by (simp_all add: p_peek_def pst_def peek_def parse_next_def parse_gibberish_token_def match_none
      take_token_def)

section \<open>Blocks\<close>

lemma stops_simps [simp]: "stops []" "stops (CHR ''$'' # s)" "stops (CHR '':'' # CHR ''}'' # s)"
  by (simp_all add: stops_def)

lemma stops_ending: "ending fin r \<Longrightarrow> stops r"
  by (auto simp: ending_def stops_def split: if_splits)

definition follow_ok :: "string \<Rightarrow> bool" where
  "follow_ok s \<longleftrightarrow> (case match_id s of None \<Rightarrow> True | Some m \<Rightarrow> drop 1 m \<noteq> ''elif'' \<and> drop 1 m \<noteq> ''else'')"

lemma peek_follow:
  assumes "follow_ok s" and "p_peek (pst state_gibberish s t None y out) = (tok_identifier, st)"
  shows "p_text st \<noteq> ''elif''" "p_text st \<noteq> ''else''"
proof -
  let ?lx = "\<lparr>input_str = s, lex_text = t, next_token = None, lex_mode = state_gibberish\<rparr>"
  obtain lx where lx: "parse_gibberish_token ?lx = (tok_identifier, lx)" "p_text st = lex_text lx" "s \<noteq> []"
    using assms(2) by (auto simp: p_peek_def pst_def peek_def parse_next_def p_text_def
        split: prod.splits if_splits)
  then obtain p where "token_step ?lx tok_identifier [] p lx"
    using gibberish_step [of ?lx] by auto
  then have "match_id s = Some (CHR ''$'' # lex_text lx)"
    by (auto simp: token_step_def)
  then show "p_text st \<noteq> ''elif''" "p_text st \<noteq> ''else''"
    using assms(1) lx(2) by (auto simp: follow_ok_def)
qed

lemma no_id_char_space: "no_id_char (CHR '' '' # s)"
  by (simp add: no_id_char_def is_id_char_def is_alpha_def is_digit_def)

lemma is_id_keyword: "is_id ''if''" "is_id ''elif''" "is_id ''else''"
  by (simp_all add: is_id_def is_id_char_def is_alpha_def)

context symbol_source
begin

text \<open>At the end of a list of items the parser has looked at the token that ends it.\<close>

definition stopped :: "bool \<Rightarrow> string \<Rightarrow> string \<Rightarrow> 't pstate \<Rightarrow> bool" where
  "stopped fin r out =
     reaches state_gibberish (Some (if fin then tok_EOF else tok_block_close)) (drop 2 r) out"

definition data_goes :: "string \<Rightarrow> bool \<Rightarrow> string \<Rightarrow> string \<Rightarrow> ('t pstate \<Rightarrow> bool) \<Rightarrow> bool" where
  "data_goes a dp s out Q \<longleftrightarrow>
     (\<forall>t y. inv y \<longrightarrow> goes Q (\<lambda>n. parse_data gt a n dp (pst state_gibberish s t None y out)))"

lemma data_goesI:
  "(\<And>t y. inv y \<Longrightarrow> goes Q (\<lambda>n. parse_data gt a (Suc n) dp (pst state_gibberish s t None y out))) \<Longrightarrow>
   data_goes a dp s out Q"
  by (simp add: data_goes_def goes_Suc)

lemma data_goesD:
  "data_goes a dp s out Q \<Longrightarrow> inv y \<Longrightarrow>
   goes Q (\<lambda>n. parse_data gt a n dp (pst state_gibberish s t None y out))"
  by (simp add: data_goes_def)

text \<open>A text in front is copied.\<close>

lemma data_text:
  assumes "clean p" and "stops s" and "data_goes a dp s (out @ shown dp p) Q"
  shows "data_goes a dp (p @ s) out Q"
proof (cases "p = []")
  case False
  have "parse_gibberish dp (pst state_gibberish s p tk y out) = pst state_gibberish s p None y (out @ shown dp p)"
    for tk and y :: 't
    by (simp add: parse_gibberish_def pst_def on_lex_def advance_def p_text_def Let_def shown_def)
  then show ?thesis
    using data_goesD [OF assms(3)]
    by (intro data_goesI) (simp add: parser_simps peek_clean [OF assms(1) False assms(2)])
qed (use assms(3) in simp)

lemma data_end:
  assumes "ending fin r"
  shows "data_goes a dp r out (stopped fin r out)"
  using assms
  by (intro data_goesI, elim endingE)
    (auto simp: parser_simps stopped_def peek_macro(1) peek_macro(3) [simplified] intro!: goes_ret reachesI)

lemma data_name:
  assumes "val n = Inr (Some v)" and "is_id n" and "n \<noteq> ''if''" and "no_id_char s"
    and "data_goes a True (v @ s) out Q"
  shows "data_goes a True (CHR ''$'' # n @ s) out Q"
proof (rule data_goesI)
  fix t y assume "inv y"
  then obtain y' where "inv y'" "lookup_terminal gt a (pst state_gibberish s n (Some tok_identifier) y out) =
      ret (Some v, pst state_gibberish s n (Some tok_identifier) y' out)"
    using lookup_value [OF assms(1)] by blast
  then show "goes Q (\<lambda>k. parse_data gt a (Suc k) True (pst state_gibberish (CHR ''$'' # n @ s) t None y out))"
    using assms(3) data_goesD [OF assms(5)]
    by (simp add: parser_simps peek_macro(4) [OF assms(2,4)] parse_identifier_def Let_def)
qed

lemma data_skip:
  assumes "val n = Inr v" and "is_id n" and "n \<noteq> ''if''" and "no_id_char s"
    and "data_goes a False s out Q"
  shows "data_goes a False (CHR ''$'' # n @ s) out Q"
proof (rule data_goesI)
  fix t y assume "inv y"
  then obtain y' where "inv y'" "lookup_terminal gt a (pst state_gibberish s n (Some tok_identifier) y out) =
      ret (v, pst state_gibberish s n (Some tok_identifier) y' out)"
    using lookup_value [OF assms(1)] by blast
  then show "goes Q (\<lambda>k. parse_data gt a (Suc k) False (pst state_gibberish (CHR ''$'' # n @ s) t None y out))"
    using assms(3) data_goesD [OF assms(5)]
    by (simp add: parser_simps peek_macro(4) [OF assms(2,4)] parse_identifier_def Let_def)
qed

text \<open>A block in braces, and a condition with its block.\<close>

lemma goes_block:
  assumes "data_goes a dp (cut_newline (s @ '':}'' @ r)) out (stopped False ('':}'' @ r) (out @ o1))"
    and "inv y"
  shows "goes (reaches state_gibberish None (cut_newline r) (out @ o1))
    (\<lambda>n. parse_data_block gt a n dp (pst state_gibberish (''{:'' @ s @ '':}'' @ r) t None y out))"
proof (rule goes_Suc)
  show "goes (reaches state_gibberish None (cut_newline r) (out @ o1))
      (\<lambda>n. parse_data_block gt a (Suc n) dp (pst state_gibberish (''{:'' @ s @ '':}'' @ r) t None y out))"
    unfolding parser_simps peek_macro prod.case pst_simps simp_thms if_False
    by (rule goes_bind [OF data_goesD [OF assms]])
      (auto simp: stopped_def elim!: reachesE intro!: goes_ret reachesI)
qed

lemma goes_conditional:
  assumes "or_holds val e v" and "cond_ok e"
    and "data_goes a (dp \<and> v) (cut_newline (s @ '':}'' @ r)) out (stopped False ('':}'' @ r) (out @ o1))"
    and "inv y"
  shows "goes (\<lambda>(u, st). u = v \<and> reaches state_gibberish None (cut_blanks (cut_newline r)) (out @ o1) st)
    (\<lambda>n. parse_conditional_block gt a n dp
      (pst state_gibberish ('' ('' @ or_text e @ '') {:'' @ s @ '':}'' @ r) t tk y out))"
proof (rule goes_Suc)
  have blank: "dropWhile is_blank ('' {:'' @ s) = ''{:'' @ s" for s
    by (simp add: is_blank_def)
  let ?s = "'' {:'' @ s @ '':}'' @ r"
  have "goes (\<lambda>(u, st). u = v \<and> reaches state_gibberish None (cut_blanks (cut_newline r)) (out @ o1) st)
    (\<lambda>n. parse_conditional_block gt a (Suc n) dp
      (pst state_gibberish ('' '' @ CHR ''('' # [] @ or_text e @ '')'' @ ?s) t tk y out))"
    unfolding parser_simps prod.case pst_simps peek_mark [OF spaces_simps(2)] simp_thms if_False
  proof (rule goes_bind_reaches [OF goes_or [OF assms(1,2,4) spaces_simps(1), where r = False]], goal_cases)
    case (1 t y)
    show ?case
      unfolding prod.case pst_simps Let_def simp_thms if_False blank
      by (rule goes_bind [OF goes_block [OF assms(3) 1]])
        (auto elim!: reachesE intro!: goes_ret reachesI)
  qed
  then show "goes (\<lambda>(u, st). u = v \<and> reaches state_gibberish None (cut_blanks (cut_newline r)) (out @ o1) st)
    (\<lambda>n. parse_conditional_block gt a (Suc n) dp
      (pst state_gibberish ('' ('' @ or_text e @ '') {:'' @ s @ '':}'' @ r) t tk y out))"
    by simp
qed

text \<open>Conditionals.  After one without \<open>$else\<close> the next token has been looked at.\<close>

definition resumes :: "string \<Rightarrow> string \<Rightarrow> 't pstate \<Rightarrow> bool" where
  "resumes s out st \<longleftrightarrow> (\<exists>t y. inv y \<and>
     (st = pst state_gibberish s t None y out \<or> st = snd (p_peek (pst state_gibberish s t None y out))))"

lemma peek_again: "p_peek (snd (p_peek st)) = p_peek st"
  by (cases st) (auto simp: p_peek_def peek_def split: prod.split option.split)

lemma parse_data_peeked: "parse_data gt a n dp (snd (p_peek st)) = parse_data gt a n dp st"
  by (cases n) (simp_all add: parser_simps peek_again)

lemma goes_resumes:
  assumes "data_goes a dp s out Q" and "resumes s out st"
  shows "goes Q (\<lambda>n. parse_data gt a n dp st)"
  using assms by (auto simp: resumes_def parse_data_peeked dest: data_goesD)

definition else_goes :: "string \<Rightarrow> bool \<Rightarrow> string \<Rightarrow> string \<Rightarrow> ('t pstate \<Rightarrow> bool) \<Rightarrow> bool" where
  "else_goes a dp s out Q \<longleftrightarrow> (\<forall>t y. inv y \<longrightarrow>
     goes (\<lambda>(dp', tok, st). goes Q (\<lambda>n.
         if tok = tok_identifier \<and> p_text st = ''else''
         then parse_data_block gt a n dp' (on_lex (delete_spaces True) (on_lex (advance False) st))
         else ret st))
       (\<lambda>n. parse_elifs gt a n dp (pst state_gibberish s t None y out)))"

lemma else_goesI:
  "(\<And>t y. inv y \<Longrightarrow> goes (\<lambda>(dp', tok, st). goes Q (\<lambda>n.
         if tok = tok_identifier \<and> p_text st = ''else''
         then parse_data_block gt a n dp' (on_lex (delete_spaces True) (on_lex (advance False) st))
         else ret st))
       (\<lambda>n. parse_elifs gt a (Suc n) dp (pst state_gibberish s t None y out))) \<Longrightarrow> else_goes a dp s out Q"
  by (simp add: else_goes_def goes_Suc)

lemma else_goes_endif:
  assumes "follow_ok s"
  shows "else_goes a dp s out (resumes s out)"
proof (rule else_goesI)
  fix t y assume y: "inv y"
  obtain tok st where st: "p_peek (pst state_gibberish s t None y out) = (tok, st)" by fastforce
  then have "st = snd (p_peek (pst state_gibberish s t None y out))"
    by simp
  then have "resumes s out st"
    using y unfolding resumes_def by blast
  moreover have "tok = tok_identifier \<Longrightarrow> p_text st \<noteq> ''elif''" "tok = tok_identifier \<Longrightarrow> p_text st \<noteq> ''else''"
    using peek_follow [OF assms, of t y out st] st by auto
  ultimately show "goes (\<lambda>(dp', tok, st). goes (resumes s out) (\<lambda>n.
         if tok = tok_identifier \<and> p_text st = ''else''
         then parse_data_block gt a n dp' (on_lex (delete_spaces True) (on_lex (advance False) st))
         else ret st))
       (\<lambda>n. parse_elifs gt a (Suc n) dp (pst state_gibberish s t None y out))"
    by (cases "tok = tok_identifier") (auto simp: parser_simps st intro!: goes_ret)
qed

lemma else_goes_elif:
  assumes "or_holds val e v" and "cond_ok e"
    and "data_goes a (dp \<and> v) (cut_newline (s @ '':}'' @ r)) out (stopped False ('':}'' @ r) (out @ o1))"
    and "else_goes a (dp \<and> \<not> v) (cut_blanks (cut_newline r)) (out @ o1) Q"
  shows "else_goes a dp (''$elif'' @ '' ('' @ or_text e @ '') {:'' @ s @ '':}'' @ r) out Q"
proof (rule else_goesI)
  fix t y assume y: "inv y"
  note id = peek_macro(4) [OF is_id_keyword(2), simplified]
  show "goes (\<lambda>(dp', tok, st). goes Q (\<lambda>n.
         if tok = tok_identifier \<and> p_text st = ''else''
         then parse_data_block gt a n dp' (on_lex (delete_spaces True) (on_lex (advance False) st))
         else ret st))
       (\<lambda>n. parse_elifs gt a (Suc n) dp
         (pst state_gibberish (''$elif'' @ '' ('' @ or_text e @ '') {:'' @ s @ '':}'' @ r) t None y out))"
    using goes_conditional [OF assms(1-3) y] assms(4)
    by (auto simp: parser_simps id no_id_char_space else_goes_def intro!: goes_bind_reaches)
qed

lemma else_goes_else:
  assumes "data_goes a dp (cut_newline (s @ '':}'' @ r)) out (stopped False ('':}'' @ r) (out @ o1))"
  shows "else_goes a dp (''$else'' @ '' {:'' @ s @ '':}'' @ r) out (resumes (cut_newline r) (out @ o1))"
proof (rule else_goesI)
  fix t y assume y: "inv y"
  note id = peek_macro(4) [OF is_id_keyword(3), simplified]
  have blank: "dropWhile is_blank (CHR '' '' # CHR ''{'' # u) = CHR ''{'' # u" for u
    by (simp add: is_blank_def)
  have "goes (resumes (cut_newline r) (out @ o1))
    (\<lambda>n. parse_data_block gt a n dp (pst state_gibberish (''{:'' @ s @ '':}'' @ r) t' None y out))" for t'
    by (rule goes_weaken [OF goes_block [OF assms y]]) (auto simp: resumes_def elim!: reachesE)
  then show "goes (\<lambda>(dp', tok, st). goes (resumes (cut_newline r) (out @ o1)) (\<lambda>n.
         if tok = tok_identifier \<and> p_text st = ''else''
         then parse_data_block gt a n dp' (on_lex (delete_spaces True) (on_lex (advance False) st))
         else ret st))
       (\<lambda>n. parse_elifs gt a (Suc n) dp (pst state_gibberish (''$else'' @ '' {:'' @ s @ '':}'' @ r) t None y out))"
    by (auto simp: parser_simps id no_id_char_space blank simp del: dropWhile.simps intro!: goes_ret)
qed

text \<open>A whole conditional.\<close>

lemma data_cond:
  assumes "or_holds val e v" and "cond_ok e"
    and "data_goes a (dp \<and> v) (cut_newline (s @ '':}'' @ r)) out (stopped False ('':}'' @ r) (out @ o1))"
    and "else_goes a (dp \<and> \<not> v) (cut_blanks (cut_newline r)) (out @ o1) (resumes u (out @ o2))"
    and "data_goes a dp u (out @ o2) Q"
  shows "data_goes a dp (''$if'' @ '' ('' @ or_text e @ '') {:'' @ s @ '':}'' @ r) out Q"
proof (rule data_goesI)
  fix t y assume y: "inv y"
  note id = peek_macro(4) [OF is_id_keyword(1), simplified]
  let ?st = "pst state_gibberish ('' ('' @ or_text e @ '') {:'' @ s @ '':}'' @ r) ''if'' (Some tok_identifier) y out"
  have "goes (resumes u (out @ o2)) (\<lambda>n. parse_if_block gt a n dp ?st)"
  proof (rule goes_Suc, unfold parser_simps, rule goes_bind_reaches [OF goes_conditional [OF assms(1-3) y]])
    fix t' y' assume "inv y'"
    then show "goes (resumes u (out @ o2)) (\<lambda>n.
        case (v, pst state_gibberish (cut_blanks (cut_newline r)) t' None y' (out @ o1)) of (exp_res, st1) \<Rightarrow>
        bind_run (parse_elifs gt a n (dp \<and> \<not> exp_res) st1) (\<lambda>(dp, tok, st2).
          if tok = tok_identifier \<and> p_text st2 = ''else''
          then parse_data_block gt a n dp (on_lex (delete_spaces True) (on_lex (advance False) st2))
          else ret st2))"
      unfolding prod.case
      by (intro goes_bind [OF assms(4) [unfolded else_goes_def, rule_format]]) (simp_all add: split_beta)
  qed
  then show "goes Q (\<lambda>n. parse_data gt a (Suc n) dp
      (pst state_gibberish (''$if'' @ '' ('' @ or_text e @ '') {:'' @ s @ '':}'' @ r) t None y out))"
    using goes_resumes [OF assms(5)] by (auto simp: parser_simps id no_id_char_space intro: goes_bind)
qed

end

section \<open>The parser computes the meaning\<close>

lemma follow_items:
  assumes "ending fin r"
  shows "items_ok k \<Longrightarrow> follow_ok (unparse k @ r)"
proof (induction k)
  case Nil
  then show ?case
    using assms by (elim endingE) (simp_all add: follow_ok_def)
next
  case (Cons x k)
  show ?case
  proof (cases x)
    case (Lit t)
    then show ?thesis
      using Cons by (cases t) (auto simp: follow_ok_def match_none dest: clean_no_dollar)
  next
    case (Ref n)
    then show ?thesis
      using Cons.prems no_id_char_ending [OF assms]
      by (simp add: follow_ok_def match_id_name no_id_char_append keyword_def)
  next
    case (Cond e b el)
    then show ?thesis
      using match_id_name [OF is_id_keyword(1), simplified]
      by (simp add: follow_ok_def no_id_char_space)
  qed
qed

lemma gap_cut:
  assumes "gap_ok g"
  shows "cut_blanks (cut_newline (g @ ''$elif'' @ CHR '' '' # u)) = ''$elif'' @ CHR '' '' # u"
proof -
  define b where "b = (if take 1 g = [CHR 0x0A] then drop 1 g else g)"
  have b: "list_all is_blank b"
    using assms by (simp only: gap_ok_def b_def)
  have "cut_newline (g @ ''$elif'' @ CHR '' '' # u) = b @ ''$elif'' @ CHR '' '' # u"
    by (cases g) (simp_all add: b_def)
  moreover have "dropWhile is_blank (b @ ''$elif'' @ CHR '' '' # u) = ''$elif'' @ CHR '' '' # u"
    using b by (subst dropWhile_append2) (auto simp: list_all_iff is_blank_def)
  moreover have "match_id (''$elif'' @ CHR '' '' # u) = Some ''$elif''"
    using match_id_name [OF is_id_keyword(2), of "CHR '' '' # u"] by (simp add: no_id_char_space)
  ultimately show ?thesis
    by (simp only: cut_blanks_def option.case) (simp add: keyword_def)
qed

lemma else_cut: "cut_blanks (cut_newline ('' '' @ ''$else'' @ CHR '' '' # u)) = ''$else'' @ CHR '' '' # u"
proof -
  have "dropWhile is_blank ('' '' @ ''$else'' @ CHR '' '' # u) = ''$else'' @ CHR '' '' # u"
    by (simp add: is_blank_def)
  moreover have "match_id (''$else'' @ CHR '' '' # u) = Some ''$else''"
    using match_id_name [OF is_id_keyword(3), of "CHR '' '' # u"] by (simp add: no_id_char_space)
  ultimately show ?thesis
    by (simp add: cut_blanks_def keyword_def)
qed

lemma after_cond_text:
  assumes "ending fin r" and "items_ok k"
  shows "unparse (after_cond fin el k) @ r =
    (if has_else el then cut_newline (unparse k @ r) else cut_blanks (cut_newline (unparse k @ r)))"
  using cut_blanks_items [OF assms(1) drop_newline_ok [OF assms(2)], of fin]
  by (simp add: after_cond_def cut_newline_items [OF assms(1)])

lemma items_ok_append: "items_ok a \<Longrightarrow> items_ok b \<Longrightarrow> no_id_char (unparse b) \<Longrightarrow> items_ok (a @ b)"
proof (induction a)
  case (Cons x a)
  then show ?case
    by (cases x) (auto simp: unparse_append no_id_char_append)
qed simp

context symbol_source
begin

lemma parser_renders:
  "renders val fin dp k o1 \<Longrightarrow> items_ok k \<Longrightarrow> ending fin r \<Longrightarrow> clean p \<Longrightarrow>
    data_goes a dp (p @ unparse k @ r) out (stopped fin r (out @ shown dp p @ o1))"
  and "else_renders val dp el o1 \<Longrightarrow> else_ok el \<Longrightarrow> ending fin' r' \<Longrightarrow> items_ok k' \<Longrightarrow>
    else_goes a dp (cut_blanks (cut_newline (else_text el @ unparse k' @ r'))) out
      (resumes (unparse (after_cond fin' el k') @ r') (out @ o1))"
proof (induction arbitrary: r p out and fin' r' k' out rule: renders_else_renders.inducts)
  case (Nil fin dp)
  then show ?case
    by (auto intro!: data_text stops_ending data_end)
next
  case (Lit fin dp k o1 t)
  then show ?case
    using Lit.IH(2) [of r "p @ t" out] by (simp add: clean_append)
next
  case (Ref n "is" fin k o1)
  then have k: "is_id n" "n \<noteq> ''if''" "no_id_char (unparse k @ r)" "items_ok (is @ k)"
    using no_id_char_ending [of fin r]
    by (simp_all add: keyword_def no_id_char_append items_ok_append)
  have "data_goes a True ([] @ unparse (is @ k) @ r) (out @ p) (stopped fin r ((out @ p) @ shown True [] @ o1))"
    using Ref.IH(3) [OF k(4) Ref.prems(2), of "[]" "out @ p"] by simp
  then have "data_goes a True (unparse is @ unparse k @ r) (out @ p) (stopped fin r (out @ p @ o1))"
    by (simp add: unparse_append)
  then have "data_goes a True (CHR ''$'' # n @ unparse k @ r) (out @ p) (stopped fin r (out @ p @ o1))"
    by (rule data_name [OF Ref.IH(1) k(1-3)])
  then show ?case
    using Ref.prems(3) by (simp add: data_text)
next
  case (Skip n v fin k o1)
  then have k: "is_id n" "n \<noteq> ''if''" "no_id_char (unparse k @ r)" "items_ok k"
    using no_id_char_ending [of fin r] by (simp_all add: keyword_def no_id_char_append)
  have "data_goes a False (CHR ''$'' # n @ unparse k @ r) out (stopped fin r (out @ o1))"
    using Skip.IH(3) [OF k(4) Skip.prems(2), of "[]"] by (simp add: data_skip [OF Skip.IH(1) k(1-3)])
  then show ?case
    using Skip.prems(3) by (simp add: data_text)
next
  case (Cond e v dp b o1 el o2 fin k o3)
  let ?r = "else_text el @ unparse k @ r" and ?out = "out @ shown dp p"
  have ok: "cond_ok e" "items_ok b" "else_ok el" "items_ok k" "ending False ('':}'' @ ?r)"
    using Cond.prems by (simp_all add: ending_def)
  have "data_goes a (dp \<and> v) (cut_newline (unparse b @ '':}'' @ ?r)) ?out (stopped False ('':}'' @ ?r) (?out @ o1))"
    using Cond.IH(3) [OF drop_newline_ok [OF ok(2)] ok(5), of "[]" ?out] by (simp add: cut_newline_items [OF ok(5), simplified])
  moreover have "else_goes a (dp \<and> \<not> v) (cut_blanks (cut_newline ?r)) (?out @ o1)
      (resumes (unparse (after_cond fin el k) @ r) (?out @ o1 @ o2))"
    using Cond.IH(5) [OF ok(3) Cond.prems(2) ok(4), of "?out @ o1"] by simp
  moreover have "data_goes a dp (unparse (after_cond fin el k) @ r) (?out @ o1 @ o2) (stopped fin r (?out @ o1 @ o2 @ o3))"
    using Cond.IH(7) [OF after_cond_ok [OF ok(4)] Cond.prems(2), of "[]" "?out @ o1 @ o2"] by simp
  ultimately have "data_goes a dp (''$if'' @ '' ('' @ or_text e @ '') {:'' @ unparse b @ '':}'' @ ?r) ?out
      (stopped fin r (?out @ o1 @ o2 @ o3))"
    by (rule data_cond [OF Cond.IH(1) ok(1)])
  then show ?case
    using Cond.prems(3) by (simp add: data_text)
next
  case (Endif dp)
  have "else_goes a dp (unparse (after_cond fin' Endif k') @ r') out (resumes (unparse (after_cond fin' Endif k') @ r') out)"
    by (intro else_goes_endif follow_items [OF Endif(2)] after_cond_ok Endif(3))
  then show ?case
    by (simp add: after_cond_text [OF Endif(2,3)])
next
  case (Elif e v dp b o1 el o2 g)
  let ?r = "else_text el @ unparse k' @ r'"
  have ok: "cond_ok e" "items_ok b" "else_ok el" "gap_ok g" "ending False ('':}'' @ ?r)"
    using Elif.prems by (simp_all add: ending_def)
  have "data_goes a (dp \<and> v) (cut_newline (unparse b @ '':}'' @ ?r)) out (stopped False ('':}'' @ ?r) (out @ o1))"
    using Elif.IH(3) [OF drop_newline_ok [OF ok(2)] ok(5), of "[]"] by (simp add: cut_newline_items [OF ok(5), simplified])
  moreover have "else_goes a (dp \<and> \<not> v) (cut_blanks (cut_newline ?r)) (out @ o1)
      (resumes (unparse (after_cond fin' el k') @ r') (out @ o1 @ o2))"
    using Elif.IH(5) [OF ok(3) Elif.prems(2,3), of "out @ o1"] by simp
  ultimately have "else_goes a dp (''$elif'' @ '' ('' @ or_text e @ '') {:'' @ unparse b @ '':}'' @ ?r) out
      (resumes (unparse (after_cond fin' el k') @ r') (out @ o1 @ o2))"
    by (rule else_goes_elif [OF Elif.IH(1) ok(1)])
  then show ?case
    using gap_cut [OF ok(4), of "CHR ''('' # or_text e @ '') {:'' @ unparse b @ '':}'' @ ?r"]
    by (simp add: after_cond_def)
next
  case (Else dp b o1)
  let ?r = "unparse k' @ r'"
  have ok: "items_ok b" "ending False ('':}'' @ ?r)"
    using Else.prems by (simp_all add: ending_def)
  have "data_goes a dp (cut_newline (unparse b @ '':}'' @ ?r)) out (stopped False ('':}'' @ ?r) (out @ o1))"
    using Else.IH(2) [OF drop_newline_ok [OF ok(1)] ok(2), of "[]"] by (simp add: cut_newline_items [OF ok(2), simplified])
  from else_goes_else [OF this] show ?case
    using else_cut [of "''{:'' @ unparse b @ '':}'' @ ?r"] after_cond_text [OF Else.prems(2,3), of "Else b"]
    by simp
qed

text \<open>The whole input: from some fuel on \<open>parse\<close> returns and has put out what the template stands for.\<close>

lemma parse_renders:
  assumes "renders val True True k o1" and "items_ok k" and "inv (p_sym st)" and "lex_mode (p_lex st) = state_gibberish"
  shows "goes (\<lambda>(v, st'). v = None \<and> p_out st' = o1 \<and> inv (p_sym st')) (\<lambda>n. parse gt a n (unparse k) st)"
proof -
  have "st\<lparr>p_lex := set_str (unparse k) (p_lex st), p_out := []\<rparr> =
      pst state_gibberish (unparse k) [] None (p_sym st) []"
    using assms(4) by (cases st, cases "p_lex st") (simp add: pst_def set_str_def)
  moreover have "goes (stopped True [] o1) (\<lambda>n. parse_data gt a n True (pst state_gibberish (unparse k) [] None (p_sym st) []))"
    using data_goesD [OF parser_renders(1) [OF assms(1,2), of "[]" "[]"] assms(3), of "[]"]
    by (simp add: ending_def)
  ultimately show ?thesis
    unfolding parse_def by (auto simp: stopped_def intro!: goes_bind goes_ret elim!: reachesE)
qed

end

end
