(* ===== verification/MacroTotal.thy ===== *)
theory MacroTotal
  imports MacroParse
begin

text \<open>
  Every well-formed template stands for a text if the names in it are known and the names that it
  prints have a value; a name that may lack a value can be printed behind a test for \<open>Undefined\<close>.
\<close>

section \<open>Conditions have a value\<close>

lemma drop_no_space: "list_all (\<lambda>c. \<not> is_space c) t \<Longrightarrow> dropWhile is_space t = t"
  by (cases t) auto

lemma strip_newline:
  assumes "list_all (\<lambda>c. \<not> is_space c) (c # t)"
  shows "strip (c # t @ [CHR 0x0A]) = c # t"
proof -
  have "dropWhile is_space (rev (c # t)) = rev (c # t)"
    using assms by (intro drop_no_space) (simp add: list_all_iff)
  moreover have "is_space (CHR 0x0A)" by (simp add: is_space_def)
  ultimately show ?thesis
    using assms by (simp add: strip_def)
qed

lemma strip_chomp:
  assumes "list_all (\<lambda>c. \<not> is_space c) (chomp s)" and "chomp s \<noteq> []"
  shows "strip s = chomp s"
proof (cases "s \<noteq> [] \<and> last s = CHR 0x0A")
  case True
  then have "s = chomp s @ [CHR 0x0A]"
    by (metis append_butlast_last_id chomp_def)
  then show ?thesis
    using strip_newline assms by (metis append_Cons neq_Nil_conv)
next
  case False
  then have "chomp s = s" by (auto simp: chomp_def)
  with assms strip_plain [of s] show ?thesis by simp
qed

lemma is_digit_base: "is_digit c = is_base_digit 10 c"
  by (auto simp: is_digit_def is_base_digit_def digit_val_def Let_def split: if_splits)

lemma sign_no_space: "\<not> is_space (CHR ''-'')" "\<not> is_space (CHR ''+'')" "\<not> is_space (CHR ''0'')"
    "\<not> is_space (CHR ''x'')" "\<not> is_space (CHR ''X'')"
  by (simp_all add: is_space_def)

lemma int_str_value:
  assumes "is_int_str s"
  shows "\<exists>i. py_int 10 s = Inr i"
proof -
  let ?t = "chomp s" and ?u = "if take 1 (chomp s) = ''-'' \<or> take 1 (chomp s) = ''+'' then drop 1 (chomp s) else chomp s"
  have u: "?u \<noteq> []" "list_all (is_base_digit 10) ?u"
    using assms by (simp_all add: is_int_str_def Let_def is_digit_base [abs_def])
  have "list_all (\<lambda>c. \<not> is_space c) ?u"
    by (intro list.pred_mono_strong [OF u(2)]) (simp add: base_digit_plain [of 10])
  then have "list_all (\<lambda>c. \<not> is_space c) ?t" "?t \<noteq> []"
    using u(1) sign_no_space by (cases ?t; auto split: if_splits)+
  then have "strip s = ?t" by (rule strip_chomp)
  with u show ?thesis
    by (auto simp: py_int_def Let_def parse_nat_def split: if_splits)
qed

lemma hex_str_value:
  assumes "is_hex_str s"
  shows "\<exists>i. py_int 16 s = Inr i"
proof -
  let ?t = "chomp s"
  have t: "is_0x ?t" "drop 2 ?t \<noteq> []" "list_all (is_base_digit 16) (drop 2 ?t)"
    using assms by (simp_all add: is_hex_str_def Let_def)
  obtain x u where x: "?t = CHR ''0'' # x # u" "x = CHR ''x'' \<or> x = CHR ''X''"
    using t(1) by (cases ?t; cases "tl ?t") (auto simp: is_0x_def)
  have "list_all (\<lambda>c. \<not> is_space c) ?t"
    using t(3) x base_digit_plain sign_no_space by (auto simp: list_all_iff)
  then have "strip s = ?t"
    using x by (intro strip_chomp) simp_all
  then show ?thesis
    using t x by (auto simp: py_int_def Let_def parse_nat_def)
qed

lemma compare_strings:
  assumes "cmp_ok (Cmp l op r)"
  shows "\<exists>b. compare_terms op (Term_str x) (Term_str y) = Inr (Some b)"
proof -
  have "\<exists>i. get_num (Term_str s) = Inr i" for s
    using hex_str_value [of s] int_str_value [of s] by (auto simp: get_num_def)
  then obtain i j where "get_num (Term_str x) = Inr i" "get_num (Term_str y) = Inr j"
    by blast
  moreover have "\<exists>b. compare_with op u v = Some b" for u v
    using assms by (auto simp: compare_with_def)
  ultimately show ?thesis
    by (auto simp: compare_terms_def split: option.split)
qed

lemma not_Undefined:
  assumes "compare_terms ''!='' (Term_str ''Undefined'') (Term_str ''Undefined'') = Inr (Some b)"
  shows "\<not> b"
proof -
  have "\<not> is_hex_str ''Undefined''" "\<not> is_int_str ''Undefined''"
    by (simp_all add: is_hex_str_def is_int_str_def chomp_def is_0x_def is_digit_def)
  then show ?thesis
    using assms by (simp add: compare_terms_def get_num_def compare_with_def)
qed

section \<open>Safe templates\<close>

fun operand_known :: "(string \<Rightarrow> bool) \<Rightarrow> operand \<Rightarrow> bool" where
  "operand_known known (Name n) = known n"
| "operand_known known w = True"

fun cmp_known :: "(string \<Rightarrow> bool) \<Rightarrow> comparison \<Rightarrow> bool" where
  "cmp_known known (Cmp l op r) \<longleftrightarrow> operand_known known l \<and> operand_known known r"

text \<open>The name that a condition shows to have a value.\<close>

fun guarded :: "condition \<Rightarrow> string list" where
  "guarded [[Cmp (Name n) op (Word w)]] = (if op = ''!='' \<and> w = ''Undefined'' then [n] else [])"
| "guarded e = []"

fun items_safe :: "(string \<Rightarrow> bool) \<Rightarrow> (string \<Rightarrow> bool) \<Rightarrow> string list \<Rightarrow> item list \<Rightarrow> bool"
  and else_safe :: "(string \<Rightarrow> bool) \<Rightarrow> (string \<Rightarrow> bool) \<Rightarrow> string list \<Rightarrow> else_part \<Rightarrow> bool" where
  "items_safe known valued g [] = True"
| "items_safe known valued g (Lit t # k) = items_safe known valued g k"
| "items_safe known valued g (Ref n # k) \<longleftrightarrow>
     known n \<and> (valued n \<or> n \<in> set g) \<and> items_safe known valued g k"
| "items_safe known valued g (Cond e b el # k) \<longleftrightarrow> list_all (list_all (cmp_known known)) e \<and>
     items_safe known valued (guarded e @ g) b \<and> else_safe known valued g el \<and> items_safe known valued g k"
| "else_safe known valued g Endif = True"
| "else_safe known valued g (Elif gap e b el) \<longleftrightarrow> list_all (list_all (cmp_known known)) e \<and>
     items_safe known valued (guarded e @ g) b \<and> else_safe known valued g el"
| "else_safe known valued g (Else b) = items_safe known valued g b"

lemma safe_mono:
  "items_safe known valued g k \<Longrightarrow> set g \<subseteq> set g' \<Longrightarrow> items_safe known valued g' k"
  and "else_safe known valued g el \<Longrightarrow> set g \<subseteq> set g' \<Longrightarrow> else_safe known valued g' el"
proof (induction k and el arbitrary: g g' and g g' rule: unparse_else_text.induct)
  case (4 e b el k)
  have "items_safe known valued (guarded e @ g') b"
    by (rule "4.IH"(1) [where g = "guarded e @ g"]) (use "4.prems" in auto)
  then show ?case
    using 4 by auto
next
  case (6 gap e b el)
  have "items_safe known valued (guarded e @ g') b"
    by (rule "6.IH"(1) [where g = "guarded e @ g"]) (use "6.prems" in auto)
  then show ?case
    using 6 by auto
qed auto

lemma safe_append:
  "items_safe known valued g (a @ b) \<longleftrightarrow> items_safe known valued g a \<and> items_safe known valued g b"
proof (induction a)
  case (Cons x a)
  then show ?case by (cases x) auto
qed simp

lemma drop_newline_safe: "items_safe known valued g k \<Longrightarrow> items_safe known valued g (drop_newline fin k)"
  by (induction fin k rule: drop_newline.induct) auto

lemma strip_items_safe: "items_safe known valued g k \<Longrightarrow> items_safe known valued g (strip_items k)"
  by (induction k rule: strip_items.induct) (auto split: list.split)

lemma after_cond_safe: "items_safe known valued g k \<Longrightarrow> items_safe known valued g (after_cond fin el k)"
  by (simp add: after_cond_def drop_blanks_def drop_newline_safe strip_items_safe)

lemma and_total:
  assumes "\<And>n. known n \<Longrightarrow> \<exists>v. val n = Inr v"
  shows "list_all cmp_ok cs \<Longrightarrow> list_all (cmp_known known) cs \<Longrightarrow> \<exists>v. and_holds val cs v"
proof (induction cs)
  case (Cons c cs)
  obtain l op r where c: "c = Cmp l op r" by (cases c)
  have operand: "\<exists>x. operand_value val w = Inr x" if "operand_known known w" for w
    using that by (cases w) (auto simp: name_value_def dest: assms)
  then obtain x y where "operand_value val l = Inr x" "operand_value val r = Inr y"
    using Cons.prems c by fastforce
  then have "\<exists>b. cmp_value val c = Inr (Some b)"
    using compare_strings [of l op r x y] Cons.prems c by simp
  then show ?case
    using Cons by auto
qed (simp add: exI [of _ True])

lemma or_total:
  assumes "\<And>n. known n \<Longrightarrow> \<exists>v. val n = Inr v"
  shows "list_all (\<lambda>a. a \<noteq> [] \<and> list_all cmp_ok a) e \<Longrightarrow> list_all (list_all (cmp_known known)) e \<Longrightarrow>
    \<exists>v. or_holds val e v"
proof (induction e)
  case (Cons a e)
  then show ?case
    using and_total [of known val a, OF assms] by auto
qed (simp add: exI [of _ False])

lemma guarded_value:
  assumes "or_holds val e True" and "n \<in> set (guarded e)"
  shows "val n \<noteq> Inr None"
proof
  assume n: "val n = Inr None"
  have "e = [[Cmp (Name n) ''!='' (Word ''Undefined'')]]"
    using assms(2) by (cases e rule: guarded.cases) (auto split: if_splits)
  with assms(1) n show False
    by (auto simp: name_value_def dest: not_Undefined)
qed

section \<open>Safe templates stand for a text\<close>

locale macro_source = costed_source gt inv val cost
  for gt :: "'t get_terminal" and inv and val and cost +
  fixes known valued :: "string \<Rightarrow> bool"
  assumes known_value: "inv t \<Longrightarrow> known n \<Longrightarrow> \<exists>v. val n = Inr v"
    and valued_value: "inv t \<Longrightarrow> valued n \<Longrightarrow> val n \<noteq> Inr None"
    and value_template: "inv t \<Longrightarrow> known n \<Longrightarrow> val n = Inr (Some v) \<Longrightarrow>
      \<exists>is. v = unparse is \<and> items_ok is \<and> items_safe known valued [] is"
begin

definition guards_ok :: "bool \<Rightarrow> string list \<Rightarrow> bool" where
  "guards_ok dp g \<longleftrightarrow> (dp \<longrightarrow> (\<forall>n \<in> set g. val n \<noteq> Inr None))"

lemma guards_ok_block: "guards_ok dp g \<Longrightarrow> or_holds val e v \<Longrightarrow> guards_ok (dp \<and> v) (guarded e @ g)"
  using guarded_value [of val e] by (cases v) (auto simp: guards_ok_def)

lemma guards_ok_less: "guards_ok dp g \<Longrightarrow> guards_ok (dp \<and> v) g"
  by (simp add: guards_ok_def)

text \<open>What has to be shown of the items whose input costs at most \<open>m\<close>.\<close>

definition total_upto :: "nat \<Rightarrow> bool" where
  "total_upto m \<longleftrightarrow> (\<forall>fin dp g k r. items_ok k \<longrightarrow> items_safe known valued g k \<longrightarrow> guards_ok dp g \<longrightarrow>
     ending fin r \<longrightarrow> cost (unparse k @ r) \<le> m \<longrightarrow> (\<exists>o1. renders val fin dp k o1))"

lemma cost_cut: "cost (cut_newline s) \<le> cost s"
proof (cases s)
  case (Cons c u)
  then show ?thesis using cost_char [of u c] by auto
qed simp

lemma block_total:
  assumes "total_upto m" and "items_ok b" and "items_safe known valued g b" and "guards_ok dp g"
    and "cost (unparse b @ '':}'' @ r) \<le> m"
  shows "\<exists>o1. renders val False dp (drop_newline False b) o1"
proof -
  have e: "ending False ('':}'' @ r)" by (simp add: ending_def)
  have "cost (unparse (drop_newline False b) @ '':}'' @ r) \<le> m"
    using cost_cut [of "unparse b @ '':}'' @ r"] assms(5) unfolding cut_newline_items [OF e] by simp
  then show ?thesis
    using assms(1-4) e drop_newline_ok drop_newline_safe unfolding total_upto_def by blast
qed

lemma cost_suffix: "cost (p @ s) \<le> m \<Longrightarrow> p \<noteq> [] \<Longrightarrow> cost s < m"
  using cost_append [of s p] by (cases p) auto

lemma cost_block:
  assumes "cost (p @ unparse b @ '':}'' @ r) \<le> Suc m" and "p \<noteq> []"
  shows "cost (unparse b @ '':}'' @ r) \<le> m" "cost r \<le> m"
  using cost_suffix [OF assms] cost_suffix [of "p @ unparse b @ '':}''" r "Suc m"] assms by auto

lemma else_total:
  assumes "inv t" and "total_upto m"
  shows "else_ok el \<Longrightarrow> else_safe known valued g el \<Longrightarrow> guards_ok dp g \<Longrightarrow> cost (else_text el @ r) \<le> m \<Longrightarrow>
    \<exists>o1. else_renders val dp el o1"
proof (induction el arbitrary: dp rule: has_else.induct)
  case 1
  then show ?case by (blast intro: renders_else_renders.Endif)
next
  case (2 gap e b el)
  let ?r = "else_text el @ r"
  obtain v where v: "or_holds val e v"
    using or_total [of known val e, OF known_value [OF assms(1)]] "2.prems"(1,2) by (auto simp: cond_ok_def)
  have tx: "cost ((gap @ ''$elif ('' @ or_text e @ '') {:'') @ unparse b @ '':}'' @ ?r) \<le> Suc m"
    using "2.prems"(4) by simp
  note less = cost_block [OF tx]
  obtain o1 where "renders val False (dp \<and> v) (drop_newline False b) o1"
    using block_total [OF assms(2) _ _ guards_ok_block [OF "2.prems"(3) v] less(1)] "2.prems"(1,2) by auto
  moreover obtain o2 where "else_renders val (dp \<and> \<not> v) el o2"
    using "2.IH" [OF _ _ guards_ok_less [OF "2.prems"(3)] less(2)] "2.prems"(1,2) by auto
  ultimately show ?case
    using v by (blast intro: renders_else_renders.Elif)
next
  case (3 b)
  have tx: "cost ('' $else {:'' @ unparse b @ '':}'' @ r) \<le> Suc m"
    using "3.prems"(4) by simp
  show ?case
    using block_total [OF assms(2) _ _ "3.prems"(3) cost_block(1) [OF tx]] "3.prems"(1,2)
    by (auto intro: renders_else_renders.Else)
qed

lemma cond_total:
  assumes "inv t" and "total_upto m" and "items_ok (Cond e b el # k)" and "items_safe known valued g (Cond e b el # k)"
    and "guards_ok dp g" and "ending fin r" and "cost (unparse (Cond e b el # k) @ r) \<le> Suc m"
  shows "\<exists>o1. renders val fin dp (Cond e b el # k) o1"
proof -
  let ?r = "else_text el @ unparse k @ r"
  obtain v where v: "or_holds val e v"
    using or_total [of known val e, OF known_value [OF assms(1)]] assms(3,4) by (auto simp: cond_ok_def)
  have "cost ((''$if ('' @ or_text e @ '') {:'') @ unparse b @ '':}'' @ ?r) \<le> Suc m"
    using assms(7) by simp
  note less = cost_block [OF this]
  obtain o1 where o1: "renders val False (dp \<and> v) (drop_newline False b) o1"
    using block_total [OF assms(2) _ _ guards_ok_block [OF assms(5) v] less(1)] assms(3,4) by auto
  obtain o2 where o2: "else_renders val (dp \<and> \<not> v) el o2"
    using else_total [OF assms(1,2) _ _ guards_ok_less [OF assms(5)] less(2)] assms(3,4) by auto
  have "cost (unparse (after_cond fin el k) @ r) \<le> m"
  proof -
    have "\<exists>p. s = p @ cut_newline s" "\<exists>p. s = p @ cut_blanks s" for s
    proof -
      show "\<exists>p. s = p @ cut_newline s" by (cases s) auto
      show "\<exists>p. s = p @ cut_blanks s"
        by (auto simp: cut_blanks_def split: option.split intro: exI [of _ "takeWhile is_blank s"])
    qed
    then have "cost (cut_newline s) \<le> cost s" "cost (cut_blanks s) \<le> cost s" for s
      using cost_append by (metis le_add1 le_trans)+
    then have "cost (unparse (after_cond fin el k) @ r) \<le> cost (unparse k @ r)"
      using assms(3,6) by (simp add: after_cond_text) (meson le_trans)
    also have "\<dots> \<le> m"
      using less(2) cost_append [of "unparse k @ r" "else_text el"] by simp
    finally show ?thesis .
  qed
  moreover have "items_ok (after_cond fin el k)" "items_safe known valued g (after_cond fin el k)"
    using assms(3,4) by (simp_all add: after_cond_ok after_cond_safe)
  ultimately obtain o3 where "renders val fin dp (after_cond fin el k) o3"
    using assms(2,5,6) unfolding total_upto_def by blast
  then show ?thesis
    using v o1 o2 by (blast intro: renders_else_renders.Cond)
qed

lemma name_total:
  assumes "inv t" and "total_upto m" and "items_ok (Ref n # k)" and "items_safe known valued g (Ref n # k)"
    and "guards_ok dp g" and "ending fin r" and "cost (unparse (Ref n # k) @ r) \<le> Suc m"
  shows "\<exists>o1. renders val fin dp (Ref n # k) o1"
proof (cases dp)
  case False
  then obtain v where "val n = Inr v"
    using known_value [OF assms(1), of n] assms(4) by auto
  moreover have "cost (unparse k @ r) \<le> m"
    using cost_suffix [of "CHR ''$'' # n" "unparse k @ r" "Suc m"] assms(7) by simp
  then have "\<exists>o1. renders val fin dp k o1"
    using assms(2-6) unfolding total_upto_def by (metis items_ok.simps(3) items_safe.simps(3))
  ultimately show ?thesis
    using False by (auto intro: renders_else_renders.Skip)
next
  case True
  have n: "known n" "valued n \<or> n \<in> set g" "is_id n" "no_id_char (unparse k @ r)"
    using assms(3,4) no_id_char_ending [OF assms(6)] by (auto intro: no_id_char_append)
  then have "val n \<noteq> Inr None"
    using assms(5) True valued_value [OF assms(1)] by (auto simp: guards_ok_def)
  then obtain v where v: "val n = Inr (Some v)"
    using known_value [OF assms(1) n(1)] by (metis not_Some_eq)
  then obtain "is" where i: "v = unparse is" "items_ok is" "items_safe known valued [] is"
    using value_template [OF assms(1) n(1)] by blast
  have "cost (v @ drop (length (CHR ''$'' # n)) (CHR ''$'' # n @ unparse k @ r)) < cost (CHR ''$'' # n @ unparse k @ r)"
    by (rule cost_expand [OF assms(1) match_id_name [OF n(3,4)]]) (simp add: v)
  then have "cost (unparse (is @ k) @ r) \<le> m"
    using assms(7) by (simp add: i(1) unparse_append)
  moreover have "items_ok (is @ k)" "items_safe known valued g (is @ k)"
    using assms(3,4) i(2) safe_mono(1) [OF i(3), of g] by (simp_all add: items_ok_append safe_append)
  moreover have "guards_ok True g"
    using assms(5) True by simp
  ultimately have "\<exists>o1. renders val fin True (is @ k) o1"
    using assms(2,6) unfolding total_upto_def by blast
  then show ?thesis
    using True v i by (auto intro: renders_else_renders.Ref)
qed

lemma total_all:
  assumes "inv t"
  shows "total_upto m"
proof (induction m)
  case 0
  have "\<exists>o1. renders val fin dp k o1"
    if "cost (unparse k @ r) \<le> 0" for fin dp k r
    using that
  proof (induction k)
    case (Cons x k)
    have "unparse (x # k) @ r = []"
      using Cons.prems cost_char [of "tl (unparse (x # k) @ r)" "hd (unparse (x # k) @ r)"]
      by (metis le_zero_eq list.collapse not_less_zero)
    then have x: "x = Lit []" "unparse k @ r = []"
      by (cases x; simp)+
    then show ?case
      using Cons by (auto intro: renders_else_renders.Lit)
  qed (blast intro: renders_else_renders.Nil)
  then show ?case by (auto simp: total_upto_def)
next
  case (Suc m)
  have "\<exists>o1. renders val fin dp k o1"
    if "items_ok k" "items_safe known valued g k" "guards_ok dp g" "ending fin r" "cost (unparse k @ r) \<le> Suc m"
    for fin dp g k r
    using that(1,2,5)
  proof (induction k)
    case Nil
    then show ?case by (blast intro: renders_else_renders.Nil)
  next
    case (Cons x k)
    show ?case
    proof (cases x)
      case (Lit s)
      have "cost (unparse k @ r) \<le> Suc m"
        using Cons.prems(3) cost_append [of "unparse k @ r" s] by (simp add: Lit)
      then show ?thesis
        using Cons by (auto simp: Lit intro: renders_else_renders.Lit)
    next
      case (Ref n)
      then show ?thesis
        using name_total [OF assms Suc, of n k g dp fin r] that(3,4) Cons.prems by simp
    next
      case (Cond e b el)
      then show ?thesis
        using cond_total [OF assms Suc, of e b el k g dp fin r] that(3,4) Cons.prems by simp
    qed
  qed
  then show ?case
    unfolding total_upto_def by blast
qed

text \<open>So \<open>parse\<close> returns, with no exception and what the template stands for.\<close>

lemma parse_total:
  assumes "inv (p_sym st)" and "lex_mode (p_lex st) = state_gibberish" and "items_ok k"
    and "items_safe known valued [] k"
  shows "\<exists>o1. renders val True True k o1 \<and>
    goes (\<lambda>(v, st'). v = None \<and> p_out st' = o1 \<and> inv (p_sym st')) (\<lambda>n. parse gt a n (unparse k) st)"
proof -
  have "guards_ok True []" "ending True []"
    by (simp_all add: guards_ok_def ending_def)
  then obtain o1 where "renders val True True k o1"
    using total_all [OF assms(1)] assms(3,4) unfolding total_upto_def by blast
  then show ?thesis
    using parse_renders assms by blast
qed

end

end
