(* ===== verification/Ranks.thy ===== *)
theory Ranks
  imports Expansion SymbolProps
begin

text \<open>
  The ranks of the terminals: a terminal with a constant text stands above the terminals that its
  text mentions, so the expansion of the program's own texts ends.
\<close>

definition rank_table :: "(string \<times> nat) list" where
  "rank_table = [
    (''cfg_width'', 1), (''cfg_poly'', 1), (''cfg_poly_shifted'', 2), (''cfg_reflect_in'', 1),
    (''cfg_xor_in'', 1), (''cfg_reflect_out'', 1), (''cfg_xor_out'', 1),
    (''cfg_table_idx_width'', 1), (''cfg_table_width'', 1), (''cfg_mask'', 1),
    (''cfg_mask_shifted'', 2), (''cfg_msb_mask'', 1), (''cfg_msb_mask_shifted'', 2),
    (''cfg_shift'', 1), (''c_bool'', 1), (''c_true'', 1), (''c_false'', 1),
    (''crc_final_value'', 2), (''h_template'', 3), (''source_header'', 1),
    (''crc_reflect_function_def'', 1), (''crc_reflect_function_body'', 2),
    (''crc_table_gen_doc'', 1), (''crc_table_gen_function_def'', 1), (''crc_init_doc'', 1),
    (''crc_init_function_def'', 1), (''crc_update_doc'', 1), (''crc_update_function_def'', 1),
    (''crc_finalize_doc'', 1), (''crc_finalize_function_def'', 1), (''c_template'', 5),
    (''c_table'', 1), (''c_bit_by_bit'', 3), (''c_bit_by_bit_fast'', 3), (''c_table_driven'', 4),
    (''main_template'', 3), (''getopt_template'', 2), (''crc_table_core_algorithm_ni'', 3),
    (''crc_table_core_algorithm_ri'', 3)]"

definition name_rank :: "string \<Rightarrow> nat" where
  "name_rank n = (case map_of rank_table n of None \<Rightarrow> 0 | Some r \<Rightarrow> r)"

lemma name_rank_top: "name_rank n < 6"
proof -
  have "list_all (\<lambda>(n, r). r < 6) rank_table"
    by (simp add: rank_table_def)
  then show ?thesis
    by (auto simp: name_rank_def list_all_iff dest: map_of_SomeD split: option.split)
qed

section \<open>Texts of a rank\<close>

definition text_below :: "nat \<Rightarrow> string \<Rightarrow> bool" where
  "text_below r s \<longleftrightarrow> closed_text s \<and> list_all (\<lambda>x. name_rank x < r) (ids s)"

lemma text_below_append: "text_below r s \<Longrightarrow> text_below r t \<Longrightarrow> text_below r (s @ t)"
  by (simp add: text_below_def closed_append ids_append)

lemma text_below_nil: "text_below r []"
  by (simp add: text_below_def)

lemma text_below_char: "c \<noteq> CHR ''$'' \<Longrightarrow> text_below r (c # s) = text_below r s"
  by (cases s) (simp_all add: text_below_def)

lemma text_below_id:
  "match_id (CHR ''$'' # s) = Some m \<Longrightarrow> m \<noteq> CHR ''$'' # s \<Longrightarrow> name_rank (drop 1 m) < r \<Longrightarrow>
   text_below r s \<Longrightarrow> text_below r (CHR ''$'' # s)"
  by (cases s) (auto simp: text_below_def simp del: match_id.simps(1))

lemma text_below_dollar:
  "match_id (CHR ''$'' # s) = None \<Longrightarrow> s \<noteq> [] \<Longrightarrow> text_below r s \<Longrightarrow> text_below r (CHR ''$'' # s)"
  by (cases s) (auto simp: text_below_def simp del: match_id.simps)

fun lines_below :: "nat \<Rightarrow> string list \<Rightarrow> bool" where
  "lines_below r [] = True"
| "lines_below r [l] = text_below r l"
| "lines_below r (l # m # ls) \<longleftrightarrow> text_below r (l @ [CHR 0x0A]) \<and> lines_below r (m # ls)"

lemma text_below_lines: "lines_below r ls \<Longrightarrow> text_below r (nl_join ls)"
proof (induction ls rule: nl_join.induct)
  case (3 l m ls)
  then show ?case
    using text_below_append [of r "l @ [CHR 0x0A]" "nl_join (m # ls)"] by simp
qed (simp_all add: text_below_nil)

lemma text_below_free: "dollar_free s \<Longrightarrow> text_below r s"
  by (simp add: text_below_def dollar_free_text)

section \<open>The ranks of the names in use\<close>

lemma name_ranks_1:
  "name_rank ''c_bit_by_bit'' = 3"
  "name_rank ''c_bit_by_bit_fast'' = 3"
  "name_rank ''c_bool'' = 1"
  "name_rank ''c_false'' = 1"
  "name_rank ''c_std'' = 0"
  "name_rank ''c_table'' = 1"
  "name_rank ''c_table_driven'' = 4"
  "name_rank ''c_template'' = 5"
  "name_rank ''c_true'' = 1"
  "name_rank ''cfg_mask'' = 1"
  "name_rank ''cfg_mask_shifted'' = 2"
  "name_rank ''cfg_msb_mask'' = 1"
  by (simp_all add: name_rank_def rank_table_def)

lemma name_ranks_2:
  "name_rank ''cfg_msb_mask_shifted'' = 2"
  "name_rank ''cfg_poly'' = 1"
  "name_rank ''cfg_poly_shifted'' = 2"
  "name_rank ''cfg_reflect_in'' = 1"
  "name_rank ''cfg_reflect_out'' = 1"
  "name_rank ''cfg_shift'' = 1"
  "name_rank ''cfg_t'' = 0"
  "name_rank ''cfg_table_idx_width'' = 1"
  "name_rank ''cfg_table_width'' = 1"
  "name_rank ''cfg_width'' = 1"
  "name_rank ''cfg_xor_in'' = 1"
  "name_rank ''cfg_xor_out'' = 1"
  by (simp_all add: name_rank_def rank_table_def)

lemma name_ranks_3:
  "name_rank ''constant_crc_init'' = 0"
  "name_rank ''constant_crc_table'' = 0"
  "name_rank ''crc_algorithm'' = 0"
  "name_rank ''crc_do_shift'' = 0"
  "name_rank ''crc_final_value'' = 2"
  "name_rank ''crc_finalize_doc'' = 1"
  "name_rank ''crc_finalize_function'' = 0"
  "name_rank ''crc_finalize_function_def'' = 1"
  "name_rank ''crc_init_doc'' = 1"
  "name_rank ''crc_init_function'' = 0"
  "name_rank ''crc_init_function_def'' = 1"
  "name_rank ''crc_init_value'' = 0"
  by (simp_all add: name_rank_def rank_table_def)

lemma name_ranks_4:
  "name_rank ''crc_mask'' = 0"
  "name_rank ''crc_msb_mask'' = 0"
  "name_rank ''crc_poly'' = 0"
  "name_rank ''crc_reflect_doc'' = 0"
  "name_rank ''crc_reflect_function'' = 0"
  "name_rank ''crc_reflect_function_body'' = 2"
  "name_rank ''crc_reflect_function_def'' = 1"
  "name_rank ''crc_reflect_in'' = 0"
  "name_rank ''crc_reflect_out'' = 0"
  "name_rank ''crc_shift'' = 0"
  "name_rank ''crc_t'' = 0"
  "name_rank ''crc_table_core_algorithm_ni'' = 3"
  by (simp_all add: name_rank_def rank_table_def)

lemma name_ranks_5:
  "name_rank ''crc_table_core_algorithm_ri'' = 3"
  "name_rank ''crc_table_gen_doc'' = 1"
  "name_rank ''crc_table_gen_function'' = 0"
  "name_rank ''crc_table_gen_function_def'' = 1"
  "name_rank ''crc_table_idx_width'' = 0"
  "name_rank ''crc_table_init'' = 0"
  "name_rank ''crc_table_mask'' = 0"
  "name_rank ''crc_table_width'' = 0"
  "name_rank ''crc_update_doc'' = 1"
  "name_rank ''crc_update_function'' = 0"
  "name_rank ''crc_update_function_def'' = 1"
  "name_rank ''crc_width'' = 0"
  by (simp_all add: name_rank_def rank_table_def)

lemma name_ranks_6:
  "name_rank ''crc_xor_in'' = 0"
  "name_rank ''crc_xor_out'' = 0"
  "name_rank ''datetime'' = 0"
  "name_rank ''elif'' = 0"
  "name_rank ''else'' = 0"
  "name_rank ''filename'' = 0"
  "name_rank ''getopt_template'' = 2"
  "name_rank ''h_template'' = 3"
  "name_rank ''header_filename'' = 0"
  "name_rank ''header_protection'' = 0"
  "name_rank ''if'' = 0"
  "name_rank ''include_file'' = 0"
  by (simp_all add: name_rank_def rank_table_def)

lemma name_ranks_7:
  "name_rank ''inline_crc_finalize'' = 0"
  "name_rank ''main_template'' = 3"
  "name_rank ''nop'' = 0"
  "name_rank ''program_url'' = 0"
  "name_rank ''program_version'' = 0"
  "name_rank ''simple_crc_finalize_def'' = 0"
  "name_rank ''simple_crc_update_def'' = 0"
  "name_rank ''source_header'' = 1"
  "name_rank ''static_reflect_func'' = 0"
  "name_rank ''undefined_parameters'' = 0"
  "name_rank ''underlying_crc_t'' = 0"
  "name_rank ''use_cfg_t'' = 0"
  by (simp_all add: name_rank_def rank_table_def)

lemma name_ranks_8:
  "name_rank ''use_reflect_func'' = 0"
  by (simp_all add: name_rank_def rank_table_def)

lemmas name_ranks = name_ranks_1 name_ranks_2 name_ranks_3 name_ranks_4 name_ranks_5 name_ranks_6 name_ranks_7 name_ranks_8

lemmas text_eval = name_ranks text_below_nil text_below_char text_below_id text_below_dollar
  is_alpha_def is_id_char_def is_digit_def

section \<open>The constant texts\<close>

lemma crc_final_value_below: "text_below 2 crc_final_value_text"
  unfolding crc_final_value_text_def by (rule text_below_lines) (simp add: text_eval)

lemma h_template_below: "text_below 3 h_template_text"
  unfolding h_template_text_def by (rule text_below_lines) (simp add: text_eval)

lemma source_header_below: "text_below 1 source_header_text"
  unfolding source_header_text_def by (rule text_below_lines) (simp add: text_eval)

lemma crc_reflect_doc_below: "text_below 0 crc_reflect_doc_text"
  unfolding crc_reflect_doc_text_def by (rule text_below_lines) (simp add: text_eval)

lemma crc_reflect_function_def_below: "text_below 1 crc_reflect_function_def_text"
  unfolding crc_reflect_function_def_text_def by (rule text_below_lines) (simp add: text_eval)

lemma crc_reflect_function_body_below: "text_below 2 crc_reflect_function_body_text"
  unfolding crc_reflect_function_body_text_def by (rule text_below_lines) (simp add: text_eval)

lemma crc_table_gen_doc_below: "text_below 1 crc_table_gen_doc_text"
  unfolding crc_table_gen_doc_text_def by (rule text_below_lines) (simp add: text_eval)

lemma crc_table_gen_function_def_below: "text_below 1 crc_table_gen_function_def_text"
  unfolding crc_table_gen_function_def_text_def by (rule text_below_lines) (simp add: text_eval)

lemma crc_init_doc_below: "text_below 1 crc_init_doc_text"
  unfolding crc_init_doc_text_def by (rule text_below_lines) (simp add: text_eval)

lemma crc_init_function_def_below: "text_below 1 crc_init_function_def_text"
  unfolding crc_init_function_def_text_def by (rule text_below_lines) (simp add: text_eval)

lemma crc_update_doc_below: "text_below 1 crc_update_doc_text"
  unfolding crc_update_doc_text_def by (rule text_below_lines) (simp add: text_eval)

lemma crc_update_function_def_below: "text_below 1 crc_update_function_def_text"
  unfolding crc_update_function_def_text_def by (rule text_below_lines) (simp add: text_eval)

lemma crc_finalize_doc_below: "text_below 1 crc_finalize_doc_text"
  unfolding crc_finalize_doc_text_def by (rule text_below_lines) (simp add: text_eval)

lemma crc_finalize_function_def_below: "text_below 1 crc_finalize_function_def_text"
  unfolding crc_finalize_function_def_text_def by (rule text_below_lines) (simp add: text_eval)

lemma c_template_below: "text_below 5 c_template_text"
  unfolding c_template_text_def by (rule text_below_lines) (simp add: text_eval)

lemma c_table_below: "text_below 1 c_table_text"
  unfolding c_table_text_def by (rule text_below_lines) (simp add: text_eval)

lemma c_bit_by_bit_below: "text_below 3 c_bit_by_bit_text"
  unfolding c_bit_by_bit_text_def by (rule text_below_lines) (simp add: text_eval)

lemma c_bit_by_bit_fast_below: "text_below 3 c_bit_by_bit_fast_text"
  unfolding c_bit_by_bit_fast_text_def by (rule text_below_lines) (simp add: text_eval)

lemma c_table_driven_below: "text_below 4 c_table_driven_text"
  unfolding c_table_driven_text_def by (rule text_below_lines) (simp add: text_eval)

lemma main_template_below: "text_below 3 main_template_text"
  unfolding main_template_text_def by (rule text_below_lines) (simp add: text_eval)

lemma getopt_template_below: "text_below 2 getopt_template_text"
  unfolding getopt_template_text_def by (rule text_below_lines) (simp add: text_eval)

end
