(* ===== verification/TemplateItems.thy ===== *)
theory TemplateItems
  imports MacroTotal Ranks
begin

text \<open>
  The templates of the program in the syntax of theory \<open>Macro\<close>: each constant text is the text of a
  well-formed template that uses the names of the symbol table only and prints only names that have
  a value, \<open>include_file\<close> behind its test.
\<close>

section \<open>The names of the symbol table\<close>

text \<open>Those that the constructor enters, and those that are computed on demand.\<close>

definition table_names :: "string list" where
  "table_names = [
    ''nop'', ''datetime'', ''program_version'', ''program_url'', ''filename'', ''header_filename'',
    ''crc_width'', ''crc_poly'', ''crc_reflect_in'', ''crc_xor_in'', ''crc_reflect_out'',
    ''crc_xor_out'', ''crc_table_idx_width'', ''crc_table_width'', ''crc_table_mask'',
    ''crc_mask'', ''crc_msb_mask'', ''crc_do_shift'', ''crc_shift'', ''cfg_width'', ''cfg_poly'',
    ''cfg_poly_shifted'', ''cfg_reflect_in'', ''cfg_xor_in'', ''cfg_reflect_out'', ''cfg_xor_out'',
    ''cfg_table_idx_width'', ''cfg_table_width'', ''cfg_mask'', ''cfg_mask_shifted'',
    ''cfg_msb_mask'', ''cfg_msb_mask_shifted'', ''cfg_shift'', ''undefined_parameters'',
    ''use_cfg_t'', ''c_std'', ''c_bool'', ''c_true'', ''c_false'', ''underlying_crc_t'',
    ''include_file'', ''crc_prefix'', ''crc_t'', ''cfg_t'', ''crc_reflect_function'',
    ''crc_table_gen_function'', ''crc_init_function'', ''crc_update_function'',
    ''crc_finalize_function'']"

definition computed_names :: "string list" where
  "computed_names = [
    ''constant_crc_init'', ''constant_crc_table'', ''simple_crc_update_def'',
    ''inline_crc_finalize'', ''simple_crc_finalize_def'', ''use_reflect_func'',
    ''static_reflect_func'', ''crc_algorithm'', ''crc_table_init'',
    ''crc_table_core_algorithm_ni'', ''crc_table_core_algorithm_ri'', ''header_protection'',
    ''crc_init_value'', ''crc_final_value'', ''h_template'', ''source_header'',
    ''crc_reflect_doc'', ''crc_reflect_function_def'', ''crc_reflect_function_body'',
    ''crc_table_gen_doc'', ''crc_table_gen_function_def'', ''crc_init_doc'',
    ''crc_init_function_def'', ''crc_update_doc'', ''crc_update_function_def'',
    ''crc_finalize_doc'', ''crc_finalize_function_def'', ''c_template'', ''c_table'',
    ''c_bit_by_bit'', ''c_bit_by_bit_fast'', ''c_table_driven'', ''main_template'',
    ''getopt_template'']"

definition symbol_names :: "string list" where
  "symbol_names = table_names @ computed_names"

definition known_name :: "string \<Rightarrow> bool" where
  "known_name n \<longleftrightarrow> n \<in> set symbol_names"

text \<open>The two names that may stand for nothing.\<close>

definition valued_name :: "string \<Rightarrow> bool" where
  "valued_name n \<longleftrightarrow> known_name n \<and> n \<noteq> ''include_file'' \<and> n \<noteq> ''c_std''"

definition template_text :: "string \<Rightarrow> bool" where
  "template_text v \<longleftrightarrow> (\<exists>is. v = unparse is \<and> items_ok is \<and> items_safe known_name valued_name [] is)"

lemma template_textI:
  "items_ok is \<Longrightarrow> items_safe known_name valued_name [] is \<Longrightarrow> unparse is = v \<Longrightarrow> template_text v"
  by (auto simp: template_text_def)

section \<open>Evaluation\<close>

abbreviation nl :: string where
  "nl \<equiv> [CHR 0x0A]"

lemma no_id_char_unparse:
  "no_id_char (unparse [])" "no_id_char (unparse (Ref n # k))" "no_id_char (unparse (Cond e b el # k))"
  "no_id_char (unparse (Lit (c # t) # k)) \<longleftrightarrow> \<not> is_id_char c"
  by (simp_all add: no_id_char_def is_id_char_def is_alpha_def is_digit_def)


lemma known_names_1:
  "known_name ''nop''"
  "known_name ''datetime''"
  "known_name ''program_version''"
  "known_name ''program_url''"
  "known_name ''filename''"
  "known_name ''header_filename''"
  "known_name ''crc_width''"
  "known_name ''crc_poly''"
  "known_name ''crc_reflect_in''"
  "known_name ''crc_xor_in''"
  "known_name ''crc_reflect_out''"
  "known_name ''crc_xor_out''"
  by (simp_all add: known_name_def symbol_names_def table_names_def computed_names_def)

lemma known_names_2:
  "known_name ''crc_table_idx_width''"
  "known_name ''crc_table_width''"
  "known_name ''crc_table_mask''"
  "known_name ''crc_mask''"
  "known_name ''crc_msb_mask''"
  "known_name ''crc_do_shift''"
  "known_name ''crc_shift''"
  "known_name ''cfg_width''"
  "known_name ''cfg_poly''"
  "known_name ''cfg_poly_shifted''"
  "known_name ''cfg_reflect_in''"
  "known_name ''cfg_xor_in''"
  by (simp_all add: known_name_def symbol_names_def table_names_def computed_names_def)

lemma known_names_3:
  "known_name ''cfg_reflect_out''"
  "known_name ''cfg_xor_out''"
  "known_name ''cfg_table_idx_width''"
  "known_name ''cfg_table_width''"
  "known_name ''cfg_mask''"
  "known_name ''cfg_mask_shifted''"
  "known_name ''cfg_msb_mask''"
  "known_name ''cfg_msb_mask_shifted''"
  "known_name ''cfg_shift''"
  "known_name ''undefined_parameters''"
  "known_name ''use_cfg_t''"
  "known_name ''c_std''"
  by (simp_all add: known_name_def symbol_names_def table_names_def computed_names_def)

lemma known_names_4:
  "known_name ''c_bool''"
  "known_name ''c_true''"
  "known_name ''c_false''"
  "known_name ''underlying_crc_t''"
  "known_name ''include_file''"
  "known_name ''crc_prefix''"
  "known_name ''crc_t''"
  "known_name ''cfg_t''"
  "known_name ''crc_reflect_function''"
  "known_name ''crc_table_gen_function''"
  "known_name ''crc_init_function''"
  "known_name ''crc_update_function''"
  by (simp_all add: known_name_def symbol_names_def table_names_def computed_names_def)

lemma known_names_5:
  "known_name ''crc_finalize_function''"
  "known_name ''constant_crc_init''"
  "known_name ''constant_crc_table''"
  "known_name ''simple_crc_update_def''"
  "known_name ''inline_crc_finalize''"
  "known_name ''simple_crc_finalize_def''"
  "known_name ''use_reflect_func''"
  "known_name ''static_reflect_func''"
  "known_name ''crc_algorithm''"
  "known_name ''crc_table_init''"
  "known_name ''crc_table_core_algorithm_ni''"
  "known_name ''crc_table_core_algorithm_ri''"
  by (simp_all add: known_name_def symbol_names_def table_names_def computed_names_def)

lemma known_names_6:
  "known_name ''header_protection''"
  "known_name ''crc_init_value''"
  "known_name ''crc_final_value''"
  "known_name ''h_template''"
  "known_name ''source_header''"
  "known_name ''crc_reflect_doc''"
  "known_name ''crc_reflect_function_def''"
  "known_name ''crc_reflect_function_body''"
  "known_name ''crc_table_gen_doc''"
  "known_name ''crc_table_gen_function_def''"
  "known_name ''crc_init_doc''"
  "known_name ''crc_init_function_def''"
  by (simp_all add: known_name_def symbol_names_def table_names_def computed_names_def)

lemma known_names_7:
  "known_name ''crc_update_doc''"
  "known_name ''crc_update_function_def''"
  "known_name ''crc_finalize_doc''"
  "known_name ''crc_finalize_function_def''"
  "known_name ''c_template''"
  "known_name ''c_table''"
  "known_name ''c_bit_by_bit''"
  "known_name ''c_bit_by_bit_fast''"
  "known_name ''c_table_driven''"
  "known_name ''main_template''"
  "known_name ''getopt_template''"
  by (simp_all add: known_name_def symbol_names_def table_names_def computed_names_def)

lemmas known_names = known_names_1 known_names_2 known_names_3 known_names_4 known_names_5 known_names_6 known_names_7

lemmas text_of_items = unparse.simps else_text.simps or_text.simps and_text.simps cmp_text.simps
  operand_text.simps nl_join.simps append.simps

lemmas items_eval = no_id_char_unparse known_names valued_name_def keyword_def gap_ok_def is_blank_def cond_ok_def
  is_id_def is_id_char_def is_alpha_def is_digit_def

section \<open>The templates\<close>

definition crc_final_value_items :: "item list" where
  \<open>crc_final_value_items =
    [Cond [[Cmp (Name ''crc_algorithm'') ''=='' (Quoted ''table-driven'')]]
       [Lit nl,
        Cond [[Cmp (Name ''crc_reflect_in'') ''=='' (Name ''crc_reflect_out'')]]
          [Lit nl,
           Cond [[Cmp (Name ''crc_do_shift'') ''=='' (Word ''True'')]]
             [Lit ''(crc >> '', Ref ''cfg_shift'', Lit '')'']
             (Else [Lit ''crc'']), Lit '' ^ '', Ref ''crc_xor_out'']
          (Else [Lit nl, Ref ''crc_reflect_function'', Lit ''('',
                 Cond [[Cmp (Name ''crc_do_shift'') ''=='' (Word ''True'')]]
                   [Lit ''(crc >> '', Ref ''cfg_shift'', Lit '')'']
                   (Else [Lit ''crc'']), Lit '', '', Ref ''crc_width'', Lit '') ^ '',
                 Ref ''crc_xor_out''])]
       (Elif '' '' [[Cmp (Name ''crc_reflect_out'') ''=='' (Word ''True'')]]
         [Lit nl, Ref ''crc_reflect_function'', Lit ''(crc, '', Ref ''crc_width'', Lit '') ^ '',
          Ref ''crc_xor_out'']
         (Else [Lit (nl_join [[], ''crc ^ '']), Ref ''crc_xor_out'']))]\<close>

lemma crc_final_value_template: "template_text crc_final_value_text"
  by (rule template_textI [of crc_final_value_items])
    (simp_all add: crc_final_value_items_def items_eval del: unparse.simps, simp only: crc_final_value_items_def crc_final_value_text_def text_of_items)

definition h_template_items :: "item list" where
  \<open>h_template_items =
    [Ref ''source_header'', Lit (nl_join [[], ''#ifndef '']), Ref ''header_protection'',
     Lit (nl_join [[], ''#define '']), Ref ''header_protection'', Lit (nl_join [[], [], []]),
     Cond [[Cmp (Name ''include_file'') ''!='' (Word ''Undefined'')]]
       [Lit (nl_join [[], ''#include '']), Ref ''include_file'', Lit nl]
       Endif, Lit (nl_join [[], ''#include <stdint.h>'', ''#include <stdlib.h>'', []]),
     Cond [[Cmp (Name ''undefined_parameters'') ''=='' (Word ''True''), Cmp (Name ''c_std'') ''!='' (Word ''C89'')]]
       [Lit (nl_join [[], ''#include <stdbool.h>'', []])]
       Endif,
     Lit (nl_join [[], [], ''#ifdef __cplusplus'', ''extern "C" {'', ''#endif'', [], [], ''/**'',
                   '' * The definition of the used algorithm.'',
                   '' *****************************************************************************/'',
                   []]),
     Cond [[Cmp (Name ''crc_algorithm'') ''=='' (Quoted ''bit-by-bit'')]]
       [Lit (nl_join [[], ''#define CRC_ALGO_BIT_BY_BIT 1'', []])]
       (Elif '' '' [[Cmp (Name ''crc_algorithm'') ''=='' (Quoted ''bit-by-bit-fast'')]]
         [Lit (nl_join [[], ''#define CRC_ALGO_BIT_BY_BIT_FAST 1'', []])]
         (Elif '' '' [[Cmp (Name ''crc_algorithm'') ''=='' (Quoted ''table-driven'')]]
           [Lit (nl_join [[], ''#define CRC_ALGO_TABLE_DRIVEN 1'', []])]
           Endif)),
     Lit (nl_join [[], [], [], ''/**'', '' * The type of the CRC values.'', '' *'',
                   '' * This type must be big enough to contain at least '']), Ref ''cfg_width'',
     Lit (nl_join ['' bits.'',
                   '' *****************************************************************************/'',
                   ''typedef '']), Ref ''underlying_crc_t'', Lit '' '', Ref ''crc_t'',
     Lit (nl_join ['';'', [], [], []]),
     Cond [[Cmp (Name ''undefined_parameters'') ''=='' (Word ''True'')]]
       [Lit (nl_join [[], ''/**'', '' * The configuration type of the CRC algorithm.'',
                      '' *****************************************************************************/'',
                      ''typedef struct {'', []]),
        Cond [[Cmp (Name ''crc_width'') ''=='' (Word ''Undefined'')]]
          [Lit (nl_join [[], ''    unsigned int width;     /*!< The width of the polynomial */'',
                         []])]
          Endif, Lit nl,
        Cond [[Cmp (Name ''crc_poly'') ''=='' (Word ''Undefined'')]]
          [Lit (nl_join [[], ''    '']), Ref ''crc_t'',
           Lit (nl_join ['' poly;             /*!< The CRC polynomial */'', []])]
          Endif, Lit nl,
        Cond [[Cmp (Name ''crc_reflect_in'') ''=='' (Word ''Undefined'')]]
          [Lit (nl_join [[], ''    '']), Ref ''c_bool'',
           Lit (nl_join ['' reflect_in;         /*!< Whether the input shall be reflected or not */'',
                         []])]
          Endif, Lit nl,
        Cond [[Cmp (Name ''crc_xor_in'') ''=='' (Word ''Undefined'')]]
          [Lit (nl_join [[], ''    '']), Ref ''crc_t'',
           Lit (nl_join ['' xor_in;           /*!< The initial value of the algorithm */'', []])]
          Endif, Lit nl,
        Cond [[Cmp (Name ''crc_reflect_out'') ''=='' (Word ''Undefined'')]]
          [Lit (nl_join [[], ''    '']), Ref ''c_bool'',
           Lit (nl_join ['' reflect_out;        /*!< Wether the output shall be reflected or not */'',
                         []])]
          Endif, Lit nl,
        Cond [[Cmp (Name ''crc_xor_out'') ''=='' (Word ''Undefined'')]]
          [Lit (nl_join [[], ''    '']), Ref ''crc_t'',
           Lit (nl_join ['' xor_out;          /*!< The value which shall be XOR-ed to the final CRC value */'',
                         []])]
          Endif, Lit nl,
        Cond [[Cmp (Name ''crc_width'') ''=='' (Word ''Undefined'')]]
          [Lit (nl_join [[], [], ''    /* internal parameters */'', ''    '']), Ref ''crc_t'',
           Lit (nl_join ['' msb_mask;             /*!< a bitmask with the Most Significant Bit set to 1'',
                         ''                                     initialise as 1UL << (width - 1) */'',
                         ''    '']), Ref ''crc_t'',
           Lit (nl_join ['' crc_mask;             /*!< a bitmask with all width bits set to 1'',
                         ''                                     initialise as (cfg->msb_mask - 1) | cfg->msb_mask */'',
                         ''    unsigned int crc_shift;     /*!< a shift count that is used when width < 8'',
                         ''                                     initialise as cfg->width < 8 ? 8 - cfg->width : 0 */'',
                         []])]
          Endif, Lit (nl_join [[], ''} '']), Ref ''cfg_t'', Lit (nl_join ['';'', [], [], []])]
       Endif, Lit nl,
     Cond [[Cmp (Name ''use_reflect_func'') ''=='' (Word ''True''), Cmp (Name ''static_reflect_func'') ''!='' (Word ''True'')]]
       [Lit nl, Ref ''crc_reflect_doc'', Lit nl, Ref ''crc_reflect_function_def'',
        Lit (nl_join ['';'', [], [], []])]
       Endif, Lit nl,
     Cond [[Cmp (Name ''crc_algorithm'') ''=='' (Quoted ''table-driven''), Cmp (Name ''constant_crc_table'') ''!='' (Word ''True'')]]
       [Lit nl, Ref ''crc_table_gen_doc'', Lit nl, Ref ''crc_table_gen_function_def'',
        Lit (nl_join ['';'', [], [], []])]
       Endif, Lit nl, Ref ''crc_init_doc'', Lit nl,
     Cond [[Cmp (Name ''constant_crc_init'') ''=='' (Word ''False'')]]
       [Lit nl, Ref ''crc_init_function_def'', Lit (nl_join ['';'', []])]
       (Elif '' '' [[Cmp (Name ''c_std'') ''=='' (Word ''C89'')]]
         [Lit (nl_join [[], ''#define '']), Ref ''crc_init_function'', Lit ''()      ('',
          Ref ''crc_init_value'',
          Cond [[Cmp (Name ''crc_do_shift'') ''=='' (Word ''True'')]]
            [Lit '' << '', Ref ''cfg_shift'']
            Endif, Lit (nl_join ['')'', []])]
         (Else [Lit (nl_join [[], ''static inline '']), Ref ''crc_init_function_def'', Ref ''nop'',
                Lit (nl_join [[], ''{'', ''    return '']), Ref ''crc_init_value'',
                Cond [[Cmp (Name ''crc_do_shift'') ''=='' (Word ''True'')]]
                  [Lit '' << '', Ref ''cfg_shift'']
                  Endif, Lit (nl_join ['';'', ''}'', []])])), Lit (nl_join [[], [], [], []]),
     Ref ''crc_update_doc'', Lit nl, Ref ''crc_update_function_def'',
     Lit (nl_join ['';'', [], [], []]), Ref ''crc_finalize_doc'', Lit nl,
     Cond [[Cmp (Name ''inline_crc_finalize'') ''=='' (Word ''True'')]]
       [Lit nl,
        Cond [[Cmp (Name ''c_std'') ''=='' (Word ''C89'')]]
          [Lit (nl_join [[], ''#define '']), Ref ''crc_finalize_function'', Lit ''(crc)      ('',
           Ref ''crc_final_value'', Lit (nl_join ['')'', []])]
          (Else [Lit (nl_join [[], ''static inline '']), Ref ''crc_finalize_function_def'',
                 Ref ''nop'', Lit (nl_join [[], ''{'', ''    return '']), Ref ''crc_final_value'',
                 Lit (nl_join ['';'', ''}'', []])]), Lit nl]
       (Else [Lit nl, Ref ''crc_finalize_function_def'', Lit (nl_join ['';'', []])]),
     Lit (nl_join [[], [], [], ''#ifdef __cplusplus'',
                   ''}           /* closing brace for extern "C" */'', ''#endif'', [],
                   ''#endif      /* '']), Ref ''header_protection'', Lit (nl_join ['' */'', []])]\<close>

lemma h_template_template: "template_text h_template_text"
  by (rule template_textI [of h_template_items])
    (simp_all add: h_template_items_def items_eval del: unparse.simps, simp only: h_template_items_def h_template_text_def text_of_items)

definition source_header_items :: "item list" where
  \<open>source_header_items =
    [Lit (nl_join [''/**'', '' * '' @ [CHR 0x5C] @ ''file '']), Ref ''filename'',
     Lit (nl_join [[], '' * Functions and types for CRC checks.'', '' *'', '' * Generated on '']),
     Ref ''datetime'', Lit (nl_join ['','', '' * by '']), Ref ''program_version'', Lit '', '',
     Ref ''program_url'',
     Lit (nl_join [[], '' * using the configuration:'', '' *    Width        = '']),
     Ref ''crc_width'', Lit (nl_join [[], '' *    Poly         = '']), Ref ''crc_poly'',
     Lit (nl_join [[], '' *    XorIn        = '']), Ref ''crc_xor_in'',
     Lit (nl_join [[], '' *    ReflectIn    = '']), Ref ''crc_reflect_in'',
     Lit (nl_join [[], '' *    XorOut       = '']), Ref ''crc_xor_out'',
     Lit (nl_join [[], '' *    ReflectOut   = '']), Ref ''crc_reflect_out'',
     Lit (nl_join [[], '' *    Algorithm    = '']), Ref ''crc_algorithm'',
     Lit (nl_join [[],
                   '' *****************************************************************************/''])]\<close>

lemma source_header_template: "template_text source_header_text"
  by (rule template_textI [of source_header_items])
    (simp_all add: source_header_items_def items_eval del: unparse.simps, simp only: source_header_items_def source_header_text_def text_of_items)

definition crc_reflect_doc_items :: "item list" where
  \<open>crc_reflect_doc_items =
    [Lit (nl_join [''/**'',
                   '' * Reflect all bits of a '' @ [CHR 0x5C] @ ''a data word of '' @ [CHR 0x5C] @ ''a data_len bytes.'',
                   '' *'',
                   '' * '' @ [CHR 0x5C] @ ''param data         The data word to be reflected.'',
                   '' * '' @ [CHR 0x5C] @ ''param data_len     The width of '' @ [CHR 0x5C] @ ''a data expressed in number of bits.'',
                   '' * '' @ [CHR 0x5C] @ ''return             The reflected data.'',
                   '' *****************************************************************************/''])]\<close>

lemma crc_reflect_doc_template: "template_text crc_reflect_doc_text"
  by (rule template_textI [of crc_reflect_doc_items])
    (simp_all add: crc_reflect_doc_items_def items_eval del: unparse.simps, simp only: crc_reflect_doc_items_def crc_reflect_doc_text_def text_of_items)

definition crc_reflect_function_def_items :: "item list" where
  \<open>crc_reflect_function_def_items =
    [Ref ''crc_t'', Lit '' '', Ref ''crc_reflect_function'', Lit ''('', Ref ''crc_t'',
     Lit '' data, size_t data_len)'']\<close>

lemma crc_reflect_function_def_template: "template_text crc_reflect_function_def_text"
  by (rule template_textI [of crc_reflect_function_def_items])
    (simp_all add: crc_reflect_function_def_items_def items_eval del: unparse.simps, simp only: crc_reflect_function_def_items_def crc_reflect_function_def_text_def text_of_items)

definition crc_reflect_function_body_items :: "item list" where
  \<open>crc_reflect_function_body_items =
    [Cond [[Cmp (Name ''crc_reflect_in'') ''=='' (Word ''Undefined'')], [Cmp (Name ''crc_reflect_in'') ''=='' (Word ''True'')], [Cmp (Name ''crc_reflect_out'') ''=='' (Word ''Undefined'')], [Cmp (Name ''crc_reflect_out'') ''=='' (Word ''True'')]]
       [Lit nl, Ref ''crc_reflect_doc'', Lit nl, Ref ''crc_reflect_function_def'', Ref ''nop'',
        Lit (nl_join [[], ''{'', ''    unsigned int i;'', ''    '']), Ref ''crc_t'',
        Lit (nl_join ['' ret;'', [], ''    ret = data & 0x01;'',
                      ''    for (i = 1; i < data_len; i++) {'', ''        data >>= 1;'',
                      ''        ret = (ret << 1) | (data & 0x01);'', ''    }'', ''    return ret;'',
                      ''}'', []])]
       Endif]\<close>

lemma crc_reflect_function_body_template: "template_text crc_reflect_function_body_text"
  by (rule template_textI [of crc_reflect_function_body_items])
    (simp_all add: crc_reflect_function_body_items_def items_eval del: unparse.simps, simp only: crc_reflect_function_body_items_def crc_reflect_function_body_text_def text_of_items)

definition crc_table_gen_doc_items :: "item list" where
  \<open>crc_table_gen_doc_items =
    [Lit (nl_join [''/**'', '' * Populate the private static crc table.'', '' *'',
                   '' * '' @ [CHR 0x5C] @ ''param cfg  A pointer to a initialised '']),
     Ref ''cfg_t'',
     Lit (nl_join ['' structure.'', '' * '' @ [CHR 0x5C] @ ''return     void'',
                   '' *****************************************************************************/''])]\<close>

lemma crc_table_gen_doc_template: "template_text crc_table_gen_doc_text"
  by (rule template_textI [of crc_table_gen_doc_items])
    (simp_all add: crc_table_gen_doc_items_def items_eval del: unparse.simps, simp only: crc_table_gen_doc_items_def crc_table_gen_doc_text_def text_of_items)

definition crc_table_gen_function_def_items :: "item list" where
  \<open>crc_table_gen_function_def_items =
    [Lit ''void '', Ref ''crc_table_gen_function'', Lit ''(const '', Ref ''cfg_t'', Lit '' *cfg)'']\<close>

lemma crc_table_gen_function_def_template: "template_text crc_table_gen_function_def_text"
  by (rule template_textI [of crc_table_gen_function_def_items])
    (simp_all add: crc_table_gen_function_def_items_def items_eval del: unparse.simps, simp only: crc_table_gen_function_def_items_def crc_table_gen_function_def_text_def text_of_items)

definition crc_init_doc_items :: "item list" where
  \<open>crc_init_doc_items =
    [Lit (nl_join [''/**'', '' * Calculate the initial crc value.'', '' *'', []]),
     Cond [[Cmp (Name ''use_cfg_t'') ''=='' (Word ''True'')]]
       [Lit (nl_join [[], '' * '' @ [CHR 0x5C] @ ''param cfg  A pointer to a initialised '']),
        Ref ''cfg_t'', Lit (nl_join ['' structure.'', []])]
       Endif,
     Lit (nl_join [[], '' * '' @ [CHR 0x5C] @ ''return     The initial crc value.'',
                   '' *****************************************************************************/''])]\<close>

lemma crc_init_doc_template: "template_text crc_init_doc_text"
  by (rule template_textI [of crc_init_doc_items])
    (simp_all add: crc_init_doc_items_def items_eval del: unparse.simps, simp only: crc_init_doc_items_def crc_init_doc_text_def text_of_items)

definition crc_init_function_def_items :: "item list" where
  \<open>crc_init_function_def_items =
    [Cond [[Cmp (Name ''constant_crc_init'') ''=='' (Word ''False'')]]
       [Lit nl, Ref ''crc_t'', Lit '' '', Ref ''crc_init_function'', Lit ''(const '', Ref ''cfg_t'',
        Lit '' *cfg)'']
       (Else [Lit nl, Ref ''crc_t'', Lit '' '', Ref ''crc_init_function'', Lit ''(void)''])]\<close>

lemma crc_init_function_def_template: "template_text crc_init_function_def_text"
  by (rule template_textI [of crc_init_function_def_items])
    (simp_all add: crc_init_function_def_items_def items_eval del: unparse.simps, simp only: crc_init_function_def_items_def crc_init_function_def_text_def text_of_items)

definition crc_update_doc_items :: "item list" where
  \<open>crc_update_doc_items =
    [Lit (nl_join [''/**'', '' * Update the crc value with new data.'', '' *'',
                   '' * '' @ [CHR 0x5C] @ ''param crc      The current crc value.'', []]),
     Cond [[Cmp (Name ''simple_crc_update_def'') ''!='' (Word ''True'')]]
       [Lit (nl_join [[], '' * '' @ [CHR 0x5C] @ ''param cfg      A pointer to a initialised '']),
        Ref ''cfg_t'', Lit (nl_join ['' structure.'', []])]
       Endif,
     Lit (nl_join [[],
                   '' * '' @ [CHR 0x5C] @ ''param data     Pointer to a buffer of '' @ [CHR 0x5C] @ ''a data_len bytes.'',
                   '' * '' @ [CHR 0x5C] @ ''param data_len Number of bytes in the '' @ [CHR 0x5C] @ ''a data buffer.'',
                   '' * '' @ [CHR 0x5C] @ ''return         The updated crc value.'',
                   '' *****************************************************************************/''])]\<close>

lemma crc_update_doc_template: "template_text crc_update_doc_text"
  by (rule template_textI [of crc_update_doc_items])
    (simp_all add: crc_update_doc_items_def items_eval del: unparse.simps, simp only: crc_update_doc_items_def crc_update_doc_text_def text_of_items)

definition crc_update_function_def_items :: "item list" where
  \<open>crc_update_function_def_items =
    [Cond [[Cmp (Name ''simple_crc_update_def'') ''!='' (Word ''True'')]]
       [Lit nl, Ref ''crc_t'', Lit '' '', Ref ''crc_update_function'', Lit ''(const '',
        Ref ''cfg_t'', Lit '' *cfg, '', Ref ''crc_t'',
        Lit '' crc, const unsigned char *data, size_t data_len)'']
       (Else [Lit nl, Ref ''crc_t'', Lit '' '', Ref ''crc_update_function'', Lit ''('',
              Ref ''crc_t'', Lit '' crc, const unsigned char *data, size_t data_len)''])]\<close>

lemma crc_update_function_def_template: "template_text crc_update_function_def_text"
  by (rule template_textI [of crc_update_function_def_items])
    (simp_all add: crc_update_function_def_items_def items_eval del: unparse.simps, simp only: crc_update_function_def_items_def crc_update_function_def_text_def text_of_items)

definition crc_finalize_doc_items :: "item list" where
  \<open>crc_finalize_doc_items =
    [Lit (nl_join [''/**'', '' * Calculate the final crc value.'', '' *'', []]),
     Cond [[Cmp (Name ''simple_crc_finalize_def'') ''!='' (Word ''True'')]]
       [Lit (nl_join [[], '' * '' @ [CHR 0x5C] @ ''param cfg  A pointer to a initialised '']),
        Ref ''cfg_t'', Lit (nl_join ['' structure.'', []])]
       Endif,
     Lit (nl_join [[], '' * '' @ [CHR 0x5C] @ ''param crc  The current crc value.'',
                   '' * '' @ [CHR 0x5C] @ ''return     The final crc value.'',
                   '' *****************************************************************************/''])]\<close>

lemma crc_finalize_doc_template: "template_text crc_finalize_doc_text"
  by (rule template_textI [of crc_finalize_doc_items])
    (simp_all add: crc_finalize_doc_items_def items_eval del: unparse.simps, simp only: crc_finalize_doc_items_def crc_finalize_doc_text_def text_of_items)

definition crc_finalize_function_def_items :: "item list" where
  \<open>crc_finalize_function_def_items =
    [Cond [[Cmp (Name ''simple_crc_finalize_def'') ''!='' (Word ''True'')]]
       [Lit nl, Ref ''crc_t'', Lit '' '', Ref ''crc_finalize_function'', Lit ''(const '',
        Ref ''cfg_t'', Lit '' *cfg, '', Ref ''crc_t'', Lit '' crc)'']
       (Else [Lit nl, Ref ''crc_t'', Lit '' '', Ref ''crc_finalize_function'', Lit ''('',
              Ref ''crc_t'', Lit '' crc)''])]\<close>

lemma crc_finalize_function_def_template: "template_text crc_finalize_function_def_text"
  by (rule template_textI [of crc_finalize_function_def_items])
    (simp_all add: crc_finalize_function_def_items_def items_eval del: unparse.simps, simp only: crc_finalize_function_def_items_def crc_finalize_function_def_text_def text_of_items)

definition c_template_items :: "item list" where
  \<open>c_template_items =
    [Ref ''source_header'', Lit nl,
     Cond [[Cmp (Name ''include_file'') ''!='' (Word ''Undefined'')]]
       [Lit (nl_join [[], ''#include '']), Ref ''include_file'', Lit nl]
       Endif, Lit (nl_join [[], ''#include "'']), Ref ''header_filename'',
     Lit (nl_join [''"'', ''#include <stdint.h>'', ''#include <stdlib.h>'', []]),
     Cond [[Cmp (Name ''undefined_parameters'') ''=='' (Word ''True'')], [Cmp (Name ''crc_algorithm'') ''=='' (Quoted ''bit-by-bit'')], [Cmp (Name ''crc_algorithm'') ''=='' (Quoted ''bit-by-bit-fast'')]]
       [Lit nl,
        Cond [[Cmp (Name ''c_std'') ''!='' (Word ''C89'')]]
          [Lit (nl_join [[], ''#include <stdbool.h>'', []])]
          Endif, Lit nl]
       Endif, Lit (nl_join [[], [], []]),
     Cond [[Cmp (Name ''use_reflect_func'') ''=='' (Word ''True''), Cmp (Name ''static_reflect_func'') ''=='' (Word ''True'')]]
       [Lit (nl_join [[], ''static '']), Ref ''crc_reflect_function_def'',
        Lit (nl_join ['';'', [], []])]
       Endif, Lit nl,
     Cond [[Cmp (Name ''crc_algorithm'') ''=='' (Quoted ''bit-by-bit'')]]
       [Lit nl, Ref ''c_bit_by_bit'', Lit nl]
       (Elif '' '' [[Cmp (Name ''crc_algorithm'') ''=='' (Quoted ''bit-by-bit-fast'')]]
         [Lit nl, Ref ''c_bit_by_bit_fast'', Lit nl]
         (Elif '' '' [[Cmp (Name ''crc_algorithm'') ''=='' (Quoted ''table-driven'')]]
           [Lit nl, Ref ''c_table_driven'', Lit nl]
           Endif)), Lit nl]\<close>

lemma c_template_template: "template_text c_template_text"
  by (rule template_textI [of c_template_items])
    (simp_all add: c_template_items_def items_eval del: unparse.simps, simp only: c_template_items_def c_template_text_def text_of_items)

definition c_table_items :: "item list" where
  \<open>c_table_items =
    [Lit (nl_join [''/**'', '' * Static table used for the table_driven implementation.'', []]),
     Cond [[Cmp (Name ''undefined_parameters'') ''=='' (Word ''True'')]]
       [Lit (nl_join [[], '' * Must be initialised with the '']), Ref ''crc_init_function'',
        Lit (nl_join ['' function.'', []])]
       Endif,
     Lit (nl_join [[],
                   '' *****************************************************************************/'',
                   []]),
     Cond [[Cmp (Name ''constant_crc_table'') ''!='' (Word ''True'')]]
       [Lit (nl_join [[], ''static '']), Ref ''crc_t'', Lit '' crc_table['',
        Ref ''crc_table_width'', Lit (nl_join [''];'', []])]
       (Else [Lit (nl_join [[], ''static const '']), Ref ''crc_t'', Lit '' crc_table['',
              Ref ''crc_table_width'', Lit (nl_join [''] = {'', []]), Ref ''crc_table_init'',
              Lit (nl_join [[], ''};'', []])]), Lit nl]\<close>

lemma c_table_template: "template_text c_table_text"
  by (rule template_textI [of c_table_items])
    (simp_all add: c_table_items_def items_eval del: unparse.simps, simp only: c_table_items_def c_table_text_def text_of_items)

definition c_bit_by_bit_items :: "item list" where
  \<open>c_bit_by_bit_items =
    [Cond [[Cmp (Name ''use_reflect_func'') ''=='' (Word ''True'')]]
       [Lit nl, Ref ''crc_reflect_function_body'', Lit (nl_join [[], [], []])]
       Endif, Lit nl,
     Cond [[Cmp (Name ''constant_crc_init'') ''=='' (Word ''False'')]]
       [Lit nl, Ref ''crc_init_doc'', Lit nl, Ref ''crc_init_function_def'', Ref ''nop'',
        Lit (nl_join [[], ''{'', ''    unsigned int i;'', ''    '']), Ref ''c_bool'',
        Lit (nl_join ['' bit;'', ''    '']), Ref ''crc_t'', Lit '' crc = '', Ref ''cfg_xor_in'',
        Lit (nl_join ['';'', ''    for (i = 0; i < '']), Ref ''cfg_width'',
        Lit (nl_join [''; i++) {'', ''        bit = crc & 0x01;'', ''        if (bit) {'',
                      ''            crc = ((crc ^ '']), Ref ''cfg_poly'', Lit '') >> 1) | '',
        Ref ''cfg_msb_mask'',
        Lit (nl_join ['';'', ''        } else {'', ''            crc >>= 1;'', ''        }'',
                      ''    }'', ''    return crc & '']), Ref ''cfg_mask'',
        Lit (nl_join ['';'', ''}'', []])]
       Endif, Lit (nl_join [[], [], []]), Ref ''crc_update_doc'', Lit nl,
     Ref ''crc_update_function_def'', Ref ''nop'',
     Lit (nl_join [[], ''{'', ''    unsigned int i;'', ''    '']), Ref ''c_bool'',
     Lit (nl_join ['' bit;'', ''    unsigned char c;'', [], ''    while (data_len--) {'', []]),
     Cond [[Cmp (Name ''crc_reflect_in'') ''=='' (Word ''Undefined'')]]
       [Lit (nl_join [[], ''        if ('']), Ref ''cfg_reflect_in'',
        Lit (nl_join ['') {'', ''            c = '']), Ref ''crc_reflect_function'',
        Lit (nl_join [''(*data++, 8);'', ''        } else {'', ''            c = *data++;'',
                      ''        }'', []])]
       (Elif '' '' [[Cmp (Name ''crc_reflect_in'') ''=='' (Word ''True'')]]
         [Lit (nl_join [[], ''        c = '']), Ref ''crc_reflect_function'',
          Lit (nl_join [''(*data++, 8);'', []])]
         (Else [Lit (nl_join [[], ''        c = *data++;'', []])])),
     Lit (nl_join [[], ''        for (i = 0; i < 8; i++) {'', ''            bit = crc & '']),
     Ref ''cfg_msb_mask'',
     Lit (nl_join ['';'', ''            crc = (crc << 1) | ((c >> (7 - i)) & 0x01);'',
                   ''            if (bit) {'', ''                crc ^= '']), Ref ''cfg_poly'',
     Lit (nl_join ['';'', ''            }'', ''        }'', ''        crc &= '']), Ref ''cfg_mask'',
     Lit (nl_join ['';'', ''    }'', ''    return crc & '']), Ref ''cfg_mask'',
     Lit (nl_join ['';'', ''}'', [], [], []]), Ref ''crc_finalize_doc'', Lit nl,
     Ref ''crc_finalize_function_def'', Ref ''nop'',
     Lit (nl_join [[], ''{'', ''    unsigned int i;'', ''    '']), Ref ''c_bool'',
     Lit (nl_join ['' bit;'', [], ''    for (i = 0; i < '']), Ref ''cfg_width'',
     Lit (nl_join [''; i++) {'', ''        bit = crc & '']), Ref ''cfg_msb_mask'',
     Lit (nl_join ['';'', ''        crc = (crc << 1) | 0x00;'', ''        if (bit) {'',
                   ''            crc ^= '']), Ref ''cfg_poly'',
     Lit (nl_join ['';'', ''        }'', ''    }'', []]),
     Cond [[Cmp (Name ''crc_reflect_out'') ''=='' (Word ''Undefined'')]]
       [Lit (nl_join [[], ''    if ('']), Ref ''cfg_reflect_out'',
        Lit (nl_join ['') {'', ''        crc = '']), Ref ''crc_reflect_function'', Lit ''(crc, '',
        Ref ''cfg_width'', Lit (nl_join ['');'', ''    }'', []])]
       (Elif '' '' [[Cmp (Name ''crc_reflect_out'') ''=='' (Word ''True'')]]
         [Lit (nl_join [[], ''    crc = '']), Ref ''crc_reflect_function'', Lit ''(crc, '',
          Ref ''cfg_width'', Lit (nl_join ['');'', []])]
         Endif), Lit (nl_join [[], ''    return (crc ^ '']), Ref ''cfg_xor_out'', Lit '') & '',
     Ref ''cfg_mask'', Lit (nl_join ['';'', ''}'', []])]\<close>

lemma c_bit_by_bit_template: "template_text c_bit_by_bit_text"
  by (rule template_textI [of c_bit_by_bit_items])
    (simp_all add: c_bit_by_bit_items_def items_eval del: unparse.simps, simp only: c_bit_by_bit_items_def c_bit_by_bit_text_def text_of_items)

definition c_bit_by_bit_fast_items :: "item list" where
  \<open>c_bit_by_bit_fast_items =
    [Cond [[Cmp (Name ''use_reflect_func'') ''=='' (Word ''True'')]]
       [Lit nl, Ref ''crc_reflect_function_body'', Lit (nl_join [[], [], []])]
       Endif, Lit nl,
     Cond [[Cmp (Name ''constant_crc_init'') ''=='' (Word ''False'')]]
       [Lit nl, Ref ''crc_init_doc'', Lit nl, Ref ''crc_init_function_def'', Ref ''nop'',
        Lit (nl_join [[], ''{'', ''    return '']), Ref ''cfg_xor_in'', Lit '' & '',
        Ref ''cfg_mask'', Lit (nl_join ['';'', ''}'', []])]
       Endif, Lit (nl_join [[], [], []]), Ref ''crc_update_doc'', Lit nl,
     Ref ''crc_update_function_def'', Ref ''nop'',
     Lit (nl_join [[], ''{'', ''    unsigned int i;'', ''    '']), Ref ''c_bool'',
     Lit (nl_join ['' bit;'', ''    unsigned char c;'', [], ''    while (data_len--) {'', []]),
     Cond [[Cmp (Name ''crc_reflect_in'') ''=='' (Word ''Undefined'')]]
       [Lit (nl_join [[], ''        if ('']), Ref ''cfg_reflect_in'',
        Lit (nl_join ['') {'', ''            c = '']), Ref ''crc_reflect_function'',
        Lit (nl_join [''(*data++, 8);'', ''        } else {'', ''            c = *data++;'',
                      ''        }'', []])]
       (Else [Lit (nl_join [[], ''        c = *data++;'', []])]), Lit nl,
     Cond [[Cmp (Name ''crc_reflect_in'') ''=='' (Word ''True'')]]
       [Lit (nl_join [[], ''        for (i = 0x01; i & 0xff; i <<= 1) {'', []])]
       (Else [Lit (nl_join [[], ''        for (i = 0x80; i > 0; i >>= 1) {'', []])]),
     Lit (nl_join [[], ''            bit = crc & '']), Ref ''cfg_msb_mask'',
     Lit (nl_join ['';'', ''            if (c & i) {'', ''                bit = !bit;'',
                   ''            }'', ''            crc <<= 1;'', ''            if (bit) {'',
                   ''                crc ^= '']), Ref ''cfg_poly'',
     Lit (nl_join ['';'', ''            }'', ''        }'', ''        crc &= '']), Ref ''cfg_mask'',
     Lit (nl_join ['';'', ''    }'', ''    return crc & '']), Ref ''cfg_mask'',
     Lit (nl_join ['';'', ''}'', [], []]),
     Cond [[Cmp (Name ''inline_crc_finalize'') ''!='' (Word ''True'')]]
       [Lit nl, Ref ''crc_finalize_doc'', Lit nl, Ref ''crc_finalize_function_def'', Ref ''nop'',
        Lit (nl_join [[], ''{'', []]),
        Cond [[Cmp (Name ''crc_reflect_out'') ''=='' (Word ''Undefined'')]]
          [Lit (nl_join [[], ''    if (cfg->reflect_out) {'', ''        crc = '']),
           Ref ''crc_reflect_function'', Lit ''(crc, '', Ref ''cfg_width'',
           Lit (nl_join ['');'', ''    }'', []])]
          (Elif '' '' [[Cmp (Name ''crc_reflect_out'') ''=='' (Word ''True'')]]
            [Lit (nl_join [[], ''    crc = '']), Ref ''crc_reflect_function'', Lit ''(crc, '',
             Ref ''cfg_width'', Lit (nl_join ['');'', []])]
            Endif), Lit (nl_join [[], ''    return (crc ^ '']), Ref ''cfg_xor_out'', Lit '') & '',
        Ref ''cfg_mask'', Lit (nl_join ['';'', ''}'', [], []])]
       Endif, Lit nl]\<close>

lemma c_bit_by_bit_fast_template: "template_text c_bit_by_bit_fast_text"
  by (rule template_textI [of c_bit_by_bit_fast_items])
    (simp_all add: c_bit_by_bit_fast_items_def items_eval del: unparse.simps, simp only: c_bit_by_bit_fast_items_def c_bit_by_bit_fast_text_def text_of_items)

definition c_table_driven_items :: "item list" where
  \<open>c_table_driven_items =
    [Ref ''c_table'', Lit nl,
     Cond [[Cmp (Name ''use_reflect_func'') ''=='' (Word ''True'')]]
       [Lit nl, Ref ''crc_reflect_function_body'', Lit nl]
       Endif, Lit (nl_join [[], [], []]),
     Cond [[Cmp (Name ''constant_crc_init'') ''=='' (Word ''False'')]]
       [Lit nl, Ref ''crc_init_doc'', Lit nl, Ref ''crc_init_function_def'', Ref ''nop'',
        Lit (nl_join [[], ''{'', []]),
        Cond [[Cmp (Name ''crc_reflect_in'') ''=='' (Word ''Undefined'')]]
          [Lit (nl_join [[], ''    if ('']), Ref ''cfg_reflect_in'',
           Lit (nl_join ['') {'', ''        return '']), Ref ''crc_reflect_function'', Lit ''('',
           Ref ''cfg_xor_in'', Lit '' & '', Ref ''cfg_mask'', Lit '', '', Ref ''cfg_width'',
           Lit '')'',
           Cond [[Cmp (Name ''crc_do_shift'') ''=='' (Word ''True'')]]
             [Lit '' << '', Ref ''cfg_shift'']
             Endif, Lit (nl_join ['';'', ''    } else {'', ''        return '']),
           Ref ''cfg_xor_in'', Lit '' & '', Ref ''cfg_mask'',
           Cond [[Cmp (Name ''crc_do_shift'') ''=='' (Word ''True'')]]
             [Lit '' << '', Ref ''cfg_shift'']
             Endif, Lit (nl_join ['';'', ''    }'', []])]
          (Elif '' '' [[Cmp (Name ''crc_reflect_in'') ''=='' (Word ''True'')]]
            [Lit (nl_join [[], ''    return '']), Ref ''crc_reflect_function'', Lit ''('',
             Ref ''cfg_xor_in'', Lit '' & '', Ref ''cfg_mask'', Lit '', '', Ref ''cfg_width'',
             Lit '')'',
             Cond [[Cmp (Name ''crc_do_shift'') ''=='' (Word ''True'')]]
               [Lit '' << '', Ref ''cfg_shift'']
               Endif, Lit (nl_join ['';'', []])]
            (Else [Lit (nl_join [[], ''    return '']), Ref ''cfg_xor_in'', Lit '' & '',
                   Ref ''cfg_mask'',
                   Cond [[Cmp (Name ''crc_do_shift'') ''=='' (Word ''True'')]]
                     [Lit '' << '', Ref ''cfg_shift'']
                     Endif, Lit (nl_join ['';'', []])])), Lit (nl_join [[], ''}'', []])]
       Endif, Lit (nl_join [[], [], []]),
     Cond [[Cmp (Name ''constant_crc_table'') ''!='' (Word ''True'')]]
       [Lit nl, Ref ''crc_table_gen_doc'', Lit nl, Ref ''crc_table_gen_function_def'',
        Lit (nl_join [[], ''{'', ''    '']), Ref ''crc_t'',
        Lit (nl_join ['' crc;'', ''    unsigned int i, j;'', [], ''    for (i = 0; i < '']),
        Ref ''cfg_table_width'', Lit (nl_join [''; i++) {'', []]),
        Cond [[Cmp (Name ''crc_reflect_in'') ''=='' (Word ''Undefined'')]]
          [Lit (nl_join [[], ''        if (cfg->reflect_in) {'', ''            crc = '']),
           Ref ''crc_reflect_function'', Lit ''(i, '', Ref ''cfg_table_idx_width'',
           Lit (nl_join ['');'', ''        } else {'', ''            crc = i;'', ''        }'', []])]
          (Elif '' '' [[Cmp (Name ''crc_reflect_in'') ''=='' (Word ''True'')]]
            [Lit (nl_join [[], ''        crc = '']), Ref ''crc_reflect_function'', Lit ''(i, '',
             Ref ''cfg_table_idx_width'', Lit (nl_join ['');'', []])]
            (Else [Lit (nl_join [[], ''        crc = i;'', []])])), Lit nl,
        Cond [[Cmp (Name ''crc_do_shift'') ''=='' (Word ''True'')]]
          [Lit (nl_join [[], ''        crc <<= ('']), Ref ''cfg_width'', Lit '' - '',
           Ref ''cfg_table_idx_width'', Lit '' + '', Ref ''cfg_shift'', Lit (nl_join ['');'', []])]
          (Else [Lit (nl_join [[], ''        crc <<= ('']), Ref ''cfg_width'', Lit '' - '',
                 Ref ''cfg_table_idx_width'', Lit (nl_join ['');'', []])]),
        Lit (nl_join [[], ''        for (j = 0; j < '']), Ref ''cfg_table_idx_width'',
        Lit (nl_join [''; j++) {'', ''            if (crc & '']), Ref ''cfg_msb_mask_shifted'',
        Lit (nl_join ['') {'', ''                crc = (crc << 1) ^ '']), Ref ''cfg_poly_shifted'',
        Lit (nl_join ['';'', ''            } else {'', ''                crc = crc << 1;'',
                      ''            }'', ''        }'', []]),
        Cond [[Cmp (Name ''crc_reflect_in'') ''=='' (Word ''Undefined'')]]
          [Lit (nl_join [[], ''        if (cfg->reflect_in) {'', []]),
           Cond [[Cmp (Name ''crc_do_shift'') ''=='' (Word ''True'')]]
             [Lit (nl_join [[], ''            crc = '']), Ref ''crc_reflect_function'',
              Lit ''(crc >> '', Ref ''cfg_shift'', Lit '', '', Ref ''cfg_width'', Lit '') << '',
              Ref ''cfg_shift'', Lit (nl_join ['';'', []])]
             (Else [Lit (nl_join [[], ''            crc = '']), Ref ''crc_reflect_function'',
                    Lit ''(crc, '', Ref ''cfg_width'', Lit (nl_join ['');'', []])]),
           Lit (nl_join [[], ''        }'', []])]
          (Elif '' '' [[Cmp (Name ''crc_reflect_in'') ''=='' (Word ''True'')]]
            [Lit nl,
             Cond [[Cmp (Name ''crc_do_shift'') ''=='' (Word ''True'')]]
               [Lit (nl_join [[], ''        crc = '']), Ref ''crc_reflect_function'',
                Lit ''(crc >> '', Ref ''cfg_shift'', Lit '', '', Ref ''cfg_width'', Lit '') << '',
                Ref ''cfg_shift'', Lit (nl_join ['';'', []])]
               (Else [Lit (nl_join [[], ''        crc = '']), Ref ''crc_reflect_function'',
                      Lit ''(crc, '', Ref ''cfg_width'', Lit (nl_join ['');'', []])]), Lit nl]
            Endif), Lit (nl_join [[], ''        crc_table[i] = crc & '']), Ref ''cfg_mask_shifted'',
        Lit (nl_join ['';'', ''    }'', ''}'', [], []])]
       Endif, Lit nl, Ref ''crc_update_doc'', Lit nl, Ref ''crc_update_function_def'', Ref ''nop'',
     Lit (nl_join [[], ''{'', ''    unsigned int tbl_idx;'', [], []]),
     Cond [[Cmp (Name ''crc_reflect_in'') ''=='' (Word ''Undefined'')]]
       [Lit (nl_join [[], ''    if (cfg->reflect_in) {'', ''        while (data_len--) {'', []]),
        Ref ''crc_table_core_algorithm_ri'',
        Lit (nl_join [[], ''            data++;'', ''        }'', ''    } else {'',
                      ''        while (data_len--) {'', []]), Ref ''crc_table_core_algorithm_ni'',
        Lit (nl_join [[], ''            data++;'', ''        }'', ''    }'', []])]
       (Else [Lit (nl_join [[], ''    while (data_len--) {'', []]),
              Cond [[Cmp (Name ''crc_reflect_in'') ''=='' (Word ''True'')]]
                [Lit nl, Ref ''crc_table_core_algorithm_ri'', Lit nl]
                (Elif '' '' [[Cmp (Name ''crc_reflect_in'') ''=='' (Word ''False'')]]
                  [Lit nl, Ref ''crc_table_core_algorithm_ni'', Lit nl]
                  Endif), Lit (nl_join [[], ''        data++;'', ''    }'', []])]),
     Lit (nl_join [[], ''    return crc & '']), Ref ''cfg_mask_shifted'',
     Lit (nl_join ['';'', ''}'', [], []]),
     Cond [[Cmp (Name ''inline_crc_finalize'') ''=='' (Word ''False'')]]
       [Lit nl, Ref ''crc_finalize_doc'', Lit nl, Ref ''crc_finalize_function_def'', Ref ''nop'',
        Lit (nl_join [[], ''{'', []]),
        Cond [[Cmp (Name ''crc_do_shift'') ''=='' (Word ''True'')]]
          [Lit (nl_join [[], ''    crc >>= '']), Ref ''cfg_shift'', Lit (nl_join ['';'', []])]
          Endif, Lit nl,
        Cond [[Cmp (Name ''crc_reflect_in'') ''=='' (Word ''Undefined'')], [Cmp (Name ''crc_reflect_out'') ''=='' (Word ''Undefined'')]]
          [Lit nl,
           Cond [[Cmp (Name ''crc_reflect_in'') ''=='' (Word ''Undefined''), Cmp (Name ''crc_reflect_out'') ''=='' (Word ''Undefined'')]]
             [Lit (nl_join [[], ''    if (cfg->reflect_in == !cfg->reflect_out)''])]
             (Elif (nl @ '' '') [[Cmp (Name ''crc_reflect_out'') ''=='' (Word ''Undefined'')]]
               [Lit (nl_join [[], ''    if ('']),
                Cond [[Cmp (Name ''crc_reflect_in'') ''=='' (Word ''True'')]]
                  [Lit ''!'']
                  Endif, Lit ''cfg->reflect_out)'']
               (Elif (nl @ '' '') [[Cmp (Name ''crc_reflect_in'') ''=='' (Word ''Undefined'')]]
                 [Lit (nl_join [[], ''    if ('']),
                  Cond [[Cmp (Name ''crc_reflect_out'') ''=='' (Word ''True'')]]
                    [Lit ''!'']
                    Endif, Lit ''cfg->reflect_in)'']
                 Endif)), Lit (nl_join ['' {'', ''        crc = '']), Ref ''crc_reflect_function'',
           Lit ''(crc, '', Ref ''cfg_width'', Lit (nl_join ['');'', ''    }'', []])]
          (Elif '' '' [[Cmp (Name ''crc_reflect_in'') ''!='' (Name ''crc_reflect_out'')]]
            [Lit (nl_join [[], ''    crc = '']), Ref ''crc_reflect_function'', Lit ''(crc, '',
             Ref ''cfg_width'', Lit (nl_join ['');'', []])]
            Endif), Lit (nl_join [[], ''    return (crc ^ '']), Ref ''cfg_xor_out'', Lit '') & '',
        Ref ''cfg_mask'', Lit (nl_join ['';'', ''}'', []])]
       Endif, Lit nl]\<close>

lemma c_table_driven_template: "template_text c_table_driven_text"
  by (rule template_textI [of c_table_driven_items])
    (simp_all add: c_table_driven_items_def items_eval del: unparse.simps, simp only: c_table_driven_items_def c_table_driven_text_def text_of_items)

definition main_template_items :: "item list" where
  \<open>main_template_items =
    [Cond [[Cmp (Name ''include_file'') ''!='' (Word ''Undefined'')]]
       [Lit (nl_join [[], ''#include '']), Ref ''include_file'', Lit nl]
       Endif, Lit (nl_join [[], ''#include <stdio.h>'', ''#include <getopt.h>'', []]),
     Cond [[Cmp (Name ''undefined_parameters'') ''=='' (Word ''True'')]]
       [Lit (nl_join [[], ''#include <stdlib.h>'', ''#include <stdio.h>'', ''#include <ctype.h>'',
                      []])]
       Endif, Lit nl,
     Cond [[Cmp (Name ''c_std'') ''!='' (Word ''C89'')]]
       [Lit (nl_join [[], ''#include <stdbool.h>'', []])]
       Endif,
     Lit (nl_join [[], ''#include <string.h>'', [], ''static char str[256] = "123456789";'',
                   ''static '']), Ref ''c_bool'', Lit '' verbose = '', Ref ''c_false'',
     Lit (nl_join ['';'', [], ''void print_params('']),
     Cond [[Cmp (Name ''undefined_parameters'') ''=='' (Word ''True'')]]
       [Lit ''const '', Ref ''cfg_t'', Lit '' *cfg'']
       (Else [Lit ''void'']), Lit (nl_join ['');'', []]), Ref ''getopt_template'',
     Lit (nl_join [[], [], ''void print_params('']),
     Cond [[Cmp (Name ''undefined_parameters'') ''=='' (Word ''True'')]]
       [Lit ''const '', Ref ''cfg_t'', Lit '' *cfg'']
       (Else [Lit ''void'']),
     Lit (nl_join ['')'', ''{'', ''    char format[20];'', [],
                   ''    snprintf(format, sizeof(format), "%%-16s = 0x%%0%dx'' @ [CHR 0x5C] @ ''n", (unsigned int)('']),
     Ref ''cfg_width'',
     Lit (nl_join ['' + 3) / 4);'',
                   ''    printf("%-16s = %d'' @ [CHR 0x5C] @ ''n", "width", (unsigned int)'']),
     Ref ''cfg_width'', Lit (nl_join ['');'', ''    printf(format, "poly", (unsigned int)'']),
     Ref ''cfg_poly'',
     Lit (nl_join ['');'', ''    printf("%-16s = %s'' @ [CHR 0x5C] @ ''n", "reflect_in", '']),
     Cond [[Cmp (Name ''crc_reflect_in'') ''=='' (Word ''Undefined'')]]
       [Ref ''cfg_reflect_in'', Lit '' ? "true": "false"'']
       (Else [Cond [[Cmp (Name ''crc_reflect_in'') ''=='' (Word ''True'')]]
                [Lit ''"true"'']
                (Else [Lit ''"false"''])]),
     Lit (nl_join ['');'', ''    printf(format, "xor_in", '']), Ref ''cfg_xor_in'',
     Lit (nl_join ['');'', ''    printf("%-16s = %s'' @ [CHR 0x5C] @ ''n", "reflect_out", '']),
     Cond [[Cmp (Name ''crc_reflect_out'') ''=='' (Word ''Undefined'')]]
       [Ref ''cfg_reflect_out'', Lit '' ? "true": "false"'']
       (Else [Cond [[Cmp (Name ''crc_reflect_out'') ''=='' (Word ''True'')]]
                [Lit ''"true"'']
                (Else [Lit ''"false"''])]),
     Lit (nl_join ['');'', ''    printf(format, "xor_out", (unsigned int)'']), Ref ''cfg_xor_out'',
     Lit (nl_join ['');'', ''    printf(format, "crc_mask", (unsigned int)'']), Ref ''cfg_mask'',
     Lit (nl_join ['');'', ''    printf(format, "msb_mask", (unsigned int)'']),
     Ref ''cfg_msb_mask'',
     Lit (nl_join ['');'', ''}'', [], ''/**'', '' * C main function.'', '' *'',
                   '' * '' @ [CHR 0x5C] @ ''return     0 on success, != 0 on error.'',
                   '' *****************************************************************************/'',
                   ''int main(int argc, char *argv[])'', ''{'', []]),
     Cond [[Cmp (Name ''undefined_parameters'') ''=='' (Word ''True'')]]
       [Lit (nl_join [[], ''    '']), Ref ''cfg_t'', Lit (nl_join ['' cfg = {'', []]),
        Cond [[Cmp (Name ''crc_width'') ''=='' (Word ''Undefined'')]]
          [Lit (nl_join [[], ''            0,      /* width */'', []])]
          Endif, Lit nl,
        Cond [[Cmp (Name ''crc_poly'') ''=='' (Word ''Undefined'')]]
          [Lit (nl_join [[], ''            0,      /* poly */'', []])]
          Endif, Lit nl,
        Cond [[Cmp (Name ''crc_xor_in'') ''=='' (Word ''Undefined'')]]
          [Lit (nl_join [[], ''            0,      /* xor_in */'', []])]
          Endif, Lit nl,
        Cond [[Cmp (Name ''crc_reflect_in'') ''=='' (Word ''Undefined'')]]
          [Lit (nl_join [[], ''            0,      /* reflect_in */'', []])]
          Endif, Lit nl,
        Cond [[Cmp (Name ''crc_xor_out'') ''=='' (Word ''Undefined'')]]
          [Lit (nl_join [[], ''            0,      /* xor_out */'', []])]
          Endif, Lit nl,
        Cond [[Cmp (Name ''crc_reflect_out'') ''=='' (Word ''Undefined'')]]
          [Lit (nl_join [[], ''            0,      /* reflect_out */'', []])]
          Endif, Lit nl,
        Cond [[Cmp (Name ''crc_width'') ''=='' (Word ''Undefined'')]]
          [Lit (nl_join [[], [], ''            0,      /* crc_mask */'',
                         ''            0,      /* msb_mask */'',
                         ''            0,      /* crc_shift */'', []])]
          Endif, Lit (nl_join [[], ''    };'', []])]
       Endif, Lit (nl_join [[], ''    '']), Ref ''crc_t'', Lit (nl_join ['' crc;'', [], []]),
     Cond [[Cmp (Name ''undefined_parameters'') ''=='' (Word ''True'')]]
       [Lit (nl_join [[], ''    get_config(argc, argv, &cfg);'', []])]
       (Else [Lit (nl_join [[], ''    get_config(argc, argv);'', []])]), Lit nl,
     Cond [[Cmp (Name ''crc_algorithm'') ''=='' (Quoted ''table-driven''), Cmp (Name ''constant_crc_table'') ''!='' (Word ''True'')]]
       [Lit (nl_join [[], ''    '']), Ref ''crc_table_gen_function'',
        Lit (nl_join [''(&cfg);'', []])]
       Endif, Lit (nl_join [[], ''    crc = '']), Ref ''crc_init_function'', Lit ''('',
     Cond [[Cmp (Name ''constant_crc_init'') ''!='' (Word ''True'')]]
       [Lit ''&cfg'']
       Endif, Lit (nl_join ['');'', ''    crc = '']), Ref ''crc_update_function'', Lit ''('',
     Cond [[Cmp (Name ''simple_crc_update_def'') ''!='' (Word ''True'')]]
       [Lit ''&cfg, '']
       Endif, Lit (nl_join [''crc, (unsigned char *)str, strlen(str));'', ''    crc = '']),
     Ref ''crc_finalize_function'', Lit ''('',
     Cond [[Cmp (Name ''simple_crc_finalize_def'') ''!='' (Word ''True'')]]
       [Lit ''&cfg, '']
       Endif, Lit (nl_join [''crc);'', [], ''    if (verbose) {'', ''        print_params('']),
     Cond [[Cmp (Name ''undefined_parameters'') ''=='' (Word ''True'')]]
       [Lit ''&cfg'']
       Endif,
     Lit (nl_join ['');'', ''    }'',
                   ''    printf("0x%lx'' @ [CHR 0x5C] @ ''n", (unsigned long)crc);'',
                   ''    return 0;'', ''}'', []])]\<close>

lemma main_template_template: "template_text main_template_text"
  by (rule template_textI [of main_template_items])
    (simp_all add: main_template_items_def items_eval del: unparse.simps, simp only: main_template_items_def main_template_text_def text_of_items)

definition getopt_template_items :: "item list" where
  \<open>getopt_template_items =
    [Cond [[Cmp (Name ''crc_reflect_in'') ''=='' (Word ''Undefined'')], [Cmp (Name ''crc_reflect_out'') ''=='' (Word ''Undefined'')]]
       [Lit (nl_join [[], ''static '']), Ref ''c_bool'',
        Lit (nl_join ['' atob(const char *str);'', []])]
       Endif, Lit nl,
     Cond [[Cmp (Name ''crc_poly'') ''=='' (Word ''Undefined'')], [Cmp (Name ''crc_xor_in'') ''=='' (Word ''Undefined'')], [Cmp (Name ''crc_xor_out'') ''=='' (Word ''Undefined'')]]
       [Lit (nl_join [[], ''static crc_t xtoi(const char *str);'', []])]
       Endif, Lit (nl_join [[], ''static int get_config(int argc, char *argv[]'']),
     Cond [[Cmp (Name ''undefined_parameters'') ''=='' (Word ''True'')]]
       [Lit '', '', Ref ''cfg_t'', Lit '' *cfg'']
       Endif, Lit (nl_join ['');'', [], [], []]),
     Cond [[Cmp (Name ''crc_reflect_in'') ''=='' (Word ''Undefined'')], [Cmp (Name ''crc_reflect_out'') ''=='' (Word ''Undefined'')]]
       [Lit nl, Ref ''c_bool'',
        Lit (nl_join ['' atob(const char *str)'', ''{'', ''    if (!str) {'', ''        return 0;'',
                      ''    }'', ''    if (isdigit(str[0])) {'', ''        return ('']),
        Ref ''c_bool'',
        Lit (nl_join ['')atoi(str);'', ''    }'', ''    if (tolower(str[0]) == 't') {'',
                      ''        return '']), Ref ''c_true'',
        Lit (nl_join ['';'', ''    }'', ''    return '']), Ref ''c_false'',
        Lit (nl_join ['';'', ''}'', [], []])]
       Endif, Lit nl,
     Cond [[Cmp (Name ''crc_poly'') ''=='' (Word ''Undefined'')], [Cmp (Name ''crc_xor_in'') ''=='' (Word ''Undefined'')], [Cmp (Name ''crc_xor_out'') ''=='' (Word ''Undefined'')]]
       [Lit (nl_join [[], ''crc_t xtoi(const char *str)'', ''{'', ''    crc_t ret = 0;'', [],
                      ''    if (!str) {'', ''        return 0;'', ''    }'',
                      ''    if (str[0] == '0' && tolower(str[1]) == 'x') {'', ''        str += 2;'',
                      ''        while (*str) {'', ''            if (isdigit(*str))'',
                      ''                ret = 16 * ret + *str - '0';'',
                      ''            else if (isxdigit(*str))'',
                      ''                ret = 16 * ret + tolower(*str) - 'a' + 10;'',
                      ''            else'', ''                return ret;'', ''            str++;'',
                      ''        }'', ''    } else if (isdigit(*str)) {'',
                      ''        while (*str) {'', ''            if (isdigit(*str))'',
                      ''                ret = 10 * ret + *str - '0';'', ''            else'',
                      ''                return ret;'', ''            str++;'', ''        }'',
                      ''    }'', ''    return ret;'', ''}'', [], [], []])]
       Endif, Lit (nl_join [[], ''static int get_config(int argc, char *argv[]'']),
     Cond [[Cmp (Name ''undefined_parameters'') ''=='' (Word ''True'')]]
       [Lit '', '', Ref ''cfg_t'', Lit '' *cfg'']
       Endif,
     Lit (nl_join ['')'', ''{'', ''    int c;'', ''    int this_option_optind;'',
                   ''    int option_index;'', ''    static struct option long_options[] = {'', []]),
     Cond [[Cmp (Name ''crc_width'') ''=='' (Word ''Undefined'')]]
       [Lit (nl_join [[], ''        {"width",           1, 0, 'w'},'', []])]
       Endif, Lit nl,
     Cond [[Cmp (Name ''crc_poly'') ''=='' (Word ''Undefined'')]]
       [Lit (nl_join [[], ''        {"poly",            1, 0, 'p'},'', []])]
       Endif, Lit nl,
     Cond [[Cmp (Name ''crc_reflect_in'') ''=='' (Word ''Undefined'')]]
       [Lit (nl_join [[], ''        {"reflect-in",      1, 0, 'n'},'', []])]
       Endif, Lit nl,
     Cond [[Cmp (Name ''crc_xor_in'') ''=='' (Word ''Undefined'')]]
       [Lit (nl_join [[], ''        {"xor-in",          1, 0, 'i'},'', []])]
       Endif, Lit nl,
     Cond [[Cmp (Name ''crc_reflect_out'') ''=='' (Word ''Undefined'')]]
       [Lit (nl_join [[], ''        {"reflect-out",     1, 0, 'u'},'', []])]
       Endif, Lit nl,
     Cond [[Cmp (Name ''crc_xor_out'') ''=='' (Word ''Undefined'')]]
       [Lit (nl_join [[], ''        {"xor-out",         1, 0, 'o'},'', []])]
       Endif,
     Lit (nl_join [[], ''        {"verbose",         0, 0, 'v'},'',
                   ''        {"check-string",    1, 0, 's'},'', []]),
     Cond [[Cmp (Name ''crc_width'') ''=='' (Word ''Undefined'')]]
       [Lit (nl_join [[], ''        {"table-idx-with",  1, 0, 't'},'', []])]
       Endif,
     Lit (nl_join [[], ''        {0, 0, 0, 0}'', ''    };'', [], ''    while (1) {'',
                   ''        this_option_optind = optind ? optind : 1;'',
                   ''        option_index = 0;'', [],
                   ''        c = getopt_long (argc, argv, "w:p:n:i:u:o:s:vt", long_options, &option_index);'',
                   ''        if (c == -1)'', ''            break;'', [], ''        switch (c) {'',
                   ''            case 0:'',
                   ''                printf ("option %s", long_options[option_index].name);'',
                   ''                if (optarg)'',
                   ''                    printf (" with arg %s", optarg);'',
                   ''                printf ("'' @ [CHR 0x5C] @ ''n");'', []]),
     Cond [[Cmp (Name ''crc_width'') ''=='' (Word ''Undefined'')]]
       [Lit (nl_join [[], ''            case 'w':'', ''                cfg->width = atoi(optarg);'',
                      ''                break;'', []])]
       Endif, Lit nl,
     Cond [[Cmp (Name ''crc_poly'') ''=='' (Word ''Undefined'')]]
       [Lit (nl_join [[], ''            case 'p':'', ''                cfg->poly = xtoi(optarg);'',
                      ''                break;'', []])]
       Endif, Lit nl,
     Cond [[Cmp (Name ''crc_reflect_in'') ''=='' (Word ''Undefined'')]]
       [Lit (nl_join [[], ''            case 'n':'',
                      ''                cfg->reflect_in = atob(optarg);'',
                      ''                break;'', []])]
       Endif, Lit nl,
     Cond [[Cmp (Name ''crc_xor_in'') ''=='' (Word ''Undefined'')]]
       [Lit (nl_join [[], ''            case 'i':'',
                      ''                cfg->xor_in = xtoi(optarg);'', ''                break;'',
                      []])]
       Endif, Lit nl,
     Cond [[Cmp (Name ''crc_reflect_out'') ''=='' (Word ''Undefined'')]]
       [Lit (nl_join [[], ''            case 'u':'',
                      ''                cfg->reflect_out = atob(optarg);'',
                      ''                break;'', []])]
       Endif, Lit nl,
     Cond [[Cmp (Name ''crc_xor_out'') ''=='' (Word ''Undefined'')]]
       [Lit (nl_join [[], ''            case 'o':'',
                      ''                cfg->xor_out = xtoi(optarg);'', ''                break;'',
                      []])]
       Endif,
     Lit (nl_join [[], ''            case 's':'',
                   ''                memcpy(str, optarg, strlen(optarg) < sizeof(str) ? strlen(optarg) + 1 : sizeof(str));'',
                   ''                str[sizeof(str) - 1] = '' @ [CHR 0x27] @ [CHR 0x5C] @ ''0';'',
                   ''                break;'', ''            case 'v':'',
                   ''                verbose = '']), Ref ''c_true'',
     Lit (nl_join ['';'', ''                break;'', []]),
     Cond [[Cmp (Name ''crc_width'') ''=='' (Word ''Undefined'')]]
       [Lit (nl_join [[], ''            case 't':'',
                      ''                /* ignore --table_idx_width option */'',
                      ''                break;'', []])]
       Endif,
     Lit (nl_join [[], ''            case '?':'', ''                return -1;'',
                   ''            case ':':'',
                   ''                fprintf(stderr, "missing argument to option %c'' @ [CHR 0x5C] @ ''n", c);'',
                   ''                return -1;'', ''            default:'',
                   ''                fprintf(stderr, "unhandled option %c'' @ [CHR 0x5C] @ ''n", c);'',
                   ''                return -1;'', ''        }'', ''    }'', []]),
     Cond [[Cmp (Name ''crc_width'') ''=='' (Word ''Undefined'')]]
       [Lit (nl_join [[], ''    cfg->msb_mask = 1UL << (cfg->width - 1);'',
                      ''    cfg->crc_mask = (cfg->msb_mask - 1) | cfg->msb_mask;'',
                      ''    cfg->crc_shift = cfg->width < 8 ? 8 - cfg->width : 0;'', []])]
       Endif, Lit (nl_join [[], [], []]),
     Cond [[Cmp (Name ''crc_poly'') ''=='' (Word ''Undefined'')]]
       [Lit (nl_join [[], ''    cfg->poly &= '']), Ref ''cfg_mask'', Lit (nl_join ['';'', []])]
       Endif, Lit nl,
     Cond [[Cmp (Name ''crc_xor_in'') ''=='' (Word ''Undefined'')]]
       [Lit (nl_join [[], ''    cfg->xor_in &= '']), Ref ''cfg_mask'', Lit (nl_join ['';'', []])]
       Endif, Lit nl,
     Cond [[Cmp (Name ''crc_xor_out'') ''=='' (Word ''Undefined'')]]
       [Lit (nl_join [[], ''    cfg->xor_out &= '']), Ref ''cfg_mask'', Lit (nl_join ['';'', []])]
       Endif, Lit (nl_join [[], ''    return 0;'', ''}''])]\<close>

lemma getopt_template_template: "template_text getopt_template_text"
  by (rule template_textI [of getopt_template_items])
    (simp_all add: getopt_template_items_def items_eval del: unparse.simps, simp only: getopt_template_items_def getopt_template_text_def text_of_items)

section \<open>The terminals of the configuration\<close>

definition cfg_width_items :: "item list" where
  \<open>cfg_width_items =
    [Cond [[Cmp (Name ''crc_width'') ''!='' (Word ''Undefined'')]]
       [Ref ''crc_width'']
       (Else [Lit ''cfg->width''])]\<close>

lemma cfg_width_template:
  "template_text (''$if ($crc_width != Undefined) {:$crc_width:} $else {:cfg->width:}'')"
  by (rule template_textI [of cfg_width_items])
    (simp_all add: cfg_width_items_def items_eval del: unparse.simps, simp only: cfg_width_items_def text_of_items)

definition cfg_poly_items :: "item list" where
  \<open>cfg_poly_items =
    [Cond [[Cmp (Name ''crc_poly'') ''!='' (Word ''Undefined'')]]
       [Ref ''crc_poly'']
       (Else [Lit ''cfg->poly''])]\<close>

lemma cfg_poly_template:
  "template_text (''$if ($crc_poly != Undefined) {:$crc_poly:} $else {:cfg->poly:}'')"
  by (rule template_textI [of cfg_poly_items])
    (simp_all add: cfg_poly_items_def items_eval del: unparse.simps, simp only: cfg_poly_items_def text_of_items)

definition cfg_poly_shifted_items :: "item list" where
  \<open>cfg_poly_shifted_items =
    [Cond [[Cmp (Name ''crc_do_shift'') ''=='' (Word ''True'')]]
       [Lit ''('', Ref ''cfg_poly'', Lit '' << '', Ref ''cfg_shift'', Lit '')'']
       (Else [Ref ''cfg_poly''])]\<close>

lemma cfg_poly_shifted_template:
  "template_text (''$if ($crc_do_shift == True) {:($cfg_poly << $cfg_shift):} $else {:$cfg_poly:}'')"
  by (rule template_textI [of cfg_poly_shifted_items])
    (simp_all add: cfg_poly_shifted_items_def items_eval del: unparse.simps, simp only: cfg_poly_shifted_items_def text_of_items)

definition cfg_reflect_in_items :: "item list" where
  \<open>cfg_reflect_in_items =
    [Cond [[Cmp (Name ''crc_reflect_in'') ''!='' (Word ''Undefined'')]]
       [Ref ''crc_reflect_in'']
       (Else [Lit ''cfg->reflect_in''])]\<close>

lemma cfg_reflect_in_template:
  "template_text (''$if ($crc_reflect_in != Undefined) {:$crc_reflect_in:} $else {:cfg->reflect_in:}'')"
  by (rule template_textI [of cfg_reflect_in_items])
    (simp_all add: cfg_reflect_in_items_def items_eval del: unparse.simps, simp only: cfg_reflect_in_items_def text_of_items)

definition cfg_xor_in_items :: "item list" where
  \<open>cfg_xor_in_items =
    [Cond [[Cmp (Name ''crc_xor_in'') ''!='' (Word ''Undefined'')]]
       [Ref ''crc_xor_in'']
       (Else [Lit ''cfg->xor_in''])]\<close>

lemma cfg_xor_in_template:
  "template_text (''$if ($crc_xor_in != Undefined) {:$crc_xor_in:} $else {:cfg->xor_in:}'')"
  by (rule template_textI [of cfg_xor_in_items])
    (simp_all add: cfg_xor_in_items_def items_eval del: unparse.simps, simp only: cfg_xor_in_items_def text_of_items)

definition cfg_reflect_out_items :: "item list" where
  \<open>cfg_reflect_out_items =
    [Cond [[Cmp (Name ''crc_reflect_out'') ''!='' (Word ''Undefined'')]]
       [Ref ''crc_reflect_out'']
       (Else [Lit ''cfg->reflect_out''])]\<close>

lemma cfg_reflect_out_template:
  "template_text (''$if ($crc_reflect_out != Undefined) {:$crc_reflect_out:} $else {:cfg->reflect_out:}'')"
  by (rule template_textI [of cfg_reflect_out_items])
    (simp_all add: cfg_reflect_out_items_def items_eval del: unparse.simps, simp only: cfg_reflect_out_items_def text_of_items)

definition cfg_xor_out_items :: "item list" where
  \<open>cfg_xor_out_items =
    [Cond [[Cmp (Name ''crc_xor_out'') ''!='' (Word ''Undefined'')]]
       [Ref ''crc_xor_out'']
       (Else [Lit ''cfg->xor_out''])]\<close>

lemma cfg_xor_out_template:
  "template_text (''$if ($crc_xor_out != Undefined) {:$crc_xor_out:} $else {:cfg->xor_out:}'')"
  by (rule template_textI [of cfg_xor_out_items])
    (simp_all add: cfg_xor_out_items_def items_eval del: unparse.simps, simp only: cfg_xor_out_items_def text_of_items)

definition cfg_table_idx_width_items :: "item list" where
  \<open>cfg_table_idx_width_items =
    [Cond [[Cmp (Name ''crc_table_idx_width'') ''!='' (Word ''Undefined'')]]
       [Ref ''crc_table_idx_width'']
       (Else [Lit ''cfg->table_idx_width''])]\<close>

lemma cfg_table_idx_width_template:
  "template_text (''$if ($crc_table_idx_width != Undefined) {:$crc_table_idx_width:} $else {:cfg->table_idx_width:}'')"
  by (rule template_textI [of cfg_table_idx_width_items])
    (simp_all add: cfg_table_idx_width_items_def items_eval del: unparse.simps, simp only: cfg_table_idx_width_items_def text_of_items)

definition cfg_table_width_items :: "item list" where
  \<open>cfg_table_width_items =
    [Cond [[Cmp (Name ''crc_table_width'') ''!='' (Word ''Undefined'')]]
       [Ref ''crc_table_width'']
       (Else [Lit ''cfg->table_width''])]\<close>

lemma cfg_table_width_template:
  "template_text (''$if ($crc_table_width != Undefined) {:$crc_table_width:} $else {:cfg->table_width:}'')"
  by (rule template_textI [of cfg_table_width_items])
    (simp_all add: cfg_table_width_items_def items_eval del: unparse.simps, simp only: cfg_table_width_items_def text_of_items)

definition cfg_mask_items :: "item list" where
  \<open>cfg_mask_items =
    [Cond [[Cmp (Name ''crc_mask'') ''!='' (Word ''Undefined'')]]
       [Ref ''crc_mask'']
       (Else [Lit ''cfg->crc_mask''])]\<close>

lemma cfg_mask_template:
  "template_text (''$if ($crc_mask != Undefined) {:$crc_mask:} $else {:cfg->crc_mask:}'')"
  by (rule template_textI [of cfg_mask_items])
    (simp_all add: cfg_mask_items_def items_eval del: unparse.simps, simp only: cfg_mask_items_def text_of_items)

definition cfg_mask_shifted_items :: "item list" where
  \<open>cfg_mask_shifted_items =
    [Cond [[Cmp (Name ''crc_do_shift'') ''=='' (Word ''True'')]]
       [Lit ''('', Ref ''cfg_mask'', Lit '' << '', Ref ''cfg_shift'', Lit '')'']
       (Else [Ref ''cfg_mask''])]\<close>

lemma cfg_mask_shifted_template:
  "template_text (''$if ($crc_do_shift == True) {:($cfg_mask << $cfg_shift):} $else {:$cfg_mask:}'')"
  by (rule template_textI [of cfg_mask_shifted_items])
    (simp_all add: cfg_mask_shifted_items_def items_eval del: unparse.simps, simp only: cfg_mask_shifted_items_def text_of_items)

definition cfg_msb_mask_items :: "item list" where
  \<open>cfg_msb_mask_items =
    [Cond [[Cmp (Name ''crc_msb_mask'') ''!='' (Word ''Undefined'')]]
       [Ref ''crc_msb_mask'']
       (Else [Lit ''cfg->msb_mask''])]\<close>

lemma cfg_msb_mask_template:
  "template_text (''$if ($crc_msb_mask != Undefined) {:$crc_msb_mask:} $else {:cfg->msb_mask:}'')"
  by (rule template_textI [of cfg_msb_mask_items])
    (simp_all add: cfg_msb_mask_items_def items_eval del: unparse.simps, simp only: cfg_msb_mask_items_def text_of_items)

definition cfg_msb_mask_shifted_items :: "item list" where
  \<open>cfg_msb_mask_shifted_items =
    [Cond [[Cmp (Name ''crc_do_shift'') ''=='' (Word ''True'')]]
       [Lit ''('', Ref ''cfg_msb_mask'', Lit '' << '', Ref ''cfg_shift'', Lit '')'']
       (Else [Ref ''cfg_msb_mask''])]\<close>

lemma cfg_msb_mask_shifted_template:
  "template_text (''$if ($crc_do_shift == True) {:($cfg_msb_mask << $cfg_shift):} $else {:$cfg_msb_mask:}'')"
  by (rule template_textI [of cfg_msb_mask_shifted_items])
    (simp_all add: cfg_msb_mask_shifted_items_def items_eval del: unparse.simps, simp only: cfg_msb_mask_shifted_items_def text_of_items)

definition cfg_shift_items :: "item list" where
  \<open>cfg_shift_items =
    [Cond [[Cmp (Name ''crc_shift'') ''!='' (Word ''Undefined'')]]
       [Ref ''crc_shift'']
       (Else [Lit ''cfg->crc_shift''])]\<close>

lemma cfg_shift_template:
  "template_text (''$if ($crc_shift != Undefined) {:$crc_shift:} $else {:cfg->crc_shift:}'')"
  by (rule template_textI [of cfg_shift_items])
    (simp_all add: cfg_shift_items_def items_eval del: unparse.simps, simp only: cfg_shift_items_def text_of_items)

definition c_bool_items :: "item list" where
  \<open>c_bool_items =
    [Cond [[Cmp (Name ''c_std'') ''=='' (Word ''C89'')]]
       [Lit ''int'']
       (Else [Lit ''bool''])]\<close>

lemma c_bool_template:
  "template_text (''$if ($c_std == C89) {:int:} $else {:bool:}'')"
  by (rule template_textI [of c_bool_items])
    (simp_all add: c_bool_items_def items_eval del: unparse.simps, simp only: c_bool_items_def text_of_items)

definition c_true_items :: "item list" where
  \<open>c_true_items =
    [Cond [[Cmp (Name ''c_std'') ''=='' (Word ''C89'')]]
       [Lit ''1'']
       (Else [Lit ''true''])]\<close>

lemma c_true_template:
  "template_text (''$if ($c_std == C89) {:1:} $else {:true:}'')"
  by (rule template_textI [of c_true_items])
    (simp_all add: c_true_items_def items_eval del: unparse.simps, simp only: c_true_items_def text_of_items)

definition c_false_items :: "item list" where
  \<open>c_false_items =
    [Cond [[Cmp (Name ''c_std'') ''=='' (Word ''C89'')]]
       [Lit ''0'']
       (Else [Lit ''false''])]\<close>

lemma c_false_template:
  "template_text (''$if ($c_std == C89) {:0:} $else {:false:}'')"
  by (rule template_textI [of c_false_items])
    (simp_all add: c_false_items_def items_eval del: unparse.simps, simp only: c_false_items_def text_of_items)

end
