(* ===== verification/GenEnds.thy ===== *)
theory GenEnds
  imports Ranks Pycrc
begin

text \<open>
  Code generation ends.  The values of the symbol table stand in rank order as long as the texts
  that the user supplies contain no dollar sign; with one, generation may go on for ever.
\<close>

section \<open>The values of the symbol table\<close>

text \<open>The texts that come from outside the program.\<close>

definition outside_texts :: "options \<Rightarrow> string \<Rightarrow> string list" where
  "outside_texts op datetime =
     [datetime, o_SymbolPrefix op] @
     concat (map (\<lambda>x. case x of None \<Rightarrow> [] | Some s \<Rightarrow> [s])
       [o_OutputFile op, o_CrcType op, o_IncludeFile op, o_CStd op])"

definition no_dollar :: "options \<Rightarrow> string \<Rightarrow> bool" where
  "no_dollar op datetime \<longleftrightarrow> list_all dollar_free (outside_texts op datetime)"

lemma no_dollarD:
  assumes "no_dollar op datetime"
  shows "dollar_free datetime" "dollar_free (o_SymbolPrefix op)"
    "o_OutputFile op = Some s \<Longrightarrow> dollar_free s" "o_CrcType op = Some s \<Longrightarrow> dollar_free s"
    "o_IncludeFile op = Some s \<Longrightarrow> dollar_free s" "o_CStd op = Some s \<Longrightarrow> dollar_free s"
  using assms by (auto simp: no_dollar_def outside_texts_def)

lemma dollar_free_sub:
  assumes "dollar_free s"
  shows "dollar_free (butlast s)" "dollar_free (drop n s)" "dollar_free (rev s)"
  using assms by (auto simp: dollar_free_def list_all_iff dest: in_set_butlastD in_set_dropD)

lemma dollar_free_pretty:
  "dollar_free (pretty_str i)" "dollar_free (pretty_hex j w)" "dollar_free (pretty_bool b)"
  "dollar_free (crc_algorithm op)" "dollar_free (py_dec k)"
  using plain_pretty [THEN plain_dollar_free] plain_pretty(1) [of "Some k", THEN plain_dollar_free]
  by (simp_all add: pretty_str_def)

lemma dollar_free_header: "dollar_free (pretty_hdrprotection op)"
proof -
  have "char_upper c \<noteq> CHR ''$''" if "is_alpha c" for c
  proof
    assume "char_upper c = CHR ''$''"
    then have "of_char (char_upper c) = (36 :: nat)" by simp
    with that show False
      by (auto simp: is_alpha_def char_upper_def Let_def split: if_splits)
  qed
  then have "CHR ''$'' \<noteq> char_upper c" if "is_alpha c" for c
    using that by metis
  then show ?thesis
    by (auto simp: pretty_hdrprotection_def dollar_free_def list_all_iff Let_def)
qed

lemma fold_table:
  "foldl (\<lambda>t (k, v). t(k \<mapsto> v)) t xs n = Some v \<Longrightarrow> (n, v) \<in> set xs \<or> t n = Some v"
proof (induction xs arbitrary: t)
  case (Cons x xs)
  obtain k w where x: "x = (k, w)" by fastforce
  then show ?case
    using Cons.IH [of "t(k \<mapsto> w)"] Cons.prems by (auto split: if_splits)
qed simp

lemma symbol_table_entries:
  assumes "SymbolTable_init op datetime Map.empty = Inr t" and "t n = Some v"
  shows "(\<exists>s. v = Some s \<and> (n, s) \<in> set (param_terminals op datetime @ cfg_terminals)) \<or>
    (\<exists>inc. get_include_file op = Inr inc \<and> (n, v) \<in> set (name_terminals op inc))"
proof -
  obtain inc where inc: "get_include_file op = Inr inc"
    and t: "foldl (\<lambda>t (k, v). t(k \<mapsto> v)) Map.empty (map (\<lambda>(k, v). (k, Some v))
      (param_terminals op datetime @ cfg_terminals) @ name_terminals op inc) = t"
    using assms(1) by (auto simp: SymbolTable_init_def bind_res_Inr_iff)
  from fold_table [OF assms(2) [folded t]] show ?thesis
    using inc by auto
qed

lemma header_filename_free: "pred_option dollar_free f \<Longrightarrow> dollar_free (header_filename f)"
  using dollar_free_sub(1) by (auto simp: header_filename_def split: option.split)

lemma param_terminals_free:
  assumes "no_dollar op datetime"
  shows "\<forall>(n, v) \<in> set (param_terminals op datetime). dollar_free v"
  using no_dollarD [OF assms] header_filename_free [of "o_OutputFile op"]
  by (auto simp: param_terminals_def Let_def dollar_free_pretty pred_option_def split: option.split)

lemma include_file_free:
  assumes "no_dollar op datetime" and "get_include_file op = Inr (Some f)"
  shows "dollar_free f"
  using assms(2) no_dollarD(5) [OF assms(1)]
  by (auto simp: get_include_file_def split: option.splits list.splits if_splits)

lemma cfg_terminals_below: "\<forall>(n, v) \<in> set cfg_terminals. text_below (name_rank n) v"
  by (simp add: cfg_terminals_def text_eval)

lemma name_terminals_below:
  assumes "no_dollar op datetime" and "get_include_file op = Inr inc"
  shows "\<forall>(n, v) \<in> set (name_terminals op inc). \<forall>s. v = Some s \<longrightarrow> text_below (name_rank n) s"
proof -
  have "dollar_free (get_underlying_crc_t op)"
    using no_dollarD(4) [OF assms(1)] by (auto simp: get_underlying_crc_t_def split: option.split)
  then show ?thesis
    using no_dollarD [OF assms(1)] include_file_free [OF assms(1)] assms(2)
    by (auto simp: name_terminals_def dollar_free_pretty text_below_free text_eval)
qed

lemma templates_below: "\<forall>(n, v) \<in> set templates. text_below (name_rank n) v"
  using crc_final_value_below h_template_below source_header_below crc_reflect_doc_below
    crc_reflect_function_def_below crc_reflect_function_body_below crc_table_gen_doc_below
    crc_table_gen_function_def_below crc_init_doc_below crc_init_function_def_below
    crc_update_doc_below crc_update_function_def_below crc_finalize_doc_below
    crc_finalize_function_def_below c_template_below c_table_below c_bit_by_bit_below
    c_bit_by_bit_fast_below c_table_driven_below main_template_below getopt_template_below
  by (simp add: templates_def name_ranks)

text \<open>The terminals that are computed from the numbers.\<close>

lemma table_field_free:
  "table_field tbl n per_line fw out i = Inr tx \<Longrightarrow> dollar_free out \<Longrightarrow> dollar_free tx"
  by (auto simp: table_field_def dollar_free_pretty Let_def split: if_splits)

lemma fold_field_free:
  "fold_res (table_field tbl n per_line fw) out is = Inr tx \<Longrightarrow> dollar_free out \<Longrightarrow> dollar_free tx"
  by (induction "is" arbitrary: out) (auto simp: bind_res_Inr_iff dest: table_field_free)

lemma table_init_free: "get_table_init op = Inr tx \<Longrightarrow> dollar_free tx"
  by (auto simp: get_table_init_def bind_res_Inr_iff Let_def split: if_splits option.splits
      dest!: fold_field_free)

lemma init_value_free: "get_init_value op = Inr (Some tx) \<Longrightarrow> dollar_free tx"
  by (auto simp: get_init_value_def bind_res_Inr_iff Let_def dollar_free_pretty
      split: if_splits option.splits)

lemma text_below_concat: "\<forall>s \<in> set ss. text_below r s \<Longrightarrow> text_below r (concat ss)"
  by (induction ss) (simp_all add: text_below_nil text_below_append)

lemma text_below_free_append: "dollar_free x \<Longrightarrow> text_below r (x @ s) = text_below r s"
  by (induction x) (simp_all add: text_below_char)

lemma core_algorithm_below:
  "text_below 3 (get_table_core_algorithm_ni op)" "text_below 3 (get_table_core_algorithm_ri op)"
proof -
  have "dollar_free (loop_indent op)"
    by (simp add: loop_indent_def)
  then show "text_below 3 (get_table_core_algorithm_ni op)"
    "text_below 3 (get_table_core_algorithm_ri op)"
    unfolding get_table_core_algorithm_ni_def get_table_core_algorithm_ri_def Let_def
    by (auto intro!: text_below_concat
        simp: text_eval text_below_free_append dollar_free_pretty split: option.split)
qed

lemma compute_terminal_below:
  assumes "compute_terminal op n = Inr (Some v)"
  shows "text_below (name_rank n) v"
proof -
  have free: "text_below r (pretty_bool b)" "text_below r (crc_algorithm op)"
    "text_below r (pretty_hdrprotection op)" for r b
    by (simp_all add: text_below_free dollar_free_pretty dollar_free_header)
  have nums: "get_table_init op = Inr tx \<Longrightarrow> text_below r tx"
    "get_init_value op = Inr (Some tx) \<Longrightarrow> text_below r tx" for r tx
    by (simp_all add: text_below_free table_init_free init_value_free)
  have "map_of templates n = Some v \<Longrightarrow> text_below (name_rank n) v"
    using templates_below by (auto dest: map_of_SomeD)
  then show ?thesis
    using assms core_algorithm_below [of op]
    by (auto simp: compute_terminal_def Let_def bind_res_Inr_iff free nums name_ranks text_below_nil
        split: if_splits option.splits)
qed

lemma sym_value_below:
  assumes "SymbolTable_init op datetime Map.empty = Inr t" and "no_dollar op datetime"
    and "sym_value op t n = Inr (Some v)"
  shows "text_below (name_rank n) v"
proof -
  have "text_below (name_rank n) v" if "t n = Some (Some v)"
  proof -
    note symbol_table_entries [OF assms(1) that]
    then consider "(n, v) \<in> set (param_terminals op datetime)" | "(n, v) \<in> set cfg_terminals"
      | inc where "get_include_file op = Inr inc" "(n, Some v) \<in> set (name_terminals op inc)"
      by auto
    then show ?thesis
      using param_terminals_free [OF assms(2)] cfg_terminals_below
        name_terminals_below [OF assms(2)] text_below_free
      by cases fastforce+
  qed
  then show ?thesis
    using assms(3) compute_terminal_below
    by (auto simp: sym_value_def bind_res_Inr_iff text_below_nil split: if_splits option.splits)
qed

text \<open>A table that the constructor made from texts without a dollar sign.\<close>

definition safe_table :: "options \<Rightarrow> sym_table \<Rightarrow> bool" where
  "safe_table op t0 \<longleftrightarrow>
     (\<exists>datetime. SymbolTable_init op datetime Map.empty = Inr t0 \<and> no_dollar op datetime)"

interpretation ranked_symtab: ranked_source "getTerminal op" "\<lambda>t. coherent op t0 t \<and> safe_table op t0"
  "sym_value op t0" name_rank 6 for op t0
proof
  fix t n v assume "coherent op t0 t \<and> safe_table op t0" and v: "sym_value op t0 n = Inr (Some v)"
  then have "text_below (name_rank n) v"
    using sym_value_below v by (auto simp: safe_table_def)
  then show "closed_text v \<and> (\<forall>x \<in> set (ids v). name_rank x < name_rank n)"
    by (simp add: text_below_def list_all_iff)
qed (use symtab.value_known symtab.value_error name_rank_top in blast)+

section \<open>Generation ends\<close>

lemma le_main:
  assumes "n \<le> m"
  shows "le_run (main argv0 n datetime files writable v args) (main argv0 m datetime files writable v args)"
proof -
  have parse: "le_run (run_parse argv0 n op s mp) (run_parse argv0 m op s mp)" for op s mp
    unfolding run_parse_def by (rule le_parse) (rule assms)
  then show ?thesis
    unfolding main_def print_parameters_def run_action_def Let_def
    by (auto intro!: le_intros parse split: action.split option.split)
qed

lemma parse_result: "parse gt a n s st = ret (r, st') \<Longrightarrow> r = None"
  by (auto simp: parse_def bind_run_def ret_def raise_exn_def parse_error_def
      split: option.splits sum.splits prod.splits if_splits)

lemma generation_ends:
  assumes "no_dollar op datetime"
  shows "\<exists>N. \<forall>n \<ge> N. bind_run (new_parser datetime op (Lexer_init, Map.empty))
    (\<lambda>mp. run_parse argv0 n op s mp) \<noteq> None"
proof (cases "SymbolTable_init op datetime Map.empty")
  case (Inl e)
  then show ?thesis by (simp add: new_parser_def bind_run_def)
next
  case (Inr t)
  then have "coherent op t t \<and> safe_table op t"
    using assms by (auto simp: safe_table_def coherent_refl)
  then show ?thesis
    using ranked_symtab.parse_ends [of op t "MacroParser_init Lexer_init t" s] Inr
    by (auto simp: new_parser_def run_parse_def MacroParser_init_def)
qed

lemma bind_not_None: "r \<noteq> None \<Longrightarrow> (\<And>x. r = ret x \<Longrightarrow> f x \<noteq> None) \<Longrightarrow> bind_run r f \<noteq> None"
  by (auto simp: bind_run_def ret_def split: sum.split)

lemma verbose_ends:
  assumes "bind_run (new_parser datetime op sh) (\<lambda>mp. run_parse argv0 n op parameters_text mp) \<noteq> None"
  shows "print_parameters argv0 n datetime op sh \<noteq> None"
    and "print_parameters argv0 n datetime op sh \<noteq> ret x"
  using assms unfolding print_parameters_def
  by (auto simp: bind_run_def run_parse_def raise_exn_def ret_def split: option.splits sum.splits
      dest!: parse_result [unfolded ret_def])

lemma action_ends:
  assumes "\<And>s. generate_input (o_Action op) = Some s \<Longrightarrow>
    bind_run (new_parser datetime op sh) (\<lambda>mp. run_parse argv0 n op s mp) \<noteq> None"
  shows "run_action argv0 n datetime files writable op out sh \<noteq> None"
  using assms
  by (auto simp: run_action_def bind_run_def new_parser_def generate_input_def
      split: action.splits option.splits sum.splits)

text \<open>C14: on every command line, if the texts that the user supplies (and the date) contain no dollar sign,
  the program ends: from some fuel on its outcome does not depend on the fuel.\<close>

theorem main_ends:
  assumes "\<And>err op. validate argv0 v args Options_init = Inr (err, op) \<Longrightarrow> no_dollar op datetime"
  shows "\<exists>N r. r \<noteq> None \<and> (\<forall>n \<ge> N. main argv0 n datetime files writable v args = r)"
proof -
  have "\<exists>N. main argv0 N datetime files writable v args \<noteq> None"
  proof (cases "validate argv0 v args Options_init")
    case (Inl e)
    then show ?thesis by (simp add: main_def bind_run_def)
  next
    case (Inr p)
    obtain err op where p: "p = (err, op)" by fastforce
    then have free: "no_dollar op datetime" using assms Inr by blast
    let ?run = "\<lambda>s n. bind_run (new_parser datetime op (Lexer_init, Map.empty))
      (\<lambda>mp. run_parse argv0 n op s mp)"
    obtain N1 N2 where N: "\<And>n. N1 \<le> n \<Longrightarrow> ?run parameters_text n \<noteq> None"
      "\<And>n. N2 \<le> n \<Longrightarrow> ?run (the (generate_input (o_Action op))) n \<noteq> None"
      using generation_ends [OF free] by meson
    let ?n = "max N1 N2" and ?sh = "(Lexer_init, Map.empty)"
    note v = verbose_ends [OF N(1) [of ?n, OF max.cobounded1]]
    have "bind_run (print_parameters argv0 ?n datetime op ?sh) f \<noteq> None"
      for f :: "string \<times> shared \<Rightarrow> outcome run"
      by (rule bind_not_None [OF v(1)]) (simp only: v(2) simp_thms)
    moreover have "run_action argv0 ?n datetime files writable op [] ?sh \<noteq> None"
      by (rule action_ends) (use N(2) [of ?n, OF max.cobounded2] in simp)
    ultimately have "main argv0 ?n datetime files writable v args \<noteq> None"
      unfolding main_def Inr p Let_def bind_run_Some_Inr split_conv
      by (cases "o_Verbose op") (simp_all only: if_True if_False not_False_eq_True)
    then show ?thesis ..
  qed
  then obtain N where N: "main argv0 N datetime files writable v args \<noteq> None" by blast
  have "main argv0 n datetime files writable v args = main argv0 N datetime files writable v args"
    if "N \<le> n" for n
    by (rule le_runD [OF le_main [OF that] N])
  with N show ?thesis by blast
qed

lemma accepted_no_dollar:
  assumes "no_dollar (accepted_options v) datetime"
    and "validate argv0 v args Options_init = Inr (err, op)"
  shows "no_dollar op datetime"
  using assms validate_result [of v args argv0] by (auto split: if_splits)

definition c_values :: opt_values where
  "c_values = ccitt_values\<lparr>v_generate := Some ''c'', v_algorithm := Some ''table-driven''\<rparr>"

lemma c_fields:
  "o_SymbolPrefix (accepted_options c_values) = ''crc_''"
  "o_OutputFile (accepted_options c_values) = None"
  "o_CrcType (accepted_options c_values) = None"
  "o_IncludeFile (accepted_options c_values) = None"
  "o_CStd (accepted_options c_values) = Some ''C99''"
  unfolding accepted_options_def c_values_def ccitt_values_def default_values_def std_name_def
  by (simp_all add: py_upper_def char_upper_def)

theorem main_ends_witness:
  "\<exists>N r. r \<noteq> None \<and> (\<forall>n \<ge> N. main ''pycrc'' n ''Mon'' (\<lambda>_. None) (\<lambda>_. False) c_values [] = r)"
proof -
  have "no_dollar (accepted_options c_values) ''Mon''"
    by (simp add: no_dollar_def outside_texts_def c_fields)
  then show ?thesis
    by (intro main_ends) (rule accepted_no_dollar)
qed

section \<open>Generation that does not end\<close>

lemma parse_loops:
  assumes "sym_value op t x = Inr (Some (CHR ''$'' # x))" and "is_id x" and "x \<noteq> ''if''"
    and "coherent op t (p_sym st)" and "at_input (p_lex st) (CHR ''$'' # x @ s)" and "no_id_char s"
  shows "parse_data (getTerminal op) argv0 n True st = None"
  using assms(4,5)
proof (induction n arbitrary: st)
  case (Suc n)
  from symtab.parse_data_sym [OF Suc.prems(1) assms(1,3) Suc.prems(2) assms(2,6)]
  obtain st' where "parse_data (getTerminal op) argv0 (Suc n) True st =
      parse_data (getTerminal op) argv0 n True st'"
    "at_input (p_lex st') (CHR ''$'' # x @ s)" "coherent op t (p_sym st')" by auto
  with Suc.IH show ?case by simp
qed (simp add: parse_data.simps)

lemma loop_entries:
  assumes "SymbolTable_init op datetime Map.empty = Inr t"
  shows "t ''filename'' = Some (Some (case o_OutputFile op of None \<Rightarrow> ''stdout'' | Some f \<Rightarrow> f))"
    "t ''h_template'' = None" "t ''c_template'' = None" "t ''source_header'' = None"
proof -
  obtain f where t: "t = foldl (\<lambda>t (k, v). t(k \<mapsto> v)) Map.empty
      (map (\<lambda>(k, v). (k, Some v)) (param_terminals op datetime @ cfg_terminals) @ name_terminals op f)"
    using assms by (auto simp: SymbolTable_init_def bind_res_Inr_iff)
  show "t ''filename'' = Some (Some (case o_OutputFile op of None \<Rightarrow> ''stdout'' | Some f \<Rightarrow> f))"
    "t ''h_template'' = None" "t ''c_template'' = None" "t ''source_header'' = None"
    unfolding t foldl_upd
    by (simp_all only: rev_append rev_map map_append param_terminals_def cfg_terminals_def
        name_terminals_def Let_def rev.simps append.simps map_of.simps list.map prod.case)
      simp_all
qed

lemma loop_values:
  assumes "SymbolTable_init op datetime Map.empty = Inr t"
  shows "sym_value op t ''h_template'' = Inr (Some h_template_text)"
    "sym_value op t ''c_template'' = Inr (Some c_template_text)"
    "sym_value op t ''source_header'' = Inr (Some source_header_text)"
    "o_OutputFile op = Some f \<Longrightarrow> sym_value op t ''filename'' = Inr (Some f)"
  using loop_entries [OF assms]
  by (simp_all add: sym_value_def compute_terminal_def templates_def Let_def)

lemma template_starts:
  "\<exists>w. h_template_text = ''$source_header'' @ CHR 0x0A # w"
  "\<exists>w. c_template_text = ''$source_header'' @ CHR 0x0A # w"
  "\<exists>w. source_header_text =
     (''/**'' @ CHR 0x0A # '' * '' @ CHR 0x5C # ''file '') @ ''$filename'' @ CHR 0x0A # w"
  unfolding h_template_text_def c_template_text_def source_header_text_def nl_join.simps
  by (blast, blast, simp)

lemma template_loops:
  assumes t: "SymbolTable_init op datetime Map.empty = Inr t" and f: "o_OutputFile op = Some ''$filename''"
    and x: "sym_value op t x = Inr (Some (''$source_header'' @ CHR 0x0A # w))" "is_id x" "x \<noteq> ''if''"
    and s: "no_id_char s" and st: "coherent op t (p_sym st)" "at_input (p_lex st) (CHR ''$'' # x @ s)"
  shows "parse_data (getTerminal op) argv0 n True st = None"
proof -
  have ids: "is_id ''source_header''" "is_id ''filename''" "no_id_char (CHR 0x0A # v)" for v
    by (simp_all add: is_id_def no_id_char_def is_id_char_def is_alpha_def is_digit_def)
  note vals = loop_values(3,4) [OF t]
  obtain st1 where st1: "parse_data (getTerminal op) argv0 (Suc (Suc (Suc n))) True st =
      parse_data (getTerminal op) argv0 (Suc (Suc n)) True st1" "coherent op t (p_sym st1)"
    "at_input (p_lex st1) (CHR ''$'' # ''source_header'' @ CHR 0x0A # w @ s)"
    using symtab.parse_data_sym [OF st(1) x(1,3) st(2) x(2) s, of argv0 "Suc (Suc n)"] by auto
  obtain v where v: "source_header_text = (''/**'' @ CHR 0x0A # '' * '' @ CHR 0x5C # ''file '') @ ''$filename'' @ CHR 0x0A # v"
    using template_starts(3) by blast
  obtain st2 where st2: "parse_data (getTerminal op) argv0 (Suc (Suc n)) True st1 =
      parse_data (getTerminal op) argv0 (Suc n) True st2" "coherent op t (p_sym st2)"
    "at_input (p_lex st2) (source_header_text @ CHR 0x0A # w @ s)"
    using symtab.parse_data_sym [OF st1(2) vals(1) _ st1(3) ids(1,3), of argv0 "Suc n"] by auto
  let ?p = "''/**'' @ CHR 0x0A # '' * '' @ CHR 0x5C # ''file ''"
  let ?s = "CHR 0x0A # v @ CHR 0x0A # w @ s"
  let ?lx = "(p_lex st2)\<lparr>input_str := CHR ''$'' # ''filename'' @ ?s, lex_text := ?p\<rparr>"
  have "peek (p_lex st2) = (tok_gibberish, ?lx\<lparr>next_token := Some tok_gibberish\<rparr>)"
  proof -
    have "at_input (p_lex st2) (CHR ''/'' # tl ?p @ CHR ''$'' # ''filename'' @ ?s)"
      using st2(3) by (simp add: v)
    moreover have "plain (CHR ''/'' # tl ?p)" by simp
    ultimately show ?thesis
      using peek_plain_then by simp
  qed
  moreover have a: "next_token ?lx = None" "at_input ?lx (CHR ''$'' # ''filename'' @ ?s)"
    using st2(3) by (simp_all add: at_input_def)
  ultimately have "parse_data (getTerminal op) argv0 (Suc n) True st2 =
      parse_data (getTerminal op) argv0 n True (st2\<lparr>p_lex := ?lx, p_out := p_out st2 @ ?p\<rparr>)"
    using parse_data_text [of st2 "Some tok_gibberish" ?lx "getTerminal op" argv0 n] by simp
  also have "\<dots> = None"
    using a(2) st2(2) by (intro parse_loops [OF vals(2) [OF f] ids(2) _ _ _ ids(3)]) simp_all
  finally have "parse_data (getTerminal op) argv0 (Suc (Suc (Suc n))) True st = None"
    using st1(1) st2(1) by simp
  moreover have "le_run (parse_data (getTerminal op) argv0 n True st)
      (parse_data (getTerminal op) argv0 (Suc (Suc (Suc n))) True st)"
    by (intro le_blocksD le_blocks_all) simp
  ultimately show ?thesis by (simp add: le_run_def)
qed

text \<open>C15: with the output file \<open>$filename\<close> the generation of a header or of C code never ends, on any
  otherwise acceptable command line: the value of the terminal is its own name.\<close>

theorem filename_loops:
  assumes "validate argv0 v args Options_init = Inr (err, op)" and "\<not> v_verbose v"
    and "o_Action op \<in> {Generate_H, Generate_C, Generate_C_Main}"
    and "o_OutputFile op = Some ''$filename''" and "o_IncludeFile op \<noteq> Some []"
  shows "main argv0 n datetime files writable v args = None"
proof -
  have acc: "op = accepted_options v"
    using assms(1) validate_result [of v args argv0] by (auto split: if_splits)
  have op: "\<not> o_Verbose op"
    by (simp add: acc accepted_options_def assms(2))
  obtain t where t: "SymbolTable_init op datetime Map.empty = Inr t"
    using symbol_table_init_ok [OF assms(5)] by blast
  define s where "s = (if o_Action op = Generate_C_Main then CHR 0x0A # CHR 0x0A # ''$main_template'' else [])"
  define x where "x = (if o_Action op = Generate_H then ''h_template'' else ''c_template'')"
  have x: "generate_input (o_Action op) = Some (CHR ''$'' # x @ s)" "no_id_char s"
    "x = ''h_template'' \<or> x = ''c_template''"
    using assms(3)
    by (auto simp: generate_input_def x_def s_def no_id_char_def is_id_char_def is_alpha_def is_digit_def)
  then have id: "is_id x" "x \<noteq> ''if''"
    by (auto simp: is_id_def is_id_char_def is_alpha_def is_digit_def)
  obtain w where val: "sym_value op t x = Inr (Some (''$source_header'' @ CHR 0x0A # w))"
    using x(3) loop_values(1,2) [OF t] template_starts(1,2) by metis
  let ?st = "(MacroParser_init Lexer_init t)\<lparr>p_lex := set_str (CHR ''$'' # x @ s) Lexer_init, p_out := []\<rparr>"
  have "parse_data (getTerminal op) argv0 n True ?st = None"
    by (rule template_loops [OF t assms(4) val id x(2)])
      (simp_all add: MacroParser_init_def coherent_refl at_input_def set_str_def Lexer_init_def)
  then have "run_parse argv0 n op (CHR ''$'' # x @ s) (MacroParser_init Lexer_init t) = None"
    by (simp add: run_parse_def parse_def MacroParser_init_def)
  then show ?thesis
    using assms(3) op x(1)
    by (elim insertE emptyE) (simp_all add: main_def assms(1) run_action_def new_parser_def t)
qed

definition filename_values :: opt_values where
  "filename_values = c_values\<lparr>v_output_file := Some ''$filename''\<rparr>"

theorem filename_loops_witness:
  "main ''pycrc'' 1000 ''Mon'' (\<lambda>_. None) (\<lambda>_. False) filename_values [] = None"
proof -
  have low: "py_lower ''c'' = ''c''" "py_lower ''table-driven'' = ''table-driven''"
    "py_upper ''C99'' = ''C99''"
    by (simp_all add: py_lower_def py_upper_def char_lower_def char_upper_def)
  then have acc: "acceptable filename_values []" "chosen_action filename_values = Generate_C"
    by (simp_all add: acceptable_def default_values_def tiw_ok_def width_ok_def algo_mask_def
        std_name_def generate_ok_def generate_action_def chosen_action_def action_count_def
        params_given_def ccitt_values_def c_values_def filename_values_def)
  obtain err where v: "validate ''pycrc'' filename_values [] Options_init =
      Inr (err, accepted_options filename_values)"
    using validate_result [of filename_values "[]" "''pycrc''"] acc by auto
  show ?thesis
    by (rule filename_loops [OF v])
      (simp_all add: accepted_options_def acc, simp_all add: filename_values_def c_values_def
        ccitt_values_def default_values_def)
qed

end
