(* ===== verification/GenWrites.thy ===== *)
theory GenWrites
  imports TemplateItems GenEnds
begin

text \<open>
  Code generation succeeds.  Every value of the symbol table is the text of a well-formed template
  as long as the texts that the user supplies contain none of the special sequences of the macro
  language; so the generated file is what the template stands for, and no exception is raised.
\<close>

section \<open>The values of the symbol table\<close>

lemma clean_template: "clean v \<Longrightarrow> template_text v"
  by (rule template_textI [of "[Lit v]"]) simp_all

lemma plain_template: "plain v \<Longrightarrow> template_text v"
  by (simp add: clean_template clean_plain)

definition clean_outside :: "options \<Rightarrow> string \<Rightarrow> bool" where
  "clean_outside op datetime \<longleftrightarrow> list_all clean (outside_texts op datetime)"

lemma clean_dollar_free: "clean s \<Longrightarrow> dollar_free s"
  by (induction s rule: clean.induct) simp_all

lemma clean_outside_no_dollar: "clean_outside op datetime \<Longrightarrow> no_dollar op datetime"
  by (auto simp: clean_outside_def no_dollar_def list_all_iff clean_dollar_free)

lemma clean_outsideD:
  assumes "clean_outside op datetime"
  shows "clean datetime" "clean (o_SymbolPrefix op)"
    "o_OutputFile op = Some s \<Longrightarrow> clean s" "o_CrcType op = Some s \<Longrightarrow> clean s"
    "o_IncludeFile op = Some s \<Longrightarrow> clean s" "o_CStd op = Some s \<Longrightarrow> clean s"
  using assms by (auto simp: clean_outside_def outside_texts_def)

lemmas clean_pretty = plain_pretty [THEN clean_plain]

lemma clean_dec: "clean (py_dec i)"
  using clean_pretty(1) [of "Some i"] by (simp add: pretty_str_def)

lemma clean_prefix: "clean (s @ t) \<Longrightarrow> clean t" 
  by (induction s) (auto dest: clean_Cons)

lemma clean_hdrprotection: "clean (pretty_hdrprotection op)"
proof -
  have alpha: "is_alpha (char_upper c)" if "is_alpha c" for c
    using that by (auto simp: is_alpha_def char_upper_def Let_def split: if_splits)
  let ?tr = "\<lambda>c. if is_alpha c then char_upper c else CHR ''_''"
  have "plain (map ?tr s)" for s
  proof (induction s)
    case (Cons c s)
    have "?tr c \<noteq> CHR ''$'' \<and> ?tr c \<noteq> CHR ''{'' \<and> ?tr c \<noteq> CHR '':''"
      using alpha [of c] by (auto simp: is_alpha_def)
    with Cons show ?case by simp
  qed simp
  then show ?thesis
    by (intro clean_plain) (simp add: pretty_hdrprotection_def Let_def)
qed

lemma clean_header_filename:
  assumes "\<And>s. f = Some s \<Longrightarrow> clean s"
  shows "clean (header_filename f)"
proof (cases f)
  case (Some s)
  then have s: "clean s" using assms by blast
  show ?thesis
  proof (cases "drop (length s - 2) s = ''.c''")
    case True
    then have "s = take (length s - 2) s @ ''.c''"
      by (metis append_take_drop_id)
    then obtain u where u: "s = u @ ''.c''" by blast
    have "clean (u @ ''.h'')"
      using s unfolding u by (induction u rule: clean.induct) auto
    then show ?thesis
      using True by (simp add: Some header_filename_def u butlast_append)
  next
    case False
    then show ?thesis
      using s by (simp add: Some header_filename_def clean_append)
  qed
qed (simp add: header_filename_def)

lemma clean_include_file:
  assumes "clean_outside op datetime" and "get_include_file op = Inr (Some f)"
  shows "clean f"
proof -
  have "clean (c # u @ [CHR 0x22])" if "clean (c # u)" for c u
    using clean_append [OF that, of "[CHR 0x22]"] by simp
  then show ?thesis
    using assms(2) clean_outsideD(5) [OF assms(1)]
    by (auto simp: get_include_file_def split: option.splits list.splits if_splits)
qed

lemma param_terminals_template:
  assumes "clean_outside op datetime"
  shows "\<forall>(n, v) \<in> set (param_terminals op datetime). template_text v"
  using clean_outsideD [OF assms] clean_header_filename [of "o_OutputFile op"]
  by (auto simp: param_terminals_def Let_def clean_pretty clean_dec intro!: clean_template split: option.split)

lemma cfg_terminals_template: "\<forall>(n, v) \<in> set cfg_terminals. template_text v"
  using cfg_width_template cfg_poly_template cfg_poly_shifted_template cfg_reflect_in_template
    cfg_xor_in_template cfg_reflect_out_template cfg_xor_out_template cfg_table_idx_width_template
    cfg_table_width_template cfg_mask_template cfg_mask_shifted_template cfg_msb_mask_template
    cfg_msb_mask_shifted_template cfg_shift_template
  by (simp add: cfg_terminals_def)

lemma name_terminals_template:
  assumes "clean_outside op datetime" and "get_include_file op = Inr inc"
  shows "\<forall>(n, v) \<in> set (name_terminals op inc). (\<forall>s. v = Some s \<longrightarrow> template_text s) \<and>
    (v = None \<longrightarrow> n = ''include_file'' \<or> n = ''c_std'')"
proof -
  have "clean (get_underlying_crc_t op)"
    using clean_outsideD(4) [OF assms(1)] by (auto simp: get_underlying_crc_t_def split: option.split)
  then show ?thesis
    using clean_outsideD [OF assms(1)] clean_include_file [OF assms(1)] assms(2)
      c_bool_template c_true_template c_false_template
    by (auto simp: name_terminals_def clean_pretty clean_append clean_template)
qed

lemma templates_template: "\<forall>(n, v) \<in> set templates. template_text v"
  using crc_final_value_template h_template_template source_header_template crc_reflect_doc_template
    crc_reflect_function_def_template crc_reflect_function_body_template crc_table_gen_doc_template
    crc_table_gen_function_def_template crc_init_doc_template crc_init_function_def_template
    crc_update_doc_template crc_update_function_def_template crc_finalize_doc_template
    crc_finalize_function_def_template c_template_template c_table_template c_bit_by_bit_template
    c_bit_by_bit_fast_template c_table_driven_template main_template_template getopt_template_template
  by (simp add: templates_def)

text \<open>The values that are computed from the numbers.\<close>

lemma init_crc_ok:
  assumes "options_ok op" and "o_Width op = Some w"
  shows "\<exists>c. init_crc op w p xi = Inr c"
proof -
  have "0 < w" "0 \<le> o_TableIdxWidth op"
    using options_okD(1,4) [OF assms(1)] by (auto simp: assms(2))
  then have "init_crc op w p xi \<noteq> Inl e" for e
    by (auto simp: init_crc_def crc_init_Inl_iff)
  then show ?thesis by (cases "init_crc op w p xi") auto
qed

lemma bind_res_ok:
  assumes "\<exists>c. r = Inr c" and "\<And>c. \<exists>v. f c = Inr v \<and> P v"
  shows "\<exists>v. bind_res r f = Inr v \<and> P v"
  using assms by auto

lemma init_value_ok:
  assumes "options_ok op"
  shows "\<exists>v. get_init_value op = Inr v \<and> (\<forall>s. v = Some s \<longrightarrow> plain s)"
  unfolding get_init_value_def Let_def
  by (auto simp: plain_pretty split: option.split intro!: bind_res_ok init_crc_ok [OF assms])

lemma table_init_ok:
  assumes "options_ok op" and "o_TableWidth op = 2 ^ nat (o_TableIdxWidth op)"
  shows "\<exists>tx. get_table_init op = Inr tx \<and> plain tx"
proof (cases "o_Algorithm op = 4 \<and> o_Width op \<noteq> None \<and> o_Poly op \<noteq> None \<and> o_ReflectIn op \<noteq> None")
  case True
  then show ?thesis
    using table_text_entries [OF assms(1)] assms(2) by fastforce
next
  case False
  then show ?thesis
    by (auto simp: get_table_init_def split: option.split)
qed

lemma template_append:
  assumes "template_text u" and "template_text v" and "no_id_char v"
  shows "template_text (u @ v)"
proof -
  obtain a b where "u = unparse a" "items_ok a" "items_safe known_name valued_name [] a"
    "v = unparse b" "items_ok b" "items_safe known_name valued_name [] b"
    using assms(1,2) by (auto simp: template_text_def)
  then show ?thesis
    using assms(3) by (intro template_textI [of "a @ b"]) (simp_all add: items_ok_append safe_append unparse_append)
qed

lemma template_front:
  assumes "clean u" and "template_text v"
  shows "template_text (u @ v)"
proof -
  obtain b where "v = unparse b" "items_ok b" "items_safe known_name valued_name [] b"
    using assms(2) by (auto simp: template_text_def)
  then show ?thesis
    using assms(1) by (intro template_textI [of "Lit u # b"]) simp_all
qed

lemma template_concat:
  assumes "\<forall>u \<in> set us. template_text u \<and> no_id_char u"
  shows "template_text (concat us)"
proof -
  have "template_text (concat us) \<and> no_id_char (concat us)"
    using assms
  proof (induction us)
    case Nil
    then show ?case by (simp add: plain_template no_id_char_def)
  next
    case (Cons u us)
    then show ?case by (simp add: template_append no_id_char_append)
  qed
  then show ?thesis by blast
qed

text \<open>The lines of the table-driven algorithm.\<close>

lemma shr_template:
  "template_text (''($cfg_width - $cfg_table_idx_width + $cfg_shift)'')"
  by (rule template_textI [of "[Lit ''('', Ref ''cfg_width'', Lit '' - '', Ref ''cfg_table_idx_width'',
      Lit '' + '', Ref ''cfg_shift'', Lit '')'']"]) (simp_all add: items_eval del: unparse.simps, simp)

lemma reg_template:
  "template_text (''$if ($crc_do_shift == True) {:($cfg_table_idx_width - $cfg_shift):} '' @
     ''$else {:$cfg_table_idx_width:}'')"
  by (rule template_textI [of "[Cond [[Cmp (Name ''crc_do_shift'') ''=='' (Word ''True'')]]
      [Lit ''('', Ref ''cfg_table_idx_width'', Lit '' - '', Ref ''cfg_shift'', Lit '')'']
      (Else [Ref ''cfg_table_idx_width''])]"]) (simp_all add: items_eval del: unparse.simps, simp)

lemma shifted_template:
  "template_text (''$if ($crc_do_shift == True) {:(crc >> $cfg_shift):} $else {:crc:}'')"
  by (rule template_textI [of "[Cond [[Cmp (Name ''crc_do_shift'') ''=='' (Word ''True'')]]
      [Lit ''(crc >> '', Ref ''cfg_shift'', Lit '')''] (Else [Lit ''crc''])]"])
    (simp_all add: items_eval del: unparse.simps, simp)

lemma ref_templates:
  "template_text ''$crc_table_mask''" "template_text ''$cfg_mask_shifted''" "template_text ''$cfg_table_idx_width''"
proof -
  have "template_text (CHR ''$'' # n)" if "valued_name n" "is_id n" "\<not> keyword n" for n
    using that by (intro template_textI [of "[Ref n]"]) (simp_all add: valued_name_def no_id_char_def)
  from this [of "''crc_table_mask''"] this [of "''cfg_mask_shifted''"] this [of "''cfg_table_idx_width''"]
  show "template_text ''$crc_table_mask''" "template_text ''$cfg_mask_shifted''"
    "template_text ''$cfg_table_idx_width''"
    by (simp_all add: items_eval)
qed

fun parts_ok :: "string list \<Rightarrow> bool" where
  "parts_ok [] = True"
| "parts_ok (p # ps) \<longleftrightarrow> (clean p \<or> template_text p \<and> no_id_char (concat ps)) \<and> parts_ok ps"

lemma template_parts: "parts_ok ps \<Longrightarrow> template_text (concat ps)"
  by (induction ps) (auto intro: template_front template_append plain_template)

lemma core_lines:
  fixes shr reg crc_shifted
  defines "reg \<equiv> ''$if ($crc_do_shift == True) {:($cfg_table_idx_width - $cfg_shift):} '' @
      ''$else {:$cfg_table_idx_width:}''"
    and "crc_shifted \<equiv> ''$if ($crc_do_shift == True) {:(crc >> $cfg_shift):} $else {:crc:}''"
  assumes "clean i" and "template_text shr" and "clean d"
  shows "template_text (concat [i, ''tbl_idx = ((crc >> '', shr, '') ^ *data) & '', ''$crc_table_mask'', '';'', nl])"
    and "template_text (concat [i, ''crc = (crc_table[tbl_idx] ^ (crc << '', reg, '')) & '',
      ''$cfg_mask_shifted'', '';'', nl])"
    and "template_text (concat [i, ''tbl_idx = (crc >> '', shr, '') ^ (*data >> '', d, '');'', nl])"
    and "template_text (concat [i, ''crc = crc_table[tbl_idx & '', ''$crc_table_mask'', ''] ^ (crc << '', reg,
      '');'', nl])"
    and "template_text (concat [i, ''tbl_idx = ('', crc_shifted, '' ^ *data) & '', ''$crc_table_mask'', '';'', nl])"
    and "template_text (concat [i, ''crc = (crc_table[tbl_idx] ^ (crc >> '', ''$cfg_table_idx_width'', '')) & '',
      ''$cfg_mask_shifted'', '';'', nl])"
    and "template_text (concat [i, ''tbl_idx = '', crc_shifted, '' ^ (*data >> ('', d, '' * '',
      ''$cfg_table_idx_width'', ''));'', nl])"
    and "template_text (concat [i, ''crc = crc_table[tbl_idx & '', ''$crc_table_mask'', ''] ^ (crc >> '',
      ''$cfg_table_idx_width'', '');'', nl])"
proof -
  have t: "template_text reg" "template_text crc_shifted"
    using reg_template shifted_template by (simp_all only: reg_def crc_shifted_def)
  note parts = template_parts ref_templates t assms(3-5)
  have stop: "\<not> is_id_char (CHR '')'')" "\<not> is_id_char (CHR '';'')" "\<not> is_id_char (CHR ''}'')"
    "\<not> is_id_char (CHR '']'')" "\<not> is_id_char (CHR '' '')"
    by (simp_all add: is_id_char_def is_alpha_def is_digit_def)
  show "template_text (concat [i, ''tbl_idx = ((crc >> '', shr, '') ^ *data) & '', ''$crc_table_mask'', '';'', nl])"
    by (rule template_parts) (simp add: parts no_id_char_def stop)
  show "template_text (concat [i, ''crc = (crc_table[tbl_idx] ^ (crc << '', reg, '')) & '',
      ''$cfg_mask_shifted'', '';'', nl])"
    by (rule template_parts) (simp add: parts no_id_char_def stop)
  show "template_text (concat [i, ''tbl_idx = (crc >> '', shr, '') ^ (*data >> '', d, '');'', nl])"
    by (rule template_parts) (simp add: parts no_id_char_def stop)
  show "template_text (concat [i, ''crc = crc_table[tbl_idx & '', ''$crc_table_mask'', ''] ^ (crc << '', reg,
      '');'', nl])"
    by (rule template_parts) (simp add: parts no_id_char_def stop)
  show "template_text (concat [i, ''tbl_idx = ('', crc_shifted, '' ^ *data) & '', ''$crc_table_mask'', '';'', nl])"
    by (rule template_parts) (simp add: parts no_id_char_def stop)
  show "template_text (concat [i, ''crc = (crc_table[tbl_idx] ^ (crc >> '', ''$cfg_table_idx_width'', '')) & '',
      ''$cfg_mask_shifted'', '';'', nl])"
    by (rule template_parts) (simp add: parts no_id_char_def stop)
  show "template_text (concat [i, ''tbl_idx = '', crc_shifted, '' ^ (*data >> ('', d, '' * '',
      ''$cfg_table_idx_width'', ''));'', nl])"
    by (rule template_parts) (simp add: parts no_id_char_def stop)
  show "template_text (concat [i, ''crc = crc_table[tbl_idx & '', ''$crc_table_mask'', ''] ^ (crc >> '',
      ''$cfg_table_idx_width'', '');'', nl])"
    by (rule template_parts) (simp add: parts no_id_char_def stop)
qed

lemma core_algorithm_template:
  assumes "o_TableIdxWidth op \<in> {1, 2, 4, 8}"
  shows "template_text (get_table_core_algorithm_ni op)" "template_text (get_table_core_algorithm_ri op)"
proof -
  have i: "clean (loop_indent op)" "no_id_char (loop_indent op @ s)" for s
    by (simp_all add: loop_indent_def no_id_char_space)
  define shr where "shr = (case o_Width op of
                None \<Rightarrow> ''($cfg_width - $cfg_table_idx_width + $cfg_shift)''
              | Some w \<Rightarrow>
                  if w < 8 then py_dec (w - o_TableIdxWidth op + 8 - w)
                  else py_dec (w - o_TableIdxWidth op))"
  have shr: "template_text shr"
    using shr_template by (auto simp: shr_def clean_dec clean_template split: option.split)
  note l = core_lines [OF i(1) shr clean_dec]
  have two: "template_text (concat (u # us) @ concat (loop_indent op # vs))"
    if "template_text (concat (u # us))" "template_text (concat (loop_indent op # vs))" for u us vs
    using template_append [OF that] i(2) by simp
  have none: "template_text []" by (simp add: plain_template)
  have rounds: "template_text (concat (map line ks))"
    if "\<And>k. template_text (line k) \<and> no_id_char (line k)" for line and ks :: "nat list"
    using that by (intro template_concat) auto
  note whole = two [OF l(1,2), simplified] two [OF l(3,4), simplified] two [OF l(5,6), simplified]
    two [OF l(7,8), simplified]
  show "template_text (get_table_core_algorithm_ni op)"
    unfolding get_table_core_algorithm_ni_def Let_def shr_def [symmetric]
    by (auto intro!: rounds simp: none i(2) whole)
  show "template_text (get_table_core_algorithm_ri op)"
    unfolding get_table_core_algorithm_ri_def Let_def
    by (auto intro!: rounds simp: none i(2) whole)
qed

section \<open>What the names stand for\<close>

text \<open>The contract of code generation.\<close>

definition generates :: "options \<Rightarrow> string \<Rightarrow> bool" where
  "generates op datetime \<longleftrightarrow> options_ok op \<and> o_Action op \<in> {Generate_H, Generate_C, Generate_C_Main} \<and>
     o_IncludeFile op \<noteq> Some [] \<and> clean_outside op datetime"

lemma generatesD:
  assumes "generates op datetime"
  shows "options_ok op" "o_TableIdxWidth op \<in> {1, 2, 4, 8}"
    "o_TableWidth op = 2 ^ nat (o_TableIdxWidth op)"
    "clean_outside op datetime"
proof -
  have op: "options_ok op" "o_Action op \<in> {Generate_H, Generate_C, Generate_C_Main}"
    using assms by (simp_all add: generates_def)
  from op(1) have "o_Action op \<in> {Generate_H, Generate_C, Generate_C_Main} \<longrightarrow>
      o_Algorithm op \<in> {Algo_Bit_by_Bit, Algo_Bit_by_Bit_Fast, Algo_Table_Driven} \<and>
      o_TableWidth op = 2 ^ nat (o_TableIdxWidth op)"
    unfolding options_ok_def by blast
  with op(2) show "o_TableWidth op = 2 ^ nat (o_TableIdxWidth op)" by blast
  show "options_ok op" "o_TableIdxWidth op \<in> {1, 2, 4, 8}" "clean_outside op datetime"
    using op(1) options_okD(4) [OF op(1)] assms by (simp_all add: generates_def)
qed

lemma compute_terminal_template:
  assumes "generates op datetime" and "compute_terminal op n = Inr (Some v)"
  shows "template_text v"
proof -
  note op = generatesD [OF assms(1)]
  have nums: "get_table_init op = Inr tx \<Longrightarrow> template_text tx"
    "get_init_value op = Inr (Some tx) \<Longrightarrow> template_text tx" for tx
    using table_init_ok [OF op(1,3)] init_value_ok [OF op(1)] by (auto intro: plain_template)
  have "map_of templates n = Some v \<Longrightarrow> template_text v"
    using templates_template by (auto dest: map_of_SomeD)
  then show ?thesis
    using assms(2) core_algorithm_template [OF op(2)]
    by (auto simp: compute_terminal_def Let_def bind_res_Inr_iff nums plain_pretty plain_template
        clean_template clean_hdrprotection split: if_splits option.splits)
qed

lemma compute_terminal_constant:
  "n \<notin> set (take 13 computed_names) \<Longrightarrow> compute_terminal op n = Inr (map_of templates n)"
  by (simp add: computed_names_def compute_terminal_def)

lemma compute_terminal_known:
  assumes "generates op datetime" and "n \<in> set computed_names"
  shows "\<exists>v. compute_terminal op n = Inr (Some v)"
proof -
  note op = generatesD [OF assms(1)]
  have "\<exists>tx. get_table_init op = Inr tx" "\<exists>v. get_init_value op = Inr v"
    using table_init_ok [OF op(1,3)] init_value_ok [OF op(1)] by blast+
  then have "list_all (\<lambda>n. \<exists>v. compute_terminal op n = Inr (Some v)) (take 13 computed_names)"
    by (auto simp: computed_names_def compute_terminal_def Let_def)
  moreover have "list_all (\<lambda>n. map_of templates n \<noteq> None) (drop 13 computed_names)"
    by (simp add: computed_names_def templates_def)
  moreover have "n \<in> set (take 13 computed_names) \<or> n \<in> set (drop 13 computed_names)"
    using assms(2) by (metis Un_iff append_take_drop_id set_append)
  ultimately show ?thesis
    using compute_terminal_constant [of n op] by (cases "n \<in> set (take 13 computed_names)") (auto simp: list_all_iff)
qed

lemma table_has:
  assumes "SymbolTable_init op datetime Map.empty = Inr t" and "n \<in> set table_names"
  shows "t n \<noteq> None"
proof -
  obtain f where t: "t = foldl (\<lambda>t (k, v). t(k \<mapsto> v)) Map.empty
      (map (\<lambda>(k, v). (k, Some v)) (param_terminals op datetime @ cfg_terminals) @ name_terminals op f)"
    using assms(1) by (auto simp: SymbolTable_init_def bind_res_Inr_iff)
  have has: "foldl (\<lambda>t (k, v). t(k \<mapsto> v)) t0 xs n \<noteq> None" if "n \<in> fst ` set xs \<or> t0 n \<noteq> None"
    for xs :: "(string \<times> string option) list" and t0
    using that by (induction xs arbitrary: t0) auto
  have "set table_names \<subseteq> fst ` set (map (\<lambda>(k, v). (k, Some v)) (param_terminals op datetime @ cfg_terminals) @
      name_terminals op f)"
    by (simp add: table_names_def param_terminals_def cfg_terminals_def name_terminals_def Let_def)
  then show ?thesis
    unfolding t using assms(2) by (intro has) blast
qed

lemma sym_value_known:
  assumes "generates op datetime" and "SymbolTable_init op datetime Map.empty = Inr t" and "known_name n"
  shows "\<exists>v. sym_value op t n = Inr v \<and> (\<forall>s. v = Some s \<longrightarrow> template_text s) \<and>
    (valued_name n \<longrightarrow> v \<noteq> None)"
proof -
  have n: "n \<noteq> []"
    using assms(3) by (auto simp: known_name_def symbol_names_def table_names_def computed_names_def)
  note op = generatesD [OF assms(1)]
  show ?thesis
  proof (cases "t n")
    case None
    then have "n \<in> set computed_names"
      using table_has [OF assms(2), of n] assms(3) by (auto simp: known_name_def symbol_names_def)
    then obtain v where "compute_terminal op n = Inr (Some v)"
      using compute_terminal_known [OF assms(1)] by blast
    then show ?thesis
      using None n compute_terminal_template [OF assms(1)] by (auto simp: sym_value_def)
  next
    case (Some v)
    note symbol_table_entries [OF assms(2) Some]
    then have "(\<forall>s. v = Some s \<longrightarrow> template_text s) \<and> (valued_name n \<longrightarrow> v \<noteq> None)"
      using param_terminals_template [OF op(4)] cfg_terminals_template name_terminals_template [OF op(4)]
      by (fastforce simp: valued_name_def)
    then show ?thesis
      using Some n by (simp add: sym_value_def)
  qed
qed

text \<open>A table that the constructor made for code generation.\<close>

definition generating :: "options \<Rightarrow> sym_table \<Rightarrow> bool" where
  "generating op t0 \<longleftrightarrow>
     (\<exists>datetime. SymbolTable_init op datetime Map.empty = Inr t0 \<and> generates op datetime)"

lemma generating_safe: "generating op t0 \<Longrightarrow> safe_table op t0"
  by (auto simp: generating_def generates_def safe_table_def clean_outside_no_dollar)

interpretation macro_symtab: macro_source "getTerminal op" "\<lambda>t. coherent op t0 t \<and> generating op t0"
  "sym_value op t0" "charge (ranked_source.price (sym_value op t0) 6)" known_name valued_name for op t0
proof
  fix t n v assume t: "coherent op t0 t \<and> generating op t0"
  obtain datetime where init: "SymbolTable_init op datetime Map.empty = Inr t0" and op: "generates op datetime"
    using t by (auto simp: generating_def)
  note known = sym_value_known [OF op init, of n]
  show "known_name n \<Longrightarrow> \<exists>v. sym_value op t0 n = Inr v"
    using known by blast
  show "valued_name n \<Longrightarrow> sym_value op t0 n \<noteq> Inr None"
    using known by (auto simp: valued_name_def)
  show "known_name n \<Longrightarrow> sym_value op t0 n = Inr (Some v) \<Longrightarrow>
      \<exists>is. v = unparse is \<and> items_ok is \<and> items_safe known_name valued_name [] is"
    using known by (auto simp: template_text_def)
next
  fix t s m v assume "coherent op t0 t \<and> generating op t0" and "match_id s = Some m"
    and "sym_value op t0 (drop 1 m) = Inr (Some v)"
  then show "charge (ranked_source.price (sym_value op t0) 6) (v @ drop (length m) s) <
      charge (ranked_source.price (sym_value op t0) 6) s"
    using ranked_symtab.cost_expand [of op t0 t s m v] generating_safe by blast
qed (use symtab.value_known symtab.value_error ranked_symtab.cost_char in blast)+

section \<open>Generated files\<close>

text \<open>C5: the macro parser computes the meaning of the macro language.  Over the symbol table of the program, and
  whatever terminals are stored in it, parsing the text of a well-formed template that stands for a
  text returns without an exception, from some fuel on, and has put out exactly that text.\<close>

theorem parse_implements_macros:
  assumes "renders (sym_value op t0) True True k out" and "items_ok k"
    and "coherent op t0 (p_sym st)" and "lex_mode (p_lex st) = state_gibberish"
  shows "\<exists>N st'. p_out st' = out \<and> (\<forall>n \<ge> N. parse (getTerminal op) argv0 n (unparse k) st = ret (None, st'))"
  using symbol_source.parse_renders [OF symtab.symbol_source_axioms assms, of argv0] by (auto simp: goes_def)

text \<open>A template with a condition and a name.\<close>

definition width_items :: "item list" where
  "width_items = [Lit ''width '', Cond [[Cmp (Name ''crc_width'') ''!='' (Word ''Undefined'')]]
     [Ref ''crc_width''] (Else [Lit ''unknown''])]"

lemma width_items_renders:
  assumes "SymbolTable_init op datetime Map.empty = Inr t" and "o_Width op = Some 16"
  shows "renders (sym_value op t) True True width_items ''width 16''"
proof -
  have dec: "py_dec 16 = ''16''"
    by (simp add: py_dec_def nat_str.simps digit_char_def char_of_eq_iff)
  have val: "sym_value op t ''crc_width'' = Inr (Some ''16'')"
    using table_entries(1) [OF assms(1)] by (simp add: sym_value_def assms(2) pretty_str_def dec)
  have "\<not> is_hex_str ''Undefined''" "\<not> is_int_str ''Undefined''"
    by (simp_all add: is_hex_str_def is_int_str_def chomp_def is_0x_def is_digit_def)
  moreover have "\<exists>i. get_num (Term_str ''16'') = Inr i"
    using hex_str_value [of "''16''"] int_str_value [of "''16''"] by (auto simp: get_num_def)
  ultimately have "compare_terms ''!='' (Term_str ''16'') (Term_str ''Undefined'') = Inr (Some True)"
    by (auto simp: compare_terms_def get_num_def compare_with_def split: option.split)
  then have cond: "or_holds (sym_value op t) [[Cmp (Name ''crc_width'') ''!='' (Word ''Undefined'')]] True"
    by (simp add: name_value_def val ex_bool_eq)
  have lit: "renders (sym_value op t) False True [Lit ''16''] ''16''"
    using renders_else_renders.Lit [OF renders_else_renders.Nil, of "sym_value op t" False True "''16''"] by simp
  have "renders (sym_value op t) False (True \<and> True) (drop_newline False [Ref ''crc_width'']) ''16''"
    using renders_else_renders.Ref [of "sym_value op t" "''crc_width''" "[Lit ''16'']" False "[]" "''16''"] val lit
    by simp
  moreover have "else_renders (sym_value op t) (True \<and> \<not> True) (Else [Lit ''unknown'']) []"
    using renders_else_renders.Lit [OF renders_else_renders.Nil, of "sym_value op t" False False "''unknown''"]
    by (auto intro: renders_else_renders.Else)
  moreover have "renders (sym_value op t) True True (after_cond True (Else [Lit ''unknown'']) []) []"
    by (simp add: after_cond_def renders_else_renders.Nil)
  ultimately have "renders (sym_value op t) True True
      [Cond [[Cmp (Name ''crc_width'') ''!='' (Word ''Undefined'')]] [Ref ''crc_width''] (Else [Lit ''unknown''])]
      (''16'' @ [] @ [])"
    by (rule renders_else_renders.Cond [OF cond])
  from renders_else_renders.Lit [OF this, of "''width ''"] show ?thesis
    by (simp add: width_items_def)
qed

theorem parse_implements_macros_witness:
  "\<exists>t N. \<forall>n \<ge> N. \<exists>st. parse (getTerminal (accepted_options c_values)) ''pycrc'' n
     ''width $if ($crc_width != Undefined) {:$crc_width:} $else {:unknown:}'' (MacroParser_init Lexer_init t) =
       ret (None, st) \<and> p_out st = ''width 16''"
proof -
  obtain t where t: "SymbolTable_init (accepted_options c_values) ''Mon'' Map.empty = Inr t"
    using symbol_table_init_ok [of "accepted_options c_values"] by (auto simp: c_fields)
  have w: "o_Width (accepted_options c_values) = Some 16"
    by (simp add: c_values_def accepted_options_def ccitt_values_def default_values_def)
  have "items_ok width_items"
    by (simp add: width_items_def items_eval no_id_char_def)
  from parse_implements_macros [OF width_items_renders [OF t w] this, of "MacroParser_init Lexer_init t" "''pycrc''"]
  show ?thesis
    by (intro exI [of _ t]) (fastforce simp: MacroParser_init_def Lexer_init_def coherent_refl width_items_def)
qed

definition generate_items :: "action \<Rightarrow> item list" where
  "generate_items act =
     (case act of
        Generate_H \<Rightarrow> [Ref ''h_template'']
      | Generate_C \<Rightarrow> [Ref ''c_template'']
      | Generate_C_Main \<Rightarrow> [Ref ''c_template'', Lit (nl @ nl), Ref ''main_template'']
      | _ \<Rightarrow> [])"

lemma generate_items_input:
  assumes "act \<in> {Generate_H, Generate_C, Generate_C_Main}"
  shows "generate_input act = Some (unparse (generate_items act))" "items_ok (generate_items act)"
    "items_safe known_name valued_name [] (generate_items act)"
  using assms by (auto simp: generate_input_def generate_items_def items_eval no_id_char_def)

lemma parse_generates:
  assumes "generates op datetime" and "SymbolTable_init op datetime Map.empty = Inr t"
  shows "\<exists>out N st'. renders (sym_value op t) True True (generate_items (o_Action op)) out \<and> p_out st' = out \<and>
    (\<forall>n \<ge> N. run_parse argv0 n op (the (generate_input (o_Action op))) (MacroParser_init Lexer_init t) =
      ret (None, st'))"
proof -
  have act: "o_Action op \<in> {Generate_H, Generate_C, Generate_C_Main}"
    using assms(1) by (simp add: generates_def)
  have "coherent op t t \<and> generating op t"
    using assms by (auto simp: generating_def coherent_refl)
  then show ?thesis
    using macro_symtab.parse_total [of op t "MacroParser_init Lexer_init t", OF _ _ generate_items_input(2,3) [OF act], of argv0]
    by (auto simp: goes_def run_parse_def generate_items_input(1) [OF act] MacroParser_init_def Lexer_init_def)
qed

text \<open>C4: the generation of a header or of C code, on every accepted command line that asks for one, if
  the texts that the user supplies and the date contain none of the special sequences of the macro
  language.  With an empty name of an include file the program ends with \<open>IndexError\<close>; otherwise with
  \<open>--verbose\<close> it ends with exit status 1, and nothing is written.  In every other case the generation does
  not fail: the template has a meaning and exactly that is written, to standard output or to the file
  given with \<open>-o\<close>, and if the file cannot be written the program ends with exit status 1; no macro error,
  missing terminal or type error can occur.\<close>

theorem main_generates_code:
  assumes "validate argv0 v args Options_init = Inr (err, op)"
    and "o_Action op \<in> {Generate_H, Generate_C, Generate_C_Main}" and "clean_outside op datetime"
  shows "if o_IncludeFile op = Some []
    then \<forall>n. main argv0 n datetime files writable v args = raise_exn IndexError
    else \<exists>t out N. SymbolTable_init op datetime Map.empty = Inr t \<and>
      renders (sym_value op t) True True (generate_items (o_Action op)) out \<and>
      (\<forall>n \<ge> N. main argv0 n datetime files writable v args =
        (if v_verbose v then raise_exn (SystemExit 1 [])
         else case o_OutputFile op of
           None \<Rightarrow> ret (print_line out, None)
         | Some f \<Rightarrow>
             if writable f then ret ([], Some (f, out))
             else Some (exit_error argv0 [] (''cannot write to file '' @ f))))"
proof (cases "o_IncludeFile op = Some []")
  case True
  then show ?thesis
    using empty_include_raises [OF assms(1)] assms(2) by auto
next
  case False
  have acc: "acceptable v args" "op = accepted_options v"
    using assms(1) validate_result [of v args argv0] by (auto split: if_splits)
  have op: "o_Verbose op = v_verbose v"
    by (simp add: acc(2) accepted_options_def)
  have gen: "generates op datetime"
    using assms(2,3) False accepted_options_ok [OF acc(1)] acc(2) by (simp add: generates_def)
  obtain t where t: "SymbolTable_init op datetime Map.empty = Inr t"
    using symbol_table_init_ok [OF False] by blast
  obtain out N st' where out: "renders (sym_value op t) True True (generate_items (o_Action op)) out"
    "p_out st' = out" "\<And>n. N \<le> n \<Longrightarrow>
      run_parse argv0 n op (the (generate_input (o_Action op))) (MacroParser_init Lexer_init t) = ret (None, st')"
    using parse_generates [OF gen t, of argv0] by blast
  have "main argv0 n datetime files writable v args =
      (case o_OutputFile op of
         None \<Rightarrow> ret (print_line out, None)
       | Some f \<Rightarrow>
           if writable f then ret ([], Some (f, out))
           else Some (exit_error argv0 [] (''cannot write to file '' @ f)))" if "N \<le> n" "\<not> v_verbose v" for n
    using out(3) [OF that(1)] that(2) assms(2) op t out(2)
    by (elim insertE emptyE) (simp_all add: main_def assms(1) run_action_def new_parser_def generate_input_def
        generate_output_def ret_def split: option.split)
  moreover have "main argv0 n datetime files writable v args = raise_exn (SystemExit 1 [])"
    if "32 \<le> n" "v_verbose v" for n
    using verbose_exits [OF assms(1) that(2) False that(1)] by simp
  ultimately have "\<forall>n \<ge> max N 32. main argv0 n datetime files writable v args =
      (if v_verbose v then raise_exn (SystemExit 1 [])
       else case o_OutputFile op of
         None \<Rightarrow> ret (print_line out, None)
       | Some f \<Rightarrow>
           if writable f then ret ([], Some (f, out))
           else Some (exit_error argv0 [] (''cannot write to file '' @ f)))"
    by simp
  with t out(1) False show ?thesis
    by (simp only: if_False) blast
qed

theorem main_generates_code_witness:
  "\<exists>out N. \<forall>n \<ge> N. main ''pycrc'' n ''Mon'' (\<lambda>_. None) (\<lambda>_. False) c_values [] = ret (print_line out, None)"
proof -
  have low: "py_lower ''c'' = ''c''" "py_lower ''table-driven'' = ''table-driven''" "py_upper ''C99'' = ''C99''"
    by (simp_all add: py_lower_def py_upper_def char_lower_def char_upper_def)
  then have acc: "acceptable c_values []" "chosen_action c_values = Generate_C"
    by (simp_all add: acceptable_def default_values_def tiw_ok_def width_ok_def algo_mask_def std_name_def
        generate_ok_def generate_action_def chosen_action_def action_count_def params_given_def
        ccitt_values_def c_values_def)
  obtain err where v: "validate ''pycrc'' c_values [] Options_init = Inr (err, accepted_options c_values)"
    using validate_result [of c_values "[]" "''pycrc''"] acc by auto
  have act: "o_Action (accepted_options c_values) = Generate_C"
    by (simp add: accepted_options_def acc)
  have "\<not> v_verbose c_values"
    by (simp add: c_values_def ccitt_values_def default_values_def)
  moreover have "clean_outside (accepted_options c_values) ''Mon''"
    by (simp add: clean_outside_def outside_texts_def c_fields)
  ultimately show ?thesis
    using main_generates_code [OF v _ _, of "''Mon''" "\<lambda>_. None" "\<lambda>_. False"] act
    by (auto simp: c_fields)
qed

end
