(* ===== verification/FlowGraph.thy ===== *)
theory FlowGraph
  imports Prelude Complex_Main
begin

text \<open>
  Flow graphs of GNU Radio, as the programs under \<open>examples\<close> build them: a constructor of a
  hierarchical block creates blocks and issues a list of \<open>connect\<close> calls.  The model of a
  constructor is the record of what it passes to the library: its stream signatures, the blocks it
  creates with the arguments of their constructors, and its \<open>connect\<close> calls in order.

  The blocks of GNU Radio are code of the library.  Their stream signatures are a parameter \<open>lib\<close>
  of the theorems; \<open>gr_needs\<close> states which streams of each block the programs rely on, in the
  notation of the block's documentation, and \<open>provides lib\<close> that the library has them.  The
  signatures of the \<open>rfidbts\<close> blocks are read off their constructors under \<open>src/lib\<close>.
  Floating-point numbers are real numbers.
\<close>

section \<open>Streams and blocks\<close>

datatype item = Gr_complex | Gr_float | Gr_char | Peak_pair

text \<open>Least and greatest number of streams, and the items of the first streams; the last one is
  that of all further streams.\<close>

datatype io_sig = Io nat "nat option" "item list"

type_synonym signature = "io_sig \<times> io_sig"

fun port_item :: "io_sig \<Rightarrow> nat \<Rightarrow> item option" where
  "port_item (Io least greatest items) p =
     (if items \<noteq> [] \<and> (case greatest of None \<Rightarrow> True | Some m \<Rightarrow> p < m)
      then Some (items ! min p (length items - 1)) else None)"

fun admits :: "io_sig \<Rightarrow> nat \<Rightarrow> bool" where
  "admits (Io least greatest items) n \<longleftrightarrow>
     least \<le> n \<and> (case greatest of None \<Rightarrow> True | Some m \<Rightarrow> n \<le> m)"

abbreviation io_signature :: "nat \<Rightarrow> nat \<Rightarrow> item \<Rightarrow> io_sig" where
  "io_signature least greatest i \<equiv> Io least (Some greatest) [i]"

abbreviation no_streams :: io_sig where
  "no_streams \<equiv> Io 0 (Some 0) []"

abbreviation one :: "item \<Rightarrow> io_sig" where
  "one i \<equiv> io_signature 1 1 i"

text \<open>The blocks of the library with the arguments of their constructors.\<close>

datatype gr_block =
    Sub_ff
  | Sub_cc
  | Add_cc
  | Binary_slicer_fb
  | Complex_to_mag
  | Complex_to_mag_squared
  | Complex_to_real
  | Stream_to_streams item nat
  | Fir_filter_ccf int "real list"
  | Fir_filter_fff int "real list"
  | Fir_filter_ccc int "complex list"
  | Pfb_arb_resampler_ccf real "real list option" int real
  | Peak_detector2_fb real int real
  | Dc_blocker_cc int bool
  | Agc_cc real real real real
  | Moving_average_cc int complex int
  | Keep_one_in_n item int
  | Head item int
  | Multiply_const_cc complex
  | Vector_sink_f
  | File_sink item string
  | File_source item string bool
  | Throttle item real
  | Usrp_source_c
  | Usrp_sink_c
  | Uhd_source string
  | Uhd_sink string
  | Downlink_src int int int int int int int
  | Compare
  | Lock_time int int int
  | Find_pre_ff int int

text \<open>What the programs rely on: inputs and outputs.  The last four blocks are not of GNU Radio but of
  modules that the repository does not have; the last two are created and never connected.\<close>

abbreviation unconnected :: io_sig where
  "unconnected \<equiv> Io 1 (Some 0) []"

fun gr_needs :: "gr_block \<Rightarrow> signature" where
  "gr_needs Sub_ff = (io_signature 2 2 Gr_float, one Gr_float)"
| "gr_needs Sub_cc = (io_signature 2 2 Gr_complex, one Gr_complex)"
| "gr_needs Add_cc = (io_signature 2 2 Gr_complex, one Gr_complex)"
| "gr_needs Binary_slicer_fb = (one Gr_float, one Gr_char)"
| "gr_needs Complex_to_mag = (one Gr_complex, one Gr_float)"
| "gr_needs Complex_to_mag_squared = (one Gr_complex, one Gr_float)"
| "gr_needs Complex_to_real = (one Gr_complex, one Gr_float)"
| "gr_needs (Stream_to_streams i n) = (one i, io_signature n n i)"
| "gr_needs (Fir_filter_ccf d ts) = (one Gr_complex, one Gr_complex)"
| "gr_needs (Fir_filter_fff d ts) = (one Gr_float, one Gr_float)"
| "gr_needs (Fir_filter_ccc d cs) = (one Gr_complex, one Gr_complex)"
| "gr_needs (Pfb_arb_resampler_ccf r ts n a) = (one Gr_complex, one Gr_complex)"
| "gr_needs (Peak_detector2_fb t l a) = (one Gr_float, Io 1 (Some 2) [Gr_char, Gr_float])"
| "gr_needs (Dc_blocker_cc d l) = (one Gr_complex, one Gr_complex)"
| "gr_needs (Agc_cc r f g m) = (one Gr_complex, one Gr_complex)"
| "gr_needs (Moving_average_cc n c m) = (one Gr_complex, one Gr_complex)"
| "gr_needs (Keep_one_in_n i n) = (one i, one i)"
| "gr_needs (Head i n) = (one i, one i)"
| "gr_needs (Multiply_const_cc c) = (one Gr_complex, one Gr_complex)"
| "gr_needs Vector_sink_f = (one Gr_float, no_streams)"
| "gr_needs (File_sink i f) = (one i, no_streams)"
| "gr_needs (File_source i f r) = (no_streams, one i)"
| "gr_needs (Throttle i r) = (one i, one i)"
| "gr_needs Usrp_source_c = (no_streams, one Gr_complex)"
| "gr_needs Usrp_sink_c = (one Gr_complex, no_streams)"
| "gr_needs (Uhd_source a) = (no_streams, one Gr_complex)"
| "gr_needs (Uhd_sink a) = (one Gr_complex, no_streams)"
| "gr_needs (Downlink_src d c w t p r o1) = (no_streams, one Gr_complex)"
| "gr_needs Compare = (io_signature 2 2 Gr_float, one Gr_float)"
| "gr_needs (Lock_time a b c) = (unconnected, unconnected)"
| "gr_needs (Find_pre_ff a b) = (unconnected, unconnected)"

text \<open>The blocks of \<open>src/lib\<close>, with the signatures of their constructors.\<close>

datatype rfidbts_block =
    Pie_encoder int int int int int
  | Receive_gate real int
  | Elg_timing_cc real real int int real real real
  | Pick_peak
  | Peak_count_stream int int
  | Mux_slice_dice item
  | Packetizer
  | Orthogonal_decode

fun rfidbts_sig :: "rfidbts_block \<Rightarrow> signature" where
  "rfidbts_sig (Pie_encoder d t w c o1) = (no_streams, io_signature 1 1 Gr_complex)"
| "rfidbts_sig (Receive_gate t n) = (io_signature 1 1 Gr_complex, io_signature 1 1 Gr_complex)"
| "rfidbts_sig (Elg_timing_cc p s i o' d g1 g2) =
     (io_signature 1 1 Gr_complex, Io 1 (Some 2) [Gr_complex, Gr_float])"
| "rfidbts_sig Pick_peak = (io_signature 1 256 Peak_pair, no_streams)"
| "rfidbts_sig (Peak_count_stream n t) = (Io 2 (Some 2) [Gr_char, Gr_float], io_signature 1 1 Peak_pair)"
| "rfidbts_sig (Mux_slice_dice i) = (io_signature 1 256 i, io_signature 1 1 i)"
| "rfidbts_sig Packetizer = (io_signature 1 1 Gr_char, no_streams)"
| "rfidbts_sig Orthogonal_decode = (io_signature 1 1 Gr_complex, io_signature 1 1 Gr_char)"

text \<open>A block of the library, one of \<open>src/lib\<close>, or a hierarchical block of the programs.\<close>

datatype kind = Gr gr_block | Rfidbts rfidbts_block | Hier signature

fun kind_sig :: "(gr_block \<Rightarrow> signature) \<Rightarrow> kind \<Rightarrow> signature" where
  "kind_sig lib (Gr b) = lib b"
| "kind_sig lib (Rfidbts b) = rfidbts_sig b"
| "kind_sig lib (Hier s) = s"

text \<open>The message queues the programs create, with their capacity.\<close>

datatype msg_queue = Search_queue nat | Encoder_queue nat | Blocker_queue nat

section \<open>Hierarchical blocks\<close>

datatype 'b endpoint = Self | Block 'b

text \<open>A point of a \<open>connect\<close> call: a block stands for its port 0.\<close>

type_synonym 'b point = "'b endpoint \<times> nat"

abbreviation self :: "'b point" where
  "self \<equiv> (Self, 0)"

abbreviation blk :: "'b \<Rightarrow> 'b point" where
  "blk b \<equiv> (Block b, 0)"

abbreviation port :: "'b \<Rightarrow> nat \<Rightarrow> 'b point" where
  "port b p \<equiv> (Block b, p)"

record 'b hier_block =
  in_sig :: io_sig
  out_sig :: io_sig
  kind_of :: "'b \<Rightarrow> kind"
  connects :: "'b point list list"

abbreviation hier_sig :: "'b hier_block \<Rightarrow> signature" where
  "hier_sig h \<equiv> (in_sig h, out_sig h)"

text \<open>\<open>connect\<close> wires its arguments in series.\<close>

fun chain :: "'p list \<Rightarrow> ('p \<times> 'p) list" where
  "chain (x # y # ps) = (x, y) # chain (y # ps)"
| "chain ps = []"

definition wires :: "'b hier_block \<Rightarrow> ('b point \<times> 'b point) list" where
  "wires h = concat (map chain (connects h))"

text \<open>The ports of an endpoint that are driven, once for every wire, and those that are used.
  An input of the block is a source inside it, and its output is a destination.\<close>

definition driven :: "'b hier_block \<Rightarrow> 'b endpoint \<Rightarrow> nat list" where
  "driven h e = map snd (filter (\<lambda>d. fst d = e) (map snd (wires h)))"

definition used :: "'b hier_block \<Rightarrow> 'b endpoint \<Rightarrow> nat list" where
  "used h e = remdups (map snd (filter (\<lambda>s. fst s = e) (map fst (wires h))))"

definition points :: "'b hier_block \<Rightarrow> 'b point list" where
  "points h = map fst (wires h) @ map snd (wires h)"

section \<open>What the library checks when a graph is started\<close>

text \<open>The ports are the first ones, each once, and as many as the signature admits.\<close>

definition contiguous :: "io_sig \<Rightarrow> nat list \<Rightarrow> bool" where
  "contiguous io ps \<longleftrightarrow> sort ps = [0..<length ps] \<and> admits io (length ps)"

definition source_item :: "(gr_block \<Rightarrow> signature) \<Rightarrow> 'b hier_block \<Rightarrow> 'b point \<Rightarrow> item option" where
  "source_item lib h s =
     (case s of (Self, p) \<Rightarrow> port_item (in_sig h) p
      | (Block b, p) \<Rightarrow> port_item (snd (kind_sig lib (kind_of h b))) p)"

definition dest_item :: "(gr_block \<Rightarrow> signature) \<Rightarrow> 'b hier_block \<Rightarrow> 'b point \<Rightarrow> item option" where
  "dest_item lib h d =
     (case d of (Self, p) \<Rightarrow> port_item (out_sig h) p
      | (Block b, p) \<Rightarrow> port_item (fst (kind_sig lib (kind_of h b))) p)"

definition wire_ok :: "(gr_block \<Rightarrow> signature) \<Rightarrow> 'b hier_block \<Rightarrow> 'b point \<times> 'b point \<Rightarrow> bool" where
  "wire_ok lib h w \<longleftrightarrow>
     source_item lib h (fst w) \<noteq> None \<and> source_item lib h (fst w) = dest_item lib h (snd w)"

definition endpoint_ok :: "(gr_block \<Rightarrow> signature) \<Rightarrow> 'b hier_block \<Rightarrow> 'b endpoint \<Rightarrow> bool" where
  "endpoint_ok lib h e =
     (case e of
        Self \<Rightarrow> contiguous (out_sig h) (driven h e) \<and> contiguous (in_sig h) (used h e)
      | Block b \<Rightarrow> contiguous (fst (kind_sig lib (kind_of h b))) (driven h e) \<and>
          contiguous (snd (kind_sig lib (kind_of h b))) (used h e))"

definition block_edges :: "'b hier_block \<Rightarrow> ('b \<times> 'b) set" where
  "block_edges h = {(a, b). \<exists>p q. ((Block a, p), (Block b, q)) \<in> set (wires h)}"

text \<open>A graph that starts: each wire joins two streams of the same items, every port a block must
  have is connected and no input is driven twice, and there are no loops.\<close>

definition well_wired :: "(gr_block \<Rightarrow> signature) \<Rightarrow> 'b hier_block \<Rightarrow> bool" where
  "well_wired lib h \<longleftrightarrow>
     (\<forall>w \<in> set (wires h). wire_ok lib h w) \<and>
     (\<forall>e \<in> insert Self (fst ` set (points h)). endpoint_ok lib h e) \<and>
     acyclic (block_edges h)"

section \<open>Library signatures\<close>

definition covers :: "io_sig \<Rightarrow> io_sig \<Rightarrow> bool" where
  "covers need io \<longleftrightarrow>
     (\<forall>n. admits need n \<longrightarrow> admits io n) \<and>
     (\<forall>p i. port_item need p = Some i \<longrightarrow> port_item io p = Some i)"

definition provides :: "(gr_block \<Rightarrow> signature) \<Rightarrow> bool" where
  "provides lib \<longleftrightarrow>
     (\<forall>b. covers (fst (gr_needs b)) (fst (lib b)) \<and> covers (snd (gr_needs b)) (snd (lib b)))"

lemma covers_refl [simp]: "covers io io"
  by (simp add: covers_def)

lemma provides_needs [simp]: "provides gr_needs"
  by (simp add: provides_def)

lemma kind_sig_covers:
  assumes "provides lib"
  shows "covers (fst (kind_sig gr_needs k)) (fst (kind_sig lib k))"
    and "covers (snd (kind_sig gr_needs k)) (snd (kind_sig lib k))"
  using assms by (cases k; simp add: provides_def)+

lemma contiguous_covers: "contiguous need ps \<Longrightarrow> covers need io \<Longrightarrow> contiguous io ps"
  by (simp add: contiguous_def covers_def)

lemma item_covers:
  assumes "provides lib"
  shows "source_item gr_needs h s = Some i \<Longrightarrow> source_item lib h s = Some i"
    and "dest_item gr_needs h s = Some i \<Longrightarrow> dest_item lib h s = Some i"
proof -
  have c: "port_item (fst (kind_sig gr_needs k)) p = Some i \<Longrightarrow> port_item (fst (kind_sig lib k)) p = Some i"
    "port_item (snd (kind_sig gr_needs k)) p = Some i \<Longrightarrow> port_item (snd (kind_sig lib k)) p = Some i" for k p
    using kind_sig_covers [OF assms, of k] by (simp_all add: covers_def)
  show "source_item gr_needs h s = Some i \<Longrightarrow> source_item lib h s = Some i"
    and "dest_item gr_needs h s = Some i \<Longrightarrow> dest_item lib h s = Some i"
    using c by (cases s; cases "fst s"; simp add: source_item_def dest_item_def)+
qed

text \<open>A graph that is well wired for the streams the programs rely on is well wired for every
  library that has them.\<close>

lemma well_wired_lib:
  assumes "well_wired gr_needs h" and "provides lib"
  shows "well_wired lib h"
proof -
  have "wire_ok lib h w" if "wire_ok gr_needs h w" for w
  proof -
    from that obtain i where "source_item gr_needs h (fst w) = Some i"
      and "dest_item gr_needs h (snd w) = Some i"
      unfolding wire_ok_def by (metis option.exhaust)
    from item_covers(1) [OF assms(2) this(1)] item_covers(2) [OF assms(2) this(2)]
    show ?thesis by (simp add: wire_ok_def)
  qed
  moreover have "endpoint_ok lib h e" if "endpoint_ok gr_needs h e" for e
    using that contiguous_covers kind_sig_covers [OF assms(2)]
    by (cases e) (simp_all add: endpoint_ok_def, blast)
  ultimately show ?thesis
    using assms(1) unfolding well_wired_def by blast
qed

section \<open>Facts on graphs\<close>

lemma chain_simps [simp]: "chain [] = []" "chain [x] = []"
  by simp_all

lemma acyclic_rank:
  assumes "\<And>a b. (a, b) \<in> r \<Longrightarrow> f a < (f b :: nat)"
  shows "acyclic r"
proof -
  have "r \<subseteq> measure f" using assms by (auto simp: in_measure)
  then show ?thesis by (blast intro: acyclic_subset wf_acyclic wf_measure)
qed

lemma contiguousD:
  assumes "contiguous io ps"
  shows "distinct ps" and "set ps = {..<length ps}"
proof -
  from assms have s: "sort ps = [0..<length ps]" by (simp add: contiguous_def)
  then show "distinct ps" by (metis distinct_sort distinct_upt)
  from s show "set ps = {..<length ps}" by (metis atLeast_upt set_sort)
qed

text \<open>To check a given graph.\<close>

lemmas graph_eval = wires_def driven_def used_def points_def wire_ok_def source_item_def dest_item_def
  endpoint_ok_def contiguous_def

text \<open>What is to be checked of a graph: its wires, its ports, and that along a wire the rank of the
  block grows.\<close>

locale stream_graph =
  fixes h :: "'b hier_block"
    and rank :: "'b \<Rightarrow> nat"
  assumes wires_ok: "\<forall>w \<in> set (wires h). wire_ok gr_needs h w"
    and ports_ok: "\<forall>e \<in> insert Self (fst ` set (points h)). endpoint_ok gr_needs h e"
    and ranked: "\<forall>((e, p), (e', q)) \<in> set (wires h). \<forall>a b. e = Block a \<longrightarrow> e' = Block b \<longrightarrow> rank a < rank b"
begin

lemma wired: "well_wired gr_needs h"
proof -
  have "acyclic (block_edges h)"
    using ranked by (intro acyclic_rank [where f = rank]) (fastforce simp: block_edges_def)
  then show ?thesis
    using wires_ok ports_ok by (simp add: well_wired_def)
qed

lemma wired_lib: "provides lib \<Longrightarrow> well_wired lib h"
  by (rule well_wired_lib [OF wired])

end

text \<open>In a graph that is well wired no port is driven by two wires.\<close>

lemma driven_once:
  assumes "well_wired lib h" and "(s, d) \<in> set (wires h)" and "(s', d) \<in> set (wires h)"
  shows "s = s'"
proof (rule ccontr)
  assume ne: "s \<noteq> s'"
  obtain e p where d: "d = (e, p)" by fastforce
  have "e \<in> fst ` set (points h)" using assms(2) d by (force simp: points_def)
  then have "endpoint_ok lib h e" using assms(1) by (auto simp: well_wired_def)
  then have "distinct (driven h e)"
    by (auto simp: endpoint_ok_def split: endpoint.splits dest: contiguousD(1))
  moreover have "\<not> distinct (map snd (filter (\<lambda>d. fst d = e) (map snd ws)))"
    if "(s, d) \<in> set ws" and "(s', d) \<in> set ws" for ws
    using that
  proof (induction ws)
    case (Cons w ws)
    then have "w = (s, d) \<or> (s, d) \<in> set ws" "w = (s', d) \<or> (s', d) \<in> set ws" by auto
    then consider "(s, d) \<in> set ws" "(s', d) \<in> set ws" | "w = (s, d)" "(s', d) \<in> set ws"
      | "w = (s', d)" "(s, d) \<in> set ws"
      using ne by auto
    then show ?case
    proof cases
      case 1
      then show ?thesis using Cons.IH by simp
    qed (use d in \<open>force simp: image_iff\<close>)+
  qed simp
  ultimately show False using assms(2,3) by (simp add: driven_def)
qed

end
