(* ===== verification/UsrpStation.thy ===== *)
theory UsrpStation
  imports FlowGraph
begin

text \<open>
  The flow graph of \<open>examples/bts_top.py\<close>, with its radio hardware: the constructors of its
  hierarchical blocks.  A constructor yields what it asks of the devices, in order, and its result.
  The environment \<open>radio\<close> is what the devices answer; \<open>names\<close> is the set of names of the module
  \<open>rfidbts\<close>, of which a constructor may miss one.
\<close>

section \<open>Blocks that do not use the hardware\<close>

datatype file_sink_block = C_to_f | Chop | Out_file

definition downlink_test_file_sink :: "file_sink_block hier_block" where
  "downlink_test_file_sink =
     \<lparr>in_sig = io_signature 1 1 Gr_complex,
      out_sig = no_streams,
      kind_of = (\<lambda>b. case b of
          C_to_f \<Rightarrow> Gr Complex_to_real
        | Chop \<Rightarrow> Gr (Head Gr_float 350)
        | Out_file \<Rightarrow> Gr (File_sink Gr_float ''output.dat'')),
      connects = [[self, blk C_to_f, blk Chop, blk Out_file]]\<rparr>"

datatype dc_block_block = Mvg_avg | Adder

definition dc_block :: "int \<Rightarrow> dc_block_block hier_block res" where
  "dc_block avg_len =
     (if avg_len = 0 then Inl ZeroDivisionError
      else Inr
        \<lparr>in_sig = io_signature 1 1 Gr_complex,
         out_sig = io_signature 1 1 Gr_complex,
         kind_of = (\<lambda>b. case b of
             Mvg_avg \<Rightarrow> Gr (Moving_average_cc avg_len (Complex (-1) 0 / of_int avg_len) (4 * avg_len))
           | Adder \<Rightarrow> Gr Add_cc),
         connects =
           [[self, blk Mvg_avg, port Adder 0],
            [self, port Adder 1],
            [blk Adder, self]]\<rparr>)"

datatype symbols_decoder_block = Match_filt0 | Match_filt1 | Destroy0 | Destroy1 | Compare_block

definition symbols_decoder :: "string set \<Rightarrow> symbols_decoder_block hier_block res" where
  "symbols_decoder names =
     (if ''compare'' \<notin> names then Inl (AttributeError ''compare'')
      else Inr
        \<lparr>in_sig = io_signature 1 1 Gr_float,
         out_sig = io_signature 1 1 Gr_float,
         kind_of = (\<lambda>b. case b of
             Match_filt0 \<Rightarrow> Gr (Fir_filter_fff 1 [1, 1])
           | Match_filt1 \<Rightarrow> Gr (Fir_filter_fff 1 [1, -1])
           | Destroy0 \<Rightarrow> Gr (Keep_one_in_n Gr_float 2)
           | Destroy1 \<Rightarrow> Gr (Keep_one_in_n Gr_float 2)
           | Compare_block \<Rightarrow> Gr Compare),
         connects =
           [[self, blk Match_filt0, blk Destroy0, port Compare_block 0, self],
            [self, blk Match_filt1, blk Destroy1, port Compare_block 1]]\<rparr>)"

section \<open>The hardware\<close>

datatype side = Rx | Tx

record tune_result =
  baseband_freq :: real
  dxc_freq :: real
  residual_freq :: real
  inverted :: bool

text \<open>What the devices answer; a tuning can fail.\<close>

record radio =
  adc_rate :: int
  mux_value :: "side \<Rightarrow> nat \<times> nat \<Rightarrow> int"
  tune :: "side \<Rightarrow> real \<Rightarrow> tune_result option"
  tx_name :: string
  tx_gain_range :: "real \<times> real \<times> real"
  tx_freq_range :: "real \<times> real"

datatype call =
    Set_decim_rate int
  | Set_interp_rate int
  | Set_mux side int
  | Set_gain side real
  | Set_auto_tr side bool
  | Set_enable side bool
  | Tune side real
  | Show string
  | Show_numbers string "real list"
  | Show_flag string bool

text \<open>Calls in order, and a result or an exception.\<close>

type_synonym 'a effects = "call list \<times> 'a res"

definition after :: "call list \<Rightarrow> 'a effects \<Rightarrow> 'a effects" where
  "after calls e = (calls @ fst e, snd e)"

definition bind_effects :: "'a effects \<Rightarrow> ('a \<Rightarrow> 'b effects) \<Rightarrow> 'b effects" where
  "bind_effects e f = (case snd e of Inl x \<Rightarrow> (fst e, Inl x) | Inr a \<Rightarrow> after (fst e) (f a))"

text \<open>The method \<open>set_freq\<close>, the same in both classes.\<close>

definition set_freq :: "radio \<Rightarrow> side \<Rightarrow> real \<Rightarrow> call list \<times> bool" where
  "set_freq r s target_freq =
     (case tune r s target_freq of
        Some t \<Rightarrow>
          ([Tune s target_freq,
            Show_numbers ''r.baseband_freq ='' [baseband_freq t],
            Show_numbers ''r.dxc_freq      ='' [dxc_freq t],
            Show_numbers ''r.residual_freq ='' [residual_freq t],
            Show_flag ''r.inverted      ='' (inverted t)], True)
      | None \<Rightarrow> ([Tune s target_freq], False))"

section \<open>The receive path\<close>

datatype receive_block = U | Agc | Matchfilter | Preamble_filter | C_f | C_f2 | Lock | Pd | Dec | Vect

abbreviation (input) cx :: "real \<Rightarrow> complex" where
  "cx x \<equiv> Complex x x"

definition matchtaps :: "complex list" where
  "matchtaps = replicate 8 (cx (-1)) @ replicate 8 (cx 1) @ replicate 8 (cx (-1)) @ replicate 8 (cx 1)"

definition reverse_taps :: "nat \<Rightarrow> complex list" where
  "reverse_taps deci = replicate (8 div deci) (cx 1) @ replicate (8 div deci) (cx (-1)) @
     replicate (8 div deci) (cx 1) @ replicate (8 div deci) (cx (-1))"

definition repeated :: "nat \<Rightarrow> 'a list \<Rightarrow> 'a list" where
  "repeated n xs = concat (replicate n xs)"

definition pretaps :: "complex list" where
  "pretaps = repeated 2 matchtaps @ repeated 2 (reverse_taps 1) @ repeated 2 matchtaps @
     repeated 4 (reverse_taps 1) @ repeated 3 matchtaps @ repeated 31 matchtaps"

definition receive_graph :: "signature \<Rightarrow> receive_block hier_block" where
  "receive_graph dec_sig =
     \<lparr>in_sig = no_streams,
      out_sig = no_streams,
      kind_of = (\<lambda>b. case b of
          U \<Rightarrow> Gr Usrp_source_c
        | Agc \<Rightarrow> Gr (Agc_cc (1 / 10 ^ 7) 1 0.001 0.5)
        | Matchfilter \<Rightarrow> Gr (Fir_filter_ccc 1 matchtaps)
        | Preamble_filter \<Rightarrow> Gr (Fir_filter_ccc 1 pretaps)
        | C_f \<Rightarrow> Gr Complex_to_real
        | C_f2 \<Rightarrow> Gr Complex_to_real
        | Lock \<Rightarrow> Gr (Lock_time 32 5 32)
        | Pd \<Rightarrow> Gr (Find_pre_ff 55 200)
        | Dec \<Rightarrow> Hier dec_sig
        | Vect \<Rightarrow> Gr Vector_sink_f),
      connects = [[blk U, blk Agc, blk Matchfilter, blk C_f, blk Vect]]\<rparr>"

definition recieve_path :: "radio \<Rightarrow> string set \<Rightarrow> receive_block hier_block effects" where
  "recieve_path r names =
     (let usrp_decim = 16;
          usrp_rate = adc_rate r div usrp_decim;
          (tuning, ok) = set_freq r Rx 915000000
      in ([Set_decim_rate usrp_decim, Show_numbers [] [of_int usrp_rate],
           Set_mux Rx (mux_value r Rx (0, 0)), Set_gain Rx 65, Set_auto_tr Rx False, Set_enable Rx True] @
          tuning @ (if \<not> ok then [Show ''Failed to set initial frequency''] else []),
          bind_res (symbols_decoder names) (\<lambda>dec. Inr (receive_graph (hier_sig dec)))))"

section \<open>The transmit path\<close>

datatype usrp_sink_block = U_sink

definition downlink_usrp_sink :: "radio \<Rightarrow> real \<Rightarrow> int \<Rightarrow> usrp_sink_block hier_block effects" where
  "downlink_usrp_sink r freq usrp_interp =
     (let (tuning, ok) = set_freq r Tx freq;
          (_, _, step) = tx_gain_range r;
          calls =
            [Set_mux Tx (mux_value r Tx (1, 0)), Show (''Using TX d'' @ [CHR 0x27] @ ''board '' @ tx_name r),
             Set_interp_rate usrp_interp, Set_gain Tx step] @ tuning
      in if \<not> ok
         then (calls @ [Show_numbers ''Failed to set frequency to %s.  Daughterboard supports %s to %s''
                 [freq, fst (tx_freq_range r), snd (tx_freq_range r)]],
               Inl (SystemExit 0 []))
         else (calls @ [Set_enable Tx True],
               Inr \<lparr>in_sig = io_signature 1 1 Gr_complex, out_sig = no_streams,
                    kind_of = (\<lambda>b. Gr Usrp_sink_c), connects = [[self, blk U_sink]]\<rparr>))"

datatype transmit_block = Downlink | Sink | Gain

definition transmit_graph :: "kind \<Rightarrow> signature \<Rightarrow> transmit_block hier_block" where
  "transmit_graph downlink sink_sig =
     \<lparr>in_sig = no_streams,
      out_sig = no_streams,
      kind_of = (\<lambda>b. case b of
          Downlink \<Rightarrow> downlink
        | Sink \<Rightarrow> Hier sink_sig
        | Gain \<Rightarrow> Gr (Multiply_const_cc 5000)),
      connects = [[blk Downlink, blk Gain, blk Sink]]\<rparr>"

text \<open>The two switches are constants of the constructor.\<close>

definition transmit_path_with ::
  "bool \<Rightarrow> bool \<Rightarrow> radio \<Rightarrow> string set \<Rightarrow> real \<Rightarrow> transmit_block hier_block effects" where
  "transmit_path_with testit run_usrp r names freq =
     bind_effects
       ([], if testit then Inr (Gr (File_source Gr_complex ''readout.dat'' True))
            else if ''downlink_src'' \<notin> names then Inl (AttributeError ''downlink_src'')
            else Inr (Gr (Downlink_src 8 (64 * 16 * 60) (64 * 16 * 4) 16 8 53 32)))
       (\<lambda>downlink.
          if run_usrp
          then bind_effects (downlink_usrp_sink r freq 200)
            (\<lambda>sink. ([], Inr (transmit_graph downlink (hier_sig sink))))
          else ([], Inr (transmit_graph downlink (hier_sig downlink_test_file_sink))))"

definition transmit_path :: "radio \<Rightarrow> string set \<Rightarrow> real \<Rightarrow> transmit_block hier_block effects" where
  "transmit_path = transmit_path_with False True"

section \<open>The top block\<close>

text \<open>\<open>get_options\<close>: \<open>parse\<close> is the library's parser with the default frequency.  The module \<open>sys\<close> is
  not imported.\<close>

definition get_options :: "(real \<Rightarrow> string list \<Rightarrow> (real \<times> string list) res) \<Rightarrow> string list \<Rightarrow> real res" where
  "get_options parse argv =
     bind_res (parse 915000000 argv) (\<lambda>(freq, args). if length args \<noteq> 0 then Inl (NameError ''sys'') else Inr freq)"

record top_block =
  tx_path :: "transmit_block hier_block"
  rx_path :: "receive_block hier_block"

definition bts_top_block2 ::
  "radio \<Rightarrow> string set \<Rightarrow> (real \<Rightarrow> string list \<Rightarrow> (real \<times> string list) res) \<Rightarrow> string list \<Rightarrow> top_block effects" where
  "bts_top_block2 r names parse argv =
     bind_effects ([], get_options parse argv) (\<lambda>freq.
     bind_effects (transmit_path r names freq) (\<lambda>tx.
     bind_effects (recieve_path r names) (\<lambda>rx.
     ([], Inr \<lparr>tx_path = tx, rx_path = rx\<rparr>))))"

text \<open>The names of the module that \<open>src/swig\<close> builds.\<close>

definition swig_names :: "string set" where
  "swig_names = {''pie_encoder'', ''preamble_det'', ''gardner_timing_cc'', ''elg_timing_cc'',
     ''receive_gate'', ''pick_peak'', ''peak_count_stream'', ''mux_slice_dice'', ''packetizer'',
     ''orthogonal_decode'', ''controller'', ''cvar''}"

section \<open>The graphs start\<close>

interpretation test_file_sink: stream_graph downlink_test_file_sink
    "\<lambda>b. case b of C_to_f \<Rightarrow> 0 | Chop \<Rightarrow> 1 | Out_file \<Rightarrow> 2"
  by unfold_locales (simp_all add: downlink_test_file_sink_def graph_eval)

interpretation receive: stream_graph "receive_graph s"
    "\<lambda>b. case b of U \<Rightarrow> 0 | Agc \<Rightarrow> 1 | Matchfilter \<Rightarrow> 2 | C_f \<Rightarrow> 3 | _ \<Rightarrow> 4" for s
  by unfold_locales (simp_all add: receive_graph_def graph_eval)

lemma dc_block_graph:
  "dc_block n = Inr h \<Longrightarrow> stream_graph h (\<lambda>b. case b of Mvg_avg \<Rightarrow> 0 | Adder \<Rightarrow> 1)"
  by unfold_locales (auto simp: dc_block_def graph_eval split: if_splits)

lemma symbols_decoder_graph:
  "symbols_decoder names = Inr h \<Longrightarrow> stream_graph h
     (\<lambda>b. case b of Match_filt0 \<Rightarrow> 0 | Match_filt1 \<Rightarrow> 0 | Destroy0 \<Rightarrow> 1 | Destroy1 \<Rightarrow> 1 | Compare_block \<Rightarrow> 2)"
  by unfold_locales (auto simp: symbols_decoder_def graph_eval split: if_splits)

lemma transmit_graph_wired:
  assumes "kind_sig gr_needs k = (no_streams, io_signature 1 1 Gr_complex)"
  shows "well_wired gr_needs (transmit_graph k (io_signature 1 1 Gr_complex, no_streams))"
proof (rule stream_graph.wired)
  show "stream_graph (transmit_graph k (io_signature 1 1 Gr_complex, no_streams))
      (\<lambda>b. case b of Downlink \<Rightarrow> 0 | Gain \<Rightarrow> 1 | Sink \<Rightarrow> 2)"
    using assms by unfold_locales (simp_all add: transmit_graph_def graph_eval)
qed

lemma set_freq_ok: "snd (set_freq r s f) \<longleftrightarrow> tune r s f \<noteq> None"
  by (simp add: set_freq_def split: option.splits)

lemma set_freq_no_enable: "Set_enable s' b \<notin> set (fst (set_freq r s f))"
  by (simp add: set_freq_def split: option.splits)

lemma effects_simps [simp]:
  "fst (after cs e) = cs @ fst e"
  "snd (after cs e) = snd e"
  "bind_effects (cs, Inl x) f = (cs, Inl x)"
  "bind_effects (cs, Inr a) f = after cs (f a)"
  by (simp_all add: after_def bind_effects_def)

lemma downlink_usrp_sink_calls:
  "Set_enable Tx True \<in> set (fst (downlink_usrp_sink r freq n)) \<longleftrightarrow> tune r Tx freq \<noteq> None"
  "(\<exists>h. snd (downlink_usrp_sink r freq n) = Inr h) \<longleftrightarrow> tune r Tx freq \<noteq> None"
  "tune r Tx freq = None \<Longrightarrow> snd (downlink_usrp_sink r freq n) = Inl (SystemExit 0 [])"
  using set_freq_no_enable [of Tx True r Tx freq]
  by (auto simp: downlink_usrp_sink_def Let_def set_freq_def split: prod.splits option.splits)

lemma downlink_usrp_sink_sig:
  "snd (downlink_usrp_sink r freq n) = Inr h \<Longrightarrow> hier_sig h = (io_signature 1 1 Gr_complex, no_streams)"
  by (auto simp: downlink_usrp_sink_def Let_def split: prod.splits if_splits)

lemma recieve_path_calls:
  "Set_enable Tx b \<notin> set (fst (recieve_path r names))"
  "snd (recieve_path r names) =
     bind_res (symbols_decoder names) (\<lambda>dec. Inr (receive_graph (hier_sig dec)))"
  using set_freq_no_enable [of Tx b r Rx 915000000]
  by (auto simp: recieve_path_def Let_def split: prod.splits)

text \<open>The transmit path when the module has the encoder.\<close>

lemma transmit_path_cases:
  assumes "''downlink_src'' \<in> names"
  obtains (untuned) "tune r Tx freq = None" "snd (transmit_path r names freq) = Inl (SystemExit 0 [])"
      "Set_enable Tx True \<notin> set (fst (transmit_path r names freq))"
  | (tuned) h where "tune r Tx freq \<noteq> None" "snd (transmit_path r names freq) = Inr h"
      "well_wired gr_needs h"
proof (cases "tune r Tx freq")
  case None
  obtain calls where "downlink_usrp_sink r freq 200 = (calls, Inl (SystemExit 0 []))"
    using downlink_usrp_sink_calls(3) [OF None, of 200] by (metis prod.collapse)
  with assms None show ?thesis
    using downlink_usrp_sink_calls(1) [of r freq 200]
    by (intro untuned) (simp_all add: transmit_path_def transmit_path_with_def)
next
  case (Some t)
  then obtain calls h where h: "downlink_usrp_sink r freq 200 = (calls, Inr h)"
    using downlink_usrp_sink_calls(2) [of r freq 200] by (metis option.distinct(1) prod.collapse)
  then have sig: "hier_sig h = (io_signature 1 1 Gr_complex, no_streams)"
    using downlink_usrp_sink_sig [of r freq 200] by simp
  have "well_wired gr_needs (transmit_graph (Gr (Downlink_src 8 (64 * 16 * 60) (64 * 16 * 4) 16 8 53 32)) (hier_sig h))"
    unfolding sig by (rule transmit_graph_wired) simp
  with h assms Some show ?thesis
    by (intro tuned) (simp_all add: transmit_path_def transmit_path_with_def)
qed

text \<open>C30: \<open>bts_top.py\<close> starts exactly when nothing is left of the command line, the module \<open>rfidbts\<close>
  has the two blocks it uses and the transmitter can be tuned; then both its graphs are well wired.
  It never starts with the module of the repository, which has neither block.  The transmitter is
  enabled only after it has been tuned; if that fails the program ends with status 0.\<close>

theorem bts_top_starts:
  assumes "provides lib" and "parse 915000000 argv = Inr (freq, args)"
    and "bts_top_block2 r names parse argv = (calls, result)"
  shows "((\<exists>tb. result = Inr tb) \<longleftrightarrow>
      args = [] \<and> {''downlink_src'', ''compare''} \<subseteq> names \<and> tune r Tx freq \<noteq> None) \<and>
    (\<forall>tb. result = Inr tb \<longrightarrow> well_wired lib (tx_path tb) \<and> well_wired lib (rx_path tb)) \<and>
    (names = swig_names \<longrightarrow> (\<exists>e. result = Inl e) \<and> calls = []) \<and>
    (Set_enable Tx True \<in> set calls \<longrightarrow> tune r Tx freq \<noteq> None) \<and>
    (args = [] \<and> ''downlink_src'' \<in> names \<and> tune r Tx freq = None \<longrightarrow> result = Inl (SystemExit 0 []))"
proof -
  have swig: "names \<noteq> swig_names" if "''downlink_src'' \<in> names"
    using that by (auto simp: swig_names_def)
  consider "args \<noteq> []" | "args = []" "''downlink_src'' \<notin> names" | "args = []" "''downlink_src'' \<in> names"
    by blast
  then show ?thesis
  proof cases
    case 3
    have top: "bts_top_block2 r names parse argv = bind_effects (transmit_path r names freq)
        (\<lambda>tx. bind_effects (recieve_path r names) (\<lambda>rx. ([], Inr \<lparr>tx_path = tx, rx_path = rx\<rparr>)))"
      using assms(2) 3(1) by (simp add: bts_top_block2_def get_options_def after_def)
    obtain tcalls tres where t: "transmit_path r names freq = (tcalls, tres)" by fastforce
    obtain rcalls rres where rx: "recieve_path r names = (rcalls, rres)" by fastforce
    from 3(2) show ?thesis
    proof (cases rule: transmit_path_cases [of names r freq])
      case untuned
      with 3 top t assms(3) swig show ?thesis by (auto simp: after_def)
    next
      case (tuned h)
      then have "calls = tcalls @ rcalls"
        using top t rx assms(3) by (cases rres) (auto simp: after_def)
      moreover have "result = (case symbols_decoder names of Inl e \<Rightarrow> Inl e
          | Inr dec \<Rightarrow> Inr \<lparr>tx_path = h, rx_path = receive_graph (hier_sig dec)\<rparr>)"
        using tuned top t rx assms(3) recieve_path_calls(2) [of r names]
        by (cases "symbols_decoder names") (auto simp: after_def)
      ultimately show ?thesis
        using 3 tuned swig
        by (auto simp: symbols_decoder_def intro: well_wired_lib [OF _ assms(1)] receive.wired)
    qed
  qed (use assms in \<open>auto simp: bts_top_block2_def get_options_def transmit_path_def transmit_path_with_def
      after_def\<close>)
qed

theorem bts_top_starts_witness:
  "\<exists>e. snd (bts_top_block2 \<lparr>adc_rate = 64000000, mux_value = (\<lambda>s d. 0),
      tune = (\<lambda>s f. Some \<lparr>baseband_freq = f, dxc_freq = 0, residual_freq = 0, inverted = False\<rparr>),
      tx_name = ''A'', tx_gain_range = (0, 20, 1), tx_freq_range = (0, 1)\<rparr>
      swig_names (\<lambda>f a. Inr (f, [])) []) = Inl e"
  (is "\<exists>e. snd ?b = Inl e")
proof -
  obtain calls result where b: "?b = (calls, result)" by fastforce
  from bts_top_starts [OF provides_needs _ this] show ?thesis
    using b by auto
qed

end
