(* ===== verification/PreambleSearch.thy ===== *)
theory PreambleSearch
  imports FlowGraph PyString
begin

text \<open>
  The hierarchical block \<open>preamble_search\<close> of \<open>examples/bts_transceiver.py\<close>: a bank of resamplers
  around a centre rate, one correlator and peak detector behind each, and the block that picks the
  best one.  An object the constructor creates is known by a number, its place in the order of
  creation within its list; \<open>lib_taps\<close> is the filter the library's resampler holds in \<open>_taps\<close>.
\<close>

section \<open>The resamplers\<close>

record resampler =
  serial :: nat
  rate :: real
  given_taps :: "real list option"
  taps :: "real list"

text \<open>The attribute \<open>_taps\<close> as a function of the arguments of the constructor.\<close>

type_synonym taps_of = "real \<Rightarrow> real list option \<Rightarrow> int \<Rightarrow> real \<Rightarrow> real list"

definition new_resampler :: "taps_of \<Rightarrow> nat \<Rightarrow> real \<Rightarrow> real list option \<Rightarrow> resampler" where
  "new_resampler lib_taps n r ts =
     \<lparr>serial = n, rate = r, given_taps = ts, taps = lib_taps r ts 64 70\<rparr>"

text \<open>One round of the loop: the list of resamplers and the rates that are printed.\<close>

definition resampler_round ::
  "taps_of \<Rightarrow> real \<Rightarrow> real \<Rightarrow> resampler list \<times> real list \<Rightarrow> nat \<Rightarrow> resampler list \<times> real list" where
  "resampler_round lib_taps center_rate offset st ii =
     (case st of (resamplers, printed) \<Rightarrow>
        let up = center_rate + (real ii + 1) * offset * center_rate;
            down = center_rate - (real ii + 1) * offset * center_rate;
            rr = new_resampler lib_taps (2 * ii + 1) up (Some (taps (resamplers ! 0)));
            resamplers1 = rr # resamplers;
            rr1 = new_resampler lib_taps (2 * ii + 2) down (Some (taps (resamplers1 ! 0)))
        in (resamplers1 @ [rr1], printed @ [up, down]))"

definition create_resamplers :: "taps_of \<Rightarrow> real \<Rightarrow> nat \<Rightarrow> resampler list \<times> real list" where
  "create_resamplers lib_taps center_rate rate_var =
     (let resamplers = [new_resampler lib_taps 0 center_rate None]
      in if rate_var = 0 then (resamplers, [])
         else
           let offset = 0.05 / real rate_var
           in foldl (resampler_round lib_taps center_rate offset) (resamplers, []) [0..<rate_var])"

section \<open>The correlators and the peak detectors\<close>

definition h_s_pos :: "real list" where
  "h_s_pos = [1, 1, -1, -1, 1, 1, -1, -1]"

definition h_s_neg :: "real list" where
  "h_s_neg = map (\<lambda>x. -1 * x) h_s_pos"

definition dot :: "real list \<Rightarrow> real list \<Rightarrow> real" where
  "dot xs ys = sum_list (map2 (*) xs ys)"

definition unit_energy :: "real list \<Rightarrow> real list" where
  "unit_energy xs = map (\<lambda>x. x / sqrt (dot xs xs)) xs"

definition preamble_taps :: "real list" where
  "preamble_taps = concat [h_s_pos, h_s_pos, h_s_pos, h_s_neg, h_s_neg, h_s_neg, h_s_neg,
     h_s_pos, h_s_pos, h_s_neg, h_s_neg, h_s_pos]"

lemma dot_divided: "dot (map (\<lambda>x. x / k) xs) (map (\<lambda>x. x / k) ys) = dot xs ys / (k * k)"
  unfolding dot_def by (induction xs ys rule: list_induct2') (simp_all add: add_divide_distrib)

text \<open>The taps of the filters have unit energy.\<close>

lemma dot_unit_energy: "0 < dot xs xs \<Longrightarrow> dot (unit_energy xs) (unit_energy xs) = 1"
  by (simp add: unit_energy_def dot_divided)

lemma preamble_energy: "dot preamble_taps preamble_taps = 96"
  by (simp add: dot_def preamble_taps_def h_s_pos_def h_s_neg_def)

text \<open>An element of the lists is its number with the block.\<close>

definition create_correlators :: "nat \<Rightarrow> (nat \<times> gr_block) list" where
  "create_correlators rate_var =
     foldl (\<lambda>correlators ii. correlators @ [(ii, Fir_filter_ccf 1 (rev (unit_energy preamble_taps)))])
       [] [0..<2 * rate_var + 1]"

definition create_peak_d :: "nat \<Rightarrow> (nat \<times> gr_block) list" where
  "create_peak_d rate_var =
     foldl (\<lambda>peak_d ii. peak_d @ [(ii, Peak_detector2_fb 10 20 0.01)]) [] [0..<2 * rate_var + 1]"

section \<open>The graph\<close>

datatype search_block =
    Resampler resampler
  | Correlator "nat \<times> gr_block"
  | To_mag nat
  | Peak_d "nat \<times> gr_block"
  | Peak_count nat
  | Resamp_sink nat
  | Peak_sink nat
  | Strobe_sink nat
  | Picker
  | Slicer_dicer
  | Slicer_dump

record search =
  frame_size_rn16 :: int
  resamplers :: "resampler list"
  correlators :: "(nat \<times> gr_block) list"
  peak_d :: "(nat \<times> gr_block) list"
  pick_peak_queue :: msg_queue
  slicer_dicer_queue :: msg_queue

text \<open>The block behind a name.\<close>

fun search_kind :: "int \<Rightarrow> search_block \<Rightarrow> kind" where
  "search_kind frame (Resampler rr) = Gr (Pfb_arb_resampler_ccf (rate rr) (given_taps rr) 64 70)"
| "search_kind frame (Correlator c) = Gr (snd c)"
| "search_kind frame (To_mag ii) = Gr Complex_to_mag"
| "search_kind frame (Peak_d p) = Gr (snd p)"
| "search_kind frame (Peak_count ii) = Rfidbts (Peak_count_stream (frame * 3) 500)"
| "search_kind frame (Resamp_sink ii) =
     Gr (File_sink Gr_float (''search/resamp_'' @ py_dec (int ii) @ ''.dat''))"
| "search_kind frame (Peak_sink ii) =
     Gr (File_sink Gr_float (''search/peak_'' @ py_dec (int ii) @ ''.dat''))"
| "search_kind frame (Strobe_sink ii) =
     Gr (File_sink Gr_char (''search/strobe_'' @ py_dec (int ii) @ ''.dat''))"
| "search_kind frame Picker = Rfidbts Pick_peak"
| "search_kind frame Slicer_dicer = Rfidbts (Mux_slice_dice Gr_complex)"
| "search_kind frame Slicer_dump = Gr (File_sink Gr_complex ''search/slicer_dicer.dat'')"

definition item_at :: "'a list \<Rightarrow> nat \<Rightarrow> 'a res" where
  "item_at xs i = (if i < length xs then Inr (xs ! i) else Inl IndexError)"

text \<open>The calls of one round of \<open>connect_coarse_search\<close>.\<close>

definition connect_branch ::
  "search \<Rightarrow> search_block point list list \<Rightarrow> nat \<Rightarrow> search_block point list list res" where
  "connect_branch obj calls ii =
     bind_res (item_at (resamplers obj) ii) (\<lambda>rr.
     bind_res (item_at (correlators obj) ii) (\<lambda>cc.
     bind_res (item_at (peak_d obj) ii) (\<lambda>pd.
     Inr (calls @
       [[self, blk (Resampler rr), blk (Correlator cc), blk (To_mag ii), blk (Peak_d pd), blk (Peak_count ii)],
        [blk (To_mag ii), port (Peak_count ii) 1],
        [blk (Peak_count ii), port Picker ii],
        [blk (Resampler rr), port Slicer_dicer ii],
        [blk (Peak_d pd), blk (Strobe_sink ii)],
        [port (Peak_d pd) 1, blk (Peak_sink ii)],
        [blk (To_mag ii), blk (Resamp_sink ii)]]))))"

definition connect_coarse_search :: "search \<Rightarrow> nat \<Rightarrow> search_block point list list res" where
  "connect_coarse_search obj rate_var =
     fold_res (connect_branch obj) [[blk Slicer_dicer, blk Slicer_dump]] [0..<2 * rate_var + 1]"

text \<open>The constructor, for a centre rate and a number of variations on each side.\<close>

definition search_object :: "taps_of \<Rightarrow> int \<Rightarrow> real \<Rightarrow> nat \<Rightarrow> search" where
  "search_object lib_taps frame center_rate rate_var =
     \<lparr>frame_size_rn16 = frame,
      resamplers = fst (create_resamplers lib_taps center_rate rate_var),
      correlators = create_correlators rate_var,
      peak_d = create_peak_d rate_var,
      pick_peak_queue = Search_queue 1000,
      slicer_dicer_queue = Search_queue 1000\<rparr>"

definition preamble_search_with ::
  "taps_of \<Rightarrow> int \<Rightarrow> real \<Rightarrow> nat \<Rightarrow> (search \<times> search_block hier_block) res" where
  "preamble_search_with lib_taps frame center_rate rate_var =
     (let obj = search_object lib_taps frame center_rate rate_var
      in bind_res (connect_coarse_search obj rate_var) (\<lambda>calls.
           Inr (obj,
             \<lparr>in_sig = io_signature 1 1 Gr_complex, out_sig = io_signature 1 1 Gr_complex,
              kind_of = search_kind frame, connects = calls @ [[blk Slicer_dicer, self]]\<rparr>)))"

definition preamble_search :: "taps_of \<Rightarrow> int \<Rightarrow> (search \<times> search_block hier_block) res" where
  "preamble_search lib_taps frame = preamble_search_with lib_taps frame 1.024 4"

section \<open>The bank of resamplers\<close>

text \<open>A resampler that is given its taps has those.\<close>

definition keeps_taps :: "taps_of \<Rightarrow> bool" where
  "keeps_taps lib_taps \<longleftrightarrow> (\<forall>r ts n a. lib_taps r (Some ts) n a = ts)"

definition bank :: "taps_of \<Rightarrow> real \<Rightarrow> real \<Rightarrow> nat \<Rightarrow> resampler list" where
  "bank lib_taps c d n =
     (let ts = lib_taps c None 64 70;
          shifted = (\<lambda>k r. \<lparr>serial = k, rate = r, given_taps = Some ts, taps = ts\<rparr>)
      in rev (map (\<lambda>j. shifted (2 * j + 1) (c + (real j + 1) * d * c)) [0..<n]) @
         [\<lparr>serial = 0, rate = c, given_taps = None, taps = ts\<rparr>] @
         map (\<lambda>j. shifted (2 * j + 2) (c - (real j + 1) * d * c)) [0..<n])"

lemma bank_taps: "r \<in> set (bank lib_taps c d n) \<Longrightarrow> taps r = lib_taps c None 64 70"
  by (auto simp: bank_def Let_def)

lemma bank_nonempty [simp]: "bank lib_taps c d n \<noteq> []"
  by (simp add: bank_def Let_def)

lemma resampler_rounds:
  assumes "keeps_taps lib_taps"
  shows "\<exists>printed. foldl (resampler_round lib_taps c d) (bank lib_taps c d 0, []) [0..<n] =
    (bank lib_taps c d n, printed)"
proof (induction n)
  case (Suc n)
  have "taps (bank lib_taps c d n ! 0) = lib_taps c None 64 70"
    by (rule bank_taps [where d = d and n = n]) (simp add: nth_mem)
  with assms Suc show ?case
    by (auto simp: resampler_round_def Let_def new_resampler_def keeps_taps_def bank_def)
qed simp

lemma create_resamplers_bank:
  assumes "keeps_taps lib_taps"
  shows "fst (create_resamplers lib_taps c n) = bank lib_taps c (0.05 / real n) n"
proof -
  have "[new_resampler lib_taps 0 c None] = bank lib_taps c d 0" for d
    by (simp add: new_resampler_def bank_def)
  then show ?thesis
    using resampler_rounds [OF assms, of c "0.05 / real n" n]
    by (cases "n = 0") (auto simp: create_resamplers_def Let_def)
qed

lemma length_bank [simp]: "length (bank lib_taps c d n) = 2 * n + 1"
  by (simp add: bank_def Let_def)

lemma bank_rate:
  assumes "i < 2 * n + 1"
  shows "rate (bank lib_taps c d n ! i) = c + (real n - real i) * d * c"
  using assms
  by (auto simp: bank_def Let_def nth_append rev_nth nth_Cons' of_nat_diff algebra_simps)

lemma bank_serials: "distinct (map serial (bank lib_taps c d n))"
proof -
  have "distinct (map (\<lambda>j. 2 * j + 1) [0..<n])" "distinct (map (\<lambda>j. Suc (Suc (2 * j))) [0..<n])"
    by (simp_all add: distinct_map inj_on_def)
  moreover have "2 * j + 1 \<noteq> Suc (Suc (2 * k))" for j k :: nat by presburger
  ultimately show ?thesis
    by (auto simp: bank_def Let_def rev_map [symmetric] o_def)
qed

text \<open>The bank of resamplers that the search tries.  For \<open>n\<close> variations on each side it has
  \<open>2 n + 1\<close> resamplers in order of decreasing rate, at equal distances from 5 percent above to
  5 percent below the centre rate, all with the filter taps of the middle one.\<close>

lemma resampler_bank:
  assumes "keeps_taps lib_taps" and "0 < n" and "0 < c"
    and "fst (create_resamplers lib_taps c n) = rs"
  shows "length rs = 2 * n + 1 \<and>
    (\<forall>i < 2 * n + 1. rate (rs ! i) = c * (1 + 0.05 * (real n - real i) / real n)) \<and>
    sorted_wrt (>) (map rate rs) \<and>
    (\<forall>r \<in> set rs. 0.95 * c \<le> rate r \<and> rate r \<le> 1.05 * c) \<and>
    (\<forall>r \<in> set rs. taps r = lib_taps c None 64 70)"
proof -
  let ?d = "0.05 / real n"
  have rs: "rs = bank lib_taps c ?d n"
    using assms create_resamplers_bank by metis
  have r: "rate (rs ! i) = c * (1 + 0.05 * (real n - real i) / real n)" if "i < 2 * n + 1" for i
    using that unfolding rs by (simp add: bank_rate field_simps)
  have "rate (rs ! j) < rate (rs ! i)" if "i < j" "j < 2 * n + 1" for i j
    using that assms(2,3) by (simp add: r divide_strict_right_mono)
  then have "sorted_wrt (>) (map rate rs)"
    unfolding sorted_wrt_iff_nth_less by (simp add: rs)
  moreover have "0.95 * c \<le> rate (rs ! i) \<and> rate (rs ! i) \<le> 1.05 * c" if "i < 2 * n + 1" for i
  proof -
    define q where "q = (real n - real i) / real n"
    have "real i \<le> 2 * real n" using that by linarith
    then have "0.95 \<le> 1 + 0.05 * q" "1 + 0.05 * q \<le> 1.05"
      using assms(2) by (simp_all add: q_def field_simps)
    then have "c * 0.95 \<le> c * (1 + 0.05 * q)" and "c * (1 + 0.05 * q) \<le> c * 1.05"
      using assms(3) mult_left_mono [of _ _ c] by auto
    moreover have "rate (rs ! i) = c * (1 + 0.05 * q)"
      by (simp add: r [OF that] q_def)
    ultimately show ?thesis by (simp add: mult.commute)
  qed
  ultimately show ?thesis
    using r bank_taps by (auto simp: rs in_set_conv_nth)
qed

section \<open>The search graph\<close>

lemma foldl_append_map: "foldl (\<lambda>xs i. xs @ [f i]) ys is = ys @ map f is"
  by (induction "is" arbitrary: ys) simp_all

lemma item_at_map: "i < n \<Longrightarrow> item_at (map f [0..<n]) i = Inr (f i)"
  by (simp add: item_at_def)

abbreviation corr :: "nat \<Rightarrow> search_block" where
  "corr i \<equiv> Correlator (i, Fir_filter_ccf 1 (rev (unit_energy preamble_taps)))"

abbreviation peak :: "nat \<Rightarrow> search_block" where
  "peak i \<equiv> Peak_d (i, Peak_detector2_fb 10 20 0.01)"

definition branch :: "resampler list \<Rightarrow> nat \<Rightarrow> search_block point list list" where
  "branch rs i =
     [[self, blk (Resampler (rs ! i)), blk (corr i), blk (To_mag i), blk (peak i), blk (Peak_count i)],
      [blk (To_mag i), port (Peak_count i) 1],
      [blk (Peak_count i), port Picker i],
      [blk (Resampler (rs ! i)), port Slicer_dicer i],
      [blk (peak i), blk (Strobe_sink i)],
      [port (peak i) 1, blk (Peak_sink i)],
      [blk (To_mag i), blk (Resamp_sink i)]]"

text \<open>The lists have the lengths the loop expects, so no index is out of range.\<close>

lemma connect_coarse_search_branches:
  fixes frame :: int and c :: real and n :: nat
  assumes "keeps_taps lib_taps"
  defines "obj \<equiv> search_object lib_taps frame c n"
  shows "connect_coarse_search obj n =
    Inr ([blk Slicer_dicer, blk Slicer_dump] # concat (map (branch (resamplers obj)) [0..<2 * n + 1]))"
proof -
  have "fold_res (connect_branch obj) calls [0..<k] =
      Inr (calls @ concat (map (branch (resamplers obj)) [0..<k]))" if "k \<le> 2 * n + 1" for k calls
    using that
  proof (induction k)
    case (Suc k)
    have "length (resamplers obj) = 2 * n + 1"
      by (simp add: obj_def search_object_def create_resamplers_bank [OF assms(1)])
    moreover have "item_at (correlators obj) k = Inr (k, Fir_filter_ccf 1 (rev (unit_energy preamble_taps)))"
      and "item_at (peak_d obj) k = Inr (k, Peak_detector2_fb 10 20 0.01)"
      using Suc.prems
      by (simp_all add: obj_def search_object_def create_correlators_def create_peak_d_def
          foldl_append_map item_at_map del: upt_Suc)
    ultimately show ?case
      using Suc by (simp add: fold_res_append connect_branch_def item_at_def branch_def)
  qed simp
  from this [of "2 * n + 1"] show ?thesis
    by (simp add: connect_coarse_search_def del: upt_Suc)
qed

definition search_graph :: "int \<Rightarrow> resampler list \<Rightarrow> nat \<Rightarrow> search_block hier_block" where
  "search_graph frame rs m =
     \<lparr>in_sig = io_signature 1 1 Gr_complex, out_sig = io_signature 1 1 Gr_complex,
      kind_of = search_kind frame,
      connects = ([blk Slicer_dicer, blk Slicer_dump] # concat (map (branch rs) [0..<m])) @
        [[blk Slicer_dicer, self]]\<rparr>"

lemma search_graph_sel [simp]:
  "in_sig (search_graph frame rs m) = io_signature 1 1 Gr_complex"
  "out_sig (search_graph frame rs m) = io_signature 1 1 Gr_complex"
  "kind_of (search_graph frame rs m) = search_kind frame"
  by (simp_all add: search_graph_def)

definition branch_wires :: "resampler list \<Rightarrow> nat \<Rightarrow> (search_block point \<times> search_block point) list" where
  "branch_wires rs i = concat (map chain (branch rs i))"

lemma search_wires:
  "wires (search_graph frame rs m) =
     (blk Slicer_dicer, blk Slicer_dump) # concat (map (branch_wires rs) [0..<m]) @ [(blk Slicer_dicer, self)]"
proof -
  have "concat (map chain (concat (map (branch rs) is))) = concat (map (branch_wires rs) is)" for "is"
    by (induction "is") (simp_all add: branch_wires_def)
  then show ?thesis by (simp add: wires_def search_graph_def)
qed

lemma search_driven:
  "driven (search_graph frame rs m) e =
     (if e = Block Slicer_dump then [0] else []) @
     concat (map (\<lambda>i. map snd (filter (\<lambda>d. fst d = e) (map snd (branch_wires rs i)))) [0..<m]) @
     (if e = Self then [0] else [])"
  by (simp add: driven_def search_wires map_concat filter_concat o_def)

lemma search_used:
  "used (search_graph frame rs m) e =
     remdups ((if e = Block Slicer_dicer then [0] else []) @
     concat (map (\<lambda>i. map snd (filter (\<lambda>s. fst s = e) (map fst (branch_wires rs i)))) [0..<m]) @
     (if e = Block Slicer_dicer then [0] else []))"
  by (simp add: used_def search_wires map_concat filter_concat o_def)

lemma concat_only:
  assumes "k < m" and "\<And>i. i < m \<Longrightarrow> i \<noteq> k \<Longrightarrow> f i = []"
  shows "concat (map f [0..<m]) = f k"
  using assms
proof (induction m)
  case (Suc m)
  then show ?case
    by (cases "k = m") (simp_all add: less_Suc_eq)
qed simp

lemma concat_none: "(\<And>i. i < m \<Longrightarrow> f i = []) \<Longrightarrow> concat (map f [0..<m]) = []"
  by simp

lemma remdups_const:
  assumes "set ps = {x}"
  shows "remdups ps = [x]"
proof -
  have "length (remdups ps) = 1"
    using assms by (simp add: length_remdups_card_conv)
  then obtain y where "remdups ps = [y]"
    by (auto simp: length_Suc_conv)
  with assms show ?thesis
    by (metis list.set(1) list.set(2) set_remdups singleton_inject)
qed

text \<open>A block of branch \<open>k\<close> is connected in branch \<open>k\<close> only.\<close>

lemma branch_driven:
  assumes "length rs = m" and "distinct rs" and "k < m"
    and b: "b \<in> {Resampler (rs ! k), corr k, To_mag k, peak k, Peak_count k, Resamp_sink k, Peak_sink k,
    Strobe_sink k, Picker, Slicer_dicer, Slicer_dump}"
  shows "driven (search_graph frame rs m) (Block b) =
    (case b of Picker \<Rightarrow> [0..<m] | Slicer_dicer \<Rightarrow> [0..<m] | Slicer_dump \<Rightarrow> [0]
     | Peak_count i \<Rightarrow> [0, 1] | _ \<Rightarrow> [0])"
proof -
  have eq: "i < m \<Longrightarrow> rs ! i = rs ! k \<longleftrightarrow> i = k" for i
    using assms by (simp add: nth_eq_iff_index_eq)
  show ?thesis
  proof (cases "b \<in> {Picker, Slicer_dicer, Slicer_dump}")
    case True
    then show ?thesis
      by (auto simp: search_driven branch_wires_def branch_def concat_map_singleton)
  next
    case False
    then have "filter (\<lambda>d. fst d = Block b) (map snd (branch_wires rs i)) = []" if "i < m" "i \<noteq> k" for i
      using b that eq [of i] by (auto simp: branch_wires_def branch_def)
    then have "driven (search_graph frame rs m) (Block b) =
        map snd (filter (\<lambda>d. fst d = Block b) (map snd (branch_wires rs k)))"
      using False by (simp add: search_driven concat_only [OF assms(3)])
    then show ?thesis
      using False b by (auto simp: branch_wires_def branch_def)
  qed
qed

lemma branch_used:
  assumes "length rs = m" and "distinct rs" and "k < m"
    and b: "b \<in> {Resampler (rs ! k), corr k, To_mag k, peak k, Peak_count k, Resamp_sink k, Peak_sink k,
      Strobe_sink k, Picker, Slicer_dicer, Slicer_dump}"
  shows "used (search_graph frame rs m) (Block b) =
    (case b of Resampler rr \<Rightarrow> [0] | Correlator c \<Rightarrow> [0] | To_mag i \<Rightarrow> [0] | Peak_d p \<Rightarrow> [0, 1]
     | Peak_count i \<Rightarrow> [0] | Slicer_dicer \<Rightarrow> [0] | _ \<Rightarrow> [])"
proof -
  have eq: "i < m \<Longrightarrow> rs ! i = rs ! k \<longleftrightarrow> i = k" for i
    using assms by (simp add: nth_eq_iff_index_eq)
  show ?thesis
  proof (cases "b \<in> {Picker, Slicer_dicer, Slicer_dump}")
    case True
    then show ?thesis
      by (auto simp: search_used branch_wires_def branch_def concat_none)
  next
    case False
    then have "filter (\<lambda>s. fst s = Block b) (map fst (branch_wires rs i)) = []" if "i < m" "i \<noteq> k" for i
      using b that eq [of i] by (auto simp: branch_wires_def branch_def)
    then have "used (search_graph frame rs m) (Block b) =
        remdups (map snd (filter (\<lambda>s. fst s = Block b) (map fst (branch_wires rs k))))"
      using False by (simp add: search_used concat_only [OF assms(3)])
    then show ?thesis
      using False b by (auto simp: branch_wires_def branch_def)
  qed
qed

lemma self_used: "0 < m \<Longrightarrow> used (search_graph frame rs m) Self = [0]"
  unfolding search_used by (rule remdups_const) (auto simp: branch_wires_def branch_def)

lemma self_driven: "driven (search_graph frame rs m) Self = [0]"
  by (simp add: search_driven branch_wires_def branch_def concat_none)

lemma search_endpoints:
  "fst ` set (points (search_graph frame rs m)) \<subseteq>
     {Self, Block Picker, Block Slicer_dicer, Block Slicer_dump} \<union>
     (\<Union>k < m. Block ` {Resampler (rs ! k), corr k, To_mag k, peak k, Peak_count k, Resamp_sink k,
       Peak_sink k, Strobe_sink k})"
  by (auto simp: points_def search_wires branch_wires_def branch_def)

lemma branch_endpoint_ok:
  assumes "length rs = m" and "distinct rs" and "k < m"
    and "b \<in> {Resampler (rs ! k), corr k, To_mag k, peak k, Peak_count k, Resamp_sink k, Peak_sink k,
      Strobe_sink k}"
  shows "endpoint_ok gr_needs (search_graph frame rs m) (Block b)"
  using assms(4) branch_driven [OF assms(1-3), of b frame] branch_used [OF assms(1-3), of b frame]
  by (auto simp: endpoint_ok_def contiguous_def numeral_eq_Suc)

lemma shared_endpoint_ok:
  assumes "length rs = m" and "distinct rs" and "0 < m" and "m \<le> 256"
    and "b \<in> {Picker, Slicer_dicer, Slicer_dump}"
  shows "endpoint_ok gr_needs (search_graph frame rs m) (Block b)"
  using assms(4,5) branch_driven [OF assms(1-3), of b frame] branch_used [OF assms(1-3), of b frame]
  using assms(3) by (auto simp: endpoint_ok_def contiguous_def sorted_sort_id)

lemma search_wires_ok:
  assumes "m \<le> 256" and "w \<in> set (wires (search_graph frame rs m))"
  shows "wire_ok gr_needs (search_graph frame rs m) w"
  using assms
  by (auto simp: search_wires branch_wires_def branch_def wire_ok_def source_item_def dest_item_def
     )

text \<open>Along every wire the blocks are further from the input.\<close>

fun search_rank :: "search_block \<Rightarrow> nat" where
  "search_rank (Resampler rr) = 0"
| "search_rank (Correlator c) = 1"
| "search_rank (To_mag i) = 2"
| "search_rank (Peak_d p) = 3"
| "search_rank (Peak_count i) = 4"
| "search_rank Slicer_dicer = 1"
| "search_rank b = 5"

lemma search_acyclic: "acyclic (block_edges (search_graph frame rs m))"
  by (rule acyclic_rank [where f = search_rank])
    (auto simp: block_edges_def search_wires branch_wires_def branch_def)

lemma search_graph_wired:
  assumes "length rs = m" and "distinct rs" and "0 < m" and "m \<le> 256"
  shows "well_wired gr_needs (search_graph frame rs m)"
proof -
  have "endpoint_ok gr_needs (search_graph frame rs m) e"
    if "e \<in> insert Self (fst ` set (points (search_graph frame rs m)))" for e
  proof -
    from that search_endpoints [of frame rs m] consider "e = Self"
      | b where "e = Block b" "b \<in> {Picker, Slicer_dicer, Slicer_dump}"
      | k b where "k < m" "e = Block b" "b \<in> {Resampler (rs ! k), corr k, To_mag k, peak k,
          Peak_count k, Resamp_sink k, Peak_sink k, Strobe_sink k}"
      by blast
    then show ?thesis
    proof cases
      case 1
      then show ?thesis
        using assms by (simp add: endpoint_ok_def contiguous_def self_used self_driven)
    next
      case 2
      then show ?thesis using shared_endpoint_ok [OF assms] by simp
    next
      case 3
      then show ?thesis using branch_endpoint_ok [OF assms(1,2)] by blast
    qed
  qed
  then show ?thesis
    using search_wires_ok [OF assms(4)] search_acyclic by (simp add: well_wired_def)
qed

lemma search_graph_limit:
  assumes "length rs = m" and "distinct rs" and "0 < m"
    and "well_wired lib (search_graph frame rs m)"
  shows "m \<le> 256"
proof -
  have "(blk (Peak_count 0), port Picker 0) \<in> set (wires (search_graph frame rs m))"
    using assms(3) by (auto simp: search_wires branch_wires_def branch_def)
  then have "Block Picker \<in> fst ` set (points (search_graph frame rs m))"
    by (force simp: points_def)
  with assms(4) have "endpoint_ok lib (search_graph frame rs m) (Block Picker)"
    unfolding well_wired_def by blast
  then show ?thesis
    using branch_driven [OF assms(1-3), of Picker frame]
    by (simp add: endpoint_ok_def contiguous_def)
qed

lemma preamble_search_graph:
  assumes "keeps_taps lib_taps"
  shows "preamble_search_with lib_taps frame c n =
    Inr (search_object lib_taps frame c n,
      search_graph frame (resamplers (search_object lib_taps frame c n)) (2 * n + 1))"
  using connect_coarse_search_branches [OF assms, of frame c n]
  by (simp add: preamble_search_with_def search_graph_def Let_def del: upt_Suc)

lemma search_object_resamplers:
  assumes "keeps_taps lib_taps"
  shows "length (resamplers (search_object lib_taps frame c n)) = 2 * n + 1"
    and "distinct (resamplers (search_object lib_taps frame c n))"
  using bank_serials [of lib_taps c "0.05 / real n" n]
  by (auto simp: search_object_def create_resamplers_bank [OF assms] dest: distinct_map [THEN iffD1])

text \<open>C27: the constructor of \<open>preamble_search\<close> raises nothing, and the graph it connects starts
  exactly when the number of branches is within the limit of the blocks, for up to 127 rates on each
  side.  The picker and the slicer number the branches in the same way: what the picker sees at an
  input is computed from the resampler that feeds the same input of the slicer; and the two share
  the queue in which the picker tells the slicer the branch.\<close>

theorem preamble_search_starts:
  assumes "provides lib" and "keeps_taps lib_taps"
  shows "\<exists>obj g. preamble_search_with lib_taps frame c n = Inr (obj, g) \<and>
    (well_wired lib g \<longleftrightarrow> n \<le> 127) \<and>
    (\<forall>i < 2 * n + 1. \<exists>p. (blk (Resampler (resamplers obj ! i)), port Slicer_dicer i) \<in> set (wires g) \<and>
       (Resampler (resamplers obj ! i), p) \<in> (block_edges g)\<^sup>+ \<and>
       (blk p, port Picker i) \<in> set (wires g)) \<and>
    pick_peak_queue obj = slicer_dicer_queue obj"
proof -
  define obj where "obj = search_object lib_taps frame c n"
  let ?g = "search_graph frame (resamplers obj) (2 * n + 1)"
  note rs = search_object_resamplers [OF assms(2), of frame c n, folded obj_def]
  have "well_wired lib ?g \<longleftrightarrow> n \<le> 127"
    using search_graph_limit [OF rs, of lib frame] well_wired_lib [OF search_graph_wired [OF rs] assms(1)]
    by auto
  moreover have "\<exists>p. (blk (Resampler (resamplers obj ! i)), port Slicer_dicer i) \<in> set (wires ?g) \<and>
      (Resampler (resamplers obj ! i), p) \<in> (block_edges ?g)\<^sup>+ \<and> (blk p, port Picker i) \<in> set (wires ?g)"
    if i: "i < 2 * n + 1" for i
  proof -
    have w: "set (branch_wires (resamplers obj) i) \<subseteq> set (wires ?g)"
      using i by (auto simp: search_wires simp del: upt_Suc)
    then have e: "{(Resampler (resamplers obj ! i), corr i), (corr i, To_mag i), (To_mag i, Peak_count i)}
        \<subseteq> block_edges ?g"
      by (auto simp: branch_wires_def branch_def block_edges_def)
    then have "(Resampler (resamplers obj ! i), Peak_count i) \<in> (block_edges ?g)\<^sup>+"
      by (meson insert_subset trancl.intros)
    with w show ?thesis by (auto simp: branch_wires_def branch_def)
  qed
  moreover have "pick_peak_queue obj = slicer_dicer_queue obj"
    by (simp add: obj_def search_object_def)
  ultimately show ?thesis
    using preamble_search_graph [OF assms(2), of frame c n] by (auto simp: obj_def)
qed

theorem preamble_search_starts_witness:
  "\<exists>obj g. preamble_search (\<lambda>r ts n a. case ts of None \<Rightarrow> [1] | Some ts \<Rightarrow> ts) 638 = Inr (obj, g) \<and>
     well_wired gr_needs g"
proof -
  have "keeps_taps (\<lambda>r ts n a. case ts of None \<Rightarrow> [1] | Some ts \<Rightarrow> ts)"
    by (simp add: keeps_taps_def)
  from preamble_search_starts [OF provides_needs this, of 638 "1.024" 4] show ?thesis
    unfolding preamble_search_def by force
qed

end
