(* ===== verification/Controller.thy ===== *)
theory Controller
  imports FlowGraph "HOL-Library.Word" "HOL-Library.Sublist"
begin

text \<open>
  The controller of the medium access, class \<open>rfidbts_controller\<close> of \<open>src/lib\<close>: the object
  \<open>rfid_mac\<close> that \<open>proto_transceiver.snd_query\<close> of \<open>examples/bts_transceiver.py\<close> asks for a command,
  and that the blocks of the receive chain report to.  It is modelled with the queues it fills.
  An operation yields \<open>None\<close> where an \<open>assert\<close> (or a queue that was not set) ends the process.
\<close>

section \<open>State\<close>

datatype rx_state =
    READY_DOWNLINK | SET_TX_BURST | PREAMBLE_DET | SYMBOL_DET | BIT_DECODE | WAIT_FOR_DECODE

datatype mac_state = MS_IDLE | MS_RN16 | MS_EPC

datatype tx_task =
    TURN_ON_TIMED int
  | TURN_ON
  | PREAMBLE
  | FRAME_SYNCH
  | DATA_BITS "8 word list"
  | TURN_OFF

datatype rx_task = RXB_GATE int | RXB_UNGATE int | RXB_DONE

datatype message = Tx_task tx_task | Rx_task rx_task

record controller =
  d_state :: rx_state
  d_mac_state :: mac_state
  d_encoder_queue :: "msg_queue option"
  d_gate_queue :: "msg_queue option"

text \<open>The controller, what lies in each queue and what has been written to the console.\<close>

record mac_world =
  mac :: controller
  queued :: "msg_queue \<Rightarrow> message list"
  reports :: "(string \<times> 8 word list) list"

definition make_controller :: controller where
  "make_controller =
     \<lparr>d_state = READY_DOWNLINK, d_mac_state = MS_IDLE, d_encoder_queue = None, d_gate_queue = None\<rparr>"

definition set_encoder_queue :: "msg_queue \<Rightarrow> controller \<Rightarrow> controller" where
  "set_encoder_queue q c = c\<lparr>d_encoder_queue := Some q\<rparr>"

definition set_gate_queue :: "msg_queue \<Rightarrow> controller \<Rightarrow> controller" where
  "set_gate_queue q c = c\<lparr>d_gate_queue := Some q\<rparr>"

section \<open>Bursts\<close>

definition queue_msg :: "msg_queue option \<Rightarrow> message \<Rightarrow> mac_world \<Rightarrow> mac_world option" where
  "queue_msg q msg w =
     (case q of
        None \<Rightarrow> None
      | Some q \<Rightarrow> Some (w\<lparr>queued := (queued w)(q := queued w q @ [msg])\<rparr>))"

definition encode :: "tx_task \<Rightarrow> mac_world \<Rightarrow> mac_world option" where
  "encode task w = queue_msg (d_encoder_queue (mac w)) (Tx_task task) w"

definition gate :: "rx_task \<Rightarrow> mac_world \<Rightarrow> mac_world option" where
  "gate task w = queue_msg (d_gate_queue (mac w)) (Rx_task task) w"

definition setup_on_wait :: "int \<Rightarrow> mac_world \<Rightarrow> mac_world option" where
  "setup_on_wait len = encode (TURN_ON_TIMED len)"

definition setup_on :: "mac_world \<Rightarrow> mac_world option" where
  "setup_on = encode TURN_ON"

definition setup_frame_synch :: "mac_world \<Rightarrow> mac_world option" where
  "setup_frame_synch = encode FRAME_SYNCH"

definition setup_preamble :: "mac_world \<Rightarrow> mac_world option" where
  "setup_preamble = encode PREAMBLE"

definition query_cmd :: "8 word list" where
  "query_cmd = [1,0,0,0, 0, 1,0, 1, 0,0, 0,0, 0, 0,0,0,0, 1,1,1,1,1]"

definition setup_query :: "mac_world \<Rightarrow> mac_world option" where
  "setup_query = encode (DATA_BITS query_cmd)"

definition setup_ack :: "8 word list \<Rightarrow> mac_world \<Rightarrow> mac_world option" where
  "setup_ack rn16 = encode (DATA_BITS ([0, 1] @ rn16))"

text \<open>The commands that no burst uses.\<close>

definition setup_ack_rep :: "mac_world \<Rightarrow> mac_world option" where
  "setup_ack_rep = encode (DATA_BITS [0])"

definition setup_end_query_rep :: "mac_world \<Rightarrow> mac_world option" where
  "setup_end_query_rep = encode (DATA_BITS [0, 0, 0])"

definition setup_end_ack :: "8 word list \<Rightarrow> mac_world \<Rightarrow> mac_world option" where
  "setup_end_ack rn16 = encode (DATA_BITS ([1] @ rn16))"

definition setup_end :: "mac_world \<Rightarrow> mac_world option" where
  "setup_end = encode TURN_OFF"

definition setup_gate :: "int \<Rightarrow> mac_world \<Rightarrow> mac_world option" where
  "setup_gate len = gate (RXB_GATE len)"

definition setup_ungate :: "int \<Rightarrow> mac_world \<Rightarrow> mac_world option" where
  "setup_ungate len = gate (RXB_UNGATE len)"

definition setup_gate_done :: "mac_world \<Rightarrow> mac_world option" where
  "setup_gate_done = gate RXB_DONE"

text \<open>Statements in sequence.\<close>

fun in_turn :: "('w \<Rightarrow> 'w option) list \<Rightarrow> 'w \<Rightarrow> 'w option" where
  "in_turn [] w = Some w"
| "in_turn (f # fs) w = Option.bind (f w) (in_turn fs)"

definition setup_query_ack_rep_burst :: "mac_world \<Rightarrow> mac_world option" where
  "setup_query_ack_rep_burst =
     in_turn [setup_on_wait 500000, setup_preamble, setup_query, setup_on,
       setup_gate (25 + 75 + 83 + 8 * 50 + 14 * 25 + 10), setup_ungate 800, setup_gate_done]"

definition setup_ack_burst :: "8 word list \<Rightarrow> mac_world \<Rightarrow> mac_world option" where
  "setup_ack_burst rn16 w =
     in_turn [setup_frame_synch, setup_ack rn16, setup_on,
       setup_gate (25 + 75 + 25 + 50 + 14 * 25 + 2 * 50), setup_ungate 2800, setup_gate_done]
       (w\<lparr>mac := (mac w)\<lparr>d_mac_state := MS_EPC\<rparr>\<rparr>)"

section \<open>Commands and call-backs\<close>

abbreviation set_state :: "rx_state \<Rightarrow> mac_world \<Rightarrow> mac_world" where
  "set_state s w \<equiv> w\<lparr>mac := (mac w)\<lparr>d_state := s\<rparr>\<rparr>"

definition issue_downlink_command :: "mac_world \<Rightarrow> mac_world option" where
  "issue_downlink_command w =
     (if d_state (mac w) = READY_DOWNLINK \<and> d_mac_state (mac w) = MS_IDLE
      then setup_query_ack_rep_burst
        (w\<lparr>mac := (mac w)\<lparr>d_state := PREAMBLE_DET, d_mac_state := MS_RN16\<rparr>\<rparr>)
      else None)"

text \<open>The task handed back, with its offset and length; \<open>None\<close> where it is marked as not valid.\<close>

type_synonym task = "(int \<times> int) option"

definition report_preamble :: "bool \<Rightarrow> mac_world \<Rightarrow> (task \<times> mac_world) option" where
  "report_preamble success w =
     (if d_state (mac w) \<noteq> PREAMBLE_DET then None
      else case d_mac_state (mac w) of
        MS_RN16 \<Rightarrow>
          (if success
           then Some (Some ((12 + 7) * 8, (12 + 6 + 32 + 2) * 8 - 1), set_state SYMBOL_DET w)
           else Some (None, set_state READY_DOWNLINK w))
      | MS_EPC \<Rightarrow>
          (if success
           then Some (Some ((12 + 7) * 8, (12 + 6 + 32 + 96 * 2 + 5) * 8 - 1), set_state SYMBOL_DET w)
           else Some (None, set_state READY_DOWNLINK w))
      | MS_IDLE \<Rightarrow> None)"

definition symbol_synch :: "mac_world \<Rightarrow> (task \<times> mac_world) option" where
  "symbol_synch w =
     (if d_state (mac w) \<noteq> SYMBOL_DET then None
      else case d_mac_state (mac w) of
        MS_RN16 \<Rightarrow> Some (Some (7, 6 + 12 + 32), set_state BIT_DECODE w)
      | MS_EPC \<Rightarrow> Some (Some (7, 6 + 12 + 32 + 96 * 2), set_state BIT_DECODE w)
      | MS_IDLE \<Rightarrow> None)"

definition bit_decode :: "mac_world \<Rightarrow> (task \<times> mac_world) option" where
  "bit_decode w =
     (if d_state (mac w) \<noteq> BIT_DECODE then None
      else case d_mac_state (mac w) of
        MS_RN16 \<Rightarrow> Some (Some (3 + 6, 16), set_state WAIT_FOR_DECODE w)
      | MS_EPC \<Rightarrow> Some (Some (3 + 6, 16 + 96), set_state WAIT_FOR_DECODE w)
      | MS_IDLE \<Rightarrow> None)"

definition decoded_message :: "8 word list \<Rightarrow> mac_world \<Rightarrow> mac_world option" where
  "decoded_message msg w =
     (if d_state (mac w) \<noteq> WAIT_FOR_DECODE then None
      else case d_mac_state (mac w) of
        MS_RN16 \<Rightarrow>
          Option.bind (setup_ack_burst msg w)
            (\<lambda>w'. Some (set_state PREAMBLE_DET (w'\<lparr>reports := reports w' @ [(''RN16 Message: '', msg)]\<rparr>)))
      | MS_EPC \<Rightarrow> Some (w\<lparr>reports := reports w @ [(''EPC Message: '', msg)]\<rparr>)
      | MS_IDLE \<Rightarrow> None)"

section \<open>Runs\<close>

text \<open>What the base station and the blocks ask of the controller, in any order.\<close>

datatype request = Issue | Preamble bool | Symbols | Bits | Decoded "8 word list"

fun mac_step :: "request \<Rightarrow> mac_world \<Rightarrow> mac_world option" where
  "mac_step Issue w = issue_downlink_command w"
| "mac_step (Preamble success) w = map_option snd (report_preamble success w)"
| "mac_step Symbols w = map_option snd (symbol_synch w)"
| "mac_step Bits w = map_option snd (bit_decode w)"
| "mac_step (Decoded msg) w = decoded_message msg w"

definition mac_run :: "request list \<Rightarrow> mac_world \<Rightarrow> mac_world option" where
  "mac_run rs = in_turn (map mac_step rs)"

section \<open>What a run does\<close>

text \<open>The controller at the start of the process, once the transceiver has set its queues.\<close>

definition fresh_mac :: "mac_world \<Rightarrow> bool" where
  "fresh_mac w \<longleftrightarrow> d_state (mac w) = READY_DOWNLINK \<and> d_mac_state (mac w) = MS_IDLE \<and>
     (\<exists>qe qg. d_encoder_queue (mac w) = Some qe \<and> d_gate_queue (mac w) = Some qg \<and> qe \<noteq> qg) \<and>
     (\<forall>q. queued w q = []) \<and> reports w = []"

definition to_encoder :: "mac_world \<Rightarrow> message list" where
  "to_encoder w = (case d_encoder_queue (mac w) of None \<Rightarrow> [] | Some q \<Rightarrow> queued w q)"

definition to_gate :: "mac_world \<Rightarrow> message list" where
  "to_gate w = (case d_gate_queue (mac w) of None \<Rightarrow> [] | Some q \<Rightarrow> queued w q)"

definition query_burst :: "tx_task list" where
  "query_burst = [TURN_ON_TIMED 500000, PREAMBLE, DATA_BITS query_cmd, TURN_ON]"

definition ack_burst :: "8 word list \<Rightarrow> tx_task list" where
  "ack_burst rn16 = [FRAME_SYNCH, DATA_BITS ([0, 1] @ rn16), TURN_ON]"

definition query_window :: "rx_task list" where
  "query_window = [RXB_GATE 943, RXB_UNGATE 800, RXB_DONE]"

definition ack_window :: "rx_task list" where
  "ack_window = [RXB_GATE 625, RXB_UNGATE 2800, RXB_DONE]"

fun answers :: "request list \<Rightarrow> 8 word list list" where
  "answers [] = []"
| "answers (Decoded m # rs) = m # answers rs"
| "answers (r # rs) = answers rs"

lemma answers_append [simp]: "answers (rs @ rs') = answers rs @ answers rs'"
  by (induction rs rule: answers.induct) simp_all

lemma in_turn_append: "in_turn (fs @ gs) w = Option.bind (in_turn fs w) (in_turn gs)"
  by (induction fs arbitrary: w) (simp_all split: Option.bind_split)

lemma mac_run_simps [simp]:
  "mac_run [] w = Some w"
  "mac_run (r # rs) w = Option.bind (mac_step r w) (mac_run rs)"
  by (simp_all add: mac_run_def)

lemma mac_run_snoc: "mac_run (rs @ [r]) w = Option.bind (mac_run rs w) (mac_step r)"
  by (simp add: mac_run_def in_turn_append split: Option.bind_split)

lemmas setup_defs = setup_on_wait_def setup_on_def setup_frame_synch_def setup_preamble_def
  setup_query_def setup_ack_def setup_gate_def setup_ungate_def setup_gate_done_def

lemma query_burst_queued:
  assumes "d_encoder_queue (mac w) = Some qe" and "d_gate_queue (mac w) = Some qg" and "qe \<noteq> qg"
  shows "setup_query_ack_rep_burst w = Some (w\<lparr>queued := (queued w)
    (qe := queued w qe @ map Tx_task query_burst, qg := queued w qg @ map Rx_task query_window)\<rparr>)"
  using assms
  by (simp add: setup_query_ack_rep_burst_def setup_defs encode_def gate_def queue_msg_def
      query_burst_def query_window_def fun_upd_twist [of qe qg])

lemma ack_burst_queued:
  assumes "d_encoder_queue (mac w) = Some qe" and "d_gate_queue (mac w) = Some qg" and "qe \<noteq> qg"
  shows "setup_ack_burst rn16 w = Some (w\<lparr>mac := (mac w)\<lparr>d_mac_state := MS_EPC\<rparr>,
    queued := (queued w) (qe := queued w qe @ map Tx_task (ack_burst rn16),
      qg := queued w qg @ map Rx_task ack_window)\<rparr>)"
  using assms
  by (simp add: setup_ack_burst_def setup_defs encode_def gate_def queue_msg_def
      ack_burst_def ack_window_def fun_upd_twist [of qe qg])

text \<open>What holds after the requests \<open>rs\<close>.\<close>

definition mac_inv :: "msg_queue \<Rightarrow> msg_queue \<Rightarrow> request list \<Rightarrow> mac_world \<Rightarrow> bool" where
  "mac_inv qe qg rs w \<longleftrightarrow>
     d_encoder_queue (mac w) = Some qe \<and> d_gate_queue (mac w) = Some qg \<and>
     d_mac_state (mac w) = (if rs = [] then MS_IDLE else if answers rs = [] then MS_RN16 else MS_EPC) \<and>
     count_list rs Issue = (if rs = [] then 0 else 1) \<and>
     queued w qe = map Tx_task ((if rs = [] then [] else query_burst) @
       (case answers rs of [] \<Rightarrow> [] | m # _ \<Rightarrow> ack_burst m)) \<and>
     queued w qg = map Rx_task ((if rs = [] then [] else query_window) @
       (case answers rs of [] \<Rightarrow> [] | m # _ \<Rightarrow> ack_window)) \<and>
     reports w = (case answers rs of [] \<Rightarrow> []
       | m # ms \<Rightarrow> (''RN16 Message: '', m) # map (\<lambda>m. (''EPC Message: '', m)) ms)"

lemma mac_step_inv:
  assumes "mac_inv qe qg rs w" and "qe \<noteq> qg" and "mac_step r w = Some w'"
  shows "mac_inv qe qg (rs @ [r]) w'"
proof (cases r)
  case Issue
  then have "d_mac_state (mac w) = MS_IDLE" and "rs = []"
    using assms by (auto simp: issue_downlink_command_def mac_inv_def split: if_splits)
  with Issue assms show ?thesis
    by (auto simp: issue_downlink_command_def mac_inv_def query_burst_queued split: if_splits)
next
  case (Decoded m)
  then show ?thesis
    using assms
    by (auto simp: decoded_message_def mac_inv_def ack_burst_queued neq_Nil_conv
        split: if_splits mac_state.splits list.splits)
qed (use assms in \<open>auto simp: report_preamble_def symbol_synch_def bit_decode_def mac_inv_def
      split: if_splits mac_state.splits list.splits\<close>)

lemma mac_run_inv:
  assumes "mac_inv qe qg [] w" and "qe \<noteq> qg" and "mac_run rs w = Some w'"
  shows "mac_inv qe qg rs w'"
  using assms(3)
proof (induction rs arbitrary: w' rule: rev_induct)
  case Nil
  with assms show ?case by simp
next
  case (snoc r rs)
  then obtain w1 where "mac_run rs w = Some w1" and "mac_step r w1 = Some w'"
    by (auto simp: mac_run_snoc bind_eq_Some_conv)
  with snoc.IH assms(2) show ?case by (blast intro: mac_step_inv)
qed

lemma fresh_mac_inv:
  assumes "fresh_mac w"
  obtains qe qg where "mac_inv qe qg [] w" and "qe \<noteq> qg"
  using assms by (auto simp: fresh_mac_def mac_inv_def)

text \<open>C28: whatever is asked of the controller in whatever order, as long as no assertion fails: at
  most one command is issued.  The encoder is given the query, and the acknowledgement of the first
  message decoded with that message in it; the gate is given one window for each; the first message
  is reported as the RN16 and all others as EPCs.\<close>

theorem exchange_effects:
  assumes "fresh_mac w" and "mac_run rs w = Some w'"
  shows "count_list rs Issue \<le> 1 \<and>
    to_encoder w' = map Tx_task ((if rs = [] then [] else query_burst) @
      (case answers rs of [] \<Rightarrow> [] | m # _ \<Rightarrow> ack_burst m)) \<and>
    to_gate w' = map Rx_task ((if rs = [] then [] else query_window) @
      (case answers rs of [] \<Rightarrow> [] | m # _ \<Rightarrow> ack_window)) \<and>
    reports w' = (case answers rs of [] \<Rightarrow> []
      | m # ms \<Rightarrow> (''RN16 Message: '', m) # map (\<lambda>m. (''EPC Message: '', m)) ms)"
proof -
  obtain qe qg where "mac_inv qe qg [] w" and "qe \<noteq> qg"
    using fresh_mac_inv [OF assms(1)] .
  from mac_run_inv [OF this assms(2)] show ?thesis
    by (auto simp: mac_inv_def to_encoder_def to_gate_def)
qed

text \<open>A process whose transceiver has been built.\<close>

definition mac_start :: mac_world where
  "mac_start = \<lparr>mac = set_gate_queue (Blocker_queue 100) (set_encoder_queue (Encoder_queue 100) make_controller),
     queued = (\<lambda>q. []), reports = []\<rparr>"

lemma fresh_mac_start: "fresh_mac mac_start"
  by (simp add: fresh_mac_def mac_start_def set_gate_queue_def set_encoder_queue_def make_controller_def)

text \<open>What the receive chain reports of one answer of the tag.\<close>

definition reception :: "request list" where
  "reception = [Preamble True, Symbols, Bits]"

definition exchange :: "8 word list \<Rightarrow> 8 word list list \<Rightarrow> request list" where
  "exchange rn16 epcs = [Issue] @ reception @ [Decoded rn16] @ reception @ map Decoded epcs"

lemmas mac_ops = issue_downlink_command_def report_preamble_def symbol_synch_def bit_decode_def
  decoded_message_def

theorem exchange_effects_witness:
  "\<exists>w. mac_run [Issue, Preamble True, Symbols, Bits, Decoded [1, 0]] mac_start = Some w \<and>
     to_encoder w = map Tx_task (query_burst @ ack_burst [1, 0])"
proof -
  have "mac_run [Issue, Preamble True, Symbols, Bits, Decoded [1, 0]] mac_start \<noteq> None"
    by (simp add: mac_start_def set_gate_queue_def set_encoder_queue_def make_controller_def
        mac_ops query_burst_queued ack_burst_queued)
  then obtain w where w: "mac_run [Issue, Preamble True, Symbols, Bits, Decoded [1, 0]] mac_start = Some w"
    by blast
  from exchange_effects [OF fresh_mac_start w] have "to_encoder w = map Tx_task (query_burst @ ack_burst [1, 0])"
    by simp
  with w show ?thesis by blast
qed

lemma run_dead:
  assumes "d_state (mac w) = READY_DOWNLINK" and "d_mac_state (mac w) \<noteq> MS_IDLE"
  shows "mac_run rs w \<noteq> None \<longleftrightarrow> rs = []"
proof (cases rs)
  case (Cons r rs)
  with assms show ?thesis by (cases r) (simp_all add: mac_ops)
qed simp

lemma run_decoded:
  assumes "d_state (mac w) = WAIT_FOR_DECODE" and "d_mac_state (mac w) = MS_EPC"
  shows "mac_run rs w \<noteq> None \<longleftrightarrow> (\<exists>ms. rs = map Decoded ms)"
  using assms
proof (induction rs arbitrary: w)
  case (Cons r rs)
  show ?case
  proof (cases r)
    case (Decoded m)
    have "mac_run (r # rs) w \<noteq> None \<longleftrightarrow> (\<exists>ms. rs = map Decoded ms)"
      using Cons Decoded by (simp add: mac_ops)
    then show ?thesis using Decoded by (auto simp: Cons_eq_map_conv)
  qed (use Cons.prems in \<open>auto simp: mac_ops Cons_eq_map_conv\<close>)
qed simp

lemma run_receive:
  assumes "d_state (mac w) = PREAMBLE_DET" and "d_mac_state (mac w) \<noteq> MS_IDLE"
    and "\<And>w1 rs. d_state (mac w1) = WAIT_FOR_DECODE \<Longrightarrow> d_mac_state (mac w1) = d_mac_state (mac w) \<Longrightarrow>
      d_encoder_queue (mac w1) = d_encoder_queue (mac w) \<Longrightarrow> d_gate_queue (mac w1) = d_gate_queue (mac w) \<Longrightarrow>
      mac_run rs w1 \<noteq> None \<longleftrightarrow> L rs"
    and "L []"
  shows "mac_run rs w \<noteq> None \<longleftrightarrow>
    prefix rs reception \<or> rs = [Preamble False] \<or> (\<exists>rs'. rs = reception @ rs' \<and> L rs')"
proof -
  have bits: "mac_run rs w1 \<noteq> None \<longleftrightarrow> rs = [] \<or> (\<exists>rs'. rs = Bits # rs' \<and> L rs')"
    if "d_state (mac w1) = BIT_DECODE" "d_mac_state (mac w1) = d_mac_state (mac w)"
      "d_encoder_queue (mac w1) = d_encoder_queue (mac w)" "d_gate_queue (mac w1) = d_gate_queue (mac w)"
    for rs w1
  proof (cases rs)
    case (Cons r rs)
    with that assms show ?thesis
      by (cases r; cases "d_mac_state (mac w)") (simp_all add: mac_ops)
  qed simp
  have symbols: "mac_run rs w1 \<noteq> None \<longleftrightarrow> rs = [] \<or> rs = [Symbols] \<or>
      (\<exists>rs'. rs = Symbols # Bits # rs' \<and> L rs')"
    if "d_state (mac w1) = SYMBOL_DET" "d_mac_state (mac w1) = d_mac_state (mac w)"
      "d_encoder_queue (mac w1) = d_encoder_queue (mac w)" "d_gate_queue (mac w1) = d_gate_queue (mac w)"
    for rs w1
  proof (cases rs)
    case (Cons r rs)
    with that assms bits [of _ rs] show ?thesis
      by (cases r; cases "d_mac_state (mac w)") (simp_all add: mac_ops)
  qed simp
  show ?thesis
  proof (cases rs)
    case (Cons r rs')
    have "mac_run (Preamble True # rs') w \<noteq> None \<longleftrightarrow> mac_run rs' (set_state SYMBOL_DET w) \<noteq> None"
      and "mac_run (Preamble False # rs') w \<noteq> None \<longleftrightarrow> rs' = []"
      using assms(1,2) run_dead [of "set_state READY_DOWNLINK w" rs']
      by (cases "d_mac_state (mac w)"; simp add: mac_ops)+
    moreover have "mac_run rs' (set_state SYMBOL_DET w) \<noteq> None \<longleftrightarrow> rs' = [] \<or> rs' = [Symbols] \<or>
        (\<exists>rs''. rs' = Symbols # Bits # rs'' \<and> L rs'')"
      by (rule symbols) simp_all
    moreover have "mac_run (r # rs') w = None" if "r \<notin> range Preamble"
      using that assms(1) by (cases r) (simp_all add: mac_ops)
    ultimately show ?thesis
      using Cons assms(4)
      by (cases "r = Preamble True"; cases "r = Preamble False"; cases "r \<in> range Preamble")
        (auto simp: reception_def prefix_Cons)
  qed simp
qed

lemma prefix_map_iff: "(\<exists>xs. prefix us (map f xs)) \<longleftrightarrow> (\<exists>xs. us = map f xs)"
  by (metis map_eq_append_conv prefix_def prefix_order.refl)

lemma prefix_exchange:
  "(\<exists>rn16 epcs. prefix rs (exchange rn16 epcs)) \<longleftrightarrow>
     rs = [] \<or> (\<exists>rs1. rs = Issue # rs1 \<and>
       (prefix rs1 reception \<or> (\<exists>rs2. rs1 = reception @ rs2 \<and>
         (rs2 = [] \<or> (\<exists>m rs3. rs2 = Decoded m # rs3 \<and>
           (prefix rs3 reception \<or> (\<exists>rs4. rs3 = reception @ rs4 \<and> (\<exists>ms. rs4 = map Decoded ms))))))))"
proof -
  have epcs: "(\<exists>epcs. prefix rs (reception @ map Decoded epcs)) \<longleftrightarrow>
      prefix rs reception \<or> (\<exists>rs4. rs = reception @ rs4 \<and> (\<exists>ms. rs4 = map Decoded ms))" for rs
    unfolding prefix_append prefix_map_iff [of _ Decoded, symmetric] by blast
  have decoded: "(\<exists>m epcs. prefix rs (Decoded m # reception @ map Decoded epcs)) \<longleftrightarrow>
      rs = [] \<or> (\<exists>m rs3. rs = Decoded m # rs3 \<and>
        (prefix rs3 reception \<or> (\<exists>rs4. rs3 = reception @ rs4 \<and> (\<exists>ms. rs4 = map Decoded ms))))" for rs
    unfolding prefix_Cons epcs [symmetric] by blast
  have "(\<exists>m epcs. prefix rs (reception @ Decoded m # reception @ map Decoded epcs)) \<longleftrightarrow>
      prefix rs reception \<or> (\<exists>rs2. rs = reception @ rs2 \<and>
        (\<exists>m epcs. prefix rs2 (Decoded m # reception @ map Decoded epcs)))" for rs
    unfolding prefix_append by blast
  then show ?thesis
    unfolding exchange_def append_Cons append_Nil prefix_Cons [of rs] decoded [symmetric] by blast
qed

text \<open>C22: the runs in which no assertion fails.  They are the parts of one exchange, the query, one
  answer with the RN16 and one with EPCs, and those in which the search for a preamble fails; after
  that, and after the exchange, there is no further command.\<close>

theorem exchange_runs:
  assumes "fresh_mac w"
  shows "mac_run rs w \<noteq> None \<longleftrightarrow>
    (\<exists>rn16 epcs. prefix rs (exchange rn16 epcs)) \<or>
    rs = [Issue, Preamble False] \<or>
    (\<exists>rn16. rs = [Issue] @ reception @ [Decoded rn16, Preamble False])"
proof -
  obtain qe qg where q: "d_encoder_queue (mac w) = Some qe" "d_gate_queue (mac w) = Some qg" "qe \<noteq> qg"
    and st: "d_state (mac w) = READY_DOWNLINK" "d_mac_state (mac w) = MS_IDLE"
    using assms by (auto simp: fresh_mac_def)
  let ?L3 = "\<lambda>rs. \<exists>ms. rs = map Decoded ms"
  let ?L2 = "\<lambda>rs. prefix rs reception \<or> rs = [Preamble False] \<or> (\<exists>rs'. rs = reception @ rs' \<and> ?L3 rs')"
  let ?L1 = "\<lambda>rs. rs = [] \<or> (\<exists>m rs'. rs = Decoded m # rs' \<and> ?L2 rs')"
  let ?L0 = "\<lambda>rs. prefix rs reception \<or> rs = [Preamble False] \<or> (\<exists>rs'. rs = reception @ rs' \<and> ?L1 rs')"
  have epc: "mac_run rs w1 \<noteq> None \<longleftrightarrow> ?L2 rs"
    if "d_state (mac w1) = PREAMBLE_DET" "d_mac_state (mac w1) = MS_EPC" for rs w1
    using that by (intro run_receive run_decoded) simp_all
  have decoded: "mac_run rs w1 \<noteq> None \<longleftrightarrow> ?L1 rs"
    if "d_state (mac w1) = WAIT_FOR_DECODE" "d_mac_state (mac w1) = MS_RN16"
      "d_encoder_queue (mac w1) = Some qe" "d_gate_queue (mac w1) = Some qg" for rs w1
  proof (cases rs)
    case (Cons r rs')
    then show ?thesis
      using that epc [of _ rs'] q(3)
      by (cases r) (simp_all add: mac_ops ack_burst_queued)
  qed simp
  have rn16: "mac_run rs w1 \<noteq> None \<longleftrightarrow> ?L0 rs"
    if "d_state (mac w1) = PREAMBLE_DET" "d_mac_state (mac w1) = MS_RN16"
      "d_encoder_queue (mac w1) = Some qe" "d_gate_queue (mac w1) = Some qg" for rs w1
    using that by (intro run_receive decoded) simp_all
  have "mac_run rs w \<noteq> None \<longleftrightarrow> rs = [] \<or> (\<exists>rs'. rs = Issue # rs' \<and> ?L0 rs')"
  proof (cases rs)
    case (Cons r rs')
    then show ?thesis
      using q st rn16 [of _ rs'] by (cases r) (simp_all add: mac_ops query_burst_queued)
  qed simp
  also have "\<dots> \<longleftrightarrow> (\<exists>rn16 epcs. prefix rs (exchange rn16 epcs)) \<or> rs = [Issue, Preamble False] \<or>
    (\<exists>rn16. rs = [Issue] @ reception @ [Decoded rn16, Preamble False])"
    unfolding prefix_exchange by auto
  finally show ?thesis .
qed

theorem exchange_runs_witness:
  "mac_run [Issue, Issue] mac_start = None \<and> mac_run [Issue, Preamble False, Issue] mac_start = None"
  using exchange_runs [OF fresh_mac_start, of "[Issue, Issue]"]
    exchange_runs [OF fresh_mac_start, of "[Issue, Preamble False, Issue]"]
  by (simp add: exchange_def reception_def)

end
