(* ===== verification/Transceiver.thy ===== *)
theory Transceiver
  imports PreambleSearch Controller
begin

text \<open>
  The hierarchical blocks of \<open>examples/bts_transceiver.py\<close>, one definition for each constructor, the
  transceiver itself with its queues, and the thread that prints received bits.
\<close>

section \<open>The differential decoder\<close>

datatype bit_slicer_block = Diff | Bpsk_slicer

definition bit_slicer :: "bit_slicer_block hier_block" where
  "bit_slicer =
     \<lparr>in_sig = io_signature 2 2 Gr_float,
      out_sig = io_signature 1 1 Gr_char,
      kind_of = (\<lambda>b. case b of Diff \<Rightarrow> Gr Sub_ff | Bpsk_slicer \<Rightarrow> Gr Binary_slicer_fb),
      connects =
        [[(Self, 1), port Diff 0],
         [(Self, 0), port Diff 1],
         [blk Diff, blk Bpsk_slicer, self]]\<rparr>"

datatype symbol_slicer_block = Combine | Magnitude

definition symbol_1_slicer :: "symbol_slicer_block hier_block" where
  "symbol_1_slicer =
     \<lparr>in_sig = io_signature 2 2 Gr_complex,
      out_sig = io_signature 1 1 Gr_float,
      kind_of = (\<lambda>b. case b of Combine \<Rightarrow> Gr Sub_cc | Magnitude \<Rightarrow> Gr Complex_to_mag_squared),
      connects =
        [[(Self, 0), port Combine 0],
         [(Self, 1), port Combine 1],
         [blk Combine, blk Magnitude, self]]\<rparr>"

definition symbol_0_slicer :: "symbol_slicer_block hier_block" where
  "symbol_0_slicer =
     \<lparr>in_sig = io_signature 2 2 Gr_complex,
      out_sig = io_signature 1 1 Gr_float,
      kind_of = (\<lambda>b. case b of Combine \<Rightarrow> Gr Add_cc | Magnitude \<Rightarrow> Gr Complex_to_mag_squared),
      connects =
        [[(Self, 0), port Combine 0],
         [(Self, 1), port Combine 1],
         [blk Combine, blk Magnitude, self]]\<rparr>"

datatype diff_decoder_block = S_to_p | S_0_s | S_1_s | Slicer

definition binary_diff_decoder :: "diff_decoder_block hier_block" where
  "binary_diff_decoder =
     \<lparr>in_sig = io_signature 1 1 Gr_complex,
      out_sig = io_signature 1 1 Gr_char,
      kind_of = (\<lambda>b. case b of
          S_to_p \<Rightarrow> Gr (Stream_to_streams Gr_complex 2)
        | S_0_s \<Rightarrow> Hier (hier_sig symbol_0_slicer)
        | S_1_s \<Rightarrow> Hier (hier_sig symbol_1_slicer)
        | Slicer \<Rightarrow> Hier (hier_sig bit_slicer)),
      connects =
        [[self, blk S_to_p],
         [port S_to_p 0, port S_0_s 0],
         [port S_to_p 1, port S_0_s 1],
         [port S_to_p 0, port S_1_s 0],
         [port S_to_p 1, port S_1_s 1],
         [blk S_0_s, port Slicer 0],
         [blk S_1_s, port Slicer 1],
         [blk Slicer, self]]\<rparr>"

section \<open>The symbol mapper\<close>

definition half_sym_taps :: "real list" where
  "half_sym_taps = unit_energy [1, 1, -1, -1, 1, 1, -1, -1]"

datatype mapper_block = Mf | Timing_recovery | Timing_s

definition symbol_mapper :: "mapper_block hier_block" where
  "symbol_mapper =
     \<lparr>in_sig = io_signature 1 1 Gr_complex,
      out_sig = io_signature 1 1 Gr_complex,
      kind_of = (\<lambda>b. case b of
          Mf \<Rightarrow> Gr (Fir_filter_ccf 1 half_sym_taps)
        | Timing_recovery \<Rightarrow> Rfidbts (Elg_timing_cc 0 8 500 (7 + 12 + 32) 0.04 0.1 0.01)
        | Timing_s \<Rightarrow> Gr (File_sink Gr_complex ''timing/symbols.dat'')),
      connects =
        [[blk Timing_recovery, blk Timing_s],
         [self, blk Mf, blk Timing_recovery, self]]\<rparr>"

section \<open>The transceiver\<close>

datatype transceiver_block =
    Agc_out
  | Tx_encoder
  | Tx_blocker
  | Blocker
  | Agc
  | Search
  | Half_symbols
  | Decoder
  | Framer

definition transceiver_frame_size :: int where
  "transceiver_frame_size = (32 + 32 + 12) * 8 + \<lfloor>75 * 0.4 * 1.024 :: real\<rfloor>"

definition transceiver_graph :: "signature \<Rightarrow> transceiver_block hier_block" where
  "transceiver_graph search_sig =
     \<lparr>in_sig = io_signature 1 1 Gr_complex,
      out_sig = io_signature 1 1 Gr_complex,
      kind_of = (\<lambda>b. case b of
          Agc_out \<Rightarrow> Gr (File_sink Gr_complex ''agc.dat'')
        | Tx_encoder \<Rightarrow> Rfidbts (Pie_encoder 8 16 8 53 32)
        | Tx_blocker \<Rightarrow> Rfidbts (Receive_gate 0.15 15)
        | Blocker \<Rightarrow> Gr (Dc_blocker_cc 5 True)
        | Agc \<Rightarrow> Gr (Agc_cc 0.5 0.707 100 1000)
        | Search \<Rightarrow> Hier search_sig
        | Half_symbols \<Rightarrow> Hier (hier_sig symbol_mapper)
        | Decoder \<Rightarrow> Rfidbts Orthogonal_decode
        | Framer \<Rightarrow> Rfidbts Packetizer),
      connects =
        [[blk Tx_encoder, self],
         [self, blk Tx_blocker, blk Blocker, blk Agc, blk Search, blk Half_symbols, blk Decoder, blk Framer],
         [blk Agc, blk Agc_out]]\<rparr>"

record transceiver =
  graph :: "transceiver_block hier_block"
  tx_encoder_queue :: msg_queue
  tx_blocker_queue :: msg_queue
  search :: "search \<times> search_block hier_block"

text \<open>The constructor sets the queues of the encoder, of the gate and of \<open>rfid_mac\<close>.\<close>

definition proto_transceiver :: "taps_of \<Rightarrow> controller \<Rightarrow> (transceiver \<times> controller) res" where
  "proto_transceiver lib_taps rfid_mac =
     (let q_encoder = Encoder_queue 100;
          mac1 = set_encoder_queue q_encoder rfid_mac;
          q_blocker = Blocker_queue 100;
          mac2 = set_gate_queue q_blocker mac1
      in bind_res (preamble_search lib_taps transceiver_frame_size) (\<lambda>s.
           Inr (\<lparr>graph = transceiver_graph (hier_sig (snd s)), tx_encoder_queue = q_encoder,
                 tx_blocker_queue = q_blocker, search = s\<rparr>, mac2)))"

definition snd_query :: "mac_world \<Rightarrow> mac_world option" where
  "snd_query = issue_downlink_command"

section \<open>The thread that prints messages\<close>

definition hex2 :: "char \<Rightarrow> string" where
  "hex2 c = [digit_char (of_char c div 16), digit_char (of_char c mod 16)]"

definition rn16_line :: "string \<Rightarrow> string" where
  "rn16_line s = foldl (\<lambda>printout c. printout @ '' 0x'' @ hex2 c) ''RN16 bits:'' s"

text \<open>The loop of the thread over the messages that arrive; nothing sets \<open>keep_running\<close> to false.\<close>

definition watcher_run :: "string list \<Rightarrow> string list" where
  "watcher_run messages = map rn16_line messages"

lemma rn16_line_eq: "rn16_line s = ''RN16 bits:'' @ concat (map (\<lambda>c. '' 0x'' @ hex2 c) s)"
proof -
  have "foldl (\<lambda>printout c. printout @ '' 0x'' @ hex2 c) p s = p @ concat (map (\<lambda>c. '' 0x'' @ hex2 c) s)" for p
    by (induction s arbitrary: p) simp_all
  then show ?thesis by (simp add: rn16_line_def)
qed

section \<open>The graphs start\<close>

interpretation bit_slicer: stream_graph bit_slicer "\<lambda>b. case b of Diff \<Rightarrow> 0 | Bpsk_slicer \<Rightarrow> 1"
  by unfold_locales (simp_all add: bit_slicer_def graph_eval)

interpretation symbol_0_slicer: stream_graph symbol_0_slicer "\<lambda>b. case b of Combine \<Rightarrow> 0 | Magnitude \<Rightarrow> 1"
  by unfold_locales (simp_all add: symbol_0_slicer_def graph_eval)

interpretation symbol_1_slicer: stream_graph symbol_1_slicer "\<lambda>b. case b of Combine \<Rightarrow> 0 | Magnitude \<Rightarrow> 1"
  by unfold_locales (simp_all add: symbol_1_slicer_def graph_eval)

interpretation diff_decoder: stream_graph binary_diff_decoder
    "\<lambda>b. case b of S_to_p \<Rightarrow> 0 | S_0_s \<Rightarrow> 1 | S_1_s \<Rightarrow> 1 | Slicer \<Rightarrow> 2"
  by unfold_locales
    (simp_all add: binary_diff_decoder_def symbol_0_slicer_def symbol_1_slicer_def bit_slicer_def graph_eval)

interpretation symbol_mapper: stream_graph symbol_mapper
    "\<lambda>b. case b of Mf \<Rightarrow> 0 | Timing_recovery \<Rightarrow> 1 | Timing_s \<Rightarrow> 2"
  by unfold_locales (simp_all add: symbol_mapper_def graph_eval)

fun transceiver_rank :: "transceiver_block \<Rightarrow> nat" where
  "transceiver_rank Tx_encoder = 0"
| "transceiver_rank Tx_blocker = 0"
| "transceiver_rank Blocker = 1"
| "transceiver_rank Agc = 2"
| "transceiver_rank Search = 3"
| "transceiver_rank Half_symbols = 4"
| "transceiver_rank Decoder = 5"
| "transceiver_rank Framer = 6"
| "transceiver_rank Agc_out = 6"

interpretation transceiver: stream_graph
    "transceiver_graph (io_signature 1 1 Gr_complex, io_signature 1 1 Gr_complex)" transceiver_rank
  by unfold_locales (simp_all add: transceiver_graph_def symbol_mapper_def graph_eval)

lemma frame_size_638: "transceiver_frame_size = 638"
proof -
  have "\<lfloor>75 * 0.4 * 1.024 :: real\<rfloor> = 30"
    by (rule floor_unique) simp_all
  then show ?thesis by (simp add: transceiver_frame_size_def)
qed

lemma proto_transceiver_ok:
  assumes "keeps_taps lib_taps"
  shows "\<exists>t. proto_transceiver lib_taps rfid_mac = Inr (t, set_gate_queue (tx_blocker_queue t)
      (set_encoder_queue (tx_encoder_queue t) rfid_mac)) \<and>
    tx_encoder_queue t \<noteq> tx_blocker_queue t \<and>
    graph t = transceiver_graph (io_signature 1 1 Gr_complex, io_signature 1 1 Gr_complex) \<and>
    preamble_search lib_taps 638 = Inr (search t)"
  using preamble_search_graph [OF assms, of 638 "1.024" 4]
  by (simp add: proto_transceiver_def preamble_search_def frame_size_638 Let_def)

lemma preamble_search_wired:
  assumes "keeps_taps lib_taps" and "preamble_search lib_taps frame = Inr (obj, g)"
  shows "well_wired gr_needs g"
  using assms(2) preamble_search_graph [OF assms(1), of frame "1.024" 4]
    search_graph_wired [OF search_object_resamplers [OF assms(1), of frame "1.024" 4], of frame]
  by (auto simp: preamble_search_def)

text \<open>C26: the constructor of the transceiver raises nothing and its graph and those inside it start.
  The encoder alone feeds the output and needs no input; what is received passes the gate, the
  DC blocker, the gain control, the search, the symbol mapper and the decoder to the framer.  The
  controller fills the queues that the encoder and the gate read, and these are two queues.\<close>

theorem transceiver_starts:
  assumes "provides lib" and "keeps_taps lib_taps"
  shows "\<exists>t mac1. proto_transceiver lib_taps mac0 = Inr (t, mac1) \<and>
    well_wired lib (graph t) \<and> well_wired lib (snd (search t)) \<and> well_wired lib symbol_mapper \<and>
    {s. (s, self) \<in> set (wires (graph t))} = {blk Tx_encoder} \<and> driven (graph t) (Block Tx_encoder) = [] \<and>
    {(self, blk Tx_blocker), (blk Tx_blocker, blk Blocker), (blk Blocker, blk Agc), (blk Agc, blk Search),
     (blk Search, blk Half_symbols), (blk Half_symbols, blk Decoder), (blk Decoder, blk Framer)}
      \<subseteq> set (wires (graph t)) \<and>
    d_encoder_queue mac1 = Some (tx_encoder_queue t) \<and> d_gate_queue mac1 = Some (tx_blocker_queue t) \<and>
    tx_encoder_queue t \<noteq> tx_blocker_queue t"
proof -
  obtain t where t: "proto_transceiver lib_taps mac0 = Inr (t, set_gate_queue (tx_blocker_queue t)
      (set_encoder_queue (tx_encoder_queue t) mac0))" "tx_encoder_queue t \<noteq> tx_blocker_queue t"
    and g: "graph t = transceiver_graph (io_signature 1 1 Gr_complex, io_signature 1 1 Gr_complex)"
    and s: "preamble_search lib_taps 638 = Inr (search t)"
    using proto_transceiver_ok [OF assms(2)] by blast
  have "well_wired gr_needs (snd (search t))"
    using preamble_search_wired [OF assms(2), of 638 "fst (search t)" "snd (search t)"] s by simp
  moreover have "well_wired gr_needs (graph t)"
    using transceiver.wired g by simp
  ultimately show ?thesis
    using t symbol_mapper.wired
    by (intro exI [of _ t] exI)
      (auto simp: g transceiver_graph_def wires_def driven_def set_gate_queue_def set_encoder_queue_def
        intro: well_wired_lib [OF _ assms(1)])
qed

theorem transceiver_starts_witness:
  "\<exists>t mac1. proto_transceiver (\<lambda>r ts n a. case ts of None \<Rightarrow> [1] | Some ts \<Rightarrow> ts) make_controller = Inr (t, mac1) \<and>
     well_wired gr_needs (graph t) \<and> d_encoder_queue mac1 = Some (tx_encoder_queue t)"
proof -
  have "keeps_taps (\<lambda>r ts n a. case ts of None \<Rightarrow> [1] | Some ts \<Rightarrow> ts)"
    by (simp add: keeps_taps_def)
  from transceiver_starts [OF provides_needs this, of make_controller] show ?thesis by blast
qed

end
