(* ===== verification/UhdStation.thy ===== *)
theory UhdStation
  imports Transceiver
begin

text \<open>
  The top block of \<open>examples/bts_snd_recv.py\<close>: its options, the set-up of the UHD devices and the
  graph, for the four ways to set its two switches.
\<close>

section \<open>Options\<close>

record app_options =
  address :: string
  test_src :: string
  test_snk :: string
  rx_samp_rate :: real
  tx_samp_rate :: real
  frequency :: real
  rx_gain :: "real option"
  tx_gain :: "real option"

definition app_defaults :: app_options where
  "app_defaults =
     \<lparr>address = '''', test_src = ''bb_dump.dat'', test_snk = ''readout.dat'',
      rx_samp_rate = 1000000, tx_samp_rate = 640000, frequency = 915000000,
      rx_gain = Some 60, tx_gain = Some (-1)\<rparr>"

text \<open>\<open>parse\<close> is the library's parser, with the defaults and the arguments; \<open>sys\<close> is not imported.\<close>

type_synonym app_parser = "app_options \<Rightarrow> string list \<Rightarrow> (app_options \<times> string list) res"

definition run_parser :: "app_parser \<Rightarrow> string list \<Rightarrow> app_options res" where
  "run_parser parse argv =
     bind_res (parse app_defaults argv) (\<lambda>(options, args).
       if length args \<noteq> 0 then Inl (NameError ''sys'') else Inr options)"

section \<open>The devices\<close>

datatype uhd_call =
    Set_subdev_spec string
  | Set_samp_rate real
  | Set_gain real
  | Set_center_freq real
  | Show string
  | Show_value string real string
  | Show_range real real

text \<open>What a device answers.\<close>

record uhd_device =
  samp_rate :: "real \<Rightarrow> real"
  gain_range :: "real \<times> real"
  gain :: "real \<Rightarrow> real"
  center_freq :: "real \<Rightarrow> real"

definition setup_src :: "uhd_device \<Rightarrow> app_options \<Rightarrow> uhd_call list \<times> gr_block \<times> app_options" where
  "setup_src dev options =
     (let calls1 = [Set_subdev_spec ''A:'', Show ''RX Subdev Spec  A:'',
            Set_samp_rate (rx_samp_rate options),
            Show_value ''Requested RX rate: '' (rx_samp_rate options) ''Hz'',
            Show_value ''Actual RX rate: '' (samp_rate dev (rx_samp_rate options)) ''Hz''];
          g = (case rx_gain options of
              None \<Rightarrow> (fst (gain_range dev) + snd (gain_range dev)) / 2
            | Some g \<Rightarrow> g);
          calls2 = [Set_gain g,
            Show_value ''Requested RX gain: '' g ''dB'', Show_value ''Actual RX gain: '' (gain dev g) ''dB'',
            Set_center_freq (frequency options),
            Show_value ''Requested RX frequency: '' (frequency options) ''Hz'',
            Show_value ''Actual RX frequency: '' (center_freq dev (frequency options)) ''Hz'']
      in (calls1 @ calls2, Uhd_source (address options), options\<lparr>rx_gain := Some g\<rparr>))"

definition setup_snk :: "uhd_device \<Rightarrow> app_options \<Rightarrow> uhd_call list \<times> gr_block \<times> app_options" where
  "setup_snk dev options =
     (let calls1 = [Set_subdev_spec ''B:'', Show ''TX Subdev Spec  B:'',
            Set_samp_rate (tx_samp_rate options),
            Show_value ''Requested TX rate: '' (tx_samp_rate options) ''Hz'',
            Show_value ''Actual TX rate: '' (samp_rate dev (tx_samp_rate options)) ''Hz''];
          (shown, g) = (case tx_gain options of
              None \<Rightarrow> ([Show_range (fst (gain_range dev)) (snd (gain_range dev))],
                (fst (gain_range dev) + snd (gain_range dev)) / 2)
            | Some g \<Rightarrow> ([], g));
          calls2 = [Set_gain g,
            Show_value ''Requested TX gain: '' g ''dB'', Show_value ''Actual TX gain: '' (gain dev g) ''dB'',
            Set_center_freq (frequency options),
            Show_value ''Requested TX frequency: '' (frequency options) ''Hz'',
            Show_value ''Actual TX frequency: '' (center_freq dev (frequency options)) ''Hz'']
      in (calls1 @ shown @ calls2, Uhd_sink (address options), options\<lparr>tx_gain := Some g\<rparr>))"

section \<open>The top block\<close>

datatype app_block = Transceiver | Src | F_src | Bb_sink | Snk | Fsnk

text \<open>The receiving and the transmitting side: the calls, the kinds of their blocks and the
  connections, and the options afterwards.\<close>

definition receiving_side ::
  "bool \<Rightarrow> uhd_device \<Rightarrow> app_options \<Rightarrow>
   uhd_call list \<times> (app_block \<rightharpoonup> kind) \<times> app_block point list list \<times> app_options" where
  "receiving_side rcvr_hack dev options =
     (if rcvr_hack
      then ([],
        [Src \<mapsto> Gr (Throttle Gr_complex (rx_samp_rate options)),
         F_src \<mapsto> Gr (File_source Gr_complex (test_src options) False)],
        [[blk F_src, blk Src]], options)
      else (case setup_src dev options of (calls, src, options1) \<Rightarrow>
        (calls,
         [Bb_sink \<mapsto> Gr (File_sink Gr_complex ''bb_dump.dat''), Src \<mapsto> Gr src],
         [[blk Src, blk Bb_sink]], options1)))"

definition transmitting_side ::
  "bool \<Rightarrow> uhd_device \<Rightarrow> app_options \<Rightarrow>
   uhd_call list \<times> (app_block \<rightharpoonup> kind) \<times> app_block point list list \<times> app_options" where
  "transmitting_side xmtr_hack dev options =
     (if xmtr_hack
      then ([],
        [Snk \<mapsto> Gr (Throttle Gr_complex (tx_samp_rate options)),
         Fsnk \<mapsto> Gr (File_sink Gr_complex (test_snk options))],
        [[blk Snk, blk Fsnk]], options)
      else (case setup_snk dev options of (calls, snk, options1) \<Rightarrow>
        (calls,
         [Snk \<mapsto> Gr snk, Fsnk \<mapsto> Gr (File_sink Gr_complex (test_snk options))],
         [[blk Transceiver, blk Fsnk]], options1)))"

record app =
  options :: app_options
  transceiver :: transceiver
  graph :: "app_block hier_block"

text \<open>The constructor of \<open>app_top_block\<close>; it also sets the queues of \<open>rfid_mac\<close>.\<close>

definition app_top_block_with ::
  "bool \<Rightarrow> bool \<Rightarrow> app_parser \<Rightarrow> string list \<Rightarrow> taps_of \<Rightarrow> uhd_device \<Rightarrow> controller \<Rightarrow>
   (uhd_call list \<times> app \<times> controller) res" where
  "app_top_block_with xmtr_hack rcvr_hack parse argv lib_taps dev rfid_mac =
     bind_res (run_parser parse argv) (\<lambda>options.
     bind_res (proto_transceiver lib_taps rfid_mac) (\<lambda>(t, rfid_mac1).
     case receiving_side rcvr_hack dev options of (calls1, kinds1, connects1, options1) \<Rightarrow>
     case transmitting_side xmtr_hack dev options1 of (calls2, kinds2, connects2, options2) \<Rightarrow>
     Inr (calls1 @ calls2,
       \<lparr>options = options2, transceiver = t,
        graph = \<lparr>in_sig = no_streams, out_sig = no_streams,
          kind_of = (\<lambda>b. case (kinds1 ++ kinds2 ++ [Transceiver \<mapsto> Hier (hier_sig (transceiver.graph t))]) b of
              Some k \<Rightarrow> k | None \<Rightarrow> Hier (no_streams, no_streams)),
          connects = connects1 @ connects2 @ [[blk Src, blk Transceiver], [blk Transceiver, blk Snk]]\<rparr>\<rparr>,
       rfid_mac1)))"

definition app_top_block ::
  "app_parser \<Rightarrow> string list \<Rightarrow> taps_of \<Rightarrow> uhd_device \<Rightarrow> controller \<Rightarrow>
   (uhd_call list \<times> app \<times> controller) res" where
  "app_top_block = app_top_block_with True True"

section \<open>The programs start\<close>

definition app_graph :: "app_block point list list \<Rightarrow> (app_block \<Rightarrow> kind) \<Rightarrow> app_block hier_block" where
  "app_graph cs k =
     \<lparr>in_sig = no_streams, out_sig = no_streams, kind_of = k,
      connects = cs @ [[blk Src, blk Transceiver], [blk Transceiver, blk Snk]]\<rparr>"

fun app_rank :: "app_block \<Rightarrow> nat" where
  "app_rank F_src = 0"
| "app_rank Src = 1"
| "app_rank Bb_sink = 2"
| "app_rank Transceiver = 2"
| "app_rank Snk = 3"
| "app_rank Fsnk = 4"

text \<open>The four graphs, with a device or a file on each side.\<close>

lemma app_graphs_wired:
  assumes "kind_sig gr_needs (k Transceiver) = (io_signature 1 1 Gr_complex, io_signature 1 1 Gr_complex)"
    and "kind_sig gr_needs (k Fsnk) = (io_signature 1 1 Gr_complex, no_streams)"
  shows "kind_sig gr_needs (k F_src) = (no_streams, io_signature 1 1 Gr_complex) \<Longrightarrow>
      kind_sig gr_needs (k Src) = (io_signature 1 1 Gr_complex, io_signature 1 1 Gr_complex) \<Longrightarrow>
      kind_sig gr_needs (k Snk) = (io_signature 1 1 Gr_complex, io_signature 1 1 Gr_complex) \<Longrightarrow>
      well_wired gr_needs (app_graph ([[blk F_src, blk Src]] @ [[blk Snk, blk Fsnk]]) k)"
    and "kind_sig gr_needs (k F_src) = (no_streams, io_signature 1 1 Gr_complex) \<Longrightarrow>
      kind_sig gr_needs (k Src) = (io_signature 1 1 Gr_complex, io_signature 1 1 Gr_complex) \<Longrightarrow>
      kind_sig gr_needs (k Snk) = (io_signature 1 1 Gr_complex, no_streams) \<Longrightarrow>
      well_wired gr_needs (app_graph ([[blk F_src, blk Src]] @ [[blk Transceiver, blk Fsnk]]) k)"
    and "kind_sig gr_needs (k Src) = (no_streams, io_signature 1 1 Gr_complex) \<Longrightarrow>
      kind_sig gr_needs (k Bb_sink) = (io_signature 1 1 Gr_complex, no_streams) \<Longrightarrow>
      kind_sig gr_needs (k Snk) = (io_signature 1 1 Gr_complex, io_signature 1 1 Gr_complex) \<Longrightarrow>
      well_wired gr_needs (app_graph ([[blk Src, blk Bb_sink]] @ [[blk Snk, blk Fsnk]]) k)"
    and "kind_sig gr_needs (k Src) = (no_streams, io_signature 1 1 Gr_complex) \<Longrightarrow>
      kind_sig gr_needs (k Bb_sink) = (io_signature 1 1 Gr_complex, no_streams) \<Longrightarrow>
      kind_sig gr_needs (k Snk) = (io_signature 1 1 Gr_complex, no_streams) \<Longrightarrow>
      well_wired gr_needs (app_graph ([[blk Src, blk Bb_sink]] @ [[blk Transceiver, blk Fsnk]]) k)"
  using assms
  by (intro stream_graph.wired [where rank = app_rank] stream_graph.intro; simp add: app_graph_def graph_eval)+

lemma app_graph_wired:
  assumes "receiving_side rh dev opts = (calls1, kinds1, connects1, opts1)"
    and "transmitting_side xh dev opts' = (calls2, kinds2, connects2, opts2)"
    and "t_sig = (io_signature 1 1 Gr_complex, io_signature 1 1 Gr_complex)"
  shows "well_wired gr_needs (app_graph (connects1 @ connects2)
    (\<lambda>b. case (kinds1 ++ kinds2 ++ [Transceiver \<mapsto> Hier t_sig]) b of
      Some k \<Rightarrow> k | None \<Rightarrow> Hier (no_streams, no_streams)))"
  using assms
  by (cases rh; cases xh)
    (auto simp: receiving_side_def transmitting_side_def setup_src_def setup_snk_def Let_def
      simp del: append.simps intro!: app_graphs_wired split: prod.splits)

text \<open>C31: \<open>bts_snd_recv.py\<close>: with arguments the parser understands completely the top block is built
  for each setting of the two switches, and its graph and those of the transceiver start.  As the
  switches are set, no device is touched.  With anything left of the command line the program ends
  with \<open>NameError\<close>.\<close>

theorem app_starts:
  assumes "provides lib" and "keeps_taps lib_taps" and "parse app_defaults argv = Inr (opts, args)"
  shows "(args = [] \<longrightarrow> (\<exists>calls app mac1. app_top_block_with xh rh parse argv lib_taps dev mac0 = Inr (calls, app, mac1) \<and>
      well_wired lib (graph app) \<and> well_wired lib (transceiver.graph (transceiver app)) \<and>
      well_wired lib (snd (search (transceiver app))) \<and> (xh \<and> rh \<longrightarrow> calls = []))) \<and>
    (args \<noteq> [] \<longrightarrow> app_top_block_with xh rh parse argv lib_taps dev mac0 = Inl (NameError ''sys''))"
proof (cases "args = []")
  case True
  obtain t where t: "proto_transceiver lib_taps mac0 = Inr (t, set_gate_queue (tx_blocker_queue t)
      (set_encoder_queue (tx_encoder_queue t) mac0))"
    and g: "transceiver.graph t = transceiver_graph (io_signature 1 1 Gr_complex, io_signature 1 1 Gr_complex)"
    and s: "preamble_search lib_taps 638 = Inr (search t)"
    using proto_transceiver_ok [OF assms(2)] by blast
  obtain calls1 kinds1 connects1 opts1 where
    rx: "receiving_side rh dev opts = (calls1, kinds1, connects1, opts1)" by (metis prod_cases4)
  obtain calls2 kinds2 connects2 opts2 where
    tx: "transmitting_side xh dev opts1 = (calls2, kinds2, connects2, opts2)" by (metis prod_cases4)
  have sig: "hier_sig (transceiver.graph t) = (io_signature 1 1 Gr_complex, io_signature 1 1 Gr_complex)"
    by (simp add: g transceiver_graph_def)
  note app = app_graph_wired [OF rx tx sig]
  have "well_wired gr_needs (snd (search t))"
    using preamble_search_wired [OF assms(2), of 638 "fst (search t)" "snd (search t)"] s by simp
  moreover have "well_wired gr_needs (transceiver.graph t)"
    using transceiver.wired g by simp
  moreover have "calls1 @ calls2 = []" if "xh \<and> rh"
    using that rx tx by (simp add: receiving_side_def transmitting_side_def)
  ultimately show ?thesis
    using True t rx tx app assms(3)
    by (auto simp: app_top_block_with_def run_parser_def app_graph_def intro: well_wired_lib [OF _ assms(1)])
qed (use assms(3) in \<open>simp add: app_top_block_with_def run_parser_def\<close>)

theorem app_starts_witness:
  "\<exists>calls app mac1. app_top_block (\<lambda>opts args. Inr (opts, args)) [] (\<lambda>r ts n a. case ts of None \<Rightarrow> [1] | Some ts \<Rightarrow> ts)
     \<lparr>samp_rate = id, gain_range = (0, 1), gain = id, center_freq = id\<rparr> make_controller = Inr (calls, app, mac1) \<and>
     well_wired gr_needs (graph app) \<and> calls = []"
proof -
  have "keeps_taps (\<lambda>r ts n a. case ts of None \<Rightarrow> [1] | Some ts \<Rightarrow> ts)"
    by (simp add: keeps_taps_def)
  from app_starts [OF provides_needs this, of "\<lambda>opts args. Inr (opts, args)" "[]" app_defaults "[]" True True]
  show ?thesis unfolding app_top_block_def by blast
qed

end
