(* ===== verification/PieEncoder.thy ===== *)
theory PieEncoder
  imports Controller "HOL-Library.Monad_Syntax"
begin

text \<open>
  The encoder of the downlink, class \<open>rfidbts_pie_encoder\<close> of \<open>src/lib\<close>, the block that
  \<open>proto_transceiver\<close> connects to its output.  It takes the tasks the controller has put into its
  queue and turns bits into pulses whose length tells a 0 from a 1 (pulse interval encoding).
  \<open>None\<close> is a failed assertion, or an iterator outside its vector.
\<close>

section \<open>Vectors\<close>

definition d_sample_0 :: complex where
  "d_sample_0 = Complex 0 0"

definition d_sample_1 :: complex where
  "d_sample_1 = Complex 1 1"

definition fill_range :: "int \<Rightarrow> int \<Rightarrow> 'a \<Rightarrow> 'a list \<Rightarrow> 'a list option" where
  "fill_range i j x v =
     (if 0 \<le> i \<and> i \<le> j \<and> j \<le> int (length v)
      then Some (take (nat i) v @ replicate (nat (j - i)) x @ drop (nat j) v) else None)"

definition copy_to :: "'a list \<Rightarrow> int \<Rightarrow> 'a list \<Rightarrow> 'a list option" where
  "copy_to xs i v =
     (if 0 \<le> i \<and> i + int (length xs) \<le> int (length v)
      then Some (take (nat i) v @ xs @ drop (nat i + length xs) v) else None)"

definition new_vector :: "int \<Rightarrow> complex list option" where
  "new_vector n = (if 0 \<le> n then Some (replicate (nat n) 0) else None)"

section \<open>The constructor\<close>

record pie_encoder =
  d_data0 :: "complex list"
  d_data1 :: "complex list"
  d_preamble :: "complex list"
  d_framesync :: "complex list"

definition data_symbol :: "int \<Rightarrow> int \<Rightarrow> complex list option" where
  "data_symbol samples samples_per_pw = do {
     v \<leftarrow> new_vector samples;
     v \<leftarrow> fill_range 0 (samples - samples_per_pw) d_sample_1 v;
     fill_range (samples - samples_per_pw) samples d_sample_0 v
   }"

text \<open>A calibration pulse at position \<open>it\<close>.\<close>

definition put_pulse :: "int \<Rightarrow> int \<Rightarrow> int \<Rightarrow> complex list \<Rightarrow> complex list option" where
  "put_pulse it samples samples_per_pw v = do {
     v \<leftarrow> fill_range it (it + samples - samples_per_pw) d_sample_1 v;
     fill_range (it + samples - samples_per_pw) (it + samples) d_sample_0 v
   }"

definition make_pie_encoder :: "int \<Rightarrow> int \<Rightarrow> int \<Rightarrow> int \<Rightarrow> int \<Rightarrow> pie_encoder option" where
  "make_pie_encoder samples_per_delimiter samples_per_tari samples_per_pw samples_per_trcal samples_per_data1 = do {
     let samples_per_rtcal = samples_per_data1 + samples_per_tari;
     data0 \<leftarrow> data_symbol samples_per_tari samples_per_pw;
     data1 \<leftarrow> data_symbol samples_per_data1 samples_per_pw;
     let n0 = int (length data0);
     p \<leftarrow> new_vector (samples_per_delimiter + n0 + samples_per_trcal + samples_per_rtcal);
     p \<leftarrow> fill_range 0 samples_per_delimiter d_sample_0 p;
     p \<leftarrow> copy_to data0 samples_per_delimiter p;
     _ \<leftarrow> (if samples_per_rtcal > samples_per_pw then Some () else None);
     p \<leftarrow> put_pulse (samples_per_delimiter + n0) samples_per_rtcal samples_per_pw p;
     p \<leftarrow> put_pulse (samples_per_delimiter + n0 + samples_per_rtcal) samples_per_trcal samples_per_pw p;
     f \<leftarrow> new_vector (samples_per_delimiter + n0 + samples_per_rtcal);
     f \<leftarrow> fill_range 0 samples_per_delimiter d_sample_0 f;
     f \<leftarrow> copy_to data0 samples_per_delimiter f;
     f \<leftarrow> put_pulse (samples_per_delimiter + n0) samples_per_rtcal samples_per_pw f;
     Some \<lparr>d_data0 = data0, d_data1 = data1, d_preamble = p, d_framesync = f\<rparr>
   }"

section \<open>Bits\<close>

definition bit_symbol :: "pie_encoder \<Rightarrow> 8 word \<Rightarrow> complex list" where
  "bit_symbol enc b = (if b = 0 then d_data0 enc else d_data1 enc)"

text \<open>The two loops of \<open>bit_to_pie\<close>: the size of the frame, and the symbols copied one after the
  other.\<close>

definition count_bit :: "pie_encoder \<Rightarrow> int option \<Rightarrow> 8 word \<Rightarrow> int option" where
  "count_bit enc cnt b = do {
     sample_cnt \<leftarrow> cnt;
     if b = 0 \<or> b = 1 then Some (sample_cnt + int (length (bit_symbol enc b))) else None
   }"

definition put_bit :: "pie_encoder \<Rightarrow> (int \<times> complex list) option \<Rightarrow> 8 word \<Rightarrow> (int \<times> complex list) option" where
  "put_bit enc st b = do {
     (filler, p) \<leftarrow> st;
     p \<leftarrow> copy_to (bit_symbol enc b) filler p;
     Some (filler + int (length (bit_symbol enc b)), p)
   }"

definition bit_to_pie :: "pie_encoder \<Rightarrow> 8 word list \<Rightarrow> complex list option" where
  "bit_to_pie enc b = do {
     sample_cnt \<leftarrow> foldl (count_bit enc) (Some 0) b;
     (filler, p) \<leftarrow> foldl (put_bit enc) (Some (0, replicate (nat sample_cnt) d_sample_0)) b;
     if filler = int (length p) then Some p else None
   }"

section \<open>The work function\<close>

datatype pie_state = OFF_IDLE | ON_IDLE | ON_TIMED | SEND_SAMPLES | GET_TASK

record pie_work =
  p_state :: pie_state
  p_counter :: int
  p_frame :: "complex list"
  p_queue :: "tx_task list"

definition decode_task :: "pie_encoder \<Rightarrow> tx_task \<Rightarrow> pie_work \<Rightarrow> pie_work option" where
  "decode_task enc task st =
     (case task of
        TURN_ON_TIMED len \<Rightarrow> Some (st\<lparr>p_counter := len, p_state := ON_TIMED\<rparr>)
      | TURN_ON \<Rightarrow> Some (st\<lparr>p_state := ON_IDLE\<rparr>)
      | PREAMBLE \<Rightarrow> Some (st\<lparr>p_frame := d_preamble enc, p_state := SEND_SAMPLES, p_counter := 0\<rparr>)
      | FRAME_SYNCH \<Rightarrow> Some (st\<lparr>p_frame := d_framesync enc, p_state := SEND_SAMPLES, p_counter := 0\<rparr>)
      | DATA_BITS bits \<Rightarrow>
          do { frame \<leftarrow> bit_to_pie enc bits;
               Some (st\<lparr>p_frame := frame, p_state := SEND_SAMPLES, p_counter := 0\<rparr>) }
      | TURN_OFF \<Rightarrow> Some (st\<lparr>p_state := OFF_IDLE\<rparr>))"

datatype 'a flow = Continue 'a | Leave 'a

type_synonym work_point = "int \<times> complex list \<times> pie_work"

text \<open>In the two idle states: the next task if there is one, otherwise the rest of the buffer.\<close>

definition idle_step :: "pie_encoder \<Rightarrow> int \<Rightarrow> complex \<Rightarrow> work_point \<Rightarrow> work_point flow option" where
  "idle_step enc noutput_items sample pt =
     (case pt of (nn, output, st) \<Rightarrow>
        (case p_queue st of
           task # tasks \<Rightarrow>
             do { st \<leftarrow> decode_task enc task (st\<lparr>p_queue := tasks\<rparr>); Some (Continue (nn, output, st)) }
         | [] \<Rightarrow>
             do { output \<leftarrow> fill_range nn noutput_items sample output;
                  Some (Continue (noutput_items, output, st)) }))"

text \<open>One round of the loop.  The timed carrier is written up to \<open>output + m\<close>.\<close>

definition work_step :: "pie_encoder \<Rightarrow> int \<Rightarrow> work_point \<Rightarrow> work_point flow option" where
  "work_step enc noutput_items pt =
     (case pt of (nn, output, st) \<Rightarrow>
        (case p_state st of
           OFF_IDLE \<Rightarrow> idle_step enc noutput_items d_sample_0 pt
         | ON_IDLE \<Rightarrow> idle_step enc noutput_items d_sample_1 pt
         | ON_TIMED \<Rightarrow>
             (if p_counter st > 0
              then let m = min (p_counter st) (noutput_items - nn) in
                do { output \<leftarrow> fill_range nn m d_sample_1 output;
                     Some (Continue (nn + m, output, st\<lparr>p_counter := p_counter st - m\<rparr>)) }
              else Some (Continue (nn, output, st\<lparr>p_state := GET_TASK\<rparr>)))
         | SEND_SAMPLES \<Rightarrow>
             (if p_counter st < int (length (p_frame st))
              then let m = min (int (length (p_frame st)) - p_counter st) (noutput_items - nn) in
                do { output \<leftarrow> copy_to (take (nat m) (drop (nat (p_counter st)) (p_frame st))) nn output;
                     Some (Continue (nn + m, output, st\<lparr>p_counter := p_counter st + m\<rparr>)) }
              else Some (Continue (nn, output, st\<lparr>p_state := GET_TASK\<rparr>)))
         | GET_TASK \<Rightarrow>
             (case p_queue st of
                task # tasks \<Rightarrow>
                  do { st \<leftarrow> decode_task enc task (st\<lparr>p_queue := tasks\<rparr>); Some (Continue (nn, output, st)) }
              | [] \<Rightarrow> Some (Leave pt))))"

lemma decode_task_queue: "decode_task enc task st = Some st' \<Longrightarrow> p_queue st' = p_queue st"
  by (auto simp: decode_task_def bind_eq_Some_conv split: tx_task.splits)

definition work_measure :: "int \<Rightarrow> work_point \<Rightarrow> nat \<times> nat \<times> nat" where
  "work_measure n pt = (case pt of (nn, output, st) \<Rightarrow>
     (length (p_queue st), nat (n - nn), if p_state st = GET_TASK then 0 else 1))"

lemma work_step_decreases:
  assumes "work_step enc n (nn, output, st) = Some (Continue pt)" and "nn < n"
  shows "(work_measure n pt, work_measure n (nn, output, st)) \<in> less_than <*lex*> less_than <*lex*> less_than"
  using assms
  by (auto simp: work_step_def idle_step_def work_measure_def Let_def bind_eq_Some_conv
      split: pie_state.splits list.splits if_splits dest!: decode_task_queue)

function work_loop :: "pie_encoder \<Rightarrow> int \<Rightarrow> work_point \<Rightarrow> work_point option" where
  "work_loop enc n pt =
     (if fst pt < n then
        (case work_step enc n pt of
           None \<Rightarrow> None
         | Some (Leave pt') \<Rightarrow> Some pt'
         | Some (Continue pt') \<Rightarrow> work_loop enc n pt')
      else Some pt)"
  by pat_completeness auto
termination
  by (relation "inv_image (less_than <*lex*> less_than <*lex*> less_than) (\<lambda>(enc, n, pt). work_measure n pt)")
    (auto dest: work_step_decreases)

declare work_loop.simps [simp del]

text \<open>A call with a buffer of \<open>n\<close> items: what has been produced, and the state.\<close>

definition general_work :: "pie_encoder \<Rightarrow> complex list \<Rightarrow> pie_work \<Rightarrow> (complex list \<times> pie_work) option" where
  "general_work enc output st =
     map_option (\<lambda>(nn, output', st'). (take (nat nn) output', st'))
       (work_loop enc (int (length output)) (0, output, st))"

section \<open>The frames\<close>

text \<open>A pulse: the carrier, and then the carrier off for the time of a pulse width.\<close>

definition pulse :: "int \<Rightarrow> int \<Rightarrow> complex list" where
  "pulse samples pw = replicate (nat (samples - pw)) d_sample_1 @ replicate (nat pw) d_sample_0"

lemma length_pulse [simp]: "0 \<le> pw \<Longrightarrow> pw \<le> n \<Longrightarrow> length (pulse n pw) = nat n"
  by (simp add: pulse_def)

lemma fill_next:
  assumes "i = int (length xs)" and "i \<le> j" and "nat (j - i) \<le> n"
  shows "fill_range i j x (xs @ replicate n a) =
    Some (xs @ replicate (nat (j - i)) x @ replicate (n - nat (j - i)) a)"
proof -
  have "nat j = length xs + nat (j - i)" using assms by simp
  moreover have "j \<le> int (length xs) + int n" using assms by linarith
  ultimately show ?thesis using assms by (simp add: fill_range_def)
qed

lemma copy_next:
  assumes "i = int (length xs)" and "length ys \<le> n"
  shows "copy_to ys i (xs @ replicate n a) = Some (xs @ ys @ replicate (n - length ys) a)"
  using assms by (simp add: copy_to_def)

lemma data_symbol_pulse:
  assumes "0 \<le> pw" and "pw \<le> n"
  shows "data_symbol n pw = Some (pulse n pw)"
proof -
  have "fill_range 0 (n - pw) d_sample_1 (replicate (nat n) 0) =
      Some (replicate (nat (n - pw)) d_sample_1 @ replicate (nat n - nat (n - pw)) 0)"
    using assms fill_next [of 0 "[]" "n - pw" "nat n" d_sample_1 0] by simp
  moreover have "fill_range (n - pw) n d_sample_0
        (replicate (nat (n - pw)) d_sample_1 @ replicate (nat n - nat (n - pw)) 0) =
      Some (pulse n pw)"
    using assms by (subst fill_next) (auto simp: pulse_def)
  ultimately show ?thesis using assms by (simp add: data_symbol_def new_vector_def)
qed

lemma put_pulse_next:
  assumes "it = int (length xs)" and "0 \<le> pw" and "pw \<le> n" and "nat n \<le> k"
  shows "put_pulse it n pw (xs @ replicate k a) = Some (xs @ pulse n pw @ replicate (k - nat n) a)"
proof -
  have "fill_range it (it + n - pw) d_sample_1 (xs @ replicate k a) =
      Some ((xs @ replicate (nat (n - pw)) d_sample_1) @ replicate (k - nat (n - pw)) a)"
    using assms by (subst fill_next) (auto simp: algebra_simps)
  moreover have "fill_range (it + n - pw) (it + n) d_sample_0
        ((xs @ replicate (nat (n - pw)) d_sample_1) @ replicate (k - nat (n - pw)) a) =
      Some (xs @ pulse n pw @ replicate (k - nat n) a)"
    using assms by (subst fill_next) (auto simp: pulse_def)
  ultimately show ?thesis by (simp add: put_pulse_def)
qed

text \<open>The parameters considered: an encoder with them can be built, and its pulses can be told apart.  The
  constructor accepts others too, such as \<open>data1 = tari\<close>, where a 1 could not be told from a 0.\<close>

definition pie_params :: "int \<Rightarrow> int \<Rightarrow> int \<Rightarrow> int \<Rightarrow> int \<Rightarrow> bool" where
  "pie_params delimiter tari pw trcal data1 \<longleftrightarrow>
     0 \<le> delimiter \<and> 0 < pw \<and> pw < tari \<and> pw \<le> trcal \<and> tari < data1"

lemma make_pie_encoder_frames:
  assumes "pie_params delimiter tari pw trcal data1"
  shows "make_pie_encoder delimiter tari pw trcal data1 = Some
    \<lparr>d_data0 = pulse tari pw, d_data1 = pulse data1 pw,
     d_preamble = replicate (nat delimiter) d_sample_0 @ pulse tari pw @ pulse (data1 + tari) pw @ pulse trcal pw,
     d_framesync = replicate (nat delimiter) d_sample_0 @ pulse tari pw @ pulse (data1 + tari) pw\<rparr>"
proof -
  note p = assms [unfolded pie_params_def]
  let ?d = "replicate (nat delimiter) d_sample_0"
  have start: "do { p \<leftarrow> new_vector (delimiter + tari + k);
        p \<leftarrow> fill_range 0 delimiter d_sample_0 p; copy_to (pulse tari pw) delimiter p } =
      Some ((?d @ pulse tari pw) @ replicate (nat k) 0)" if "0 \<le> k" for k
  proof -
    have "nat (delimiter + tari + k) = nat delimiter + (nat tari + nat k)"
      using that p by (simp add: nat_add_distrib)
    then show ?thesis
      using that p fill_next [of 0 "[]" delimiter "nat delimiter + (nat tari + nat k)" d_sample_0 0]
        copy_next [of delimiter ?d "pulse tari pw" "nat tari + nat k" 0]
      by (simp add: new_vector_def)
  qed
  have rtcal: "put_pulse (delimiter + tari) (data1 + tari) pw ((?d @ pulse tari pw) @ replicate (nat k) 0) =
      Some ((?d @ pulse tari pw @ pulse (data1 + tari) pw) @ replicate (nat k - nat (data1 + tari)) 0)"
    if "data1 + tari \<le> k" for k
    using that p by (subst put_pulse_next) auto
  have trcal: "put_pulse (delimiter + tari + (data1 + tari)) trcal pw
        ((?d @ pulse tari pw @ pulse (data1 + tari) pw) @ replicate (nat trcal) 0) =
      Some (?d @ pulse tari pw @ pulse (data1 + tari) pw @ pulse trcal pw)"
    using p by (subst put_pulse_next) (auto simp: nat_add_distrib)
  have k: "nat (trcal + (data1 + tari)) - nat (data1 + tari) = nat trcal"
    using p by (simp add: nat_add_distrib)
  show ?thesis
    using p start [of "trcal + (data1 + tari)"] start [of "data1 + tari"]
      rtcal [of "trcal + (data1 + tari)"] rtcal [of "data1 + tari"] trcal
    by (simp add: make_pie_encoder_def data_symbol_pulse Let_def add.assoc k
        flip: Option.bind_assoc)
qed

section \<open>Pulse interval encoding\<close>

lemma count_bits:
  "foldl (count_bit enc) (Some c) bits =
     (if set bits \<subseteq> {0, 1} then Some (c + int (length (concat (map (bit_symbol enc) bits)))) else None)"
proof -
  have none: "foldl (count_bit enc) None bits = None" for bits
    by (induction bits) (simp_all add: count_bit_def)
  show ?thesis
    by (induction bits arbitrary: c) (auto simp: none count_bit_def)
qed

lemma put_bits:
  "length (concat (map (bit_symbol enc) bits)) \<le> n \<Longrightarrow>
   foldl (put_bit enc) (Some (int (length xs), xs @ replicate n a)) bits =
     Some (int (length xs) + int (length (concat (map (bit_symbol enc) bits))),
       xs @ concat (map (bit_symbol enc) bits) @ replicate (n - length (concat (map (bit_symbol enc) bits))) a)"
proof (induction bits arbitrary: xs n)
  case (Cons b bits)
  have "put_bit enc (Some (int (length xs), xs @ replicate n a)) b =
      Some (int (length (xs @ bit_symbol enc b)),
        (xs @ bit_symbol enc b) @ replicate (n - length (bit_symbol enc b)) a)"
    using Cons.prems by (simp add: put_bit_def copy_next)
  then show ?case
    using Cons.IH [of "n - length (bit_symbol enc b)" "xs @ bit_symbol enc b"] Cons.prems
    by simp
qed simp

lemma bit_to_pie_symbols:
  "bit_to_pie enc bits =
     (if set bits \<subseteq> {0, 1} then Some (concat (map (bit_symbol enc) bits)) else None)"
  using put_bits [of enc bits "length (concat (map (bit_symbol enc) bits))" "[]" d_sample_0]
  by (simp add: bit_to_pie_def count_bits)

text \<open>How a tag reads the signal: the lengths of the pulses, each up to the next rise of the
  carrier, against half of the calibration symbol.\<close>

function pulse_lengths :: "complex list \<Rightarrow> nat list" where
  "pulse_lengths xs =
     (if xs = [] then []
      else let carrier = takeWhile (\<lambda>x. x = d_sample_1) xs;
               after = dropWhile (\<lambda>x. x = d_sample_1) xs;
               low = takeWhile (\<lambda>x. x \<noteq> d_sample_1) after
           in (length carrier + length low) # pulse_lengths (dropWhile (\<lambda>x. x \<noteq> d_sample_1) after))"
  by pat_completeness auto
termination
proof (relation "measure length"; clarsimp)
  fix xs :: "complex list"
  assume "xs \<noteq> []"
  then obtain x ys where xs: "xs = x # ys" by (cases xs) auto
  have "length (dropWhile P (dropWhile Q ys)) \<le> length ys" for P Q :: "complex \<Rightarrow> bool"
    by (meson le_trans length_dropWhile_le)
  moreover have "length (dropWhile P ys) \<le> length ys" for P :: "complex \<Rightarrow> bool"
    by (rule length_dropWhile_le)
  ultimately show "length (dropWhile (\<lambda>x. x \<noteq> d_sample_1) (dropWhile (\<lambda>x. x = d_sample_1) xs)) < length xs"
    by (auto simp: xs less_Suc_eq_le)
qed

declare pulse_lengths.simps [simp del]

definition read_bits :: "int \<Rightarrow> complex list \<Rightarrow> 8 word list" where
  "read_bits rtcal xs = map (\<lambda>n. if 2 * int n > rtcal then 1 else 0) (pulse_lengths xs)"

lemma samples_differ [simp]: "d_sample_0 \<noteq> d_sample_1" "d_sample_1 \<noteq> d_sample_0"
  by (simp_all add: d_sample_0_def d_sample_1_def)

lemma run_split:
  assumes "P x" and "ys = [] \<or> \<not> P (hd ys)"
  shows "takeWhile P (replicate k x @ ys) = replicate k x" and "dropWhile P (replicate k x @ ys) = ys"
proof -
  have "takeWhile P ys = [] \<and> dropWhile P ys = ys"
    using assms(2) by (cases ys) auto
  then show "takeWhile P (replicate k x @ ys) = replicate k x" and "dropWhile P (replicate k x @ ys) = ys"
    using assms(1) by (induction k) simp_all
qed

lemma pulse_lengths_pulse:
  assumes "0 < pw" and "pw < n" and "rest = [] \<or> hd rest = d_sample_1"
  shows "pulse_lengths (pulse n pw @ rest) = nat n # pulse_lengths rest"
proof -
  obtain b where b: "nat pw = Suc b" using assms(1) by (cases "nat pw") auto
  let ?low = "replicate (nat pw) d_sample_0 @ rest"
  have "?low = [] \<or> \<not> (hd ?low = d_sample_1)" by (simp add: b)
  note high = run_split [where P = "\<lambda>x. x = d_sample_1", OF refl this]
  have "rest = [] \<or> \<not> (hd rest \<noteq> d_sample_1)" using assms(3) by blast
  note low = run_split [where P = "\<lambda>x. x \<noteq> d_sample_1", OF samples_differ(1) this]
  have "nat (n - pw) + nat pw = nat n" using assms by simp
  moreover have "pulse n pw @ rest \<noteq> []" by (simp add: pulse_def b)
  ultimately show ?thesis
    by (subst pulse_lengths.simps) (simp add: Let_def pulse_def high low)
qed

lemma read_symbols:
  assumes "make_pie_encoder delimiter tari pw trcal data1 = Some enc"
    and "pie_params delimiter tari pw trcal data1" and "set bits \<subseteq> {0, 1}"
  shows "read_bits (tari + data1) (concat (map (bit_symbol enc) bits)) = bits"
  using assms(3)
proof (induction bits)
  case Nil
  then show ?case by (simp add: read_bits_def pulse_lengths.simps)
next
  case (Cons b bits)
  have enc: "d_data0 enc = pulse tari pw" "d_data1 enc = pulse data1 pw"
    using assms make_pie_encoder_frames by fastforce+
  note p = assms(2) [unfolded pie_params_def]
  let ?rest = "concat (map (bit_symbol enc) bits)"
  have hd: "hd (pulse n pw @ xs) = d_sample_1" if "pw < n" for n xs
    using that by (simp add: pulse_def hd_append)
  have "?rest = [] \<or> hd ?rest = d_sample_1"
    using p hd by (cases bits) (auto simp: bit_symbol_def enc)
  then have "pulse_lengths (bit_symbol enc b @ ?rest) =
      nat (if b = 0 then tari else data1) # pulse_lengths ?rest"
    using p pulse_lengths_pulse [of pw _ ?rest] by (simp add: bit_symbol_def enc)
  then show ?case
    using Cons p by (auto simp: read_bits_def)
qed

text \<open>C29: reading what the encoder makes of bits gives the bits: every symbol is one pulse, and a 1
  is longer than half of the calibration symbol of the preamble, a 0 shorter.  Values that are not
  bits end the process.\<close>

theorem pie_roundtrip:
  assumes "make_pie_encoder delimiter tari pw trcal data1 = Some enc"
    and "pie_params delimiter tari pw trcal data1"
  shows "(set bits \<subseteq> {0, 1} \<longrightarrow>
      (\<exists>p. bit_to_pie enc bits = Some p \<and> read_bits (tari + data1) p = bits)) \<and>
    (\<not> set bits \<subseteq> {0, 1} \<longrightarrow> bit_to_pie enc bits = None)"
  using read_symbols [OF assms, of bits] by (simp add: bit_to_pie_symbols)

theorem pie_roundtrip_witness:
  "\<exists>enc p. make_pie_encoder 8 16 8 53 32 = Some enc \<and> bit_to_pie enc [1, 0] = Some p \<and> read_bits 48 p = [1, 0]"
proof -
  have params: "pie_params 8 16 8 53 32" by (simp add: pie_params_def)
  then obtain enc where enc: "make_pie_encoder 8 16 8 53 32 = Some enc"
    using make_pie_encoder_frames by blast
  from pie_roundtrip [OF enc params, of "[1, 0]"] enc show ?thesis by auto
qed

section \<open>The stream\<close>

text \<open>What the encoder has to send: finitely many samples, and then a constant, or nothing until the
  next task.\<close>

type_synonym stream = "complex list \<times> complex option"

fun task_samples :: "pie_encoder \<Rightarrow> tx_task \<Rightarrow> complex list" where
  "task_samples enc (TURN_ON_TIMED len) = replicate (nat len) d_sample_1"
| "task_samples enc TURN_ON = []"
| "task_samples enc PREAMBLE = d_preamble enc"
| "task_samples enc FRAME_SYNCH = d_framesync enc"
| "task_samples enc (DATA_BITS bits) = concat (map (bit_symbol enc) bits)"
| "task_samples enc TURN_OFF = []"

fun idle_after :: "complex option \<Rightarrow> tx_task list \<Rightarrow> complex option" where
  "idle_after c [] = c"
| "idle_after c (t # ts) =
     idle_after (if t = TURN_ON then Some d_sample_1 else if t = TURN_OFF then Some d_sample_0 else None) ts"

definition pending :: "pie_work \<Rightarrow> complex list" where
  "pending st =
     (case p_state st of
        ON_TIMED \<Rightarrow> replicate (nat (p_counter st)) d_sample_1
      | SEND_SAMPLES \<Rightarrow> drop (nat (p_counter st)) (p_frame st)
      | _ \<Rightarrow> [])"

definition idle_sample :: "pie_work \<Rightarrow> complex option" where
  "idle_sample st =
     (case p_state st of OFF_IDLE \<Rightarrow> Some d_sample_0 | ON_IDLE \<Rightarrow> Some d_sample_1 | _ \<Rightarrow> None)"

definition stream :: "pie_encoder \<Rightarrow> pie_work \<Rightarrow> stream" where
  "stream enc st =
     (pending st @ concat (map (task_samples enc) (p_queue st)), idle_after (idle_sample st) (p_queue st))"

fun first_samples :: "nat \<Rightarrow> stream \<Rightarrow> complex list" where
  "first_samples k (xs, c) =
     take k xs @ (case c of None \<Rightarrow> [] | Some c \<Rightarrow> replicate (k - length xs) c)"

fun without_first :: "nat \<Rightarrow> stream \<Rightarrow> stream" where
  "without_first k (xs, c) = (drop k xs, c)"

lemma first_samples_add:
  "first_samples (j + k) s = first_samples j s @ first_samples k (without_first j s)"
proof (cases s)
  case (Pair xs c)
  then show ?thesis
  proof (cases "j \<le> length xs")
    case False
    then have "j + k - length xs = (j - length xs) + k" by simp
    then have "replicate (j + k - length xs) a = replicate (j - length xs) a @ replicate k a" for a :: complex
      by (metis replicate_add)
    then show ?thesis
      using False Pair by (cases c) simp_all
  qed (cases c; simp add: Pair take_add)
qed

lemma without_first_add: "without_first (j + k) s = without_first k (without_first j s)"
  by (cases s) (simp add: add.commute)

lemma stream_zero [simp]: "first_samples 0 s = []" "without_first 0 s = s"
  by (cases s; cases "snd s"; simp)+

text \<open>The timed carrier is written correctly only at the start of a buffer.  So a timed task may come
  only first, and not behind samples that are still to be sent.\<close>

definition timed :: "tx_task \<Rightarrow> bool" where
  "timed t \<longleftrightarrow> (\<exists>len. t = TURN_ON_TIMED len)"

definition task_ok :: "tx_task \<Rightarrow> bool" where
  "task_ok t \<longleftrightarrow> (\<forall>bits. t = DATA_BITS bits \<longrightarrow> set bits \<subseteq> {0, 1})"

definition work_ok :: "int \<Rightarrow> int \<Rightarrow> pie_work \<Rightarrow> bool" where
  "work_ok n nn st \<longleftrightarrow>
     (\<forall>t \<in> set (p_queue st). task_ok t) \<and> (\<forall>t \<in> set (tl (p_queue st)). \<not> timed t) \<and>
     (p_queue st \<noteq> [] \<and> timed (hd (p_queue st)) \<longrightarrow> (nn = 0 \<or> nn = n) \<and> p_state st \<noteq> ON_TIMED \<and> p_state st \<noteq> SEND_SAMPLES) \<and>
     (p_state st = ON_TIMED \<and> 0 < p_counter st \<longrightarrow> nn = 0 \<or> nn = n) \<and>
     (p_state st = SEND_SAMPLES \<longrightarrow> 0 \<le> p_counter st)"

lemma decode_task_ok:
  assumes "work_ok n nn st" and "p_queue st = t # ts" and "p_state st \<noteq> ON_TIMED" and "p_state st \<noteq> SEND_SAMPLES"
  obtains st' where "decode_task enc t (st\<lparr>p_queue := ts\<rparr>) = Some st'" and "work_ok n nn st'"
    and "stream enc st' = stream enc st" and "p_queue st' = ts"
proof -
  have "set (tl ts) \<subseteq> set ts" by (cases ts) auto
  moreover have "pending st = []" using assms(3,4) by (simp add: pending_def split: pie_state.splits)
  moreover have "work_ok n nn st \<Longrightarrow> ts \<noteq> [] \<Longrightarrow> \<not> timed (hd ts)"
    using assms(2) by (auto simp: work_ok_def)
  ultimately have "\<exists>st'. decode_task enc t (st\<lparr>p_queue := ts\<rparr>) = Some st' \<and> work_ok n nn st' \<and>
      stream enc st' = stream enc st \<and> p_queue st' = ts"
    using assms
    by (cases t) (auto simp: decode_task_def work_ok_def stream_def bit_to_pie_symbols pending_def
        idle_sample_def timed_def task_ok_def dest: list.set_sel(2))
  then show ?thesis using that by blast
qed

text \<open>One round sends the next samples of the stream.\<close>

lemma fill_output:
  assumes "0 \<le> nn" and "nn \<le> n" and "length output = nat n"
  shows "\<exists>output'. fill_range nn n c output = Some output' \<and> length output' = nat n \<and>
    take (nat n) output' = take (nat nn) output @ replicate (nat n - nat nn) c"
  using assms by (simp add: fill_range_def nat_diff_distrib)

lemma idle_step_sends:
  assumes "0 \<le> nn" and "nn < n" and "length output = nat n" and "work_ok n nn st"
    and "idle_sample st = Some c"
  shows "\<exists>nn' output' st'. idle_step enc n c (nn, output, st) = Some (Continue (nn', output', st')) \<and>
    nn \<le> nn' \<and> nn' \<le> n \<and> length output' = nat n \<and> work_ok n nn' st' \<and>
    take (nat nn') output' = take (nat nn) output @ first_samples (nat (nn' - nn)) (stream enc st) \<and>
    stream enc st' = without_first (nat (nn' - nn)) (stream enc st)"
proof (cases "p_queue st")
  case Nil
  have "stream enc st = ([], Some c)"
    using assms(5) Nil by (auto simp: stream_def idle_sample_def pending_def split: pie_state.splits)
  moreover obtain output' where "fill_range nn n c output = Some output'" "length output' = nat n"
      "take (nat n) output' = take (nat nn) output @ replicate (nat n - nat nn) c"
    using fill_output assms(1-3) by (metis order_less_imp_le)
  moreover have "work_ok n n st"
    using assms(4,5) Nil by (auto simp: work_ok_def idle_sample_def split: pie_state.splits)
  ultimately show ?thesis
    using assms(1,2) Nil by (simp add: idle_step_def nat_diff_distrib)
next
  case (Cons t ts)
  have "p_state st \<noteq> ON_TIMED" "p_state st \<noteq> SEND_SAMPLES"
    using assms(5) by (auto simp: idle_sample_def)
  from decode_task_ok [OF assms(4) Cons this] obtain st' where
    "decode_task enc t (st\<lparr>p_queue := ts\<rparr>) = Some st'" "work_ok n nn st'" "stream enc st' = stream enc st" .
  then show ?thesis
    using Cons assms(1-3) by (simp add: idle_step_def)
qed

text \<open>What a round of the loop achieves.\<close>

definition sends :: "pie_encoder \<Rightarrow> int \<Rightarrow> work_point \<Rightarrow> work_point \<Rightarrow> bool" where
  "sends enc n pt pt' \<longleftrightarrow>
     (case pt of (nn, output, st) \<Rightarrow> case pt' of (nn', output', st') \<Rightarrow>
        nn \<le> nn' \<and> nn' \<le> n \<and> length output' = nat n \<and> work_ok n nn' st' \<and>
        take (nat nn') output' = take (nat nn) output @ first_samples (nat (nn' - nn)) (stream enc st) \<and>
        stream enc st' = without_first (nat (nn' - nn)) (stream enc st))"

lemma sends_trans:
  assumes "sends enc n pt pt1" and "sends enc n pt1 pt2"
  shows "sends enc n pt pt2"
proof -
  obtain nn out st nn1 output1 st1 nn2 output2 st2 where
    [simp]: "pt = (nn, out, st)" "pt1 = (nn1, output1, st1)" "pt2 = (nn2, output2, st2)"
    by (cases pt; cases pt1; cases pt2) auto
  have "nat (nn2 - nn) = nat (nn1 - nn) + nat (nn2 - nn1)"
    using assms by (simp add: sends_def nat_add_distrib flip: nat_add_distrib)
  with assms show ?thesis
    by (simp add: sends_def first_samples_add without_first_add)
qed

lemma work_step_sends:
  assumes "0 \<le> nn" and "nn < n" and "length output = nat n" and "work_ok n nn st"
  shows "(\<exists>pt'. work_step enc n (nn, output, st) = Some (Continue pt') \<and> sends enc n (nn, output, st) pt') \<or>
    (work_step enc n (nn, output, st) = Some (Leave (nn, output, st)) \<and> stream enc st = ([], None))"
proof (cases "p_state st")
  case OFF_IDLE
  then show ?thesis
    using idle_step_sends [OF assms, of d_sample_0]
    by (fastforce simp: work_step_def sends_def idle_sample_def)
next
  case ON_IDLE
  then show ?thesis
    using idle_step_sends [OF assms, of d_sample_1]
    by (fastforce simp: work_step_def sends_def idle_sample_def)
next
  case ON_TIMED
  show ?thesis
  proof (cases "0 < p_counter st")
    case True
    then have nn: "nn = 0" using assms(2,4) ON_TIMED by (simp add: work_ok_def)
    define m where "m = min (p_counter st) n"
    have m: "0 \<le> m" "m \<le> n" "m \<le> p_counter st" using True assms nn by (auto simp: m_def)
    have rep: "replicate (nat (p_counter st)) d_sample_1 = replicate (nat m) d_sample_1 @
        replicate (nat (p_counter st - m)) d_sample_1"
      using m by (simp flip: replicate_add nat_add_distrib)
    have "stream enc (st\<lparr>p_counter := p_counter st - m\<rparr>) = without_first (nat m) (stream enc st)"
      and "first_samples (nat m) (stream enc st) = replicate (nat m) d_sample_1"
      using ON_TIMED m
      by (simp_all add: stream_def pending_def idle_sample_def rep nat_diff_distrib split: option.splits)
    moreover have "work_ok n m (st\<lparr>p_counter := p_counter st - m\<rparr>)"
      using assms(4) ON_TIMED True m nn by (auto simp: work_ok_def m_def min_def)
    ultimately show ?thesis
      using ON_TIMED True m nn assms(3)
      by (auto simp: work_step_def sends_def fill_range_def m_def [symmetric] Let_def)
  next
    case False
    then have "stream enc (st\<lparr>p_state := GET_TASK\<rparr>) = stream enc st"
      and "work_ok n nn (st\<lparr>p_state := GET_TASK\<rparr>)"
      using ON_TIMED assms(4) by (auto simp: stream_def pending_def idle_sample_def work_ok_def)
    then show ?thesis
      using ON_TIMED False assms by (simp add: work_step_def sends_def)
  qed
next
  case SEND_SAMPLES
  show ?thesis
  proof (cases "p_counter st < int (length (p_frame st))")
    case True
    define m where "m = min (int (length (p_frame st)) - p_counter st) (n - nn)"
    have c: "0 \<le> p_counter st" using assms(4) SEND_SAMPLES by (simp add: work_ok_def)
    have m: "0 < m" "nn + m \<le> n" "p_counter st + m \<le> int (length (p_frame st))"
      using True assms by (auto simp: m_def)
    let ?xs = "take (nat m) (drop (nat (p_counter st)) (p_frame st))"
    have "nat m \<le> length (p_frame st) - nat (p_counter st)" using m c by linarith
    then have len: "length ?xs = nat m" by simp
    have "stream enc (st\<lparr>p_counter := p_counter st + m\<rparr>) = without_first (nat m) (stream enc st)"
      and "first_samples (nat m) (stream enc st) = ?xs"
      using SEND_SAMPLES m c len
      by (auto simp: stream_def pending_def idle_sample_def nat_add_distrib add.commute split: option.splits)
    moreover have "work_ok n (nn + m) (st\<lparr>p_counter := p_counter st + m\<rparr>)"
      using assms(4) SEND_SAMPLES m c by (auto simp: work_ok_def)
    moreover have "nat (nn + m) = nat nn + nat m" "nat nn + nat m \<le> nat n"
      using assms m by (simp_all add: nat_add_distrib flip: nat_add_distrib)
    ultimately show ?thesis
      using SEND_SAMPLES True m assms(1,3) len
      by (auto simp: work_step_def sends_def copy_to_def m_def [symmetric] Let_def)
  next
    case False
    then have "stream enc (st\<lparr>p_state := GET_TASK\<rparr>) = stream enc st"
      and "work_ok n nn (st\<lparr>p_state := GET_TASK\<rparr>)"
      using SEND_SAMPLES assms(4) by (auto simp: stream_def pending_def idle_sample_def work_ok_def)
    then show ?thesis
      using SEND_SAMPLES False assms by (simp add: work_step_def sends_def)
  qed
next
  case GET_TASK
  show ?thesis
  proof (cases "p_queue st")
    case Nil
    with GET_TASK show ?thesis
      by (simp add: work_step_def stream_def pending_def idle_sample_def)
  next
    case (Cons t ts)
    have "p_state st \<noteq> ON_TIMED" "p_state st \<noteq> SEND_SAMPLES" using GET_TASK by simp_all
    from decode_task_ok [OF assms(4) Cons this] obtain st' where
      "decode_task enc t (st\<lparr>p_queue := ts\<rparr>) = Some st'" "work_ok n nn st'" "stream enc st' = stream enc st" .
    then show ?thesis
      using Cons GET_TASK assms(1-3) by (simp add: work_step_def sends_def)
  qed
qed

definition point_ok :: "int \<Rightarrow> work_point \<Rightarrow> bool" where
  "point_ok n pt \<longleftrightarrow>
     (case pt of (nn, output, st) \<Rightarrow> 0 \<le> nn \<and> nn \<le> n \<and> length output = nat n \<and> work_ok n nn st)"

lemma sends_refl: "point_ok n pt \<Longrightarrow> sends enc n pt pt"
  by (auto simp: sends_def point_ok_def split: prod.splits)

lemma sends_ok: "sends enc n pt pt' \<Longrightarrow> point_ok n pt \<Longrightarrow> point_ok n pt'"
  by (auto simp: sends_def point_ok_def split: prod.splits)

lemma work_loop_sends:
  "point_ok n pt \<Longrightarrow>
   \<exists>pt'. work_loop enc n pt = Some pt' \<and> sends enc n pt pt' \<and>
     (fst pt' = n \<or> stream enc (snd (snd pt')) = ([], None))"
proof (induction enc n pt rule: work_loop.induct)
  case (1 enc n pt)
  obtain nn buf st where pt: "pt = (nn, buf, st)" by (cases pt) auto
  show ?case
  proof (cases "nn < n")
    case True
    have "0 \<le> nn" "length buf = nat n" "work_ok n nn st"
      using "1.prems" by (simp_all add: point_ok_def pt)
    from work_step_sends [OF this(1) True this(2,3), of enc] show ?thesis
    proof (elim disjE exE conjE)
      fix pt1
      assume step: "work_step enc n (nn, buf, st) = Some (Continue pt1)"
        and s: "sends enc n (nn, buf, st) pt1"
      from s "1.prems" have "point_ok n pt1" unfolding pt by (rule sends_ok)
      from "1.IH" [OF _ step [folded pt] refl this] True obtain pt' where
        "work_loop enc n pt1 = Some pt'" "sends enc n pt1 pt'"
        "fst pt' = n \<or> stream enc (snd (snd pt')) = ([], None)"
        by (auto simp: pt)
      moreover from this have "sends enc n pt pt'" using s sends_trans unfolding pt by blast
      moreover have "work_loop enc n pt = work_loop enc n pt1"
        using True step by (subst work_loop.simps) (simp add: pt)
      ultimately show ?thesis by metis
    next
      assume "work_step enc n (nn, buf, st) = Some (Leave (nn, buf, st))" "stream enc st = ([], None)"
      with True sends_refl [OF "1.prems"] show ?thesis
        by (subst work_loop.simps) (simp add: pt)
    qed
  next
    case False
    with sends_refl [OF "1.prems"] "1.prems" show ?thesis
      by (subst work_loop.simps) (simp add: pt point_ok_def)
  qed
qed

lemma work_ok_next: "work_ok n nn st \<Longrightarrow> work_ok n' 0 st"
  by (auto simp: work_ok_def)

lemma general_work_sends:
  assumes "work_ok n 0 st"
  shows "\<exists>st'. general_work enc buf st = Some (first_samples (length buf) (stream enc st), st') \<and>
    stream enc st' = without_first (length buf) (stream enc st) \<and> work_ok n 0 st'"
proof -
  let ?n = "int (length buf)"
  have "point_ok ?n (0, buf, st)"
    using work_ok_next [OF assms] by (simp add: point_ok_def)
  from work_loop_sends [OF this, of enc] obtain nn buf' st' where
    loop: "work_loop enc ?n (0, buf, st) = Some (nn, buf', st')"
    and s: "sends enc ?n (0, buf, st) (nn, buf', st')"
    and full: "nn = ?n \<or> stream enc st' = ([], None)"
    by auto
  from s have nn: "0 \<le> nn" "nn \<le> ?n" "take (nat nn) buf' = first_samples (nat nn) (stream enc st)"
      "stream enc st' = without_first (nat nn) (stream enc st)" "work_ok n 0 st'"
    by (auto simp: sends_def intro: work_ok_next)
  have k: "length buf = nat nn + (length buf - nat nn)" using nn(1,2) by linarith
  have "first_samples (length buf) (stream enc st) = first_samples (nat nn) (stream enc st)"
    and "without_first (length buf) (stream enc st) = without_first (nat nn) (stream enc st)"
    using full nn(4) by (subst k, simp only: first_samples_add without_first_add, auto)+
  with loop nn show ?thesis by (simp add: general_work_def)
qed

section \<open>Buffers\<close>

text \<open>The calls of the scheduler, with the buffers it provides.\<close>

fun send_buffers :: "pie_encoder \<Rightarrow> complex list list \<Rightarrow> pie_work \<Rightarrow> (complex list \<times> pie_work) option" where
  "send_buffers enc [] st = Some ([], st)"
| "send_buffers enc (buf # bufs) st = do {
     (out, st) \<leftarrow> general_work enc buf st;
     (outs, st) \<leftarrow> send_buffers enc bufs st;
     Some (out @ outs, st)
   }"

lemma send_buffers_sends:
  "work_ok n 0 st \<Longrightarrow>
   \<exists>st'. send_buffers enc bufs st = Some (first_samples (sum_list (map length bufs)) (stream enc st), st') \<and>
     stream enc st' = without_first (sum_list (map length bufs)) (stream enc st) \<and> work_ok n 0 st'"
proof (induction bufs arbitrary: st)
  case (Cons buf bufs)
  from general_work_sends [OF Cons.prems, of enc buf] obtain st1 where
    "general_work enc buf st = Some (first_samples (length buf) (stream enc st), st1)"
    "stream enc st1 = without_first (length buf) (stream enc st)" "work_ok n 0 st1"
    by blast
  with Cons.IH [of st1] show ?case by (auto simp: first_samples_add without_first_add)
qed simp

lemma send_buffers_stream:
  "work_ok n 0 st \<Longrightarrow>
   \<exists>st'. send_buffers enc bufs st = Some (first_samples (sum_list (map length bufs)) (stream enc st), st')"
  using send_buffers_sends by blast

text \<open>Tasks that arrive later are sent after those that are there.\<close>

lemma send_buffers_later:
  assumes "work_ok n 0 st" and "\<forall>t \<in> set later. task_ok t \<and> \<not> timed t"
    and "send_buffers enc bufs st = Some (out, st1)"
  shows "\<exists>st2. send_buffers enc bufs' (st1\<lparr>p_queue := p_queue st1 @ later\<rparr>) =
    Some (first_samples (sum_list (map length bufs'))
      (drop (sum_list (map length bufs)) (fst (stream enc st)) @ concat (map (task_samples enc) later),
       idle_after (snd (stream enc st)) later), st2)"
proof -
  have st1: "stream enc st1 = without_first (sum_list (map length bufs)) (stream enc st)" "work_ok n 0 st1"
    using send_buffers_sends [OF assms(1), of enc bufs] assms(3) by auto
  let ?st = "st1\<lparr>p_queue := p_queue st1 @ later\<rparr>"
  have "work_ok n 0 ?st"
    using st1(2) assms(2) by (cases "p_queue st1"; cases later) (auto simp: work_ok_def)
  moreover have "stream enc ?st = (fst (stream enc st1) @ concat (map (task_samples enc) later),
      idle_after (snd (stream enc st1)) later)"
  proof -
    have "idle_after c (ts @ us) = idle_after (idle_after c ts) us" for c ts us
      by (induction ts arbitrary: c) simp_all
    then show ?thesis
      by (simp add: stream_def pending_def idle_sample_def split: pie_state.split)
  qed
  ultimately show ?thesis
    using send_buffers_stream [of n ?st enc bufs'] st1(1) by (cases "stream enc st") simp
qed

text \<open>The encoder before its first task, with a counter that has not been set.\<close>

definition pie_start :: "int \<Rightarrow> tx_task list \<Rightarrow> pie_work" where
  "pie_start counter tasks = \<lparr>p_state = OFF_IDLE, p_counter = counter, p_frame = [], p_queue = tasks\<rparr>"

text \<open>C23: however the scheduler cuts the output into buffers, and whatever these hold before, the
  encoder sends the samples of its tasks in order and after that the carrier, if its last task is to
  turn it on.  This is so when a timed carrier can only be the first task and all data are bits.\<close>

theorem encoder_sends:
  assumes "\<forall>t \<in> set tasks. task_ok t" and "\<forall>t \<in> set (tl tasks). \<not> timed t"
  shows "\<exists>st. send_buffers enc bufs (pie_start counter tasks) =
    Some (first_samples (sum_list (map length bufs))
      (concat (map (task_samples enc) tasks), idle_after (Some d_sample_0) tasks), st)"
proof -
  have "work_ok 0 0 (pie_start counter tasks)"
    using assms by (simp add: work_ok_def pie_start_def)
  from send_buffers_stream [OF this, of enc bufs] show ?thesis
    by (simp add: stream_def pending_def idle_sample_def pie_start_def)
qed

theorem encoder_sends_witness:
  "\<exists>enc st. make_pie_encoder 1 2 1 1 3 = Some enc \<and>
     send_buffers enc [[5, 5], [7, 7, 7, 7]] (pie_start 0 [TURN_ON_TIMED 1, DATA_BITS [0, 1], TURN_ON]) =
       Some ([d_sample_1, d_sample_1, d_sample_0, d_sample_1, d_sample_1, d_sample_0], st)"
proof -
  have "pie_params 1 2 1 1 3" by (simp add: pie_params_def)
  then obtain enc where enc: "make_pie_encoder 1 2 1 1 3 = Some enc"
    and d: "d_data0 enc = pulse 2 1" "d_data1 enc = pulse 3 1"
    using make_pie_encoder_frames by fastforce
  have "\<forall>t \<in> set [TURN_ON_TIMED 1, DATA_BITS [0, 1], TURN_ON]. task_ok t"
    "\<forall>t \<in> set (tl [TURN_ON_TIMED 1, DATA_BITS [0, 1], TURN_ON]). \<not> timed t"
    by (simp_all add: task_ok_def timed_def)
  from encoder_sends [OF this, of enc "[[5, 5], [7, 7, 7, 7]]" 0] enc show ?thesis
    by (auto simp: bit_symbol_def d pulse_def numeral_eq_Suc)
qed

text \<open>Without the first condition the fill ends before it begins: a timed carrier of one sample after
  a bit of two.\<close>

lemma timed_carrier_late:
  assumes "make_pie_encoder 1 2 1 1 3 = Some enc"
  shows "general_work enc [0, 0, 0, 0] (pie_start 0 [DATA_BITS [0], TURN_ON_TIMED 1]) = None"
proof -
  have "pie_params 1 2 1 1 3" by (simp add: pie_params_def)
  then have d: "d_data0 enc = pulse 2 1"
    using make_pie_encoder_frames assms by fastforce
  show ?thesis
    by (simp add: general_work_def pie_start_def work_loop.simps work_step_def idle_step_def
        decode_task_def bit_to_pie_symbols bit_symbol_def d copy_to_def fill_range_def pulse_def)
qed

end
