(* ===== verification/Buffers.thy ===== *)
theory Buffers
  imports Main
begin

text \<open>
  Blocks of a flow graph and the scheduler.  The scheduler calls the work function of a block again
  and again, with some of the items that are there and some room for output, and messages arrive
  between the calls.  A block is described once more by its single steps, without buffers; the locale
  \<open>buffered_block\<close> states what relates the two, and in it the calls are shown to do the same however
  they are made.
\<close>

section \<open>Single steps\<close>

inductive emits :: "('c \<Rightarrow> ('o list \<times> 'c) option) \<Rightarrow> 'c \<Rightarrow> 'o list \<Rightarrow> 'c \<Rightarrow> bool" for micro where
  emits_refl: "emits micro c [] c"
| emits_step: "micro c = Some (out, c1) \<Longrightarrow> emits micro c1 outs c2 \<Longrightarrow> emits micro c (out @ outs) c2"

inductive_cases emits_cases: "emits micro c out c'"

lemma emits_trans: "emits micro c o1 c1 \<Longrightarrow> emits micro c1 o2 c2 \<Longrightarrow> emits micro c (o1 @ o2) c2"
  by (induction rule: emits.induct) (auto intro: emits_step)

lemma emits_one: "micro c = Some (out, c1) \<Longrightarrow> emits micro c out c1"
  using emits_step [OF _ emits_refl] by simp

lemma emits_silent: "micro c = Some ([], c1) \<Longrightarrow> emits micro c1 outs c2 \<Longrightarrow> emits micro c outs c2"
  using emits_step by fastforce

lemma emits_append: "emits micro c [] c1 \<Longrightarrow> emits micro c1 outs c2 \<Longrightarrow> emits micro c outs c2"
  using emits_trans by fastforce

lemma emits_determined:
  "emits micro c o1 c1 \<Longrightarrow> emits micro c o2 c2 \<Longrightarrow> micro c2 = None \<Longrightarrow>
   \<exists>out. o2 = o1 @ out \<and> emits micro c1 out c2"
proof (induction arbitrary: o2 rule: emits.induct)
  case (emits_step c out c1 outs c')
  from emits_step.prems(1) show ?case
  proof (cases rule: emits.cases)
    case emits_refl
    with emits_step show ?thesis by simp
  next
    case (emits_step out' c1' outs')
    with emits_step.hyps emits_step.IH [of outs'] emits_step.prems show ?thesis by auto
  qed
qed auto

lemma emits_halted: "emits micro c out c' \<Longrightarrow> micro c = None \<Longrightarrow> out = [] \<and> c' = c"
  by (auto elim: emits_cases)

section \<open>Calls\<close>

text \<open>A work function: from the items offered, the room for output and the state to the number of items
  consumed, the output and the state.\<close>

type_synonym ('i, 'o, 's) work = "'i list \<Rightarrow> nat \<Rightarrow> 's \<Rightarrow> nat \<times> 'o list \<times> 's"

text \<open>A call: the messages that arrive before it, the items offered and the room.  The result is the
  output of all calls, the items that are left and the state.\<close>

fun run_calls ::
    "('i, 'o, 's) work \<Rightarrow> ('m list \<Rightarrow> 's \<Rightarrow> 's) \<Rightarrow> ('m list \<times> nat \<times> nat) list \<Rightarrow> 'i list \<Rightarrow> 's \<Rightarrow>
     'o list \<times> 'i list \<times> 's" where
  "run_calls work feed [] xs st = ([], xs, st)"
| "run_calls work feed ((ms, ninput_items, noutput_items) # calls) xs st =
     (case work (take ninput_items xs) noutput_items (feed ms st) of
        (ii, out, st) \<Rightarrow>
          (case run_calls work feed calls (drop ii xs) st of (outs, xs, st) \<Rightarrow> (out @ outs, xs, st)))"

text \<open>What the scheduler relies on: items and messages behind those that are there do not change a step, a
  call makes steps, and with enough room it makes all that can be made.\<close>

locale buffered_block =
  fixes micro :: "'i list \<times> 's \<Rightarrow> ('o list \<times> 'i list \<times> 's) option"
    and feed :: "'m list \<Rightarrow> 's \<Rightarrow> 's"
    and work :: "('i, 'o, 's) work"
  assumes micro_more:
      "micro (xs, st) = Some (out, xs', st') \<Longrightarrow> micro (xs @ ys, feed ms st) = Some (out, xs' @ ys, feed ms st')"
    and feed_append: "feed (ms @ ms') st = feed ms' (feed ms st)"
    and feed_Nil: "feed [] st = st"
    and work_emits:
      "work input n st = (ii, out, st') \<Longrightarrow> ii \<le> length input \<and> emits micro (input, st) out (drop ii input, st')"
    and work_all:
      "work input n st = (ii, out, st') \<Longrightarrow> length input \<le> n \<Longrightarrow> micro (drop ii input, st') = None"
begin

lemma emits_more:
  "emits micro c out c' \<Longrightarrow> emits micro (fst c @ ys, feed ms (snd c)) out (fst c' @ ys, feed ms (snd c'))"
proof (induction rule: emits.induct)
  case (emits_step c out c1 outs c2)
  then show ?case
    using micro_more [of "fst c" "snd c" out "fst c1" "snd c1" ys ms] by (auto intro: emits.emits_step)
qed (simp add: emits_refl)

lemma calls_emit:
  "run_calls work feed calls xs st = (outs, ys, st') \<Longrightarrow>
   emits micro (xs, feed (concat (map fst calls)) st) outs (ys, st')"
proof (induction calls arbitrary: xs st outs)
  case (Cons call calls)
  obtain ms k n where call: "call = (ms, k, n)" by (cases call) auto
  obtain ii out st1 outs' where w: "work (take k xs) n (feed ms st) = (ii, out, st1)"
    and calls: "run_calls work feed calls (drop ii xs) st1 = (outs', ys, st')" and outs: "outs = out @ outs'"
    using Cons.prems by (auto simp: call split: prod.splits)
  let ?later = "concat (map fst calls)"
  have "ii \<le> length (take k xs)" and "emits micro (take k xs, feed ms st) out (drop ii (take k xs), st1)"
    using work_emits [OF w] by blast+
  with emits_more [OF this(2), of "drop k xs" ?later]
  have "emits micro (xs, feed (ms @ ?later) st) out (drop ii xs, feed ?later st1)"
    using drop_append [of ii "take k xs" "drop k xs"] by (simp add: feed_append)
  with Cons.IH [OF calls] emits_trans show ?case by (simp add: call outs)
qed (simp add: emits_refl feed_Nil)

text \<open>The calls followed by one with all that is left do what one call does with all items and all
  messages there.\<close>

lemma determinate:
  assumes "run_calls work feed calls xs st = (outs, ys, st1)" and "work ys (length ys) st1 = (m, out, st2)"
  shows "\<exists>k. work xs (length xs) (feed (concat (map fst calls)) st) = (k, outs @ out, st2) \<and> drop k xs = drop m ys"
proof -
  let ?st = "feed (concat (map fst calls)) st"
  obtain k out' st' where whole: "work xs (length xs) ?st = (k, out', st')" by (metis prod_cases3)
  note emits = work_emits [OF whole, THEN conjunct2]
  have "emits micro (xs, ?st) (outs @ out) (drop m ys, st2)"
    using emits_trans [OF calls_emit [OF assms(1)] work_emits [OF assms(2), THEN conjunct2]] .
  from emits_determined [OF emits this work_all [OF assms(2) order_refl]] obtain rest where
    rest: "outs @ out = out' @ rest" "emits micro (drop k xs, st') rest (drop m ys, st2)" by blast
  from emits_halted [OF rest(2) work_all [OF whole order_refl]] rest(1) whole show ?thesis by auto
qed

text \<open>If the steps come to an end with all items consumed, so do the calls.\<close>

lemma calls_complete:
  assumes "run_calls work feed calls xs st = (outs, ys, st1)"
    and "emits micro (xs, feed (concat (map fst calls)) st) out ([], st')" and "micro ([], st') = None"
  shows "\<exists>rest. work ys (length ys) st1 = (length ys, rest, st') \<and> out = outs @ rest"
proof -
  obtain rest where rest: "out = outs @ rest" "emits micro (ys, st1) rest ([], st')"
    using emits_determined [OF calls_emit [OF assms(1)] assms(2,3)] by blast
  obtain m out' st2 where w: "work ys (length ys) st1 = (m, out', st2)" by (metis prod_cases3)
  have "m \<le> length ys" and "emits micro (ys, st1) out' (drop m ys, st2)"
    using work_emits [OF w] by blast+
  with emits_determined [OF this(2) rest(2) assms(3)] emits_halted work_all [OF w]
  have "rest = out'" "drop m ys = []" "st' = st2" by fastforce+
  with w rest(1) \<open>m \<le> length ys\<close> show ?thesis by simp
qed

end

end
