(* ===== verification/Packetizer.thy ===== *)
theory Packetizer
  imports Controller PieEncoder Buffers
begin

text \<open>
  The end of the receive chain, classes \<open>rfidbts_orthogonal_decode\<close> and \<open>rfidbts_packetizer\<close> of
  \<open>src/lib\<close>: two half symbols make a bit, and the packetizer asks the controller which of the bits
  are the message and hands it back.  \<open>None\<close> is a failed assertion, or a copy outside the packet.
\<close>

section \<open>Half symbols\<close>

definition norm_sqr :: "complex \<Rightarrow> real" where
  "norm_sqr z = Re z * Re z + Im z * Im z"

definition decide :: "complex \<Rightarrow> complex \<Rightarrow> 8 word" where
  "decide a b = (if norm_sqr (a + b) < norm_sqr (a - b) then 1 else 0)"

text \<open>A call that makes \<open>n\<close> bits of the first \<open>2 * n\<close> items.\<close>

definition orthogonal_decode :: "nat \<Rightarrow> complex list \<Rightarrow> 8 word list" where
  "orthogonal_decode n input = map (\<lambda>ii. decide (input ! (2 * ii)) (input ! (2 * ii + 1))) [0..<n]"

text \<open>The library calls it for as many bits as there are pairs of items and room.\<close>

definition decode_work :: "complex list \<Rightarrow> nat \<Rightarrow> unit \<Rightarrow> nat \<times> 8 word list \<times> unit" where
  "decode_work input noutput_items st =
     (let n = min noutput_items (length input div 2) in (2 * n, orthogonal_decode n input, st))"

definition decode_calls ::
    "(unit list \<times> nat \<times> nat) list \<Rightarrow> complex list \<Rightarrow> unit \<Rightarrow> 8 word list \<times> complex list \<times> unit" where
  "decode_calls = run_calls decode_work (\<lambda>ms st. st)"

text \<open>Pair by pair.\<close>

definition decode_micro :: "complex list \<times> unit \<Rightarrow> (8 word list \<times> complex list \<times> unit) option" where
  "decode_micro c = (case c of (a # b # xs, st) \<Rightarrow> Some ([decide a b], xs, st) | _ \<Rightarrow> None)"

lemma decode_emits:
  "2 * n \<le> length xs \<Longrightarrow> emits decode_micro (xs, st) (orthogonal_decode n xs) (drop (2 * n) xs, st)"
proof (induction n arbitrary: xs)
  case (Suc n)
  then obtain a b xs' where xs: "xs = a # b # xs'"
    by (metis Suc_le_length_iff mult_Suc_right add_2_eq_Suc)
  have step: "decode_micro (xs, st) = Some ([decide a b], xs', st)"
    by (simp add: decode_micro_def xs)
  have "orthogonal_decode (Suc n) xs = [decide a b] @ orthogonal_decode n xs'"
    unfolding orthogonal_decode_def upt_conv_Cons [OF zero_less_Suc] map_Suc_upt [symmetric]
    by (simp add: xs o_def)
  with emits_step [OF step Suc.IH] Suc.prems show ?case by (simp add: xs)
qed (simp add: orthogonal_decode_def emits_refl)

interpretation decoder: buffered_block decode_micro "\<lambda>(ms :: unit list) st. st" decode_work
proof
  show "decode_micro (xs, st) = Some (out, xs', st') \<Longrightarrow> decode_micro (xs @ ys, st) = Some (out, xs' @ ys, st')"
    for xs st out xs' st' ys
    by (auto simp: decode_micro_def split: list.splits)
  show "decode_work input n st = (ii, out, st') \<Longrightarrow>
      ii \<le> length input \<and> emits decode_micro (input, st) out (drop ii input, st')" for input n st ii out st'
    using decode_emits [of "min n (length input div 2)" input st] by (auto simp: decode_work_def Let_def)
  show "decode_work input n st = (ii, out, st') \<Longrightarrow> length input \<le> n \<Longrightarrow> decode_micro (drop ii input, st') = None"
    for input n st ii out st'
  proof -
    assume "decode_work input n st = (ii, out, st')" "length input \<le> n"
    then have "ii = 2 * (length input div 2)" by (auto simp: decode_work_def Let_def)
    then have "length (drop ii input) < 2" by simp
    then have "drop ii input = [] \<or> (\<exists>x. drop ii input = [x])"
      by (cases "drop ii input"; cases "tl (drop ii input)") auto
    then show ?thesis by (auto simp: decode_micro_def)
  qed
qed simp_all

text \<open>Once all half symbols have been taken, the buffers do not matter.\<close>

lemma decode_calls_all:
  assumes "decode_calls calls xs st = (bits, [], st')" and "length xs = 2 * n"
  shows "bits = orthogonal_decode n xs"
proof -
  have "decode_micro ([], s) = None" for s by (simp add: decode_micro_def)
  from emits_determined [OF decode_emits [of n xs st] decoder.calls_emit [OF assms(1) [unfolded decode_calls_def]] this]
  obtain rest where "bits = orthogonal_decode n xs @ rest" "emits decode_micro ([], st) rest ([], st')"
    using assms(2) by auto
  moreover from this(2) have "rest = []"
    using emits_halted [of decode_micro "([], st)"] by (simp add: decode_micro_def)
  ultimately show ?thesis by simp
qed

section \<open>The packetizer\<close>

datatype pk_state = PK_IDLE | PK_OFFSET | PK_GET_FRAME

record packetizer =
  pk_state :: pk_state
  pk_bit_offset :: int
  pk_packet_len :: int
  pk_packet :: "8 word list"

text \<open>The constructor does not set the state nor the numbers: they are what the memory holds.\<close>

definition make_packetizer :: "pk_state \<Rightarrow> int \<Rightarrow> int \<Rightarrow> packetizer" where
  "make_packetizer state offset len =
     \<lparr>pk_state = state, pk_bit_offset = offset, pk_packet_len = len, pk_packet = []\<rparr>"

definition resize_to :: "nat \<Rightarrow> 8 word list \<Rightarrow> 8 word list" where
  "resize_to n v = take n v @ replicate (n - length v) 0"

type_synonym pk_point = "int \<times> packetizer \<times> mac_world"

definition pk_step :: "8 word list \<Rightarrow> pk_point \<Rightarrow> pk_point option" where
  "pk_step input pt =
     (case pt of (ii, pk, w) \<Rightarrow>
        (case pk_state pk of
           PK_IDLE \<Rightarrow> do {
             (task, w) \<leftarrow> bit_decode w;
             (offset, len) \<leftarrow> task;
             Some (ii, pk\<lparr>pk_bit_offset := offset, pk_packet_len := len,
               pk_packet := resize_to (nat len) (pk_packet pk), pk_state := PK_OFFSET\<rparr>, w)
           }
         | PK_OFFSET \<Rightarrow>
             let t = min (int (length input) - ii) (pk_bit_offset pk);
                 offset = pk_bit_offset pk - t
             in Some (ii + t, pk\<lparr>pk_bit_offset := offset,
                  pk_state := (if offset = 0 then PK_GET_FRAME else PK_OFFSET)\<rparr>, w)
         | PK_GET_FRAME \<Rightarrow>
             let t = min (int (length input) - ii) (pk_packet_len pk);
                 len = pk_packet_len pk - t
             in do {
               _ \<leftarrow> (if 0 \<le> ii \<and> 0 \<le> t then Some () else None);
               packet \<leftarrow> copy_to (take (nat t) (drop (nat ii) input))
                 (int (length (pk_packet pk)) - pk_packet_len pk) (pk_packet pk);
               (if len = 0
                then do {
                  w \<leftarrow> decoded_message packet w;
                  Some (ii + t, pk\<lparr>pk_packet := packet, pk_packet_len := len, pk_state := PK_IDLE\<rparr>, w) }
                else Some (ii + t, pk\<lparr>pk_packet := packet, pk_packet_len := len\<rparr>, w))
             }))"

text \<open>The controller does not ask for bits twice in a call, so the loop ends.\<close>

definition pk_measure :: "8 word list \<Rightarrow> pk_point \<Rightarrow> nat \<times> nat \<times> nat" where
  "pk_measure input pt = (case pt of (ii, pk, w) \<Rightarrow>
     (if d_state (mac w) = BIT_DECODE then 1 else 0,
      case pk_state pk of PK_IDLE \<Rightarrow> 0 | PK_OFFSET \<Rightarrow> 2 | PK_GET_FRAME \<Rightarrow> 1,
      nat (int (length input) - ii)))"

lemma decoded_message_state:
  "decoded_message msg w = Some w' \<Longrightarrow> d_state (mac w) = WAIT_FOR_DECODE \<and> d_state (mac w') \<noteq> BIT_DECODE"
  by (auto simp: decoded_message_def bind_eq_Some_conv split: if_splits mac_state.splits)

lemma pk_step_decreases:
  assumes "pk_step input (ii, pk, w) = Some pt" and "ii < int (length input)"
  shows "(pk_measure input pt, pk_measure input (ii, pk, w)) \<in> less_than <*lex*> less_than <*lex*> less_than"
proof (cases "pk_state pk")
  case PK_IDLE
  with assms show ?thesis
    by (auto simp: pk_step_def pk_measure_def bit_decode_def bind_eq_Some_conv split: if_splits mac_state.splits)
next
  case PK_OFFSET
  with assms show ?thesis
    by (auto simp: pk_step_def pk_measure_def Let_def split: if_splits)
next
  case PK_GET_FRAME
  define t where "t = min (int (length input) - ii) (pk_packet_len pk)"
  note step = assms(1) [unfolded pk_step_def Let_def prod.case, folded t_def]
  show ?thesis
  proof (cases "pk_packet_len pk = t")
    case True
    with step PK_GET_FRAME obtain packet w' where "decoded_message packet w = Some w'"
      and "pt = (ii + t, pk\<lparr>pk_packet := packet, pk_packet_len := 0, pk_state := PK_IDLE\<rparr>, w')"
      by (auto simp: bind_eq_Some_conv)
    with decoded_message_state PK_GET_FRAME show ?thesis by (auto simp: pk_measure_def)
  next
    case False
    then have "t = int (length input) - ii" by (simp add: t_def min_def split: if_splits)
    with step PK_GET_FRAME False assms(2) show ?thesis
      by (auto simp: bind_eq_Some_conv pk_measure_def)
  qed
qed

function pk_loop :: "8 word list \<Rightarrow> pk_point \<Rightarrow> pk_point option" where
  "pk_loop input pt =
     (if fst pt < int (length input) then
        (case pk_step input pt of
           None \<Rightarrow> None
         | Some pt' \<Rightarrow> pk_loop input pt')
      else Some pt)"
  by pat_completeness auto
termination
  by (relation "inv_image (less_than <*lex*> less_than <*lex*> less_than) (\<lambda>(input, pt). pk_measure input pt)")
    (auto dest: pk_step_decreases)

declare pk_loop.simps [simp del]

text \<open>A call with a buffer of bits, and the calls of the scheduler.\<close>

definition packetizer_work :: "8 word list \<Rightarrow> packetizer \<Rightarrow> mac_world \<Rightarrow> (packetizer \<times> mac_world) option" where
  "packetizer_work input pk w = map_option snd (pk_loop input (0, pk, w))"

fun take_bits :: "8 word list list \<Rightarrow> packetizer \<Rightarrow> mac_world \<Rightarrow> (packetizer \<times> mac_world) option" where
  "take_bits [] pk w = Some (pk, w)"
| "take_bits (buf # bufs) pk w = do {
     (pk, w) \<leftarrow> packetizer_work buf pk w;
     take_bits bufs pk w
   }"


section \<open>Bits in any buffers\<close>

lemma decide_margin:
  assumes "cmod e1 + cmod e2 < cmod s"
  shows "decide (s + e1) (s + e2) = 0" and "decide (s + e1) (- s + e2) = 1"
proof -
  have sqr: "norm_sqr z = (cmod z)\<^sup>2" for z
    unfolding norm_sqr_def cmod_power2 by (simp add: power2_eq_square)
  have less: "cmod (e1 + e2) < cmod (2 * s + (e1 - e2))" "cmod (e1 - e2) < cmod (2 * s + (e1 + e2))"
  proof -
    have "2 * cmod s \<le> cmod (2 * s + z) + cmod z" for z
      using norm_triangle_ineq4 [of "2 * s + z" z] by (simp add: norm_mult)
    from this [of "e1 - e2"] this [of "e1 + e2"]
    show "cmod (e1 + e2) < cmod (2 * s + (e1 - e2))" "cmod (e1 - e2) < cmod (2 * s + (e1 + e2))"
      using assms norm_triangle_ineq [of e1 e2] norm_triangle_ineq4 [of e1 e2] by linarith+
  qed
  have "s + e1 + (s + e2) = 2 * s + (e1 + e2)" "s + e1 - (s + e2) = e1 - e2"
    "s + e1 + (- s + e2) = e1 + e2" "s + e1 - (- s + e2) = 2 * s + (e1 - e2)"
    by (simp_all add: algebra_simps)
  moreover have "(cmod a)\<^sup>2 < (cmod b)\<^sup>2" if "cmod a < cmod b" for a b
    using that by (simp add: power_strict_mono)
  ultimately show "decide (s + e1) (s + e2) = 0" and "decide (s + e1) (- s + e2) = 1"
    using less by (auto simp: decide_def sqr dest: less_asym)
qed

text \<open>The bits of a reply, of which \<open>k\<close> have been taken.\<close>

definition pk_inv :: "mac_world \<Rightarrow> nat \<Rightarrow> 8 word list \<Rightarrow> nat \<Rightarrow> packetizer \<Rightarrow> mac_world \<Rightarrow> bool" where
  "pk_inv w0 offset bits k pk w \<longleftrightarrow>
     (case pk_state pk of
        PK_IDLE \<Rightarrow>
          (k = 0 \<and> w = w0) \<or>
          (k = length bits \<and> (\<exists>task w1. bit_decode w0 = Some (task, w1) \<and>
             decoded_message (drop offset bits) w1 = Some w))
      | PK_OFFSET \<Rightarrow>
          k < offset \<and> pk_bit_offset pk = int offset - int k \<and>
          pk_packet_len pk = int (length bits) - int offset \<and>
          length (pk_packet pk) = length bits - offset \<and> (\<exists>task. bit_decode w0 = Some (task, w))
      | PK_GET_FRAME \<Rightarrow>
          offset \<le> k \<and> k < length bits \<and> pk_packet_len pk = int (length bits) - int k \<and>
          length (pk_packet pk) = length bits - offset \<and>
          take (k - offset) (pk_packet pk) = take (k - offset) (drop offset bits) \<and>
          (\<exists>task. bit_decode w0 = Some (task, w)))"

lemma length_resize_to [simp]: "length (resize_to n v) = n"
  by (simp add: resize_to_def)

lemma copy_to_end:
  assumes "k + length xs \<le> length v"
  shows "copy_to xs (int k) v = Some (take k v @ xs @ drop (k + length xs) v)"
  using assms by (simp add: copy_to_def)

lemma min_rest: "i < n \<Longrightarrow> min (int n - int i) (int m) = int (min (n - i) m)"
  by linarith

lemma pk_offset_inv:
  assumes "pk_inv w0 offset bits k pk w" and "pk_state pk = PK_OFFSET" and "i < length input"
    and "offset < length bits"
  shows "\<exists>t pk'. pk_step input (int i, pk, w) = Some (int (i + t), pk', w) \<and> i + t \<le> length input \<and>
    pk_inv w0 offset bits (k + t) pk' w"
proof -
  have inv: "k < offset" "pk_bit_offset pk = int (offset - k)"
      "pk_packet_len pk = int (length bits) - int offset" "length (pk_packet pk) = length bits - offset"
      "\<exists>task. bit_decode w0 = Some (task, w)"
    using assms by (simp_all add: pk_inv_def)
  define t where "t = min (length input - i) (offset - k)"
  have m: "min (int (length input) - int i) (pk_bit_offset pk) = int t"
    unfolding inv(2) t_def by (rule min_rest [OF assms(3)])
  have t: "i + t \<le> length input" "k + t \<le> offset" using assms(3) inv(1) by (simp_all add: t_def)
  define pk' where "pk' = pk\<lparr>pk_bit_offset := int (offset - k) - int t,
    pk_state := if int (offset - k) - int t = 0 then PK_GET_FRAME else PK_OFFSET\<rparr>"
  have "pk_step input (int i, pk, w) = Some (int (i + t), pk', w)"
    unfolding pk_step_def Let_def prod.case m by (simp add: assms(2) inv(2) pk'_def)
  moreover have "pk_inv w0 offset bits (k + t) pk' w"
  proof (cases "k + t = offset")
    case True
    then show ?thesis using inv assms(4) by (auto simp: pk_inv_def pk'_def)
  next
    case False
    then have "int (offset - k) - int t \<noteq> 0" "k + t < offset" using t by linarith+
    then show ?thesis using inv by (simp add: pk_inv_def pk'_def)
  qed
  ultimately show ?thesis using t(1) by blast
qed

lemma pk_frame_inv:
  assumes "pk_inv w0 offset bits k pk w" and "pk_state pk = PK_GET_FRAME" and "i < length input"
    and "drop i input = take (length input - i) (drop k bits)" and "k + (length input - i) \<le> length bits"
    and decoded: "decoded_message (drop offset bits) w \<noteq> None"
  shows "\<exists>t pk' w'. pk_step input (int i, pk, w) = Some (int (i + t), pk', w') \<and> i + t \<le> length input \<and>
    pk_inv w0 offset bits (k + t) pk' w'"
proof -
  obtain task where inv: "offset \<le> k" "k < length bits" "pk_packet_len pk = int (length bits - k)"
      "length (pk_packet pk) = length bits - offset"
      "take (k - offset) (pk_packet pk) = take (k - offset) (drop offset bits)"
      "bit_decode w0 = Some (task, w)"
    using assms(1,2) by (auto simp: pk_inv_def)
  define t where "t = min (length input - i) (length bits - k)"
  have t: "min (int (length input) - int i) (pk_packet_len pk) = int t"
    unfolding inv(3) t_def by (rule min_rest [OF assms(3)])
  have t': "t = length input - i" "0 < t"
    using inv(2) assms(3,5) by (simp_all add: t_def)
  have taken: "take t (drop i input) = take t (drop k bits)" "k + t \<le> length bits"
    using assms(4,5) t'(1) by simp_all
  define packet where "packet = take (k - offset) (pk_packet pk) @ take t (drop k bits) @
    drop (k - offset + t) (pk_packet pk)"
  have at: "int (length (pk_packet pk)) - pk_packet_len pk = int (k - offset)"
    using inv by simp
  have copied: "copy_to (take t (drop k bits)) (int (k - offset)) (pk_packet pk) = Some packet"
    using inv taken by (subst copy_to_end) (auto simp: packet_def)
  have upto: "take (k + t - offset) packet = take (k + t - offset) (drop offset bits)"
  proof -
    have k: "k + t - offset = (k - offset) + t" using inv(1) by simp
    have "take (k + t - offset) packet = take (k - offset) (pk_packet pk) @ take t (drop k bits)"
      using inv(2-4) taken(2) unfolding k by (simp add: packet_def)
    also have "\<dots> = take (k - offset) (drop offset bits) @ take t (drop (k - offset) (drop offset bits))"
      using inv(1,5) by simp
    finally show ?thesis unfolding k by (simp only: take_add)
  qed
  have len: "length packet = length bits - offset"
    using inv taken by (simp add: packet_def)
  have step: "pk_step input (int i, pk, w) =
      (if int (length bits - k) - int t = 0
       then do { w \<leftarrow> decoded_message packet w;
         Some (int (i + t), pk\<lparr>pk_packet := packet, pk_packet_len := 0, pk_state := PK_IDLE\<rparr>, w) }
       else Some (int (i + t), pk\<lparr>pk_packet := packet, pk_packet_len := int (length bits - k) - int t\<rparr>, w))"
    unfolding pk_step_def Let_def prod.case t at using copied by (simp add: assms(2) inv(3) taken(1))
  have it: "i + t \<le> length input" using t' assms(3) by simp
  show ?thesis
  proof (cases "k + t = length bits")
    case True
    then have "packet = drop offset bits" using upto len by simp
    moreover have "int (length bits - k) - int t = 0" using True by simp
    moreover obtain w2 where "decoded_message (drop offset bits) w = Some w2" using decoded by blast
    ultimately show ?thesis
      using step it True inv(6) by (auto simp: pk_inv_def)
  next
    case False
    then have "int (length bits - k) - int t \<noteq> 0" "k + t < length bits" using taken(2) by linarith+
    with step it inv len upto assms(2) show ?thesis by (simp add: pk_inv_def)
  qed
qed

lemma pk_step_inv:
  assumes "pk_inv w0 offset bits k pk w" and "i < length input"
    and "drop i input = take (length input - i) (drop k bits)" and "k + (length input - i) \<le> length bits"
    and reply: "bit_decode w0 = Some (Some (int offset, int (length bits - offset)), w1)"
    and "0 < offset" and "offset < length bits" and decoded: "decoded_message (drop offset bits) w1 \<noteq> None"
  shows "\<exists>t pk' w'. pk_step input (int i, pk, w) = Some (int (i + t), pk', w') \<and> i + t \<le> length input \<and>
    pk_inv w0 offset bits (k + t) pk' w'"
proof (cases "pk_state pk")
  case PK_IDLE
  then have "k = 0" "w = w0" using assms by (auto simp: pk_inv_def)
  with PK_IDLE assms show ?thesis
    by (intro exI [of _ 0]) (auto simp: pk_step_def pk_inv_def)
next
  case PK_OFFSET
  with pk_offset_inv [OF assms(1) _ assms(2,7)] show ?thesis by blast
next
  case PK_GET_FRAME
  then have "w1 = w" using assms(1) reply by (auto simp: pk_inv_def)
  with pk_frame_inv [OF assms(1) PK_GET_FRAME assms(2-4)] decoded show ?thesis by simp
qed

lemma pk_loop_inv:
  assumes reply: "bit_decode w0 = Some (Some (int offset, int (length bits - offset)), w1)"
    and "0 < offset" and "offset < length bits" and "decoded_message (drop offset bits) w1 \<noteq> None"
  shows "pk_inv w0 offset bits k pk w \<Longrightarrow> i \<le> length input \<Longrightarrow>
    drop i input = take (length input - i) (drop k bits) \<Longrightarrow> k + (length input - i) \<le> length bits \<Longrightarrow>
    \<exists>pk' w'. pk_loop input (int i, pk, w) = Some (int (length input), pk', w') \<and>
      pk_inv w0 offset bits (k + (length input - i)) pk' w'"
proof (induction input "(int i, pk, w)" arbitrary: i k pk w rule: pk_loop.induct)
  case (1 input i pk w)
  show ?case
  proof (cases "i < length input")
    case True
    from pk_step_inv [OF "1.prems"(1) True "1.prems"(3,4) assms] obtain t pk' w' where
      step: "pk_step input (int i, pk, w) = Some (int (i + t), pk', w')" and t: "i + t \<le> length input"
      and inv: "pk_inv w0 offset bits (k + t) pk' w'" by blast
    have rest: "length input - i = t + (length input - (i + t))" using t by simp
    have "drop (i + t) input = drop t (take (t + (length input - (i + t))) (drop k bits))"
      using arg_cong [OF "1.prems"(3), of "drop t"] rest by (simp add: add.commute)
    then have "drop (i + t) input = take (length input - (i + t)) (drop (k + t) bits)"
      by (simp add: drop_take add.commute)
    moreover have "k + t + (length input - (i + t)) = k + (length input - i)" using rest by simp
    moreover have "pk_loop input (int i, pk, w) = pk_loop input (int (i + t), pk', w')"
      using True step by (subst pk_loop.simps) simp
    ultimately show ?thesis
      using "1.hyps" [OF _ step inv t] True "1.prems"(4) by simp
  next
    case False
    with "1.prems" show ?thesis by (subst pk_loop.simps) simp
  qed
qed

lemma take_bits_inv:
  assumes reply: "bit_decode w0 = Some (Some (int offset, int (length bits - offset)), w1)"
    and "0 < offset" and "offset < length bits" and "decoded_message (drop offset bits) w1 \<noteq> None"
  shows "pk_inv w0 offset bits k pk w \<Longrightarrow> prefix (concat bufs) (drop k bits) \<Longrightarrow>
    \<exists>pk' w'. take_bits bufs pk w = Some (pk', w') \<and> pk_inv w0 offset bits (k + length (concat bufs)) pk' w'"
proof (induction bufs arbitrary: k pk w)
  case (Cons buf bufs)
  then obtain zs where zs: "drop k bits = buf @ concat bufs @ zs" by (auto simp: prefix_def)
  then have "length buf \<le> length bits - k" by (metis length_append length_drop le_add1)
  then have len: "buf = take (length buf) (drop k bits)" "buf \<noteq> [] \<Longrightarrow> k + length buf \<le> length bits"
    using zs by (simp, cases "k \<le> length bits", auto)
  have "\<exists>pk1 w1. packetizer_work buf pk w = Some (pk1, w1) \<and> pk_inv w0 offset bits (k + length buf) pk1 w1"
  proof (cases "buf = []")
    case True
    then show ?thesis using Cons.prems by (simp add: packetizer_work_def pk_loop.simps)
  next
    case False
    then show ?thesis
      using pk_loop_inv [OF assms Cons.prems(1), of 0 buf] len by (auto simp: packetizer_work_def)
  qed
  then obtain pk1 w1 where "packetizer_work buf pk w = Some (pk1, w1)"
    and inv: "pk_inv w0 offset bits (k + length buf) pk1 w1" by blast
  moreover have "prefix (concat bufs) (drop (k + length buf) bits)"
    using zs by (metis add.commute append_eq_conv_conj drop_drop prefixI)
  ultimately show ?case using Cons.IH [OF inv] by (auto simp: add.assoc)
qed simp

lemma take_bits_reply:
  assumes "bit_decode w0 = Some (Some (int offset, int (length bits - offset)), w1)"
    and "0 < offset" and "offset < length bits" and "decoded_message (drop offset bits) w1 = Some w2"
    and "pk_state pk = PK_IDLE" and "concat bufs = bits"
  shows "\<exists>pk'. take_bits bufs pk w0 = Some (pk', w2) \<and> pk_state pk' = PK_IDLE"
proof -
  have "pk_inv w0 offset bits 0 pk w0" using assms(5) by (simp add: pk_inv_def)
  from take_bits_inv [OF assms(1-3) _ this, of bufs] assms(4,6) obtain pk' w' where
    t: "take_bits bufs pk w0 = Some (pk', w')" and "pk_inv w0 offset bits (length bits) pk' w'"
    by auto
  then have "pk_state pk' = PK_IDLE \<and> w' = w2"
    using assms(1-4) by (auto simp: pk_inv_def split: pk_state.splits)
  with t show ?thesis by simp
qed

text \<open>With another state in the memory of a new packetizer the first bit ends the process, even when the
  numbers are 0.\<close>

lemma packetizer_unset:
  assumes "state \<noteq> PK_IDLE" and "d_state (mac w) = BIT_DECODE"
  shows "packetizer_work [b] (make_packetizer state 0 0) w = None"
  using assms
  by (cases state) (simp_all add: packetizer_work_def make_packetizer_def pk_loop.simps pk_step_def
      copy_to_def decoded_message_def)

text \<open>Half symbols that carry bits: a 1 changes the sign in the middle of the symbol, a 0 does not, and
  the noise of a symbol is less than its amplitude.\<close>

definition carries :: "complex list \<Rightarrow> 8 word list \<Rightarrow> bool" where
  "carries halves bits \<longleftrightarrow> length halves = 2 * length bits \<and> set bits \<subseteq> {0, 1} \<and>
     (\<forall>i < length bits. \<exists>s e1 e2. cmod e1 + cmod e2 < cmod s \<and> halves ! (2 * i) = s + e1 \<and>
        halves ! (2 * i + 1) = (if bits ! i = 1 then - s else s) + e2)"

lemma decode_carries:
  assumes "carries halves bits"
  shows "orthogonal_decode (length bits) halves = bits"
proof (rule nth_equalityI)
  fix i
  assume "i < length (orthogonal_decode (length bits) halves)"
  then have i: "i < length bits" by (simp add: orthogonal_decode_def)
  then have "bits ! i \<in> {0, 1}" using assms by (meson carries_def nth_mem subsetD)
  moreover obtain s e1 e2 where "cmod e1 + cmod e2 < cmod s" "halves ! (2 * i) = s + e1"
      "halves ! (2 * i + 1) = (if bits ! i = 1 then - s else s) + e2"
    using assms i by (auto simp: carries_def)
  ultimately show "orthogonal_decode (length bits) halves ! i = bits ! i"
    using decide_margin [of e1 e2 s] i by (auto simp: orthogonal_decode_def)
qed (simp add: orthogonal_decode_def)

lemma decode_append:
  assumes "length xs = 2 * m"
  shows "orthogonal_decode (m + n) (xs @ ys) = orthogonal_decode m xs @ orthogonal_decode n ys"
  using assms by (intro nth_equalityI) (auto simp: orthogonal_decode_def nth_append algebra_simps Suc_diff_le)

end
