(* ===== verification/ReceiveGate.thy ===== *)
theory ReceiveGate
  imports PieEncoder Buffers
begin

text \<open>
  The gate of the receive chain, class \<open>rfidbts_receive_gate\<close> of \<open>src/lib\<close>.  It watches the carrier of
  the station itself: after its first pause the gate takes a command from the controller's queue,
  drops samples or passes them on.  The queue is set by the constructor of the transceiver.
\<close>

section \<open>State\<close>

datatype gate_state =
    ST_BOOTUP | ST_TXOFF | ST_TXON_MUTE | ST_TXOFF_MUTE | ST_UNMUTE | ST_COMMAND | ST_WAIT

text \<open>The block has the number of items written and the tags it has put on them from the library.\<close>

record receive_gate =
  g_threshold :: real
  g_off_max :: int
  g_counter :: int
  g_state :: gate_state
  g_queue :: "rx_task list"
  g_written :: nat
  g_tags :: "nat list"

definition make_receive_gate :: "real \<Rightarrow> int \<Rightarrow> receive_gate" where
  "make_receive_gate threshold off_max =
     \<lparr>g_threshold = threshold, g_off_max = off_max, g_counter = 10000, g_state = ST_BOOTUP,
      g_queue = [], g_written = 0, g_tags = []\<rparr>"

section \<open>The work function\<close>

definition add_tag :: "nat \<Rightarrow> receive_gate \<Rightarrow> receive_gate" where
  "add_tag offset st = st\<lparr>g_tags := g_tags st @ [g_written st + offset]\<rparr>"

definition decode_gate :: "rx_task \<Rightarrow> nat \<Rightarrow> receive_gate \<Rightarrow> receive_gate" where
  "decode_gate task oo st =
     (case task of
        RXB_GATE len \<Rightarrow> st\<lparr>g_counter := len, g_state := ST_WAIT\<rparr>
      | RXB_UNGATE len \<Rightarrow> (add_tag oo st)\<lparr>g_counter := len, g_state := ST_UNMUTE\<rparr>
      | RXB_DONE \<Rightarrow> st\<lparr>g_state := ST_TXOFF\<rparr>)"

text \<open>A point of the loop: the index of the input, what has been put into the output, and the state.\<close>

type_synonym gate_point = "nat \<times> complex list \<times> receive_gate"

definition gate_step :: "complex list \<Rightarrow> nat \<Rightarrow> gate_point \<Rightarrow> gate_point flow" where
  "gate_step input noutput_items pt =
     (case pt of (ii, out, st) \<Rightarrow>
        (case g_state st of
           ST_BOOTUP \<Rightarrow>
             Continue (if g_counter st = 0 then (ii, out, st\<lparr>g_state := ST_TXOFF\<rparr>)
               else (ii + 1, out, st\<lparr>g_counter := g_counter st - 1\<rparr>))
         | ST_TXOFF \<Rightarrow>
             Continue (if cmod (input ! ii) > g_threshold st then (ii, out, st\<lparr>g_state := ST_TXON_MUTE\<rparr>)
               else (ii + 1, out, st))
         | ST_TXON_MUTE \<Rightarrow>
             Continue (if cmod (input ! ii) < g_threshold st
               then (ii, out, st\<lparr>g_counter := 0, g_state := ST_TXOFF_MUTE\<rparr>)
               else (ii + 1, out, st))
         | ST_TXOFF_MUTE \<Rightarrow>
             Continue (if g_counter st > g_off_max st then (ii, out, st\<lparr>g_state := ST_TXOFF\<rparr>)
               else if cmod (input ! ii) > g_threshold st then (ii, out, st\<lparr>g_state := ST_COMMAND\<rparr>)
               else (ii + 1, out, st\<lparr>g_counter := g_counter st + 1\<rparr>))
         | ST_COMMAND \<Rightarrow>
             (case g_queue st of
                task # tasks \<Rightarrow> Continue (ii, out, decode_gate task (length out) (st\<lparr>g_queue := tasks\<rparr>))
              | [] \<Rightarrow> Leave pt)
         | ST_WAIT \<Rightarrow>
             Continue (if g_counter st > 0
               then let m = min (g_counter st) (int (length input - ii)) in
                 (ii + nat m, out, st\<lparr>g_counter := g_counter st - m\<rparr>)
               else (ii, out, st\<lparr>g_state := ST_COMMAND\<rparr>))
         | ST_UNMUTE \<Rightarrow>
             Continue (if g_counter st > 0
               then let m = min (g_counter st)
                      (int (min (noutput_items - length out) (length input - ii))) in
                 (ii + nat m, out @ take (nat m) (drop ii input), st\<lparr>g_counter := g_counter st - m\<rparr>)
               else (ii, out, st\<lparr>g_state := ST_COMMAND\<rparr>))))"

text \<open>A round takes a command, consumes input or comes nearer to one of these.\<close>

definition gate_rank :: "complex list \<Rightarrow> gate_point \<Rightarrow> nat" where
  "gate_rank input pt = (case pt of (ii, out, st) \<Rightarrow>
     (case g_state st of
        ST_BOOTUP \<Rightarrow> 5
      | ST_TXON_MUTE \<Rightarrow> (if cmod (input ! ii) < g_threshold st then 4 else 1)
      | ST_TXOFF_MUTE \<Rightarrow> 3
      | ST_TXOFF \<Rightarrow> 2
      | ST_COMMAND \<Rightarrow> 0
      | _ \<Rightarrow> 1))"

definition gate_measure :: "complex list \<Rightarrow> gate_point \<Rightarrow> nat \<times> nat \<times> nat" where
  "gate_measure input pt = (case pt of (ii, out, st) \<Rightarrow>
     (length (g_queue st), length input - ii, gate_rank input pt))"

lemma decode_gate_queue [simp]: "g_queue (decode_gate task oo st) = g_queue st"
  by (cases task) (simp_all add: decode_gate_def add_tag_def)

lemma gate_step_decreases:
  assumes "gate_step input n (ii, out, st) = Continue pt" and "ii < length input" and "length out < n"
  shows "(gate_measure input pt, gate_measure input (ii, out, st)) \<in> less_than <*lex*> less_than <*lex*> less_than"
  using assms
  by (cases "g_state st")
    (auto simp: gate_step_def gate_measure_def gate_rank_def Let_def split: if_splits list.splits)

function gate_loop :: "complex list \<Rightarrow> nat \<Rightarrow> gate_point \<Rightarrow> gate_point" where
  "gate_loop input n pt =
     (if fst pt < length input \<and> length (fst (snd pt)) < n then
        (case gate_step input n pt of
           Leave pt' \<Rightarrow> pt'
         | Continue pt' \<Rightarrow> gate_loop input n pt')
      else pt)"
  by pat_completeness auto
termination
  by (relation "inv_image (less_than <*lex*> less_than <*lex*> less_than) (\<lambda>(input, n, pt). gate_measure input pt)")
    (auto dest: gate_step_decreases)

declare gate_loop.simps [simp del]

text \<open>A call: how many items it has consumed, the output, and the state.\<close>

definition gate_work :: "complex list \<Rightarrow> nat \<Rightarrow> receive_gate \<Rightarrow> gate_point" where
  "gate_work input noutput_items st =
     (case gate_loop input noutput_items (0, [], st) of
        (ii, out, st) \<Rightarrow> (ii, out, st\<lparr>g_written := g_written st + length out\<rparr>))"

text \<open>The tasks that arrive go to the end of the queue.\<close>

abbreviation more_tasks :: "rx_task list \<Rightarrow> receive_gate \<Rightarrow> receive_gate" where
  "more_tasks tasks st \<equiv> st\<lparr>g_queue := g_queue st @ tasks\<rparr>"

definition gate_calls ::
    "(rx_task list \<times> nat \<times> nat) list \<Rightarrow> complex list \<Rightarrow> receive_gate \<Rightarrow> complex list \<times> complex list \<times> receive_gate" where
  "gate_calls = run_calls gate_work more_tasks"

section \<open>Samples one by one\<close>

text \<open>The same machine without buffers: \<open>None\<close> is waiting for a sample or a command; otherwise what it
  passes on, the samples that remain, and the state, in which the items written are counted at
  once.\<close>

type_synonym gate_config = "complex list \<times> receive_gate"

definition gate_micro :: "gate_config \<Rightarrow> (complex list \<times> gate_config) option" where
  "gate_micro c =
     (case c of (xs, st) \<Rightarrow>
        (case xs of
           [] \<Rightarrow> None
         | x # xs' \<Rightarrow>
             (case g_state st of
                ST_BOOTUP \<Rightarrow>
                  Some ([], if g_counter st = 0 then (xs, st\<lparr>g_state := ST_TXOFF\<rparr>)
                    else (xs', st\<lparr>g_counter := g_counter st - 1\<rparr>))
              | ST_TXOFF \<Rightarrow>
                  Some ([], if cmod x > g_threshold st then (xs, st\<lparr>g_state := ST_TXON_MUTE\<rparr>) else (xs', st))
              | ST_TXON_MUTE \<Rightarrow>
                  Some ([], if cmod x < g_threshold st
                    then (xs, st\<lparr>g_counter := 0, g_state := ST_TXOFF_MUTE\<rparr>) else (xs', st))
              | ST_TXOFF_MUTE \<Rightarrow>
                  Some ([], if g_counter st > g_off_max st then (xs, st\<lparr>g_state := ST_TXOFF\<rparr>)
                    else if cmod x > g_threshold st then (xs, st\<lparr>g_state := ST_COMMAND\<rparr>)
                    else (xs', st\<lparr>g_counter := g_counter st + 1\<rparr>))
              | ST_COMMAND \<Rightarrow>
                  (case g_queue st of
                     task # tasks \<Rightarrow> Some ([], (xs, decode_gate task 0 (st\<lparr>g_queue := tasks\<rparr>)))
                   | [] \<Rightarrow> None)
              | ST_WAIT \<Rightarrow>
                  Some ([], if g_counter st > 0 then (xs', st\<lparr>g_counter := g_counter st - 1\<rparr>)
                    else (xs, st\<lparr>g_state := ST_COMMAND\<rparr>))
              | ST_UNMUTE \<Rightarrow>
                  Some (if g_counter st > 0
                    then ([x], xs', st\<lparr>g_counter := g_counter st - 1, g_written := g_written st + 1\<rparr>)
                    else ([], xs, st\<lparr>g_state := ST_COMMAND\<rparr>)))))"

abbreviation gate_path :: "gate_config \<Rightarrow> complex list \<Rightarrow> gate_config \<Rightarrow> bool" where
  "gate_path \<equiv> emits gate_micro"

text \<open>Further samples and tasks behind those that are there change nothing.\<close>

lemma decode_gate_more:
  "decode_gate task oo (st\<lparr>g_queue := ts\<rparr>) = (decode_gate task oo st)\<lparr>g_queue := ts\<rparr>"
  by (cases task) (simp_all add: decode_gate_def add_tag_def)

lemma micro_more:
  assumes "gate_micro (xs, st) = Some (out, xs', st')"
  shows "gate_micro (xs @ ys, more_tasks ts st) = Some (out, xs' @ ys, more_tasks ts st')"
  using assms
  by (cases "g_state st"; cases xs)
    (auto simp: gate_micro_def decode_gate_more split: list.splits if_splits)

text \<open>A round of the loop is some of these steps.\<close>

definition counted :: "complex list \<Rightarrow> receive_gate \<Rightarrow> receive_gate" where
  "counted out st = st\<lparr>g_written := g_written st + length out\<rparr>"

lemma counted_simps [simp]:
  "g_state (counted out st) = g_state st" "g_counter (counted out st) = g_counter st"
  "g_queue (counted out st) = g_queue st" "g_threshold (counted out st) = g_threshold st"
  "g_off_max (counted out st) = g_off_max st" "counted [] st = st"
  by (simp_all add: counted_def)

lemma counted_upd [simp]:
  "counted out (st\<lparr>g_state := s\<rparr>) = (counted out st)\<lparr>g_state := s\<rparr>"
  "counted out (st\<lparr>g_counter := c\<rparr>) = (counted out st)\<lparr>g_counter := c\<rparr>"
  by (simp_all add: counted_def)

lemma decode_gate_counted:
  "decode_gate task 0 ((counted out st)\<lparr>g_queue := ts\<rparr>) =
   counted out (decode_gate task (length out) (st\<lparr>g_queue := ts\<rparr>))"
  by (cases task) (simp_all add: decode_gate_def add_tag_def counted_def)

lemma path_wait:
  assumes "g_state st = ST_WAIT" and "int m \<le> g_counter st" and "m \<le> length xs"
  shows "gate_path (xs, st) [] (drop m xs, st\<lparr>g_counter := g_counter st - int m\<rparr>)"
  using assms
proof (induction m arbitrary: xs st)
  case (Suc m)
  then obtain x xs' where xs: "xs = x # xs'" by (cases xs) auto
  have "gate_micro (xs, st) = Some ([], xs', st\<lparr>g_counter := g_counter st - 1\<rparr>)"
    using Suc.prems by (simp add: gate_micro_def xs)
  moreover have "gate_path (xs', st\<lparr>g_counter := g_counter st - 1\<rparr>) []
      (drop m xs', st\<lparr>g_counter := g_counter st - 1 - int m\<rparr>)"
    using Suc.IH [of "st\<lparr>g_counter := g_counter st - 1\<rparr>" xs'] Suc.prems by (simp add: xs)
  ultimately show ?case
    using emits_silent by (simp add: xs algebra_simps)
qed (simp add: emits_refl)

lemma path_unmute:
  assumes "g_state st = ST_UNMUTE" and "int m \<le> g_counter st" and "m \<le> length xs"
  shows "gate_path (xs, st) (take m xs)
    (drop m xs, st\<lparr>g_counter := g_counter st - int m, g_written := g_written st + m\<rparr>)"
  using assms
proof (induction m arbitrary: xs st)
  case (Suc m)
  then obtain x xs' where xs: "xs = x # xs'" by (cases xs) auto
  let ?st = "st\<lparr>g_counter := g_counter st - 1, g_written := g_written st + 1\<rparr>"
  have "gate_micro (xs, st) = Some ([x], xs', ?st)"
    using Suc.prems by (simp add: gate_micro_def xs)
  moreover have "gate_path (xs', ?st) (take m xs')
      (drop m xs', ?st\<lparr>g_counter := g_counter ?st - int m, g_written := g_written ?st + m\<rparr>)"
    using Suc.prems by (intro Suc.IH) (simp_all add: xs)
  ultimately show ?case
    using emits_step by (fastforce simp: xs algebra_simps)
qed (simp add: emits_refl)

lemma gate_step_path:
  assumes "gate_step input n (ii, out, st) = Continue (ii', out', st')" and "ii < length input" and "length out < n"
  shows "\<exists>o1. out' = out @ o1 \<and> ii' \<le> length input \<and> length out' \<le> n \<and> length o1 \<le> ii' - ii \<and> ii \<le> ii' \<and>
    gate_path (drop ii input, counted out st) o1 (drop ii' input, counted out' st')"
proof -
  have xs: "drop ii input = input ! ii # drop (Suc ii) input"
    using assms(2) by (rule Cons_nth_drop_Suc [symmetric])
  consider "g_state st = ST_WAIT" "g_counter st > 0" | "g_state st = ST_UNMUTE" "g_counter st > 0"
    | "g_state st \<notin> {ST_WAIT, ST_UNMUTE} \<or> \<not> g_counter st > 0" by blast
  then show ?thesis
  proof cases
    case 1
    define m where "m = nat (min (g_counter st) (int (length input - ii)))"
    have m: "int m = min (g_counter st) (int (length input - ii))" using 1 by (simp add: m_def)
    then have new: "ii' = ii + m" "out' = out" "st' = st\<lparr>g_counter := g_counter st - int m\<rparr>"
      using assms 1 by (simp_all add: gate_step_def Let_def m_def)
    have "(counted out st)\<lparr>g_counter := g_counter (counted out st) - int m\<rparr> = counted out' st'"
      unfolding new by (cases st) (simp add: counted_def)
    moreover have "gate_path (drop ii input, counted out st) []
        (drop m (drop ii input), (counted out st)\<lparr>g_counter := g_counter (counted out st) - int m\<rparr>)"
      using 1 m by (intro path_wait) auto
    ultimately show ?thesis
      using new m assms(2,3) by (auto simp: add.commute)
  next
    case 2
    define m where "m = nat (min (g_counter st) (int (min (n - length out) (length input - ii))))"
    have m: "int m = min (g_counter st) (int (min (n - length out) (length input - ii)))"
      using 2 by (simp add: m_def)
    then have new: "ii' = ii + m" "out' = out @ take m (drop ii input)" "st' = st\<lparr>g_counter := g_counter st - int m\<rparr>"
      using assms 2 by (simp_all add: gate_step_def Let_def m_def)
    have "m \<le> length input - ii" "m \<le> n - length out" using m by linarith+
    moreover from this have "(counted out st)\<lparr>g_counter := g_counter (counted out st) - int m,
        g_written := g_written (counted out st) + m\<rparr> = counted out' st'"
      unfolding new by (cases st) (simp add: counted_def)
    moreover have "gate_path (drop ii input, counted out st) (take m (drop ii input))
        (drop m (drop ii input), (counted out st)\<lparr>g_counter := g_counter (counted out st) - int m,
          g_written := g_written (counted out st) + m\<rparr>)"
      using 2 m by (intro path_unmute) auto
    ultimately show ?thesis
      using new assms(2,3) by (auto simp: add.commute)
  next
    case 3
    then have "gate_micro (drop ii input, counted out st) = Some ([], drop ii' input, counted out' st') \<and>
        out' = out \<and> ii \<le> ii' \<and> ii' \<le> length input"
      using assms(1,2) unfolding gate_micro_def prod.case xs list.case
      by (cases "g_state st")
        (auto simp: gate_step_def decode_gate_counted Cons_nth_drop_Suc
          split: if_splits list.splits)
    then show ?thesis using emits_one assms(3) by auto
  qed
qed


lemma gate_loop_path:
  "ii \<le> length input \<Longrightarrow> length out \<le> n \<Longrightarrow> gate_loop input n (ii, out, st) = (ii', out', st') \<Longrightarrow>
   \<exists>o1. out' = out @ o1 \<and> ii' \<le> length input \<and> length o1 \<le> ii' - ii \<and> ii \<le> ii' \<and>
     gate_path (drop ii input, counted out st) o1 (drop ii' input, counted out' st') \<and>
     (length out' < n \<longrightarrow> gate_micro (drop ii' input, counted out' st') = None)"
proof (induction input n "(ii, out, st)" arbitrary: ii out st rule: gate_loop.induct)
  case (1 input n ii out st)
  show ?case
  proof (cases "ii < length input \<and> length out < n")
    case True
    show ?thesis
    proof (cases "gate_step input n (ii, out, st)")
      case (Continue pt)
      obtain ii1 out1 st1 where pt: "pt = (ii1, out1, st1)" by (cases pt) auto
      have "gate_loop input n (ii1, out1, st1) = (ii', out', st')"
        using "1.prems"(3) True Continue pt by (subst (asm) gate_loop.simps) simp
      moreover from gate_step_path [OF Continue [unfolded pt]] True obtain o1 where
        o1: "out1 = out @ o1" "ii1 \<le> length input" "length out1 \<le> n" "length o1 \<le> ii1 - ii" "ii \<le> ii1"
          "gate_path (drop ii input, counted out st) o1 (drop ii1 input, counted out1 st1)" by blast
      ultimately obtain o2 where "out' = out1 @ o2" "ii' \<le> length input" "length o2 \<le> ii' - ii1" "ii1 \<le> ii'"
          "gate_path (drop ii1 input, counted out1 st1) o2 (drop ii' input, counted out' st')"
          "length out' < n \<longrightarrow> gate_micro (drop ii' input, counted out' st') = None"
        using "1.hyps" [OF _ Continue [unfolded pt]] True unfolding fst_conv snd_conv by blast
      with o1 emits_trans show ?thesis by (intro exI [of _ "o1 @ o2"]) auto
    next
      case (Leave pt)
      then have "g_state st = ST_COMMAND" "g_queue st = []" "pt = (ii, out, st)"
        by (auto simp: gate_step_def split: gate_state.splits list.splits)
      moreover from this have "gate_micro (drop ii input, counted out st) = None"
        by (simp add: gate_micro_def split: list.split)
      moreover have "(ii', out', st') = pt"
        using "1.prems"(3) True Leave by (subst (asm) gate_loop.simps) simp
      ultimately show ?thesis using "1.prems" emits_refl by auto
    qed
  next
    case False
    then have "(ii', out', st') = (ii, out, st)"
      using "1.prems"(3) by (subst (asm) gate_loop.simps) auto
    moreover have "gate_micro (drop ii input, counted out st) = None" if "length out < n"
      using that False by (simp add: gate_micro_def)
    ultimately show ?thesis using "1.prems" emits_refl by auto
  qed
qed

lemma gate_work_path:
  assumes "gate_work input n st = (ii, out, st')"
  shows "ii \<le> length input \<and> gate_path (input, st) out (drop ii input, st') \<and>
    (length input \<le> n \<longrightarrow> gate_micro (drop ii input, st') = None)"
proof -
  obtain st1 where loop: "gate_loop input n (0, [], st) = (ii, out, st1)" and st': "st' = counted out st1"
    using assms by (auto simp: gate_work_def counted_def split: prod.splits)
  from gate_loop_path [OF _ _ loop] have p: "ii \<le> length input" "length out \<le> ii"
      "gate_path (input, st) out (drop ii input, st')"
      "length out < n \<longrightarrow> gate_micro (drop ii input, st') = None"
    by (auto simp: st')
  moreover have "gate_micro (drop ii input, st') = None" if "length input \<le> n" "\<not> length out < n"
    using that p(1,2) by (simp add: gate_micro_def)
  ultimately show ?thesis by blast
qed

interpretation gate: buffered_block gate_micro more_tasks gate_work
proof
  show "gate_micro (xs, st) = Some (out, xs', st') \<Longrightarrow>
      gate_micro (xs @ ys, more_tasks ms st) = Some (out, xs' @ ys, more_tasks ms st')" for xs st out xs' st' ys ms
    by (rule micro_more)
qed (use gate_work_path in \<open>auto simp: append_assoc\<close>)

text \<open>C24: the gate does not depend on the scheduler.  However the received samples are cut into buffers,
  however little room there is for the output and whenever the commands arrive, what the gate has
  passed on, followed by what it passes on of the rest in one call, is what it passes on in one call
  with all samples and all commands there; the same samples are left, and the state is the same,
  with the tags that it has set.\<close>

theorem gate_determinate:
  "case gate_calls calls xs st of (outs, ys, st1) \<Rightarrow>
     case gate_work ys (length ys) st1 of (m, out, st2) \<Rightarrow>
       \<exists>k. gate_work xs (length xs) (st\<lparr>g_queue := g_queue st @ concat (map fst calls)\<rparr>) = (k, outs @ out, st2) \<and>
         drop k xs = drop m ys"
proof -
  obtain outs ys st1 where calls: "gate_calls calls xs st = (outs, ys, st1)" by (metis prod_cases3)
  obtain m out st2 where last: "gate_work ys (length ys) st1 = (m, out, st2)" by (metis prod_cases3)
  from gate.determinate [OF calls [unfolded gate_calls_def] last] calls last show ?thesis by auto
qed

section \<open>A window\<close>

lemma path_boot:
  assumes "g_state st = ST_BOOTUP" and "g_counter st = int (length boot)" and "rest \<noteq> []"
  shows "gate_path (boot @ rest, st) [] (rest, st\<lparr>g_counter := 0, g_state := ST_TXOFF\<rparr>)"
  using assms
proof (induction boot arbitrary: st)
  case Nil
  then have "gate_micro (rest, st) = Some ([], rest, st\<lparr>g_counter := 0, g_state := ST_TXOFF\<rparr>)"
    by (cases rest; cases st) (simp_all add: gate_micro_def)
  then show ?case using emits_one by simp
next
  case (Cons x boot)
  then have "gate_micro ((x # boot) @ rest, st) = Some ([], boot @ rest, st\<lparr>g_counter := int (length boot)\<rparr>)"
    by (simp add: gate_micro_def)
  with Cons.IH [of "st\<lparr>g_counter := int (length boot)\<rparr>"] Cons.prems show ?case
    using emits_silent by fastforce
qed

lemma path_quiet:
  assumes "g_state st = ST_TXOFF" and "\<forall>x \<in> set xs. cmod x \<le> g_threshold st"
  shows "gate_path (xs @ rest, st) [] (rest, st)"
  using assms(2)
proof (induction xs)
  case (Cons x xs)
  then have "gate_micro ((x # xs) @ rest, st) = Some ([], xs @ rest, st)"
    using assms(1) by (simp add: gate_micro_def)
  with Cons show ?case using emits_silent by fastforce
qed (simp add: emits_refl)

lemma path_carrier:
  assumes "g_state st = ST_TXON_MUTE" and "\<forall>x \<in> set xs. cmod x \<ge> g_threshold st"
  shows "gate_path (xs @ rest, st) [] (rest, st)"
  using assms(2)
proof (induction xs)
  case (Cons x xs)
  then have "gate_micro ((x # xs) @ rest, st) = Some ([], xs @ rest, st)"
    using assms(1) by (simp add: gate_micro_def)
  with Cons show ?case using emits_silent by fastforce
qed (simp add: emits_refl)

lemma path_pause:
  assumes "g_state st = ST_TXOFF_MUTE" and "\<forall>x \<in> set xs. cmod x \<le> g_threshold st"
    and "g_counter st + int (length xs) \<le> g_off_max st + 1"
  shows "gate_path (xs @ rest, st) [] (rest, st\<lparr>g_counter := g_counter st + int (length xs)\<rparr>)"
  using assms
proof (induction xs arbitrary: st)
  case (Cons x xs)
  let ?st = "st\<lparr>g_counter := g_counter st + 1\<rparr>"
  have "gate_micro ((x # xs) @ rest, st) = Some ([], xs @ rest, ?st)"
    using Cons.prems by (simp add: gate_micro_def)
  moreover have "gate_path (xs @ rest, ?st) [] (rest, ?st\<lparr>g_counter := g_counter ?st + int (length xs)\<rparr>)"
    using Cons.prems by (intro Cons.IH) simp_all
  ultimately show ?case using emits_silent by (fastforce simp: algebra_simps)
qed (simp add: emits_refl)

text \<open>The carrier of the station as the gate sees it: off, on, a pause that is short enough, and on
  again.\<close>

definition carrier_pause :: "receive_gate \<Rightarrow> complex list \<Rightarrow> complex list \<Rightarrow> complex list \<Rightarrow> complex list \<Rightarrow> bool" where
  "carrier_pause st quiet on pause after \<longleftrightarrow>
     (\<forall>x \<in> set quiet. cmod x \<le> g_threshold st) \<and>
     on \<noteq> [] \<and> cmod (hd on) > g_threshold st \<and> (\<forall>x \<in> set on. cmod x \<ge> g_threshold st) \<and>
     pause \<noteq> [] \<and> cmod (hd pause) < g_threshold st \<and> (\<forall>x \<in> set pause. cmod x \<le> g_threshold st) \<and>
     int (length pause) \<le> g_off_max st \<and>
     after \<noteq> [] \<and> cmod (hd after) > g_threshold st"

lemma path_to_command:
  assumes "g_state st = ST_TXOFF" and "carrier_pause st quiet on pause after"
  shows "\<exists>c. gate_path (quiet @ on @ pause @ after, st) [] (after, st\<lparr>g_counter := c, g_state := ST_COMMAND\<rparr>)"
proof -
  note c = assms(2) [unfolded carrier_pause_def]
  obtain x on' y pause' z after' where l: "on = x # on'" "pause = y # pause'" "after = z # after'"
    using c by (meson neq_Nil_conv)
  let ?on = "st\<lparr>g_state := ST_TXON_MUTE\<rparr>"
  let ?off = "st\<lparr>g_counter := 0, g_state := ST_TXOFF_MUTE\<rparr>"
  let ?fin = "?off\<lparr>g_counter := g_counter ?off + int (length pause)\<rparr>"
  have p1: "gate_path (quiet @ on @ pause @ after, st) [] (on @ pause @ after, st)"
    using assms(1) c by (intro path_quiet) simp_all
  have s1: "gate_micro (on @ pause @ after, st) = Some ([], on @ pause @ after, ?on)"
    using assms(1) c by (simp add: gate_micro_def l)
  have p2: "gate_path (on @ pause @ after, ?on) [] (pause @ after, ?on)"
    using c by (intro path_carrier) simp_all
  have s2: "gate_micro (pause @ after, ?on) = Some ([], pause @ after, ?off)"
    using c by (cases st) (simp add: gate_micro_def l)
  have p3: "gate_path (pause @ after, ?off) [] (after, ?fin)"
    using c by (intro path_pause) simp_all
  have s3: "gate_micro (after, ?fin) = Some ([], after, ?fin\<lparr>g_state := ST_COMMAND\<rparr>)"
    using c by (simp add: gate_micro_def l)
  have e: "?fin\<lparr>g_state := ST_COMMAND\<rparr> = st\<lparr>g_counter := int (length pause), g_state := ST_COMMAND\<rparr>"
    by (cases st) simp
  note path = emits_append [OF p1 emits_silent [OF s1 emits_append [OF p2 emits_silent [OF s2
    emits_append [OF p3 emits_one [of gate_micro, OF s3]]]]]]
  show ?thesis
    using path unfolding e by blast
qed

text \<open>A window of the controller: samples that are dropped, and samples that are passed on, the first of
  them with a tag.\<close>

lemma path_window:
  assumes "g_state st = ST_COMMAND" and "g_queue st = [RXB_GATE (int (length skipped)), RXB_UNGATE (int (length window)), RXB_DONE]"
    and "window \<noteq> []"
  shows "\<exists>st'. gate_path (skipped @ window, st) window ([], st') \<and> g_tags st' = g_tags st @ [g_written st]"
proof -
  define st1 where "st1 = st\<lparr>g_queue := tl (g_queue st), g_counter := int (length skipped), g_state := ST_WAIT\<rparr>"
  define st2 where "st2 = st1\<lparr>g_counter := 0, g_state := ST_COMMAND\<rparr>"
  define st3 where "st3 = st2\<lparr>g_queue := [RXB_DONE], g_tags := g_tags st @ [g_written st],
    g_counter := int (length window), g_state := ST_UNMUTE\<rparr>"
  have gate: "gate_micro (skipped @ window, st) = Some ([], skipped @ window, st1)"
    using assms by (cases "skipped @ window") (auto simp: gate_micro_def decode_gate_def st1_def)
  have wait: "gate_path (skipped @ window, st1) [] (window, st1\<lparr>g_counter := 0\<rparr>)"
    using path_wait [of st1 "length skipped" "skipped @ window"] by (simp add: st1_def)
  have done1: "gate_micro (window, st1\<lparr>g_counter := 0\<rparr>) = Some ([], window, st2)"
    using assms(3) by (cases window) (auto simp: gate_micro_def st1_def st2_def)
  have ungate: "gate_micro (window, st2) = Some ([], window, st3)"
    using assms by (cases window; cases st) (auto simp: gate_micro_def decode_gate_def add_tag_def st1_def st2_def st3_def)
  have "gate_path (window, st3) window
      ([], st3\<lparr>g_counter := g_counter st3 - int (length window), g_written := g_written st3 + length window\<rparr>)"
    using path_unmute [of st3 "length window" window] by (simp add: st3_def)
  from emits_silent [OF gate emits_append [OF wait emits_silent [OF done1 emits_silent [OF ungate this]]]]
  show ?thesis by (intro exI conjI) (assumption, simp add: st3_def)
qed

text \<open>All of it, from the start of the process.\<close>

lemma gate_passes_window:
  assumes "carrier_pause (make_receive_gate threshold off_max) quiet on pause (skipped @ window)"
    and "length boot = 10000" and "window \<noteq> []"
    and "concat (map fst calls) = [RXB_GATE (int (length skipped)), RXB_UNGATE (int (length window)), RXB_DONE]"
    and "gate_calls calls (boot @ quiet @ on @ pause @ skipped @ window) (make_receive_gate threshold off_max) = (outs, ys, st)"
  shows "\<exists>out st'. gate_work ys (length ys) st = (length ys, out, st') \<and> outs @ out = window \<and> g_tags st' = [0]"
proof -
  let ?tasks = "concat (map fst calls)"
  let ?st = "more_tasks ?tasks (make_receive_gate threshold off_max)"
  let ?off = "?st\<lparr>g_counter := 0, g_state := ST_TXOFF\<rparr>"
  let ?xs = "quiet @ on @ pause @ skipped @ window"
  have boot: "gate_path (boot @ ?xs, ?st) [] (?xs, ?off)"
    using assms(2,3) by (intro path_boot) (simp_all add: make_receive_gate_def)
  have "carrier_pause ?off quiet on pause (skipped @ window)"
    using assms(1) by (simp add: carrier_pause_def)
  from path_to_command [OF _ this] obtain c where
    command: "gate_path (?xs, ?off) [] (skipped @ window, ?off\<lparr>g_counter := c, g_state := ST_COMMAND\<rparr>)"
    by auto
  have "g_queue ?off = ?tasks" "g_tags ?off = []" "g_written ?off = 0"
    by (simp_all add: make_receive_gate_def)
  with path_window [of "?off\<lparr>g_counter := c, g_state := ST_COMMAND\<rparr>" skipped window] assms(3,4) obtain stF where
    pass: "gate_path (skipped @ window, ?off\<lparr>g_counter := c, g_state := ST_COMMAND\<rparr>) window ([], stF)"
    and tags: "g_tags stF = [0]" by auto
  note all = emits_append [OF boot emits_append [OF command pass]]
  have "gate_micro ([], stF) = None" by (simp add: gate_micro_def)
  from gate.calls_complete [OF assms(5) [unfolded gate_calls_def] all this] tags show ?thesis by auto
qed

end
