(* ===== verification/Downlink.thy ===== *)
theory Downlink
  imports Transceiver PieEncoder Gen2Crc5 BtsConsole
begin

text \<open>
  The downlink as a whole: what a tag receives after \<open>snd_query\<close>.  The constructor of the transceiver
  sets the queues, the controller fills them, and the encoder sends the samples.
\<close>

definition bit_word :: "char \<Rightarrow> 8 word" where
  "bit_word c = (if c = CHR ''1'' then 1 else 0)"

definition query_string :: string where
  "query_string = map (\<lambda>b. if b = 1 then CHR ''1'' else CHR ''0'') query_bits"

text \<open>The tasks in a queue.\<close>

definition tx_tasks :: "message list \<Rightarrow> tx_task list" where
  "tx_tasks ms = concat (map (\<lambda>m. case m of Tx_task t \<Rightarrow> [t] | Rx_task t \<Rightarrow> []) ms)"

lemma tx_tasks_map [simp]: "tx_tasks (map Tx_task ts) = ts"
  by (induction ts) (simp_all add: tx_tasks_def)

text \<open>The bits the controller sends for the query are those of the console with their CRC.\<close>

lemma query_cmd_crc:
  "\<exists>crc. make3_crc_5 query_string = Inr crc \<and> query_cmd = map bit_word (query_string @ crc)"
proof -
  have "make3_crc_5 query_string = Inr ''11111''"
    by code_simp
  moreover have "query_cmd = map bit_word (query_string @ ''11111'')"
    by (simp add: query_cmd_def query_string_def query_bits_def bit_word_def)
  ultimately show ?thesis by blast
qed

lemma query_tasks_ok: "\<forall>t \<in> set query_burst. task_ok t" "\<forall>t \<in> set (tl query_burst). \<not> timed t"
  by (simp_all add: query_burst_def query_cmd_def task_ok_def timed_def)

text \<open>The process after the transceiver has been built, with nothing in the queues.\<close>

definition built :: "controller \<Rightarrow> mac_world" where
  "built rfid_mac = \<lparr>mac = rfid_mac, queued = (\<lambda>q. []), reports = []\<rparr>"

lemma snd_query_burst:
  assumes "keeps_taps lib_taps" and "proto_transceiver lib_taps make_controller = Inr (t, rfid_mac)"
  shows "\<exists>w. snd_query (built rfid_mac) = Some w \<and>
    tx_tasks (queued w (tx_encoder_queue t)) = query_burst"
proof -
  let ?mac = "set_gate_queue (tx_blocker_queue t) (set_encoder_queue (tx_encoder_queue t) make_controller)"
  have m: "rfid_mac = ?mac" and ne: "tx_encoder_queue t \<noteq> tx_blocker_queue t"
    using proto_transceiver_ok [OF assms(1), of make_controller] assms(2) by auto
  then show ?thesis
    by (simp add: snd_query_def issue_downlink_command_def built_def m make_controller_def
        set_gate_queue_def set_encoder_queue_def query_burst_queued [OF _ _ ne])
qed

text \<open>C6: after \<open>snd_query\<close> the encoder that the transceiver connects to its output sends, however
  the scheduler cuts the output into buffers, the carrier for 500000 samples, the preamble, the
  query and then the carrier for good.  A tag that compares the pulses with half of the calibration
  symbol reads the 17 bits of the console's query and the five of their CRC as \<open>make3_crc_5\<close>
  computes it.\<close>

theorem query_on_air:
  assumes "keeps_taps lib_taps" and "proto_transceiver lib_taps make_controller = Inr (t, rfid_mac)"
    and "kind_of (graph t) Tx_encoder = Rfidbts (Pie_encoder delimiter tari pw trcal data1)"
    and "make_pie_encoder delimiter tari pw trcal data1 = Some enc"
  shows "\<exists>w crc p. snd_query (built rfid_mac) = Some w \<and> make3_crc_5 query_string = Inr crc \<and>
    read_bits (tari + data1) p = map bit_word (query_string @ crc) \<and>
    (\<forall>bufs counter. \<exists>st.
      send_buffers enc bufs (pie_start counter (tx_tasks (queued w (tx_encoder_queue t)))) =
        Some (first_samples (sum_list (map length bufs))
          (replicate 500000 d_sample_1 @ d_preamble enc @ p, Some d_sample_1), st))"
proof -
  have "graph t = transceiver_graph (io_signature 1 1 Gr_complex, io_signature 1 1 Gr_complex)"
    using proto_transceiver_ok [OF assms(1), of make_controller] assms(2) by auto
  then have par: "delimiter = 8" "tari = 16" "pw = 8" "trcal = 53" "data1 = 32"
    using assms(3) by (auto simp: transceiver_graph_def)
  obtain w where w: "snd_query (built rfid_mac) = Some w"
    "tx_tasks (queued w (tx_encoder_queue t)) = query_burst"
    using snd_query_burst [OF assms(1,2)] by blast
  obtain crc where crc: "make3_crc_5 query_string = Inr crc" "query_cmd = map bit_word (query_string @ crc)"
    using query_cmd_crc by blast
  let ?p = "concat (map (bit_symbol enc) query_cmd)"
  have "pie_params 8 16 8 53 32" by (simp add: pie_params_def)
  then have "read_bits (tari + data1) ?p = query_cmd"
    using read_symbols [OF assms(4), of query_cmd] by (simp add: par query_cmd_def)
  moreover have "\<exists>st. send_buffers enc bufs (pie_start counter query_burst) =
      Some (first_samples (sum_list (map length bufs))
        (replicate 500000 d_sample_1 @ d_preamble enc @ ?p, Some d_sample_1), st)" for bufs counter
  proof -
    have "work_ok 0 0 (pie_start counter query_burst)"
      using query_tasks_ok by (simp add: work_ok_def pie_start_def query_burst_def timed_def)
    from send_buffers_stream [OF this, of enc bufs] show ?thesis
      by (simp add: stream_def pending_def idle_sample_def pie_start_def query_burst_def)
  qed
  ultimately show ?thesis
    using w crc by metis
qed

theorem query_on_air_witness:
  "\<exists>t rfid_mac w. proto_transceiver (\<lambda>r ts n a. case ts of None \<Rightarrow> [1] | Some ts \<Rightarrow> ts) make_controller =
       Inr (t, rfid_mac) \<and> snd_query (built rfid_mac) = Some w"
proof -
  let ?l = "\<lambda>r ts n a. case ts of None \<Rightarrow> [1] | Some ts \<Rightarrow> ts"
  have l: "keeps_taps ?l" by (simp add: keeps_taps_def)
  then obtain t rfid_mac where t: "proto_transceiver ?l make_controller = Inr (t, rfid_mac)"
    and g: "graph t = transceiver_graph (io_signature 1 1 Gr_complex, io_signature 1 1 Gr_complex)"
    using proto_transceiver_ok by blast
  have k: "kind_of (graph t) Tx_encoder = Rfidbts (Pie_encoder 8 16 8 53 32)"
    by (simp add: g transceiver_graph_def)
  have "pie_params 8 16 8 53 32" by (simp add: pie_params_def)
  then obtain enc where "make_pie_encoder 8 16 8 53 32 = Some enc"
    using make_pie_encoder_frames by blast
  from query_on_air [OF l t k this] t show ?thesis by blast
qed

end
