(* ===== verification/Uplink.thy ===== *)
theory Uplink
  imports Packetizer ReceiveGate Downlink
begin

text \<open>
  A round of the protocol: the gate passes the samples of the answer to a query, and the half symbols
  that the receive chain makes of them become the number in the acknowledgement that the encoder
  sends.
\<close>

section \<open>The gate\<close>

text \<open>The tasks in the queue of the gate.\<close>

definition rx_tasks :: "message list \<Rightarrow> rx_task list" where
  "rx_tasks ms = concat (map (\<lambda>m. case m of Rx_task t \<Rightarrow> [t] | Tx_task t \<Rightarrow> []) ms)"

lemma rx_tasks_map [simp]: "rx_tasks (map Rx_task ts) = ts"
  by (induction ts) (simp_all add: rx_tasks_def)

lemma snd_query_window:
  assumes "keeps_taps lib_taps" and "proto_transceiver lib_taps make_controller = Inr (t, rfid_mac)"
    and "snd_query (built rfid_mac) = Some w"
  shows "rx_tasks (queued w (tx_blocker_queue t)) = query_window"
proof -
  let ?mac = "set_gate_queue (tx_blocker_queue t) (set_encoder_queue (tx_encoder_queue t) make_controller)"
  have m: "rfid_mac = ?mac" and ne: "tx_encoder_queue t \<noteq> tx_blocker_queue t"
    using proto_transceiver_ok [OF assms(1), of make_controller] assms(2) by auto
  with assms(3) show ?thesis
    by (auto simp: snd_query_def issue_downlink_command_def built_def m make_controller_def
        set_gate_queue_def set_encoder_queue_def query_burst_queued [OF _ _ ne])
qed

text \<open>C8: the window of a query.  After the 10000 samples that a new gate skips the station is off, sends its
  carrier, makes a pause, and sends again; the pause is at most \<open>off_max\<close> samples (15 in the transceiver,
  whose threshold is 0.15), since after a longer one the gate takes the station to be off.  Whenever the
  tasks of \<open>snd_query\<close> reach the gate and however the samples are cut into buffers, the gate drops the
  943 samples from the return of the carrier on and passes the next 800, with one tag, at the first of
  them.  The comment at the command says 1500.\<close>

theorem query_window_passed:
  assumes "keeps_taps lib_taps" and "proto_transceiver lib_taps make_controller = Inr (t, rfid_mac)"
    and "kind_of (graph t) Tx_blocker = Rfidbts (Receive_gate threshold off_max)"
    and "snd_query (built rfid_mac) = Some w"
    and "concat (map fst calls) = rx_tasks (queued w (tx_blocker_queue t))"
    and "length boot = 10000" and "length skipped = 943" and "length window = 800"
    and "carrier_pause (make_receive_gate threshold off_max) quiet on pause (skipped @ window)"
    and "gate_calls calls (boot @ quiet @ on @ pause @ skipped @ window) (make_receive_gate threshold off_max) =
      (outs, ys, st)"
  shows "\<exists>out st'. gate_work ys (length ys) st = (length ys, out, st') \<and> outs @ out = window \<and> g_tags st' = [0]"
proof (rule gate_passes_window [OF assms(9,6) _ _ assms(10)])
  show "window \<noteq> []" using assms(8) by auto
  show "concat (map fst calls) = [RXB_GATE (int (length skipped)), RXB_UNGATE (int (length window)), RXB_DONE]"
    using snd_query_window [OF assms(1,2,4)] assms(5,7,8) by (simp add: query_window_def)
qed

theorem query_window_passed_witness:
  "\<exists>t rfid_mac w outs ys st out st'.
     proto_transceiver (\<lambda>r ts n a. case ts of None \<Rightarrow> [1] | Some ts \<Rightarrow> ts) make_controller = Inr (t, rfid_mac) \<and>
     snd_query (built rfid_mac) = Some w \<and>
     gate_calls [([], 9000, 50), (rx_tasks (queued w (tx_blocker_queue t)), 2000, 50)]
       (replicate 10000 0 @ [0] @ [1] @ [0, 0] @ replicate 943 1 @ replicate 800 1) (make_receive_gate 0.15 15) =
         (outs, ys, st) \<and>
     gate_work ys (length ys) st = (length ys, out, st') \<and> outs @ out = replicate 800 1 \<and> g_tags st' = [0]"
proof -
  let ?l = "\<lambda>r ts n a. case ts of None \<Rightarrow> [1] | Some ts \<Rightarrow> ts"
  have l: "keeps_taps ?l" by (simp add: keeps_taps_def)
  then obtain t rfid_mac where t: "proto_transceiver ?l make_controller = Inr (t, rfid_mac)"
    and g: "graph t = transceiver_graph (io_signature 1 1 Gr_complex, io_signature 1 1 Gr_complex)"
    using proto_transceiver_ok by blast
  have k: "kind_of (graph t) Tx_blocker = Rfidbts (Receive_gate 0.15 15)"
    by (simp add: g transceiver_graph_def)
  obtain w where w: "snd_query (built rfid_mac) = Some w"
    using snd_query_burst [OF l t] by blast
  let ?calls = "[([], 9000, 50), (rx_tasks (queued w (tx_blocker_queue t)), 2000, 50)]"
  let ?xs = "replicate 10000 0 @ [0] @ [1] @ [0, 0] @ replicate 943 1 @ replicate 800 (1 :: complex)"
  obtain outs ys st where c: "gate_calls ?calls ?xs (make_receive_gate 0.15 15) = (outs, ys, st)"
    by (metis prod_cases3)
  have p: "carrier_pause (make_receive_gate 0.15 15) [0] [1] [0, 0] (replicate 943 1 @ replicate 800 1)"
    by (simp add: carrier_pause_def make_receive_gate_def hd_append)
  from query_window_passed [OF l t k w _ _ _ _ p c] t w c show ?thesis by auto
qed

section \<open>The answer\<close>

lemma ack_tasks_ok:
  "set rn16 \<subseteq> {0, 1} \<Longrightarrow> \<forall>t \<in> set (ack_burst rn16). task_ok t \<and> \<not> timed t"
  by (auto simp: ack_burst_def task_ok_def timed_def)

text \<open>The controller once the search has found the preamble of the first answer and the symbol
  recovery has asked for its task.\<close>

lemma snd_query_received:
  assumes "keeps_taps lib_taps" and "proto_transceiver lib_taps make_controller = Inr (t, rfid_mac)"
  obtains w where "mac_run [Issue, Preamble True, Symbols] (built rfid_mac) = Some w"
    and "d_state (mac w) = BIT_DECODE" and "d_mac_state (mac w) = MS_RN16" and "reports w = []"
    and "d_encoder_queue (mac w) = Some (tx_encoder_queue t)"
    and "d_gate_queue (mac w) = Some (tx_blocker_queue t)" and "tx_encoder_queue t \<noteq> tx_blocker_queue t"
    and "queued w (tx_encoder_queue t) = map Tx_task query_burst"
proof -
  have m: "rfid_mac = set_gate_queue (tx_blocker_queue t) (set_encoder_queue (tx_encoder_queue t) make_controller)"
    and ne: "tx_encoder_queue t \<noteq> tx_blocker_queue t"
    using proto_transceiver_ok [OF assms(1), of make_controller] assms(2) by auto
  show ?thesis
    by (rule that [where w = "the (mac_run [Issue, Preamble True, Symbols] (built rfid_mac))"])
      (use ne in \<open>simp_all add: m built_def make_controller_def set_gate_queue_def set_encoder_queue_def
        mac_ops query_burst_queued [OF _ _ ne]\<close>)
qed

lemma reply_decoded:
  assumes "length pilot = 18" and "carries reply rn16" and "length rn16 = 16"
  shows "\<exists>start. length start = 9 \<and> orthogonal_decode 25 (pilot @ reply) = start @ rn16"
proof -
  have "orthogonal_decode (9 + 16) (pilot @ reply) = orthogonal_decode 9 pilot @ rn16"
    using decode_append [of pilot 9 16 reply] decode_carries [OF assms(2)] assms by simp
  then show ?thesis by (simp add: orthogonal_decode_def)
qed

lemma reply_taken:
  assumes "d_state (mac w) = BIT_DECODE" and "d_mac_state (mac w) = MS_RN16" and "reports w = []"
    and "d_encoder_queue (mac w) = Some qe" and "d_gate_queue (mac w) = Some qg" and "qe \<noteq> qg"
    and "queued w qe = map Tx_task query_burst"
    and "length pilot = 18" and "carries reply rn16" and "length rn16 = 16"
    and "concat bufs = orthogonal_decode 25 (pilot @ reply)" and "pk_state pk = PK_IDLE"
  shows "\<exists>pk' w'. take_bits bufs pk w = Some (pk', w') \<and> pk_state pk' = PK_IDLE \<and>
    reports w' = [(''RN16 Message: '', rn16)] \<and> queued w' qe = map Tx_task (query_burst @ ack_burst rn16) \<and>
    d_state (mac w') = PREAMBLE_DET \<and> d_mac_state (mac w') = MS_EPC"
proof -
  let ?w1 = "set_state WAIT_FOR_DECODE w"
  obtain w2 where w2: "decoded_message rn16 ?w1 = Some w2" "reports w2 = [(''RN16 Message: '', rn16)]"
      "queued w2 qe = map Tx_task (query_burst @ ack_burst rn16)" "d_state (mac w2) = PREAMBLE_DET"
      "d_mac_state (mac w2) = MS_EPC"
    using assms(1-7) by (simp add: decoded_message_def ack_burst_queued)
  obtain start where start: "length start = 9" "orthogonal_decode 25 (pilot @ reply) = start @ rn16"
    using reply_decoded [OF assms(8-10)] by blast
  have "bit_decode w = Some (Some (int 9, int (length (start @ rn16) - 9)), ?w1)"
    using assms(1,2,10) start(1) by (simp add: bit_decode_def)
  from take_bits_reply [OF this, of w2 pk bufs] w2 start assms(10-12) show ?thesis by auto
qed

text \<open>C7: a tag answers the query with a number of 16 bits, after a pilot of 18 half symbols, in half symbols
  with less noise than signal.  The theorem starts where the search has found the preamble (it tells the
  controller so) and the symbol recovery has asked for its task, with the packetizer in \<open>IDLE\<close>.  However
  the half symbols reach the decoder and the bits the packetizer, no assertion fails, the number is
  reported, the packetizer is in \<open>IDLE\<close> again, and the controller queues the acknowledgement and waits
  for the EPC.  Once the acknowledgement is queued, and however much of the query has been sent until
  then, the encoder sends what is left of the query, and then the frame synchronisation and pulses
  that a tag reads as the acknowledgement of its number.  The constructor of the packetizer does not
  establish \<open>IDLE\<close>: it leaves the state as the memory holds it, and with any other state over numbers
  that are 0 the first bit ends the process.\<close>

theorem uplink_acknowledged:
  assumes "keeps_taps lib_taps" and "proto_transceiver lib_taps make_controller = Inr (t, rfid_mac)"
    and "kind_of (graph t) Tx_encoder = Rfidbts (Pie_encoder delimiter tari pw trcal data1)"
    and "make_pie_encoder delimiter tari pw trcal data1 = Some enc"
    and "length pilot = 18" and "carries reply rn16" and "length rn16 = 16"
    and "decode_calls calls (pilot @ reply) () = (concat bufs, [], ())" and "pk_state pk = PK_IDLE"
  shows "\<exists>w sent st pk' w' tasks p. mac_run [Issue, Preamble True, Symbols] (built rfid_mac) = Some w \<and>
    send_buffers enc early (pie_start counter (tx_tasks (queued w (tx_encoder_queue t)))) = Some (sent, st) \<and>
    take_bits bufs pk w = Some (pk', w') \<and> pk_state pk' = PK_IDLE \<and>
    reports w' = [(''RN16 Message: '', rn16)] \<and> d_state (mac w') = PREAMBLE_DET \<and> d_mac_state (mac w') = MS_EPC \<and>
    tx_tasks (queued w' (tx_encoder_queue t)) = tx_tasks (queued w (tx_encoder_queue t)) @ tasks \<and>
    read_bits (tari + data1) p = [0, 1] @ rn16 \<and>
    (\<forall>late. \<exists>st'. send_buffers enc late (st\<lparr>p_queue := p_queue st @ tasks\<rparr>) =
       Some (first_samples (sum_list (map length late))
         (drop (sum_list (map length early))
            (concat (map (task_samples enc) (tx_tasks (queued w (tx_encoder_queue t)))))
          @ d_framesync enc @ p, Some d_sample_1), st')) \<and>
    (\<forall>state b. state \<noteq> PK_IDLE \<longrightarrow> packetizer_work [b] (make_packetizer state 0 0) w = None)"
proof -
  obtain w where run: "mac_run [Issue, Preamble True, Symbols] (built rfid_mac) = Some w"
    and w: "d_state (mac w) = BIT_DECODE" "d_mac_state (mac w) = MS_RN16" "reports w = []"
      "d_encoder_queue (mac w) = Some (tx_encoder_queue t)" "d_gate_queue (mac w) = Some (tx_blocker_queue t)"
      "tx_encoder_queue t \<noteq> tx_blocker_queue t" "queued w (tx_encoder_queue t) = map Tx_task query_burst"
    using snd_query_received [OF assms(1,2)] .
  have ok: "work_ok 0 0 (pie_start counter query_burst)"
    using query_tasks_ok by (simp add: work_ok_def pie_start_def query_burst_def timed_def)
  from send_buffers_stream [OF this, of enc early] w(7) obtain sent st where
    early: "send_buffers enc early (pie_start counter (tx_tasks (queued w (tx_encoder_queue t)))) = Some (sent, st)"
    by (simp del: first_samples.simps) blast
  have "length (pilot @ reply) = 2 * 25"
    using assms(5-7) by (simp add: carries_def)
  note bits = decode_calls_all [OF assms(8) this]
  obtain pk' w2 where pk': "take_bits bufs pk w = Some (pk', w2)" "pk_state pk' = PK_IDLE"
    and r: "reports w2 = [(''RN16 Message: '', rn16)]"
    and q: "queued w2 (tx_encoder_queue t) = map Tx_task (query_burst @ ack_burst rn16)"
    and next_state: "d_state (mac w2) = PREAMBLE_DET" "d_mac_state (mac w2) = MS_EPC"
    using reply_taken [OF w assms(5-7) bits assms(9)] by blast
  let ?p = "concat (map (bit_symbol enc) ([0, 1] @ rn16))"
  have rn16: "set rn16 \<subseteq> {0, 1}" using assms(6) by (simp add: carries_def)
  have "graph t = transceiver_graph (io_signature 1 1 Gr_complex, io_signature 1 1 Gr_complex)"
    using proto_transceiver_ok [OF assms(1), of make_controller] assms(2) by auto
  then have par: "delimiter = 8" "tari = 16" "pw = 8" "trcal = 53" "data1 = 32"
    using assms(3) by (auto simp: transceiver_graph_def)
  have "pie_params 8 16 8 53 32" by (simp add: pie_params_def)
  then have read: "read_bits (tari + data1) ?p = [0, 1] @ rn16"
    using read_symbols [OF assms(4), of "[0, 1] @ rn16"] rn16 by (simp add: par)
  have air: "\<exists>st'. send_buffers enc late (st\<lparr>p_queue := p_queue st @ ack_burst rn16\<rparr>) =
      Some (first_samples (sum_list (map length late)) (drop (sum_list (map length early))
        (concat (map (task_samples enc) (tx_tasks (queued w (tx_encoder_queue t))))) @ d_framesync enc @ ?p,
        Some d_sample_1), st')" for late
  proof -
    from send_buffers_later [OF ok ack_tasks_ok [OF rn16], of enc early sent st late] early w(7)
    show ?thesis by (simp add: stream_def pending_def pie_start_def ack_burst_def)
  qed
  have "tx_tasks (queued w2 (tx_encoder_queue t)) = tx_tasks (queued w (tx_encoder_queue t)) @ ack_burst rn16"
    unfolding q w(7) tx_tasks_map by (rule refl)
  with run early pk' r next_state read air packetizer_unset [OF _ w(1)] show ?thesis by blast
qed

text \<open>The second answer: 112 bits after a pilot are reported as the EPC.\<close>

lemma epc_reported:
  assumes "d_state (mac w) = PREAMBLE_DET" and "d_mac_state (mac w) = MS_EPC"
    and "length pilot = 18" and "carries reply epc" and "length epc = 112"
    and "decode_calls calls (pilot @ reply) () = (concat bufs, [], ())" and "pk_state pk = PK_IDLE"
  shows "\<exists>w1 pk' w'. mac_run [Preamble True, Symbols] w = Some w1 \<and> take_bits bufs pk w1 = Some (pk', w') \<and>
    reports w' = reports w @ [(''EPC Message: '', epc)]"
proof -
  have "orthogonal_decode (9 + 112) (pilot @ reply) = orthogonal_decode 9 pilot @ epc"
    using decode_append [of pilot 9 112 reply] decode_carries [OF assms(4)] assms(3,5) by simp
  moreover have "length (pilot @ reply) = 2 * (9 + 112)"
    using assms(3-5) by (simp add: carries_def)
  ultimately have bits: "concat bufs = orthogonal_decode 9 pilot @ epc"
    using decode_calls_all [OF assms(6)] by metis
  let ?w1 = "set_state BIT_DECODE w" and ?w2 = "set_state WAIT_FOR_DECODE w"
  let ?w3 = "?w2\<lparr>reports := reports w @ [(''EPC Message: '', epc)]\<rparr>"
  have "mac_run [Preamble True, Symbols] w = Some ?w1"
    using assms(1,2) by (simp add: mac_ops)
  moreover have start: "length (orthogonal_decode 9 pilot) = 9" by (simp add: orthogonal_decode_def)
  then have "bit_decode ?w1 = Some (Some (int 9, int (length (orthogonal_decode 9 pilot @ epc) - 9)), ?w2)"
    using assms(2,5) by (simp add: bit_decode_def)
  moreover have "decoded_message epc ?w2 = Some ?w3"
    using assms(2) by (simp add: decoded_message_def)
  ultimately show ?thesis
    using take_bits_reply [of ?w1 9 "orthogonal_decode 9 pilot @ epc" ?w2 ?w3 pk bufs] start bits assms(5,7)
    by auto
qed

text \<open>Half symbols without noise.\<close>

lemma carries_clean:
  assumes "set bits \<subseteq> {0, 1}"
  shows "carries (concat (map (\<lambda>b. [1, if b = 1 then -1 else 1]) bits)) bits"
proof -
  have "length (concat (map (\<lambda>b. [1, if b = 1 then -1 else 1 :: complex]) bits)) = 2 * length bits \<and>
    (\<forall>i < length bits. concat (map (\<lambda>b. [1, if b = 1 then -1 else 1]) bits) ! (2 * i) = (1 :: complex) \<and>
      concat (map (\<lambda>b. [1, if b = 1 then -1 else 1]) bits) ! (2 * i + 1) =
        (if bits ! i = 1 then -1 else 1 :: complex))"
    by (induction bits) (auto simp: All_less_Suc2)
  moreover have "cmod (0 :: complex) + cmod (0 :: complex) < cmod (1 :: complex)" by simp
  ultimately show ?thesis
    using assms unfolding carries_def
    by (intro conjI allI impI exI [of _ 1] exI [of _ 0]) auto
qed

theorem uplink_acknowledged_witness:
  "\<exists>t rfid_mac w pk' w'.
     proto_transceiver (\<lambda>r ts n a. case ts of None \<Rightarrow> [1] | Some ts \<Rightarrow> ts) make_controller = Inr (t, rfid_mac) \<and>
     mac_run [Issue, Preamble True, Symbols] (built rfid_mac) = Some w \<and>
     take_bits [replicate 7 0, [0, 0, 1, 0, 1, 1], [0, 0, 1, 0, 1, 1, 1, 0, 0, 1, 0, 1]] (make_packetizer PK_IDLE 0 0) w =
       Some (pk', w') \<and>
     reports w' = [(''RN16 Message: '', [1, 0, 1, 1, 0, 0, 1, 0, 1, 1, 1, 0, 0, 1, 0, 1])]"
proof -
  let ?l = "\<lambda>r ts n a. case ts of None \<Rightarrow> [1] | Some ts \<Rightarrow> ts"
  let ?rn16 = "[1, 0, 1, 1, 0, 0, 1, 0, 1, 1, 1, 0, 0, 1, 0, 1] :: 8 word list"
  let ?reply = "concat (map (\<lambda>b. [1, if b = 1 then -1 else 1]) ?rn16) :: complex list"
  have l: "keeps_taps ?l" by (simp add: keeps_taps_def)
  then obtain t rfid_mac where t: "proto_transceiver ?l make_controller = Inr (t, rfid_mac)"
    and g: "graph t = transceiver_graph (io_signature 1 1 Gr_complex, io_signature 1 1 Gr_complex)"
    using proto_transceiver_ok by blast
  have k: "kind_of (graph t) Tx_encoder = Rfidbts (Pie_encoder 8 16 8 53 32)"
    by (simp add: g transceiver_graph_def)
  have "pie_params 8 16 8 53 32" by (simp add: pie_params_def)
  then obtain enc where e: "make_pie_encoder 8 16 8 53 32 = Some enc"
    using make_pie_encoder_frames by blast
  have c: "carries ?reply ?rn16" by (rule carries_clean) simp
  have len: "length (replicate 18 1 :: complex list) = 18" "length ?rn16 = 16" by simp_all
  have d: "concat [replicate 7 0, [0, 0, 1, 0, 1, 1], [0, 0, 1, 0, 1, 1, 1, 0, 0, 1, 0, 1]] =
      orthogonal_decode 25 (replicate 18 1 @ ?reply)"
    by (simp add: orthogonal_decode_def decide_def norm_sqr_def upt_rec numeral_eq_Suc)
  have dc: "decode_calls [([], 50, 25)] (replicate 18 1 @ ?reply) () =
      (concat [replicate 7 0, [0, 0, 1, 0, 1, 1], [0, 0, 1, 0, 1, 1, 1, 0, 0, 1, 0, 1]], [], ())"
    unfolding d by (simp add: decode_calls_def decode_work_def)
  have i: "pk_state (make_packetizer PK_IDLE 0 0) = PK_IDLE" by (simp add: make_packetizer_def)
  from uplink_acknowledged [OF l t k e len(1) c len(2) dc i, of "[]" 0] t show ?thesis by blast
qed

end
