(* ===== verification/Picker.thy ===== *)
theory Picker
  imports PieEncoder
begin

text \<open>
  The search for a frame after the correlators, classes \<open>rfidbts_peak_count_stream\<close>,
  \<open>rfidbts_pick_peak\<close> and \<open>rfidbts_mux_slice_dice\<close> of \<open>src/lib\<close>.  Every branch counts the samples from
  the start of a burst to its first peak; the picker takes the branch with the greatest peak and
  tells the slicer what to cut out of the samples of that branch.  \<open>None\<close> is a failed assertion, an
  access outside of a buffer, the consumption of items that are not there, or a loop that does not end.
\<close>

section \<open>Tags\<close>

text \<open>Items of a stream from the first one not yet consumed on, and the positions among them with the
  tag of a burst.  The least position in a range is the head of the sorted list.\<close>

record 'a tagged =
  items :: "'a list"
  bursts :: "nat list"

definition first_tag :: "nat list \<Rightarrow> int \<Rightarrow> int \<Rightarrow> int option" where
  "first_tag tags i j =
     (case sort (filter (\<lambda>t. i \<le> int t \<and> int t < j) tags) of [] \<Rightarrow> None | t # _ \<Rightarrow> Some (int t))"

section \<open>Counting\<close>

record peak_count_pair =
  peak :: real
  peak_at :: int

datatype count_state = SEARCH_ACTIVE | WAIT_NEW_FRAME

record peak_counter =
  c_state :: count_state
  c_count :: int
  c_thresh :: int

text \<open>The length of a frame is kept, and not used.\<close>

definition make_peak_count_stream :: "int \<Rightarrow> int \<Rightarrow> peak_counter" where
  "make_peak_count_stream frame_sample_len preamble_thresh =
     \<lparr>c_state = WAIT_NEW_FRAME, c_count = 0, c_thresh = preamble_thresh\<rparr>"

text \<open>The count of a pair that reports no peak is not set: \<open>unset\<close>.\<close>

definition count_step ::
    "int \<Rightarrow> 8 word list \<Rightarrow> real tagged \<Rightarrow> nat \<times> peak_counter \<Rightarrow> (nat \<times> peak_count_pair list \<times> peak_counter) flow" where
  "count_step unset strobe peaks pt =
     (case pt of (ii, st) \<Rightarrow>
        let min_in = min (length strobe) (length (items peaks)) in
        (case c_state st of
           SEARCH_ACTIVE \<Rightarrow>
             (if strobe ! ii \<noteq> 0
              then Leave (ii + 1, [\<lparr>peak = items peaks ! ii, peak_at = c_count st\<rparr>], st\<lparr>c_state := WAIT_NEW_FRAME\<rparr>)
              else if c_count st \<ge> c_thresh st
              then Leave (ii, [\<lparr>peak = -1, peak_at = unset\<rparr>], st\<lparr>c_state := WAIT_NEW_FRAME\<rparr>)
              else Continue (ii + 1, [], st\<lparr>c_count := c_count st + 1\<rparr>))
         | WAIT_NEW_FRAME \<Rightarrow>
             (case first_tag (bursts peaks) (int ii) (int min_in) of
                Some t \<Rightarrow> Continue (nat t, [], st\<lparr>c_count := 0, c_state := SEARCH_ACTIVE\<rparr>)
              | None \<Rightarrow> Continue (min_in, [], st))))"

lemma first_tag_Some:
  assumes "first_tag tags i j = Some t"
  shows "i \<le> t \<and> t < j \<and> t \<in> int ` set tags \<and> (\<forall>u \<in> set tags. i \<le> int u \<longrightarrow> t \<le> int u)"
proof -
  let ?ts = "sort (filter (\<lambda>t. i \<le> int t \<and> int t < j) tags)"
  obtain u us where u: "?ts = u # us" "t = int u"
    using assms by (auto simp: first_tag_def split: list.splits)
  then have "u \<in> set ?ts" by simp
  then have "u \<in> set tags" "i \<le> int u" "int u < j" by simp_all
  moreover have "u \<le> v" if "v \<in> set tags" "i \<le> int v" for v
  proof (cases "int v < j")
    case True
    with that have "v \<in> set (u # us)" unfolding u(1) [symmetric] by simp
    moreover have "sorted (u # us)" unfolding u(1) [symmetric] by simp
    ultimately show ?thesis by auto
  qed (use calculation in linarith)
  ultimately show ?thesis using u(2) by auto
qed

lemma first_tag_None: "first_tag tags i j = None \<longleftrightarrow> (\<forall>t \<in> set tags. \<not> (i \<le> int t \<and> int t < j))"
proof -
  have "sort (filter P tags) = [] \<longleftrightarrow> (\<forall>t \<in> set tags. \<not> P t)" for P
    by (metis filter_empty_conv set_empty set_sort)
  moreover have "first_tag tags i j = None \<longleftrightarrow> sort (filter (\<lambda>t. i \<le> int t \<and> int t < j) tags) = []"
    by (simp add: first_tag_def split: list.split)
  ultimately show ?thesis by simp
qed

function count_loop ::
    "int \<Rightarrow> 8 word list \<Rightarrow> real tagged \<Rightarrow> nat \<times> peak_counter \<Rightarrow> nat \<times> peak_count_pair list \<times> peak_counter" where
  "count_loop unset strobe peaks pt =
     (if fst pt < min (length strobe) (length (items peaks)) then
        (case count_step unset strobe peaks pt of
           Leave r \<Rightarrow> r
         | Continue (ii, _, st) \<Rightarrow> count_loop unset strobe peaks (ii, st))
      else (fst pt, [], snd pt))"
  by pat_completeness auto
termination
  by (relation "inv_image (less_than <*lex*> less_than) (\<lambda>(u, strobe, peaks, ii, st).
      (min (length strobe) (length (items peaks)) - ii, case c_state st of SEARCH_ACTIVE \<Rightarrow> 0 | WAIT_NEW_FRAME \<Rightarrow> 1))")
    (auto simp: count_step_def Let_def split: count_state.splits if_splits option.splits dest!: first_tag_Some)

declare count_loop.simps [simp del]

text \<open>A call: the items consumed, at most one pair, and the state.\<close>

definition count_work ::
    "int \<Rightarrow> 8 word list \<Rightarrow> real tagged \<Rightarrow> peak_counter \<Rightarrow> nat \<times> peak_count_pair list \<times> peak_counter" where
  "count_work unset strobe peaks st = count_loop unset strobe peaks (0, st)"

section \<open>Picking\<close>

datatype mux_ctrl_cmd = MUX_DELETE | MUX_COPY | MUX_FLUSH | MUX_TAG

record mux_ctrl_msg =
  m_len :: int
  m_in_sel :: int
  m_cmd :: mux_ctrl_cmd

definition generate_mux_commands :: "mux_ctrl_cmd \<Rightarrow> int \<Rightarrow> int \<Rightarrow> mux_ctrl_msg" where
  "generate_mux_commands c sel len = \<lparr>m_len = len, m_in_sel = sel, m_cmd = c\<rparr>"

text \<open>The best peak so far, with its branch and its count; \<open>None\<close> stands for minus infinity.\<close>

definition pick_round :: "(real \<times> int \<times> int) option \<Rightarrow> int \<times> peak_count_pair \<Rightarrow> (real \<times> int \<times> int) option" where
  "pick_round best ip =
     (case ip of (ii, p) \<Rightarrow>
        (case best of
           None \<Rightarrow> Some (peak p, ii, peak_at p)
         | Some (b, _) \<Rightarrow> if peak p > b then Some (peak p, ii, peak_at p) else best))"

definition best_peak :: "peak_count_pair list \<Rightarrow> (real \<times> int \<times> int) option" where
  "best_peak ps = foldl pick_round None (zip (map int [0..<length ps]) ps)"

text \<open>The loop counts in a \<open>char\<close>: with more than 127 inputs it does not end.\<close>

definition flush_all_buffers :: "nat \<Rightarrow> mux_ctrl_msg list option" where
  "flush_all_buffers connections =
     (if connections \<le> 127 then Some (map (\<lambda>ii. generate_mux_commands MUX_FLUSH (int ii) (-1)) [0..<connections])
      else None)"

definition pick_peak_work :: "peak_count_pair list \<Rightarrow> mac_world \<Rightarrow> (mux_ctrl_msg list \<times> mac_world) option" where
  "pick_peak_work ps w = do {
     (frame, w) \<leftarrow>
       (case best_peak ps of
          Some (best_so_far, best_correlator, best_index) \<Rightarrow>
            (if best_so_far > 0
             then do {
               (task, w) \<leftarrow> report_preamble True w;
               (sample_offset, output_sample_len) \<leftarrow> task;
               Some ([generate_mux_commands MUX_DELETE best_correlator (best_index - sample_offset),
                 generate_mux_commands MUX_COPY best_correlator 8,
                 generate_mux_commands MUX_TAG best_correlator 0,
                 generate_mux_commands MUX_COPY best_correlator output_sample_len], w) }
             else do { (_, w) \<leftarrow> report_preamble False w; Some ([], w) })
        | None \<Rightarrow> do { (_, w) \<leftarrow> report_preamble False w; Some ([], w) });
     flush \<leftarrow> flush_all_buffers (length ps);
     Some (frame @ flush, w)
   }"

section \<open>Cutting\<close>

datatype mux_state = MX_WAIT | MX_COPY | MX_TAG_COPY | MX_DELETE | MX_DELETE_FLUSH

record mux =
  x_state :: mux_state
  x_cmd :: mux_ctrl_msg
  x_queue :: "mux_ctrl_msg list"
  x_written :: nat
  x_tags :: "nat list"

text \<open>The command of a new slicer is what the memory holds.\<close>

definition make_mux :: "mux_ctrl_msg \<Rightarrow> mux" where
  "make_mux unset = \<lparr>x_state = MX_WAIT, x_cmd = unset, x_queue = [], x_written = 0, x_tags = []\<rparr>"

definition set_mux_state :: "mux \<Rightarrow> mux" where
  "set_mux_state st = st\<lparr>x_state :=
     (case m_cmd (x_cmd st) of
        MUX_DELETE \<Rightarrow> MX_DELETE | MUX_COPY \<Rightarrow> MX_COPY | MUX_FLUSH \<Rightarrow> MX_DELETE_FLUSH | MUX_TAG \<Rightarrow> MX_TAG_COPY)\<rparr>"

definition pop_next_cmd :: "mux \<Rightarrow> mux option" where
  "pop_next_cmd st =
     (if m_len (x_cmd st) < 0 then None
      else if m_len (x_cmd st) = 0 then Some (st\<lparr>x_state := MX_WAIT\<rparr>) else Some st)"

definition tag_symbol_boundry :: "nat \<Rightarrow> mux \<Rightarrow> mux" where
  "tag_symbol_boundry offset st = st\<lparr>x_tags := x_tags st @ [x_written st + offset]\<rparr>"

definition search_for_tag :: "nat list \<Rightarrow> int \<Rightarrow> int \<Rightarrow> mux \<Rightarrow> int \<times> mux" where
  "search_for_tag tags offset input_items st =
     (case first_tag tags offset input_items of
        Some t \<Rightarrow> (t - offset, st\<lparr>x_state := MX_WAIT\<rparr>)
      | None \<Rightarrow> (input_items - offset, st))"

text \<open>\<open>memcpy\<close> from the input, within the items that are there.\<close>

definition read_items :: "'a list \<Rightarrow> int \<Rightarrow> int \<Rightarrow> 'a list option" where
  "read_items xs i n =
     (if 0 \<le> i \<and> 0 \<le> n \<and> i + n \<le> int (length xs) then Some (take (nat n) (drop (nat i) xs)) else None)"

definition less_len :: "int \<Rightarrow> mux \<Rightarrow> mux" where
  "less_len n st = st\<lparr>x_cmd := (x_cmd st)\<lparr>m_len := m_len (x_cmd st) - n\<rparr>\<rparr>"

text \<open>A point of the loop: the indices of the inputs, the output and the state.\<close>

type_synonym 'a mux_point = "int list \<times> 'a list \<times> mux"

definition mux_step :: "'a tagged list \<Rightarrow> nat \<Rightarrow> 'a mux_point \<Rightarrow> 'a mux_point flow option" where
  "mux_step inputs noutput_items pt =
     (case pt of (ii, out, st) \<Rightarrow>
        let sel = nat (m_in_sel (x_cmd st));
            i = ii ! sel;
            input = items (inputs ! sel);
            nin = int (length input);
            len = m_len (x_cmd st)
        in (case x_state st of
           MX_WAIT \<Rightarrow>
             (case x_queue st of
                [] \<Rightarrow> Some (Leave pt)
              | c # cs \<Rightarrow>
                  if 0 \<le> m_in_sel c \<and> m_in_sel c < int (length inputs)
                  then Some (Continue (ii, out, set_mux_state (st\<lparr>x_queue := cs, x_cmd := c\<rparr>))) else None)
         | MX_COPY \<Rightarrow>
             (if length out = noutput_items \<or> i = nin then Some (Leave pt)
              else let smallest = min (int noutput_items - int (length out)) (min nin len) in
                do { xs \<leftarrow> read_items input i smallest;
                     st \<leftarrow> pop_next_cmd (less_len smallest st);
                     Some (Continue (ii[sel := i + smallest], out @ xs, st)) })
         | MX_TAG_COPY \<Rightarrow>
             (if length out = noutput_items \<or> i = nin then Some (Leave pt)
              else do { xs \<leftarrow> read_items input i 1;
                        Some (Continue (ii[sel := i + 1], out @ xs,
                          (tag_symbol_boundry (length out) st)\<lparr>x_state := MX_WAIT\<rparr>)) })
         | MX_DELETE \<Rightarrow>
             (if i = nin then Some (Leave pt)
              else let smallest = min nin len in
                do { st \<leftarrow> pop_next_cmd (less_len smallest st);
                     Some (Continue (ii[sel := i + smallest], out, st)) })
         | MX_DELETE_FLUSH \<Rightarrow>
             (if i = nin then Some (Leave pt)
              else case search_for_tag (bursts (inputs ! sel)) i nin st of
                (n, st) \<Rightarrow> Some (Continue (ii[sel := i + n], out, st)))))"

partial_function (option) mux_loop :: "'a tagged list \<Rightarrow> nat \<Rightarrow> 'a mux_point \<Rightarrow> 'a mux_point option" where
  "mux_loop inputs noutput_items pt =
     (case mux_step inputs noutput_items pt of
        None \<Rightarrow> None
      | Some (Leave pt') \<Rightarrow> Some pt'
      | Some (Continue pt') \<Rightarrow> mux_loop inputs noutput_items pt')"

text \<open>A call: the items consumed of each input, the output and the state.\<close>

definition mux_work :: "'a tagged list \<Rightarrow> nat \<Rightarrow> mux \<Rightarrow> (nat list \<times> 'a list \<times> mux) option" where
  "mux_work inputs noutput_items st = do {
     (ii, out, st) \<leftarrow> mux_loop inputs noutput_items (replicate (length inputs) 0, [], st);
     if list_all2 (\<lambda>i input. 0 \<le> i \<and> i \<le> int (length (items input))) ii inputs
     then Some (map nat ii, out, st\<lparr>x_written := x_written st + length out\<rparr>) else None
   }"

section \<open>The best branch\<close>

lemma pick_round_simps:
  "pick_round None (ii, p) = Some (peak p, ii, peak_at p)"
  "pick_round (Some (b, i, c)) (ii, p) = (if peak p > b then Some (peak p, ii, peak_at p) else Some (b, i, c))"
  by (simp_all add: pick_round_def)

lemma pick_rounds_member:
  "foldl pick_round None ips = Some (b, i, c) \<Longrightarrow> \<exists>p. (i, p) \<in> set ips \<and> peak p = b \<and> peak_at p = c"
proof (induction ips arbitrary: b i c rule: rev_induct)
  case (snoc ip ips)
  obtain j p where ip: "ip = (j, p)" by (cases ip) auto
  show ?case
  proof (cases "foldl pick_round None ips")
    case None
    with snoc.prems show ?thesis by (auto simp: pick_round_simps ip)
  next
    case (Some bic)
    obtain b' i' c' where bic: "bic = (b', i', c')" by (cases bic) auto
    from snoc.IH [OF Some [unfolded bic]] snoc.prems show ?thesis
      by (auto simp: pick_round_simps ip Some bic split: if_splits)
  qed
qed simp

lemma pick_rounds_keep:
  "\<forall>(i, p) \<in> set ips. peak p \<le> b \<Longrightarrow> foldl pick_round (Some (b, k, c)) ips = Some (b, k, c)"
  by (induction ips) (auto simp: pick_round_simps)

lemma best_peak_first:
  assumes "k < length ps" and "\<forall>p \<in> set ps. peak p \<le> peak (ps ! k)" and "\<forall>p \<in> set (take k ps). peak p < peak (ps ! k)"
  shows "best_peak ps = Some (peak (ps ! k), int k, peak_at (ps ! k))"
proof -
  have "zip (map int [0..<length ps]) ps = map (\<lambda>j. (int j, ps ! j)) [0..<length ps]"
    by (intro nth_equalityI) simp_all
  moreover have "[0..<length ps] = [0..<k] @ k # [Suc k..<length ps]"
    using upt_add_eq_append [of 0 k "length ps - k"] assms(1) by (simp add: upt_conv_Cons)
  ultimately have z: "zip (map int [0..<length ps]) ps =
      map (\<lambda>j. (int j, ps ! j)) [0..<k] @ (int k, ps ! k) # map (\<lambda>j. (int j, ps ! j)) [Suc k..<length ps]"
    by simp
  let ?before = "foldl pick_round None (map (\<lambda>j. (int j, ps ! j)) [0..<k])"
  have "pick_round ?before (int k, ps ! k) = Some (peak (ps ! k), int k, peak_at (ps ! k))"
  proof (cases ?before)
    case (Some bic)
    obtain b i c where bic: "bic = (b, i, c)" by (cases bic) auto
    from pick_rounds_member [OF Some [unfolded bic]] obtain j where "j < k" "peak (ps ! j) = b" by auto
    moreover from this assms(1) have "ps ! j \<in> set (take k ps)"
      by (metis in_set_conv_nth length_take less_trans min.absorb2 nth_take order_less_imp_le)
    ultimately have "b < peak (ps ! k)" using assms(3) by blast
    then show ?thesis by (simp add: Some bic pick_round_simps)
  qed (simp add: pick_round_simps)
  then show ?thesis
    using assms(2) by (simp add: best_peak_def z) (rule pick_rounds_keep, auto)
qed

lemma best_peak_unique:
  assumes "k < length ps" and "\<forall>j < length ps. j \<noteq> k \<longrightarrow> peak (ps ! j) < peak (ps ! k)"
  shows "best_peak ps = Some (peak (ps ! k), int k, peak_at (ps ! k))"
proof (rule best_peak_first [OF assms(1)])
  show "\<forall>p \<in> set ps. peak p \<le> peak (ps ! k)"
    using assms(2) by (metis in_set_conv_nth order.order_iff_strict)
  show "\<forall>p \<in> set (take k ps). peak p < peak (ps ! k)"
    using assms by (auto simp: in_set_conv_nth)
qed

section \<open>The commands\<close>

definition ready :: "mux \<Rightarrow> mux_ctrl_msg \<Rightarrow> mux_ctrl_msg list \<Rightarrow> mux" where
  "ready st c q = st\<lparr>x_state := MX_WAIT, x_cmd := c, x_queue := q\<rparr>"

lemma ready_simps [simp]:
  "x_state (ready st c q) = MX_WAIT" "x_cmd (ready st c q) = c" "x_queue (ready st c q) = q"
  "x_written (ready st c q) = x_written st" "x_tags (ready st c q) = x_tags st"
  "ready (ready st c q) c' q' = ready st c' q'"
  by (simp_all add: ready_def)

lemma mux_loop_step:
  "mux_step inputs n pt = Some (Continue pt') \<Longrightarrow> mux_loop inputs n pt = mux_loop inputs n pt'"
  by (subst mux_loop.simps) simp

lemma mux_delete:
  assumes "k < length inputs" and "length ii = length inputs" and "ii ! k = 0"
    and "items (inputs ! k) \<noteq> []" and "0 \<le> d" and "d \<le> int (length (items (inputs ! k)))"
  shows "mux_loop inputs n (ii, out, ready st c (generate_mux_commands MUX_DELETE (int k) d # q)) =
    mux_loop inputs n (ii[k := d], out, ready st (generate_mux_commands MUX_DELETE (int k) 0) q)"
proof -
  let ?c = "generate_mux_commands MUX_DELETE (int k) d"
  have "mux_step inputs n (ii, out, ready st c (?c # q)) =
      Some (Continue (ii, out, (ready st ?c q)\<lparr>x_state := MX_DELETE\<rparr>))"
    using assms(1) by (simp add: mux_step_def set_mux_state_def generate_mux_commands_def ready_def)
  moreover have "mux_step inputs n (ii, out, (ready st ?c q)\<lparr>x_state := MX_DELETE\<rparr>) =
      Some (Continue (ii[k := d], out, ready st (generate_mux_commands MUX_DELETE (int k) 0) q))"
    using assms by (simp add: mux_step_def generate_mux_commands_def ready_def pop_next_cmd_def less_len_def)
  ultimately show ?thesis by (simp add: mux_loop_step)
qed

lemma mux_copy:
  assumes "k < length inputs" and "length ii = length inputs" and "ii ! k = int i"
    and "i < length (items (inputs ! k))" and "i + m \<le> length (items (inputs ! k))"
    and "length out < n" and "length out + m \<le> n"
  shows "mux_loop inputs n (ii, out, ready st c (generate_mux_commands MUX_COPY (int k) (int m) # q)) =
    mux_loop inputs n (ii[k := int (i + m)], out @ take m (drop i (items (inputs ! k))),
      ready st (generate_mux_commands MUX_COPY (int k) 0) q)"
proof -
  let ?c = "generate_mux_commands MUX_COPY (int k) (int m)"
  have "mux_step inputs n (ii, out, ready st c (?c # q)) =
      Some (Continue (ii, out, (ready st ?c q)\<lparr>x_state := MX_COPY\<rparr>))"
    using assms(1) by (simp add: mux_step_def set_mux_state_def generate_mux_commands_def ready_def)
  moreover have "min (int n - int (length out)) (min (int (length (items (inputs ! k)))) (int m)) = int m"
    using assms by linarith
  then have "mux_step inputs n (ii, out, (ready st ?c q)\<lparr>x_state := MX_COPY\<rparr>) =
      Some (Continue (ii[k := int (i + m)], out @ take m (drop i (items (inputs ! k))),
        ready st (generate_mux_commands MUX_COPY (int k) 0) q))"
    using assms by (simp add: mux_step_def generate_mux_commands_def ready_def pop_next_cmd_def less_len_def
      read_items_def)
  ultimately show ?thesis by (simp add: mux_loop_step)
qed

lemma mux_tag:
  assumes "k < length inputs" and "length ii = length inputs" and "ii ! k = int i"
    and "i < length (items (inputs ! k))" and "length out < n"
  shows "mux_loop inputs n (ii, out, ready st c (generate_mux_commands MUX_TAG (int k) 0 # q)) =
    mux_loop inputs n (ii[k := int (i + 1)], out @ [items (inputs ! k) ! i],
      ready (tag_symbol_boundry (length out) st) (generate_mux_commands MUX_TAG (int k) 0) q)"
proof -
  let ?c = "generate_mux_commands MUX_TAG (int k) 0"
  have "mux_step inputs n (ii, out, ready st c (?c # q)) =
      Some (Continue (ii, out, (ready st ?c q)\<lparr>x_state := MX_TAG_COPY\<rparr>))"
    using assms(1) by (simp add: mux_step_def set_mux_state_def generate_mux_commands_def ready_def)
  moreover have "take (Suc 0) (drop i (items (inputs ! k))) = [items (inputs ! k) ! i]"
    using assms(4) by (simp add: take_Suc_conv_app_nth flip: Cons_nth_drop_Suc)
  then have "mux_step inputs n (ii, out, (ready st ?c q)\<lparr>x_state := MX_TAG_COPY\<rparr>) =
      Some (Continue (ii[k := int (i + 1)], out @ [items (inputs ! k) ! i],
        ready (tag_symbol_boundry (length out) st) ?c q))"
    using assms by (simp add: mux_step_def generate_mux_commands_def ready_def tag_symbol_boundry_def
      read_items_def add.commute)
  ultimately show ?thesis by (simp add: mux_loop_step)
qed

lemma mux_flush:
  assumes "k < length inputs" and "length ii = length inputs"
    and "first_tag (bursts (inputs ! k)) (ii ! k) (int (length (items (inputs ! k)))) = Some t"
  shows "mux_loop inputs n (ii, out, ready st c (generate_mux_commands MUX_FLUSH (int k) (-1) # q)) =
    mux_loop inputs n (ii[k := t], out, ready st (generate_mux_commands MUX_FLUSH (int k) (-1)) q)"
proof -
  let ?c = "generate_mux_commands MUX_FLUSH (int k) (-1)"
  have "mux_step inputs n (ii, out, ready st c (?c # q)) =
      Some (Continue (ii, out, (ready st ?c q)\<lparr>x_state := MX_DELETE_FLUSH\<rparr>))"
    using assms(1) by (simp add: mux_step_def set_mux_state_def generate_mux_commands_def ready_def)
  moreover have "ii ! k \<noteq> int (length (items (inputs ! k)))"
    using first_tag_Some [OF assms(3)] by linarith
  then have "mux_step inputs n (ii, out, (ready st ?c q)\<lparr>x_state := MX_DELETE_FLUSH\<rparr>) =
      Some (Continue (ii[k := t], out, ready st ?c q))"
    using assms by (simp add: mux_step_def generate_mux_commands_def ready_def search_for_tag_def)
  ultimately show ?thesis by (simp add: mux_loop_step)
qed

definition flush_msgs :: "nat list \<Rightarrow> mux_ctrl_msg list" where
  "flush_msgs js = map (\<lambda>j. generate_mux_commands MUX_FLUSH (int j) (-1)) js"

lemma mux_flush_all:
  assumes "m \<le> length inputs" and "length ii = length inputs"
    and "\<forall>j \<in> {m..<length inputs}.
      first_tag (bursts (inputs ! j)) (ii ! j) (int (length (items (inputs ! j)))) = Some (t j)"
  shows "\<exists>c'. mux_loop inputs n (ii, out, ready st c (flush_msgs [m..<length inputs])) =
    Some (take m ii @ map t [m..<length inputs], out, ready st c' [])"
  using assms
proof (induction "length inputs - m" arbitrary: m ii c)
  case 0
  then have "mux_step inputs n (ii, out, ready st c []) = Some (Leave (ii, out, ready st c []))"
    by (simp add: mux_step_def)
  with 0 show ?case by (subst mux_loop.simps) (auto simp: flush_msgs_def)
next
  case (Suc r)
  let ?ii = "ii[m := t m]" and ?c = "generate_mux_commands MUX_FLUSH (int m) (-1)"
  have m: "m < length inputs" using Suc.hyps(2) by simp
  then have upt: "[m..<length inputs] = m # [Suc m..<length inputs]" by (simp add: upt_conv_Cons)
  have "\<exists>c'. mux_loop inputs n (?ii, out, ready st ?c (flush_msgs [Suc m..<length inputs])) =
      Some (take (Suc m) ?ii @ map t [Suc m..<length inputs], out, ready st c' [])"
    using Suc.prems Suc.hyps(2) m by (intro Suc.hyps(1)) (auto simp: nth_list_update)
  moreover have "mux_loop inputs n (ii, out, ready st c (flush_msgs [m..<length inputs])) =
      mux_loop inputs n (?ii, out, ready st ?c (flush_msgs [Suc m..<length inputs]))"
    using Suc.prems m unfolding upt flush_msgs_def list.map by (intro mux_flush) auto
  moreover have "take (Suc m) ?ii = take m ii @ [t m]"
    using m Suc.prems(2) by (simp add: take_Suc_conv_app_nth)
  ultimately show ?case unfolding upt by simp
qed

lemma tag_written [simp]: "x_written (tag_symbol_boundry i st) = x_written st"
  by (simp add: tag_symbol_boundry_def)

text \<open>The frame that starts at \<open>d\<close> in branch \<open>k\<close>.\<close>

lemma mux_frame:
  assumes "k < length inputs" and "d + 9 + len \<le> length (items (inputs ! k))" and "9 + len \<le> n"
    and "\<forall>j < length inputs. first_tag (bursts (inputs ! j)) (if j = k then int (d + 9 + len) else 0)
      (int (length (items (inputs ! j)))) = Some (int (t j))"
    and "0 < len"
  shows "\<exists>c'. mux_work inputs n (ready st c
      ([generate_mux_commands MUX_DELETE (int k) (int d), generate_mux_commands MUX_COPY (int k) 8,
        generate_mux_commands MUX_TAG (int k) 0, generate_mux_commands MUX_COPY (int k) (int len)]
       @ flush_msgs [0..<length inputs])) =
    Some (map t [0..<length inputs], take (9 + len) (drop d (items (inputs ! k))),
      (ready (tag_symbol_boundry 8 st) c' [])\<lparr>x_written := x_written st + (9 + len)\<rparr>)"
proof -
  let ?L = "length inputs" and ?xs = "items (inputs ! k)" and ?F = "flush_msgs [0..<length inputs]"
  let ?ii = "replicate ?L (0 :: int)"
  let ?at = "\<lambda>i :: nat. ?ii[k := int i]"
  have len8: "length (take 8 (drop d ?xs)) = 8" using assms(2) by simp
  have tag: "d + 9 + len < length ?xs"
    using first_tag_Some [of "bursts (inputs ! k)" "int (d + 9 + len)" "int (length ?xs)"] assms(1,4) by fastforce
  have delete: "mux_loop inputs n (?ii, [], ready st c (generate_mux_commands MUX_DELETE (int k) (int d) # q)) =
      mux_loop inputs n (?at d, [], ready st (generate_mux_commands MUX_DELETE (int k) 0) q)" for q
    using assms(1,2) tag by (intro mux_delete) auto
  have copy8: "mux_loop inputs n (?at d, [], ready st c (generate_mux_commands MUX_COPY (int k) 8 # q)) =
      mux_loop inputs n (?at (d + 8), take 8 (drop d ?xs), ready st (generate_mux_commands MUX_COPY (int k) 0) q)" for q c
    using mux_copy [of k inputs "?at d" d 8 "[]" n st c q] assms(1,2,3) by simp
  have tag1: "mux_loop inputs n (?at (d + 8), take 8 (drop d ?xs), ready st c (generate_mux_commands MUX_TAG (int k) 0 # q)) =
      mux_loop inputs n (?at (d + 9), take 8 (drop d ?xs) @ [?xs ! (d + 8)],
        ready (tag_symbol_boundry 8 st) (generate_mux_commands MUX_TAG (int k) 0) q)" for q c
    using mux_tag [of k inputs "?at (d + 8)" "d + 8" "take 8 (drop d ?xs)" n st c q] assms(1,2,3) len8
    by (simp add: algebra_simps)
  have nine: "take 8 (drop d ?xs) @ [?xs ! (d + 8)] = take 9 (drop d ?xs)"
    using assms(2) take_Suc_conv_app_nth [of 8 "drop d ?xs"] by simp
  have copy: "mux_loop inputs n (?at (d + 9), take 9 (drop d ?xs), ready st' c (generate_mux_commands MUX_COPY (int k) (int len) # q)) =
      mux_loop inputs n (?at (d + 9 + len), take (9 + len) (drop d ?xs),
        ready st' (generate_mux_commands MUX_COPY (int k) 0) q)" for q c st'
    using mux_copy [of k inputs "?at (d + 9)" "d + 9" len "take 9 (drop d ?xs)" n st' c q] assms(1-3,5) tag
    by (simp add: take_add add.commute [of d 9] add.assoc)
  have tags: "\<forall>j \<in> {0..<?L}. first_tag (bursts (inputs ! j)) (?at (d + 9 + len) ! j)
      (int (length (items (inputs ! j)))) = Some ((int \<circ> t) j)"
  proof
    fix j
    assume "j \<in> {0..<?L}"
    then have "?at (d + 9 + len) ! j = (if j = k then int (d + 9 + len) else 0)" and "j < ?L"
      by (simp_all add: nth_list_update)
    with assms(4) show "first_tag (bursts (inputs ! j)) (?at (d + 9 + len) ! j)
        (int (length (items (inputs ! j)))) = Some ((int \<circ> t) j)" by simp
  qed
  obtain c' where flush: "mux_loop inputs n (?at (d + 9 + len), take (9 + len) (drop d ?xs),
        ready (tag_symbol_boundry 8 st) (generate_mux_commands MUX_COPY (int k) 0) ?F) =
      Some (map (int \<circ> t) [0..<?L], take (9 + len) (drop d ?xs), ready (tag_symbol_boundry 8 st) c' [])"
    using mux_flush_all [of 0 inputs "?at (d + 9 + len)" "int \<circ> t" n "take (9 + len) (drop d ?xs)"
      "tag_symbol_boundry 8 st", OF _ _ tags] by auto
  have "mux_loop inputs n (?ii, [], ready st c (generate_mux_commands MUX_DELETE (int k) (int d) #
      generate_mux_commands MUX_COPY (int k) 8 # generate_mux_commands MUX_TAG (int k) 0 #
      generate_mux_commands MUX_COPY (int k) (int len) # ?F)) =
    Some (map (int \<circ> t) [0..<?L], take (9 + len) (drop d ?xs), ready (tag_symbol_boundry 8 st) c' [])"
    unfolding delete copy8 tag1 [unfolded nine] copy by (rule flush)
  moreover have "list_all2 (\<lambda>i input. 0 \<le> i \<and> i \<le> int (length (items input))) (map (int \<circ> t) [0..<?L]) inputs"
    using assms(4) first_tag_Some by (fastforce simp: list_all2_conv_all_nth)
  moreover have "length (take (9 + len) (drop d ?xs)) = 9 + len" using assms(2) by simp
  ultimately show ?thesis
    by (intro exI [of _ c']) (simp add: mux_work_def o_def)
qed

section \<open>A burst\<close>

text \<open>What a branch reports of a burst: its first peak, if there is one within the threshold.\<close>

definition branch_pair :: "int \<Rightarrow> nat \<Rightarrow> 8 word list \<Rightarrow> real tagged \<Rightarrow> peak_count_pair" where
  "branch_pair unset thresh strobe peaks =
     (case filter (\<lambda>i. strobe ! i \<noteq> 0) [0..<thresh + 1] of
        [] \<Rightarrow> \<lparr>peak = -1, peak_at = unset\<rparr>
      | i # _ \<Rightarrow> \<lparr>peak = items peaks ! i, peak_at = int i\<rparr>)"

lemma branch_pair_first:
  assumes "a \<le> thresh" and "strobe ! a \<noteq> 0" and "\<forall>i < a. strobe ! i = 0"
  shows "branch_pair unset thresh strobe peaks = \<lparr>peak = items peaks ! a, peak_at = int a\<rparr>"
proof -
  have upt: "[0..<thresh + 1] = [0..<a] @ a # [Suc a..<thresh + 1]"
    using upt_add_eq_append [of 0 a "thresh + 1 - a"] assms(1) by (simp add: upt_conv_Cons)
  have before: "filter (\<lambda>i. strobe ! i \<noteq> 0) [0..<a] = []"
    using assms(3) by (simp add: filter_empty_conv)
  show ?thesis
    unfolding branch_pair_def upt filter_append before using assms(2) by simp
qed

lemma branch_pair_none:
  "\<forall>i \<le> thresh. strobe ! i = 0 \<Longrightarrow> branch_pair unset thresh strobe peaks = \<lparr>peak = -1, peak_at = unset\<rparr>"
  by (auto simp: branch_pair_def filter_empty_conv split: list.split dest!: filter_eq_ConsD)

lemma first_tag_here: "i \<in> set tags \<Longrightarrow> int i < n \<Longrightarrow> first_tag tags (int i) n = Some (int i)"
proof (cases "first_tag tags (int i) n")
  case None
  then show "i \<in> set tags \<Longrightarrow> int i < n \<Longrightarrow> ?thesis" by (auto simp: first_tag_None)
next
  case (Some t)
  then show "i \<in> set tags \<Longrightarrow> int i < n \<Longrightarrow> ?thesis"
    using first_tag_Some [OF Some] by force
qed

lemma count_search:
  assumes "thresh < length strobe" and "thresh < length (items peaks)" and "c_state c = SEARCH_ACTIVE"
    and "c_count c = int i" and "i \<le> thresh" and "c_thresh c = int thresh" and "\<forall>j < i. strobe ! j = 0"
  shows "\<exists>used c'. count_loop unset strobe peaks (i, c) = (used, [branch_pair unset thresh strobe peaks], c') \<and>
    c_state c' = WAIT_NEW_FRAME \<and> c_thresh c' = int thresh"
  using assms
proof (induction "thresh - i" arbitrary: i c rule: less_induct)
  case less
  consider "strobe ! i \<noteq> 0" | "strobe ! i = 0" "i = thresh" | "strobe ! i = 0" "i < thresh"
    using less.prems(5) by linarith
  then show ?case
  proof cases
    case 1
    with less.prems have "branch_pair unset thresh strobe peaks = \<lparr>peak = items peaks ! i, peak_at = int i\<rparr>"
      by (intro branch_pair_first)
    with 1 less.prems show ?thesis by (subst count_loop.simps) (simp add: count_step_def)
  next
    case 2
    with less.prems have "branch_pair unset thresh strobe peaks = \<lparr>peak = -1, peak_at = unset\<rparr>"
      by (intro branch_pair_none) (metis le_neq_implies_less)
    with 2 less.prems show ?thesis by (subst count_loop.simps) (simp add: count_step_def)
  next
    case 3
    let ?c = "c\<lparr>c_count := c_count c + 1\<rparr>"
    have "\<forall>j < Suc i. strobe ! j = 0" using 3 less.prems(7) by (simp add: less_Suc_eq)
    then have "\<exists>used c'. count_loop unset strobe peaks (Suc i, ?c) = (used, [branch_pair unset thresh strobe peaks], c') \<and>
        c_state c' = WAIT_NEW_FRAME \<and> c_thresh c' = int thresh"
      using less.prems 3 by (intro less.hyps) simp_all
    with 3 less.prems show ?thesis by (subst count_loop.simps) (simp add: count_step_def)
  qed
qed

lemma count_work_branch:
  assumes "thresh < length strobe" and "thresh < length (items peaks)" and "c_state c = WAIT_NEW_FRAME"
    and "c_thresh c = int thresh" and "0 \<in> set (bursts peaks)"
  shows "\<exists>used c'. count_work unset strobe peaks c = (used, [branch_pair unset thresh strobe peaks], c') \<and>
    c_state c' = WAIT_NEW_FRAME \<and> c_thresh c' = int thresh"
proof -
  let ?c = "c\<lparr>c_count := 0, c_state := SEARCH_ACTIVE\<rparr>"
  have "first_tag (bursts peaks) (int 0) (int (min (length strobe) (length (items peaks)))) = Some (int 0)"
    using assms by (intro first_tag_here) auto
  then have "count_work unset strobe peaks c = count_loop unset strobe peaks (0, ?c)"
    using assms unfolding count_work_def by (subst count_loop.simps) (auto simp: count_step_def)
  with count_search [of thresh strobe peaks ?c 0 unset] assms show ?thesis by simp
qed

lemma concat_singles: "(\<And>b. b \<in> set bs \<Longrightarrow> f b = [g b]) \<Longrightarrow> concat (map f bs) = map g bs"
  by (induction bs) auto

lemma branch_pairs:
  assumes "\<forall>(c, strobe, peaks) \<in> set branches. c_state c = WAIT_NEW_FRAME \<and> c_thresh c = int thresh \<and>
      thresh < length strobe \<and> thresh < length (items peaks) \<and> 0 \<in> set (bursts peaks)"
  shows "concat (map (\<lambda>(c, strobe, peaks). fst (snd (count_work unset strobe peaks c))) branches) =
    map (\<lambda>(c, strobe, peaks). branch_pair unset thresh strobe peaks) branches"
proof (rule concat_singles)
  fix b
  assume "b \<in> set branches"
  moreover obtain c s p where "b = (c, s, p)" by (cases b) auto
  ultimately show "(case b of (c, s, p) \<Rightarrow> fst (snd (count_work unset s p c))) =
      [case b of (c, s, p) \<Rightarrow> branch_pair unset thresh s p]"
    using count_work_branch [of thresh s p c unset] assms by force
qed



text \<open>The slicer compares the length of a command with all samples of its input, not with those that are
  left: here a command that drops ten samples leaves two, and the next one copies eight.\<close>

lemma mux_overruns:
  "mux_work [\<lparr>items = replicate 12 (0 :: real), bursts = []\<rparr>] 20
     ((make_mux c)\<lparr>x_queue := [generate_mux_commands MUX_DELETE 0 10, generate_mux_commands MUX_COPY 0 8]\<rparr>) = None"
  by (simp add: mux_work_def make_mux_def mux_loop.simps mux_step_def set_mux_state_def generate_mux_commands_def
      pop_next_cmd_def less_len_def read_items_def)

end
