(* ===== verification/TimingRecovery.thy ===== *)
theory TimingRecovery
  imports Picker
begin

text \<open>
  The symbol timing recovery, class \<open>rfidbts_elg_timing_cc\<close> of \<open>src/lib\<close>: an early-late gate loop that
  puts out as many half symbols of a burst as the controller asks for.  The interpolator of the
  library is a parameter: the number \<open>ntaps\<close> of items it reads and its value \<open>interp\<close> on them; so is
  the function \<open>clip\<close> of the library.  \<open>None\<close> is a failed assertion, a read outside of the buffer, or a
  loop that does not end.
\<close>

section \<open>State\<close>

datatype timing_state = TM_INIT | SYMBOL_TRACK | SAMPLE_DELAY

record timing =
  t_po_init :: real
  t_spb_init :: real
  t_po :: real
  t_spb :: real
  t_spb_mid :: real
  t_max_spb :: real
  t_dco_gain :: real
  t_order_1_gain :: real
  t_order_2_gain :: real
  t_integrator :: real
  t_loopfilter :: real
  t_early_sample :: int
  t_early_po :: real
  t_late_sample :: int
  t_late_po :: real
  t_state :: timing_state
  t_symbols :: int
  t_delay :: int

definition set_spb :: "real \<Rightarrow> timing \<Rightarrow> timing" where
  "set_spb spb st =
     (let min_spb = spb * (1 - 0.05); max_spb = spb * (1 + 0.05)
      in st\<lparr>t_spb := spb, t_max_spb := max_spb, t_spb_mid := 0.5 * (min_spb + max_spb)\<rparr>)"

text \<open>The points half a sample before and behind the phase.\<close>

definition set_points :: "timing \<Rightarrow> timing" where
  "set_points st =
     (let early = \<lfloor>t_po st - 0.5\<rfloor>; late = \<lfloor>t_po st + 0.5\<rfloor>
      in st\<lparr>t_early_sample := early, t_early_po := t_po st - 0.5 - early,
            t_late_sample := late, t_late_po := t_po st + 0.5 - late\<rparr>)"

text \<open>The frame sizes are not used; \<open>unset\<close> are the numbers the constructor does not set.\<close>

definition make_elg_timing_cc :: "int \<Rightarrow> real \<Rightarrow> real \<Rightarrow> int \<Rightarrow> int \<Rightarrow> real \<Rightarrow> real \<Rightarrow> real \<Rightarrow> timing" where
  "make_elg_timing_cc unset phase_offset samples_per_symbol in_frame_size out_frame_size dco_gain order_1_gain order_2_gain =
     set_points (set_spb samples_per_symbol
       \<lparr>t_po_init = phase_offset, t_spb_init = samples_per_symbol, t_po = phase_offset,
        t_spb = samples_per_symbol, t_spb_mid = 0, t_max_spb = 0, t_dco_gain = dco_gain,
        t_order_1_gain = order_1_gain, t_order_2_gain = order_2_gain, t_integrator = 0, t_loopfilter = 0,
        t_early_sample = 0, t_early_po = 0, t_late_sample = 0, t_late_po = 0, t_state = TM_INIT,
        t_symbols = unset, t_delay = unset\<rparr>)"

definition forecast :: "nat \<Rightarrow> int \<Rightarrow> timing \<Rightarrow> int" where
  "forecast ntaps noutput_items st = noutput_items * \<lceil>t_spb st\<rceil> + int ntaps + 1"

section \<open>The loop filter\<close>

definition fetch :: "nat \<Rightarrow> complex list \<Rightarrow> int \<Rightarrow> complex list option" where
  "fetch ntaps input i =
     (if 0 \<le> i \<and> i + int ntaps \<le> int (length input) then Some (take ntaps (drop (nat i) input)) else None)"

text \<open>The error, and the sample in the middle.\<close>

definition gen_output_error ::
    "nat \<Rightarrow> (complex list \<Rightarrow> real \<Rightarrow> complex) \<Rightarrow> complex list \<Rightarrow> int \<Rightarrow> timing \<Rightarrow> (real \<times> complex) option" where
  "gen_output_error ntaps interp input i st = do {
     early \<leftarrow> fetch ntaps input (i + t_early_sample st);
     mid \<leftarrow> fetch ntaps input i;
     late \<leftarrow> fetch ntaps input (i + t_late_sample st);
     let s_early = interp early (t_early_po st);
     let s_0T = interp mid (t_po st);
     let s_late = interp late (t_late_po st);
     Some (Re s_0T * (Re s_late - Re s_early) + Im s_0T * (Im s_late - Im s_early), s_0T)
   }"

definition update_loopfilter :: "real \<Rightarrow> timing \<Rightarrow> timing" where
  "update_loopfilter timing_error st =
     (let loopfilter = t_order_1_gain st * timing_error + t_integrator st
      in st\<lparr>t_loopfilter := loopfilter, t_spb := t_spb st + t_dco_gain st * loopfilter,
            t_integrator := t_integrator st + t_order_1_gain st * t_order_2_gain st * timing_error\<rparr>)"

definition update_dco :: "(real \<Rightarrow> real \<Rightarrow> real) \<Rightarrow> timing \<Rightarrow> int \<times> timing" where
  "update_dco clip st =
     (let spb = t_spb_mid st + clip (t_spb st - t_spb_mid st) (t_max_spb st - t_spb_mid st);
          po = t_po st + spb;
          sample_inc = \<lfloor>po\<rfloor>
      in (sample_inc, set_points (st\<lparr>t_spb := spb, t_po := po - sample_inc\<rparr>)))"

section \<open>The work function\<close>

definition search_tag :: "nat list \<Rightarrow> int \<Rightarrow> int \<Rightarrow> timing \<Rightarrow> mac_world \<Rightarrow> (int \<times> timing \<times> mac_world) option" where
  "search_tag tags offset input_items st w =
     (case first_tag tags offset input_items of
        Some t \<Rightarrow> do {
          (task, w) \<leftarrow> symbol_synch w;
          (match_filter_offset, output_symbol_len) \<leftarrow> task;
          let count = t + match_filter_offset;
          let (count, delay, state) =
            (if count > input_items then (input_items - offset, input_items - count, SAMPLE_DELAY)
             else (count - offset, t_delay st, SYMBOL_TRACK));
          Some (count, set_points (st\<lparr>t_symbols := output_symbol_len, t_delay := delay, t_state := state,
            t_po := t_po_init st, t_spb := t_spb_init st, t_integrator := 0\<rparr>), w) }
      | None \<Rightarrow> Some (input_items - offset, st, w))"

text \<open>A point of the loop.  An output is the sample, and the value of the loop filter for the second
  output.\<close>

type_synonym timing_point = "int \<times> (complex \<times> real) list \<times> timing \<times> mac_world"

definition timing_step ::
    "nat \<Rightarrow> (complex list \<Rightarrow> real \<Rightarrow> complex) \<Rightarrow> (real \<Rightarrow> real \<Rightarrow> real) \<Rightarrow> complex tagged \<Rightarrow> timing_point \<Rightarrow> timing_point option" where
  "timing_step ntaps interp clip input pt =
     (case pt of (ii, out, st, w) \<Rightarrow>
        let ninput = int (length (items input)); ni = ninput - int ntaps - 1
        in (case t_state st of
           TM_INIT \<Rightarrow> do {
             (n, st, w) \<leftarrow> search_tag (bursts input) ii ninput st w;
             Some (ii + n, out, st, w) }
         | SYMBOL_TRACK \<Rightarrow>
             (if t_symbols st > 0
              then do {
                (e, s) \<leftarrow> gen_output_error ntaps interp (items input) (ii + 1) st;
                let (samples_consumed, st) = update_dco clip (update_loopfilter e st);
                let (ii, st) =
                  (if samples_consumed + ii > ni
                   then (ni, st\<lparr>t_delay := samples_consumed + ii - ni, t_state := SAMPLE_DELAY\<rparr>)
                   else (ii + samples_consumed, st));
                Some (ii, out @ [(s, t_loopfilter st)], st\<lparr>t_symbols := t_symbols st - 1\<rparr>, w) }
              else Some (ii, out, st\<lparr>t_state := TM_INIT\<rparr>, w))
         | SAMPLE_DELAY \<Rightarrow>
             (if t_delay st > 0
              then let samples_consumed = min (ninput - ii) (t_delay st) in
                Some (ii + samples_consumed, out, st\<lparr>t_delay := t_delay st - samples_consumed\<rparr>, w)
              else Some (ii, out, st\<lparr>t_state := SYMBOL_TRACK\<rparr>, w))))"

partial_function (option) timing_loop ::
    "nat \<Rightarrow> (complex list \<Rightarrow> real \<Rightarrow> complex) \<Rightarrow> (real \<Rightarrow> real \<Rightarrow> real) \<Rightarrow> complex tagged \<Rightarrow> nat \<Rightarrow> timing_point \<Rightarrow> timing_point option" where
  "timing_loop ntaps interp clip input noutput_items pt =
     (if fst pt < int (length (items input)) - int ntaps - 1 \<and> length (fst (snd pt)) < noutput_items
      then (case timing_step ntaps interp clip input pt of
              None \<Rightarrow> None
            | Some pt' \<Rightarrow> timing_loop ntaps interp clip input noutput_items pt')
      else Some pt)"

text \<open>A call, with its assertions.\<close>

definition timing_work ::
    "nat \<Rightarrow> (complex list \<Rightarrow> real \<Rightarrow> complex) \<Rightarrow> (real \<Rightarrow> real \<Rightarrow> real) \<Rightarrow> complex tagged \<Rightarrow> nat \<Rightarrow> timing \<Rightarrow> mac_world \<Rightarrow>
     timing_point option" where
  "timing_work ntaps interp clip input noutput_items st w =
     (if 0 \<le> t_po st \<and> t_po st \<le> 1 \<and> t_spb st \<ge> 1 \<and> 0 \<le> int (length (items input)) - int ntaps - 1
      then do {
        (ii, out, st, w) \<leftarrow> timing_loop ntaps interp clip input noutput_items (0, [], st, w);
        if ii \<le> int (length (items input)) then Some (ii, out, st, w) else None }
      else None)"

section \<open>Bounds\<close>

text \<open>What is documented of the function of the library: it limits its argument on both sides.\<close>

definition clips :: "(real \<Rightarrow> real \<Rightarrow> real) \<Rightarrow> bool" where
  "clips clip \<longleftrightarrow> (\<forall>x c. 0 \<le> c \<longrightarrow> clip x c = max (- c) (min x c))"

text \<open>The phase is within a sample, the rate within five per cent, and the points belong to the phase.\<close>

definition points_ok :: "timing \<Rightarrow> bool" where
  "points_ok st \<longleftrightarrow>
     0 \<le> t_po_init st \<and> t_po_init st < 1 \<and> 2 \<le> t_spb_init st \<and>
     t_spb_mid st = t_spb_init st \<and> t_max_spb st = 1.05 * t_spb_init st \<and>
     0 \<le> t_po st \<and> t_po st < 1 \<and>
     t_early_sample st = \<lfloor>t_po st - 0.5\<rfloor> \<and> t_late_sample st = \<lfloor>t_po st + 0.5\<rfloor> \<and>
     (t_state st \<noteq> TM_INIT \<longrightarrow> 0 \<le> t_symbols st)"

definition timing_ok :: "timing \<Rightarrow> bool" where
  "timing_ok st \<longleftrightarrow> points_ok st \<and> 0.95 * t_spb_init st \<le> t_spb st \<and> t_spb st \<le> 1.05 * t_spb_init st"

lemma make_timing_ok:
  "0 \<le> phase \<Longrightarrow> phase < 1 \<Longrightarrow> 2 \<le> spb \<Longrightarrow> timing_ok (make_elg_timing_cc unset phase spb i out d g1 g2)"
  by (simp add: make_elg_timing_cc_def timing_ok_def points_ok_def set_points_def set_spb_def Let_def)

lemma update_dco_ok:
  assumes "clips clip" and "points_ok st"
  shows "\<exists>inc st'. update_dco clip st = (inc, st') \<and> timing_ok st' \<and> 1 \<le> inc \<and> inc \<le> \<lfloor>1 + 1.05 * t_spb_init st\<rfloor> \<and>
    t_state st' = t_state st \<and> t_symbols st' = t_symbols st"
proof -
  note p = assms(2) [unfolded points_ok_def]
  let ?c = "t_max_spb st - t_spb_mid st"
  define v where "v = clip (t_spb st - t_spb_mid st) ?c"
  let ?spb = "t_spb_mid st + v"
  have c: "?c = t_spb_init st / 20" and mid: "t_spb_mid st = t_spb_init st" using p by simp_all
  then have "0 \<le> ?c" using p by simp
  then have "- ?c \<le> v" "v \<le> ?c"
    using assms(1) unfolding clips_def v_def by simp_all
  then have spb: "0.95 * t_spb_init st \<le> ?spb" and spb': "?spb \<le> 1.05 * t_spb_init st"
    unfolding c unfolding mid by simp_all
  let ?po = "t_po st + ?spb"
  have dco: "update_dco clip st = (\<lfloor>?po\<rfloor>, set_points (st\<lparr>t_spb := ?spb, t_po := ?po - \<lfloor>?po\<rfloor>\<rparr>))"
    by (simp only: update_dco_def Let_def v_def)
  have "1 \<le> \<lfloor>?po\<rfloor>" using spb p unfolding le_floor_iff by simp
  moreover have "\<lfloor>?po\<rfloor> \<le> \<lfloor>1 + 1.05 * t_spb_init st\<rfloor>" using spb' p by (intro floor_mono) simp
  moreover have "0 \<le> ?po - \<lfloor>?po\<rfloor>" "?po - \<lfloor>?po\<rfloor> < 1" by linarith+
  ultimately show ?thesis
    using spb spb' p by (simp add: dco Let_def timing_ok_def points_ok_def set_points_def)
qed

lemma update_loopfilter_points: "points_ok st \<Longrightarrow> points_ok (update_loopfilter e st)"
  by (simp add: update_loopfilter_def points_ok_def Let_def)

lemma gen_output_error_reads:
  assumes "points_ok st" and "0 \<le> i" and "i + 2 + int ntaps \<le> int (length input)"
  shows "\<exists>e s. gen_output_error ntaps interp input (i + 1) st = Some (e, s)"
proof -
  have "-1 \<le> \<lfloor>t_po st - 0.5\<rfloor>" "\<lfloor>t_po st - 0.5\<rfloor> \<le> 0" "0 \<le> \<lfloor>t_po st + 0.5\<rfloor>" "\<lfloor>t_po st + 0.5\<rfloor> \<le> 1"
    using assms(1) by (auto simp: points_ok_def le_floor_iff floor_le_iff)
  then have "-1 \<le> t_early_sample st" "t_early_sample st \<le> 0" "0 \<le> t_late_sample st" "t_late_sample st \<le> 1"
    using assms(1) by (simp_all add: points_ok_def)
  then show ?thesis using assms(2,3) by (simp add: gen_output_error_def fetch_def Let_def)
qed

text \<open>The symbols that are still to be put out.\<close>

definition owed :: "timing \<Rightarrow> int" where
  "owed st = (if t_state st = TM_INIT then 0 else t_symbols st)"

text \<open>From one point to a later one: symbols are put out as they are owed, or the tag at \<open>p\<close> has been
  passed, and the controller has been asked how many there are.\<close>

definition tracks :: "int \<Rightarrow> timing_point \<Rightarrow> timing_point \<Rightarrow> bool" where
  "tracks p pt pt' \<longleftrightarrow>
     (case pt of (ii, out, st, w) \<Rightarrow> case pt' of (ii', out', st', w') \<Rightarrow>
        ii \<le> ii' \<and> length out \<le> length out' \<and> int (length out') + ii \<le> int (length out) + ii' \<and>
        ((w' = w \<and> int (length out') + owed st' = int (length out) + owed st \<and>
            (t_state st = TM_INIT \<longrightarrow> t_state st' = TM_INIT \<and> (ii \<le> p \<longrightarrow> ii' \<le> p))) \<or>
         (\<exists>n. ii \<le> p \<and> p < ii' \<and> symbol_synch w = Some (Some (7, n), w') \<and>
            int (length out') + owed st' = int (length out) + owed st + n)))"

lemma tracks_trans: "tracks p pt pt1 \<Longrightarrow> tracks p pt1 pt2 \<Longrightarrow> tracks p pt pt2"
  by (auto simp: tracks_def split: prod.splits)

lemma tracks_refl: "tracks p pt pt"
  by (auto simp: tracks_def split: prod.splits)

definition timing_point_ok :: "complex tagged \<Rightarrow> nat \<Rightarrow> int \<Rightarrow> timing_point \<Rightarrow> bool" where
  "timing_point_ok input n p pt \<longleftrightarrow>
     (case pt of (ii, out, st, w) \<Rightarrow>
        timing_ok st \<and> 0 \<le> ii \<and> ii \<le> int (length (items input)) \<and> length out \<le> n \<and>
        (\<forall>t \<in> set (bursts input). int t = p) \<and>
        (ii \<le> p \<and> p < int (length (items input)) \<longrightarrow> p \<in> int ` set (bursts input)) \<and> (ii \<le> p \<longrightarrow> symbol_synch w \<noteq> None))"

definition timing_measure :: "complex tagged \<Rightarrow> timing_point \<Rightarrow> nat" where
  "timing_measure input pt =
     (case pt of (ii, out, st, w) \<Rightarrow> 3 * nat (int (length (items input)) - ii) +
        (case t_state st of TM_INIT \<Rightarrow> 0 | SYMBOL_TRACK \<Rightarrow> 1 | SAMPLE_DELAY \<Rightarrow> 2))"

lemma symbol_synch_task:
  "symbol_synch w = Some (task, w') \<Longrightarrow> \<exists>n. task = Some (7, n) \<and> 0 < n"
  by (auto simp: symbol_synch_def split: if_splits mac_state.splits)

lemma search_tag_ok:
  assumes "timing_point_ok input n p (ii, out, st, w)" and "ii < int (length (items input))"
  shows "\<exists>k st' w'. search_tag (bursts input) ii (int (length (items input))) st w = Some (k, st', w') \<and>
    0 < k \<and> ii + k \<le> int (length (items input)) \<and> timing_ok st' \<and>
    ((w' = w \<and> st' = st \<and> (ii \<le> p \<longrightarrow> ii + k \<le> p)) \<or>
     (\<exists>N. ii \<le> p \<and> p < ii + k \<and> symbol_synch w = Some (Some (7, N), w') \<and>
        t_symbols st' = N \<and> t_state st' \<noteq> TM_INIT))"
proof (cases "first_tag (bursts input) ii (int (length (items input)))")
  case None
  then have "\<not> (ii \<le> p \<and> p < int (length (items input)))"
    using assms(1) by (auto simp: timing_point_ok_def first_tag_None)
  then show ?thesis using None assms by (auto simp: search_tag_def timing_point_ok_def)
next
  case (Some t)
  with first_tag_Some [OF Some] assms have t: "t = p" "ii \<le> p" "p < int (length (items input))"
    by (auto simp: timing_point_ok_def)
  then obtain task w' where "symbol_synch w = Some (task, w')"
    using assms(1) by (auto simp: timing_point_ok_def)
  with symbol_synch_task obtain N where "symbol_synch w = Some (Some (7, N), w')" "0 < N" by blast
  then show ?thesis
    using Some t assms
    by (auto simp: search_tag_def timing_point_ok_def timing_ok_def points_ok_def set_points_def Let_def)
qed

lemma timing_step_ok:
  assumes "clips clip" and ok: "timing_point_ok input n p (ii, out, st, w)"
    and "ii < int (length (items input)) - int ntaps - 1" and "length out < n"
  shows "\<exists>pt'. timing_step ntaps interp clip input (ii, out, st, w) = Some pt' \<and> timing_point_ok input n p pt' \<and>
    tracks p (ii, out, st, w) pt' \<and> timing_measure input pt' < timing_measure input (ii, out, st, w)"
proof -
  note p = ok [unfolded timing_point_ok_def prod.case]
  have ii: "ii < int (length (items input))" using assms(3) by linarith
  show ?thesis
  proof (cases "t_state st")
    case TM_INIT
    from search_tag_ok [OF ok ii] obtain k st' w' where
      "search_tag (bursts input) ii (int (length (items input))) st w = Some (k, st', w')"
      and k: "0 < k" "ii + k \<le> int (length (items input))" "timing_ok st'"
      "(w' = w \<and> st' = st \<and> (ii \<le> p \<longrightarrow> ii + k \<le> p)) \<or> (\<exists>N. ii \<le> p \<and> p < ii + k \<and> symbol_synch w = Some (Some (7, N), w') \<and>
        t_symbols st' = N \<and> t_state st' \<noteq> TM_INIT)" by blast
    then show ?thesis
      using TM_INIT p ii
      by (auto simp: timing_step_def Let_def timing_point_ok_def tracks_def owed_def timing_measure_def
          split: timing_state.splits)
  next
    case SYMBOL_TRACK
    show ?thesis
    proof (cases "t_symbols st > 0")
      case True
      have st: "points_ok st" using p by (simp add: timing_ok_def)
      obtain e s where e: "gen_output_error ntaps interp (items input) (ii + 1) st = Some (e, s)"
        using gen_output_error_reads [OF st, of ii ntaps "items input" interp] p assms(3) by auto
      from update_dco_ok [OF assms(1) update_loopfilter_points [OF st, of e]] obtain inc st' where
        dco: "update_dco clip (update_loopfilter e st) = (inc, st')" and st': "timing_ok st'" "1 \<le> inc"
          "t_state st' = SYMBOL_TRACK" "t_symbols st' = t_symbols st"
        using SYMBOL_TRACK by (auto simp: update_loopfilter_def Let_def)
      then have "timing_ok (st'\<lparr>t_symbols := t_symbols st - 1\<rparr>)"
        "timing_ok (st'\<lparr>t_delay := d, t_state := SAMPLE_DELAY, t_symbols := t_symbols st - 1\<rparr>)" for d
        using True by (auto simp: timing_ok_def points_ok_def)
      then show ?thesis
        using SYMBOL_TRACK True p e dco st' assms(3,4)
        by (auto simp: timing_step_def Let_def timing_point_ok_def tracks_def owed_def timing_measure_def)
    next
      case False
      moreover have "timing_ok (st\<lparr>t_state := TM_INIT\<rparr>)" using p by (auto simp: timing_ok_def points_ok_def)
      moreover have "t_symbols st = 0" using False p SYMBOL_TRACK by (auto simp: timing_ok_def points_ok_def)
      ultimately show ?thesis
        using SYMBOL_TRACK p
        by (auto simp: timing_step_def Let_def timing_point_ok_def tracks_def owed_def timing_measure_def)
    qed
  next
    case SAMPLE_DELAY
    have "timing_ok (st\<lparr>t_state := SYMBOL_TRACK\<rparr>)" "timing_ok (st\<lparr>t_delay := d\<rparr>)" for d
      using p SAMPLE_DELAY by (auto simp: timing_ok_def points_ok_def)
    then show ?thesis
      using SAMPLE_DELAY p ii
      by (auto simp: timing_step_def Let_def timing_point_ok_def tracks_def owed_def timing_measure_def)
  qed
qed

lemma timing_loop_ok:
  assumes "clips clip"
  shows "timing_point_ok input n p pt \<Longrightarrow>
    \<exists>pt'. timing_loop ntaps interp clip input n pt = Some pt' \<and> timing_point_ok input n p pt' \<and> tracks p pt pt' \<and>
      \<not> (fst pt' < int (length (items input)) - int ntaps - 1 \<and> length (fst (snd pt')) < n)"
proof (induction "timing_measure input pt" arbitrary: pt rule: less_induct)
  case less
  obtain ii out st w where pt: "pt = (ii, out, st, w)" by (cases pt) auto
  show ?case
  proof (cases "ii < int (length (items input)) - int ntaps - 1 \<and> length out < n")
    case True
    from timing_step_ok [OF assms less.prems [unfolded pt]] True obtain pt1 where
      step: "timing_step ntaps interp clip input pt = Some pt1" and ok: "timing_point_ok input n p pt1"
      and tr: "tracks p pt pt1" and m: "timing_measure input pt1 < timing_measure input pt"
      unfolding pt by blast
    from less.hyps [OF m ok] tracks_trans [OF tr] True step show ?thesis
      by (subst timing_loop.simps) (auto simp: pt)
  next
    case False
    then show ?thesis
      using less.prems tracks_refl by (subst timing_loop.simps) (auto simp: pt)
  qed
qed

section \<open>A burst\<close>

text \<open>The tag at \<open>p\<close> is the only one of a stream that has not got beyond it.\<close>

definition tag_at :: "int \<Rightarrow> 'a tagged \<Rightarrow> bool" where
  "tag_at p s \<longleftrightarrow> (\<forall>t. t \<in> set (bursts s) \<longleftrightarrow> int t = p \<and> t < length (items s))"

definition take_tagged :: "nat \<Rightarrow> 'a tagged \<Rightarrow> 'a tagged" where
  "take_tagged k s = \<lparr>items = take k (items s), bursts = filter (\<lambda>t. t < k) (bursts s)\<rparr>"

definition drop_tagged :: "nat \<Rightarrow> 'a tagged \<Rightarrow> 'a tagged" where
  "drop_tagged k s = \<lparr>items = drop k (items s), bursts = map (\<lambda>t. t - k) (filter (\<lambda>t. k \<le> t) (bursts s))\<rparr>"

lemma tag_at_take: "tag_at p s \<Longrightarrow> tag_at p (take_tagged k s)"
  by (auto simp: tag_at_def take_tagged_def)

lemma tag_at_drop:
  assumes "tag_at p s"
  shows "tag_at (p - int k) (drop_tagged k s)"
proof -
  have "u \<in> set (bursts (drop_tagged k s)) \<longleftrightarrow> u + k \<in> set (bursts s)" for u
  proof
    assume "u + k \<in> set (bursts s)"
    then have "u + k - k \<in> (\<lambda>t. t - k) ` {t \<in> set (bursts s). k \<le> t}" by (intro imageI) simp
    then show "u \<in> set (bursts (drop_tagged k s))" by (simp add: drop_tagged_def)
  qed (auto simp: drop_tagged_def)
  moreover have "int (u + k) = p \<longleftrightarrow> int u = p - int k" for u by auto
  ultimately show ?thesis
    using assms by (simp add: tag_at_def drop_tagged_def less_diff_conv)
qed

lemma timing_work_ok:
  assumes "clips clip" and "timing_ok st" and "tag_at p input" and "0 \<le> p \<longrightarrow> symbol_synch w \<noteq> None"
    and "0 < n" and "forecast ntaps (int n) st \<le> int (length (items input))"
  shows "\<exists>used out st' w'. timing_work ntaps interp clip input n st w = Some (int used, out, st', w') \<and>
    0 < used \<and> used \<le> length (items input) \<and> length out \<le> n \<and>
    timing_ok st' \<and> tracks p (0, [], st, w) (int used, out, st', w') \<and> (int used \<le> p \<longrightarrow> symbol_synch w' \<noteq> None)"
proof -
  have spb: "1 \<le> t_spb st" and po: "0 \<le> t_po st" "t_po st \<le> 1"
    using assms(2) by (auto simp: timing_ok_def points_ok_def)
  then have "1 \<le> \<lceil>t_spb st\<rceil>" by simp
  then have "int n \<le> int n * \<lceil>t_spb st\<rceil>" using mult_left_mono [of 1 "\<lceil>t_spb st\<rceil>" "int n"] by simp
  then have room: "int n + int ntaps + 1 \<le> int (length (items input))"
    using assms(6) by (simp add: forecast_def)
  have "p \<in> int ` set (bursts input)" if "0 \<le> p" "p < int (length (items input))"
  proof -
    from that obtain t where "p = int t" "t < length (items input)" by (metis nat_0_le of_nat_less_iff)
    with assms(3) show ?thesis by (auto simp: tag_at_def)
  qed
  then have "timing_point_ok input n p (0, [], st, w)"
    using assms(2-4) by (simp add: timing_point_ok_def tag_at_def)
  from timing_loop_ok [OF assms(1) this] obtain ii out st' w' where
    loop: "timing_loop ntaps interp clip input n (0, [], st, w) = Some (ii, out, st', w')"
    and ok: "timing_point_ok input n p (ii, out, st', w')" and tr: "tracks p (0, [], st, w) (ii, out, st', w')"
    and stop: "\<not> (ii < int (length (items input)) - int ntaps - 1 \<and> length out < n)"
    by (metis fst_conv prod_cases4 snd_conv)
  have "0 < ii" using stop tr room assms(5) by (auto simp: tracks_def)
  moreover have "ii \<le> int (length (items input))" using ok by (simp add: timing_point_ok_def)
  ultimately obtain used where "ii = int used" "0 < used" "used \<le> length (items input)"
    by (metis nat_0_le nat_int of_nat_0_less_iff of_nat_le_iff order_less_imp_le)
  then show ?thesis
    using loop ok tr spb po room by (auto simp: timing_work_def timing_point_ok_def)
qed

text \<open>The calls of the scheduler: some of the items that are there, and room for some output.  It makes no
  call when the block has forecast that it needs more items.\<close>

fun timing_calls ::
    "nat \<Rightarrow> (complex list \<Rightarrow> real \<Rightarrow> complex) \<Rightarrow> (real \<Rightarrow> real \<Rightarrow> real) \<Rightarrow> (nat \<times> nat) list \<Rightarrow> complex tagged \<Rightarrow> timing \<Rightarrow> mac_world \<Rightarrow>
     ((complex \<times> real) list \<times> complex tagged \<times> timing \<times> mac_world) option" where
  "timing_calls ntaps interp clip [] s st w = Some ([], s, st, w)"
| "timing_calls ntaps interp clip ((k, n) # calls) s st w =
     (if n = 0 \<or> int (length (items (take_tagged k s))) < forecast ntaps (int n) st
      then timing_calls ntaps interp clip calls s st w
      else do {
        (ii, out, st, w) \<leftarrow> timing_work ntaps interp clip (take_tagged k s) n st w;
        (outs, s, st, w) \<leftarrow> timing_calls ntaps interp clip calls (drop_tagged (nat ii) s) st w;
        Some (out @ outs, s, st, w) })"

lemma timing_calls_ok:
  assumes "clips clip"
  shows "timing_ok st \<Longrightarrow> tag_at p s \<Longrightarrow> 0 \<le> p \<longrightarrow> symbol_synch w \<noteq> None \<Longrightarrow>
    \<exists>outs s' st' w' used. timing_calls ntaps interp clip calls s st w = Some (outs, s', st', w') \<and>
      timing_ok st' \<and> tag_at (p - int used) s' \<and> length (items s') + used = length (items s) \<and> tracks p (0, [], st, w) (int used, outs, st', w')"
proof (induction calls arbitrary: s st w p)
  case Nil
  then show ?case using tracks_refl by (intro exI [of _ "[]"] exI [of _ s] exI [of _ st] exI [of _ w] exI [of _ 0]) simp
next
  case (Cons call calls)
  obtain k n where call: "call = (k, n)" by (cases call) auto
  let ?s = "take_tagged k s"
  show ?case
  proof (cases "n = 0 \<or> int (length (items ?s)) < forecast ntaps (int n) st")
    case True
    with Cons.IH [OF Cons.prems] show ?thesis by (simp add: call)
  next
    case False
    then have "0 < n" "forecast ntaps (int n) st \<le> int (length (items ?s))" by auto
    from timing_work_ok [OF assms Cons.prems(1) tag_at_take [OF Cons.prems(2)] Cons.prems(3) this] obtain used out st1 w1 where
      work: "timing_work ntaps interp clip ?s n st w = Some (int used, out, st1, w1)" and ok: "timing_ok st1"
      and tr: "tracks p (0, [], st, w) (int used, out, st1, w1)" and sy: "int used \<le> p \<longrightarrow> symbol_synch w1 \<noteq> None"
      and le: "used \<le> length (items ?s)" by blast
    from Cons.IH [OF ok tag_at_drop [OF Cons.prems(2), of used], of w1] sy obtain outs s' st' w' used' where
      calls: "timing_calls ntaps interp clip calls (drop_tagged used s) st1 w1 = Some (outs, s', st', w')"
      and ok': "timing_ok st'" and at: "tag_at (p - int used - int used') s'"
      and len: "length (items s') + used' = length (items (drop_tagged used s))"
      and tr': "tracks (p - int used) (0, [], st1, w1) (int used', outs, st', w')" by auto
    have "tracks p (int used, out, st1, w1) (int (used + used'), out @ outs, st', w')"
      using tr' by (auto simp: tracks_def)
    moreover have "length (items s') + (used + used') = length (items s)"
      using len le unfolding drop_tagged_def take_tagged_def by simp linarith
    ultimately show ?thesis
      by (intro exI [of _ "out @ outs"] exI [of _ s'] exI [of _ st'] exI [of _ w'] exI [of _ "used + used'"])
        (use tracks_trans [OF tr] ok' at calls work False in \<open>simp add: call diff_diff_eq\<close>)
  qed
qed

text \<open>C25: a burst in the timing recovery.  Whatever the samples and the interpolation, and however the
  samples are cut into buffers, no assertion fails and nothing outside of a buffer is read; the phase
  stays within a sample and the rate within five per cent.  Nothing is put out before the tag of the
  burst; once it has been passed, the half symbols put out and those still to come are as many as the
  controller has asked for.\<close>

theorem timing_burst:
  assumes "clips clip" and "timing_ok st" and "t_state st = TM_INIT"
    and "bursts s = [t]" and "t < length (items s)" and "symbol_synch w = Some (Some (7, N), w1)"
  shows "\<exists>outs s' st' w'. timing_calls ntaps interp clip calls s st w = Some (outs, s', st', w') \<and> timing_ok st' \<and>
    (if bursts s' \<noteq> [] then w' = w \<and> outs = [] else w' = w1 \<and> int (length outs) + owed st' = N)"
proof -
  have "tag_at (int t) s" using assms(4,5) by (auto simp: tag_at_def)
  from timing_calls_ok [OF assms(1,2) this, of w ntaps interp calls] assms(6) obtain outs s' st' w' used where
    calls: "timing_calls ntaps interp clip calls s st w = Some (outs, s', st', w')" and ok: "timing_ok st'"
    and at: "tag_at (int t - int used) s'" and len: "length (items s') + used = length (items s)"
    and tr: "tracks (int t) (0, [], st, w) (int used, outs, st', w')" by auto
  show ?thesis
  proof (cases "used \<le> t")
    case True
    then have "w' = w \<and> outs = []"
      using tr assms(3) by (auto simp: tracks_def owed_def)
    moreover have "t - used \<in> set (bursts s')"
      using at True len assms(5) by (auto simp: tag_at_def)
    ultimately show ?thesis using calls ok by auto
  next
    case False
    then have "w' = w1 \<and> int (length outs) + owed st' = N"
      using tr assms(3,6) by (auto simp: tracks_def owed_def)
    moreover have "bursts s' = []"
      using at False by (auto simp: tag_at_def intro!: ccontr [of "bursts s' = []"] dest: hd_in_set)
    ultimately show ?thesis using calls ok by auto
  qed
qed

text \<open>With the arguments that the transceiver gives.\<close>

theorem timing_burst_witness:
  "\<exists>outs s' st' w' w1. timing_calls 8 (\<lambda>xs mu. hd xs) (\<lambda>x c. max (- c) (min x c)) [(300, 100), (500, 100)]
      \<lparr>items = replicate 900 1, bursts = [8]\<rparr> (make_elg_timing_cc 0 0 8 500 51 0.04 0.1 0.01)
      (mac_start\<lparr>mac := (mac mac_start)\<lparr>d_state := SYMBOL_DET, d_mac_state := MS_RN16\<rparr>\<rparr>) = Some (outs, s', st', w') \<and>
    (if bursts s' \<noteq> [] then outs = [] else w' = w1 \<and> int (length outs) + owed st' = 50)"
proof -
  let ?w = "mac_start\<lparr>mac := (mac mac_start)\<lparr>d_state := SYMBOL_DET, d_mac_state := MS_RN16\<rparr>\<rparr>"
  let ?st = "make_elg_timing_cc 0 0 8 500 51 0.04 0.1 0.01"
  have c: "clips (\<lambda>x c. max (- c) (min x c))" by (simp add: clips_def)
  have ok: "timing_ok ?st" by (rule make_timing_ok) simp_all
  have st: "t_state ?st = TM_INIT"
    by (simp add: make_elg_timing_cc_def set_points_def set_spb_def Let_def)
  have w: "symbol_synch ?w = Some (Some (7, 50), set_state BIT_DECODE ?w)"
    by (simp add: symbol_synch_def)
  let ?s = "\<lparr>items = replicate 900 1, bursts = [8]\<rparr> :: complex tagged"
  have s: "bursts ?s = [8]" "8 < length (items ?s)" by simp_all
  from timing_burst [OF c ok st s w, of 8 "\<lambda>xs mu. hd xs" "[(300, 100), (500, 100)]"] obtain outs s' st' w' where
    r: "timing_calls 8 (\<lambda>xs mu. hd xs) (\<lambda>x c. max (- c) (min x c)) [(300, 100), (500, 100)] ?s ?st ?w =
      Some (outs, s', st', w')"
    and "if bursts s' \<noteq> [] then w' = ?w \<and> outs = [] else w' = set_state BIT_DECODE ?w \<and> int (length outs) + owed st' = 50"
    by blast
  then have "if bursts s' \<noteq> [] then outs = [] else w' = set_state BIT_DECODE ?w \<and> int (length outs) + owed st' = 50"
    by presburger
  with r show ?thesis by blast
qed

text \<open>When the start of the symbols is behind the end of the input, the number of samples to wait for has
  the wrong sign, so that the symbols start too early.\<close>

lemma timing_delay_negative:
  assumes "first_tag tags offset n = Some t" and "symbol_synch w = Some (Some (7, N), w1)" and "n < t + 7"
  shows "\<exists>st'. search_tag tags offset n st w = Some (n - offset, st', w1) \<and> t_state st' = SAMPLE_DELAY \<and> t_delay st' < 0"
  using assms by (simp add: search_tag_def set_points_def Let_def)

end
