(* ===== verification/Spec2Isabelle.thy ===== *)
theory Spec2Isabelle
  imports CrcProps Gen2Crc5 CommandLine BtsConsole GenWrites UsrpStation UhdStation Uplink TimingRecovery
begin

text \<open>
  The RFID base station: the CRC program \<open>pycrc\<close> (\<open>src/python/pycrc\<close>), the downlink CRC of the
  Gen 2 commands (\<open>src/python/rfidbts_downlink.py\<close>), the base station programs with their consoles
  and flow graphs (\<open>src/examples/bts_top.py\<close>, \<open>src/examples/bts_snd_recv.py\<close>,
  \<open>src/examples/bts_transceiver.py\<close>), and of the C++ library of signal processing blocks (\<open>src/lib\<close>)
  those that carry the protocol.

  \<^bold>\<open>The program.\<close>  \<open>pycrc.py\<close> reads its options (class \<open>Options\<close>, \<open>crc_opt.py\<close>; the predefined
  parameter sets are in \<open>crc_models.py\<close>), and either computes a checksum (class \<open>Crc\<close>,
  \<open>crc_algorithms.py\<close>) of a string, a hexadecimal string or a file, or generates C code: the class
  \<open>MacroParser\<close> (\<open>crc_parser.py\<close>) expands a template with the tokens of the class \<open>Lexer\<close>
  (\<open>crc_lexer.py\<close>) and the terminals of the class \<open>SymbolTable\<close> (\<open>crc_symtable.py\<close>).  The value of
  a terminal is put back in front of the input, so templates expand recursively.

  A base station program creates the radio devices and the flow graph, tunes the devices and then
  reads codes from the terminal.  The codes start, stop and lock the flow graph, switch the carrier
  and send commands.  In the flow graph of \<open>bts_transceiver.py\<close> the controller \<open>rfid_mac\<close> fills two
  message queues: the encoder turns the tasks of one into pulses on the air, the gate passes received
  samples in the windows of the other.  What passes is searched for the preamble of a tag, cut to
  half symbols and decoded to bits, and the packets of bits go back to the controller, which
  answers with the next burst.

  \<^bold>\<open>The theories.\<close>
  \<^item> \<open>Prelude\<close>: Python's exceptions and results (\<open>exn\<close>, \<open>res\<close>), folds that raise, \<open>str.lower\<close> and
    \<open>upper\<close>, facts on bits of integers.  \<open>PyString\<close>: decimal and hexadecimal notation, \<open>int\<close>,
    \<open>strip\<close>, \<open>join\<close>, with their round trips.
  \<^item> \<open>Crc\<close>: the class \<open>Crc\<close>; one definition per loop body and per method.  Python's integers are
    \<open>int\<close>, with the masks the code applies.
  \<^item> \<open>Lfsr\<close>, \<open>Gf2\<close>: the shift register as a map that is linear over exclusive or (locale
    \<open>xor_linear\<close>), and divisibility of bit polynomials by the generator.  \<open>Simulation\<close>: locales for
    a fold that simulates another one, with and without exceptions.
  \<^item> \<open>CrcCorrect\<close>, \<open>CrcTable\<close>: each of the three algorithms computes the register of the serial shift
    register on the message bits, by an interpretation of a simulation locale.  \<open>CrcProps\<close>: what
    follows: the algorithms agree, the checksum is the remainder modulo the generator, which errors
    are detected, when the constructor raises.
  \<^item> \<open>CrcModels\<close>: the table of models and its look-up; its check values.
  \<^item> \<open>Options\<close>: the attributes of \<open>Options\<close>, the converters of option arguments and every step of
    \<open>parse\<close> after \<open>optparse\<close>; \<open>acceptable\<close> and \<open>accepted_options\<close> are its specification, and
    \<open>options_ok\<close> the contract that the rest of the program relies on.
  \<^item> \<open>CheckSum\<close>: the checksum functions of \<open>pycrc.py\<close>.
  \<^item> \<open>CommandLine\<close>: the option table, the scanning of the arguments by \<open>optparse\<close> and the whole
    program; what ends the program early, the round trip of a printed command line.
  \<^item> \<open>Lexer\<close>, \<open>Parser\<close>: the macro language.  A regular expression is a function on the remaining
    input.  The parser threads the lexer, the output and the symbol table; its calls are bounded by
    fuel, and \<open>None\<close> is running out of it.  \<open>LexerProps\<close>: a token takes its text off the front of the input, and a
    parse step makes progress; \<open>ParserFuel\<close>: more fuel does not change an outcome.
  \<^item> \<open>Templates\<close>, \<open>Symtable\<close>: the texts of the templates, the computed terminals, the constructor of
    the symbol table and \<open>getTerminal\<close>.
  \<^item> \<open>SymbolSource\<close>: the locale \<open>symbol_source\<close>, what the parser needs of a symbol table: that it
    answers every name with the value of a function and keeps its invariant.  In it, the output of
    a template without conditionals.  \<open>Caching\<close>: in the locale, the parser over the
    table and the parser over the function have the same outcome.  \<open>SymbolProps\<close>: the
    interpretation for the model's symbol table, and the text of the table.
  \<^item> \<open>ParserEnds\<close>, \<open>Expansion\<close>, \<open>Ranks\<close>, \<open>GenEnds\<close>: why the recursive expansion ends.  The locale
    \<open>costed_source\<close> has a cost of every input that a parse step lowers; the locale \<open>ranked_source\<close>
    derives the cost from a rank of the names, such that the text of a name has only names of lower
    rank; \<open>Ranks\<close> has the ranks of the program's names, \<open>GenEnds\<close> the interpretation.
  \<^item> \<open>Macro\<close>, \<open>MacroParse\<close>: the macro language as a language, with its abstract syntax, the text of a
    template (\<open>unparse\<close>) and what it stands for (\<open>renders\<close>); the parser computes that meaning.
    \<open>MacroTotal\<close>: a well-formed template whose names are known stands for a text (locale
    \<open>macro_source\<close>).  \<open>TemplateItems\<close>: the program's templates in the abstract syntax, each with
    the proof that its text is the text in the code.  \<open>GenWrites\<close>: the interpretation of
    \<open>macro_source\<close> for the symbol table; what code generation writes, with the options under
    which it raises (an empty name of an include file) or only exits (\<open>--verbose\<close>).
  \<^item> \<open>Pycrc\<close>: \<open>print_parameters\<close> and \<open>main\<close>, and what the program prints.
  \<^item> \<open>Gen2Crc5\<close>: \<open>make3_crc_5\<close> on bit strings.
  \<^item> \<open>BtsConsole\<close>: the reading of codes, the consoles as a machine over the lines of the terminal with
    the calls they make on the flow graph (locale \<open>console_program\<close>, interpreted for both programs),
    and the modulator's power during a session.
  \<^item> \<open>FlowGraph\<close>: flow graphs as records of the blocks a constructor creates and the \<open>connect\<close> calls
    it makes, and what GNU Radio checks when a graph is started (\<open>well_wired\<close>; the locale
    \<open>stream_graph\<close> is interpreted for every graph).  \<open>PreambleSearch\<close>: the search for the preamble of
    a tag, with its bank of resamplers.  \<open>Transceiver\<close>: the other constructors of
    \<open>bts_transceiver.py\<close>.  \<open>UsrpStation\<close>, \<open>UhdStation\<close>: \<open>bts_top.py\<close> and \<open>bts_snd_recv.py\<close>, the
    options, devices, flow graphs and the start of the programs.
  \<^item> \<open>Controller\<close>: the class \<open>rfidbts_controller\<close> as a machine over the requests of the other blocks.
    \<open>PieEncoder\<close>: the class \<open>rfidbts_pie_encoder\<close>, its frames and its work function over the buffers
    of the scheduler.  \<open>Downlink\<close>: what is on the air after \<open>snd_query\<close>.
  \<^item> \<open>Buffers\<close>: the calls of the scheduler, and the locale \<open>buffered_block\<close> for the blocks whose outcome
    does not depend on them, interpreted for the gate and the decoder.  \<open>ReceiveGate\<close>: the class
    \<open>rfidbts_receive_gate\<close>, also sample by sample and without buffers (\<open>gate_micro\<close>).
    \<open>Picker\<close>: the classes of \<open>rfidbts_pick.cc\<close> that find a frame, the peak counter, the picker and the
    slicer.  \<open>TimingRecovery\<close>: the class \<open>rfidbts_elg_timing_cc\<close>, with bounds of its loop and the count
    of the symbols of a burst.  \<open>Packetizer\<close>: the classes \<open>rfidbts_orthogonal_decode\<close> and
    \<open>rfidbts_packetizer\<close>.  \<open>Uplink\<close>: the window of the gate after \<open>snd_query\<close>, and the way of a tag's
    number from its half symbols to the acknowledgement on the air, from a packetizer in \<open>IDLE\<close> (which its
    constructor does not ensure) and a search that has found the preamble.

  \<^bold>\<open>Environment.\<close>  Parameters of the model: \<open>argv0\<close> (\<open>sys.argv[0]\<close>), the arguments, the date, which
  files can be opened with the reads they deliver (\<open>files\<close>), which can be written (\<open>writable\<close>), and
  the lines typed at the console.  For the flow graphs: the stream signatures of the library's
  blocks (\<open>lib\<close>, of which \<open>provides lib\<close> states what the programs rely on), the radio devices and
  what they answer, the interpolator of the timing recovery, and the buffers the scheduler hands to a
  block.  Messages reach a block between two calls of its work function.  Floating-point numbers are
  real numbers.

  \<^bold>\<open>Fuel.\<close>  A template of \<open>n\<close> pieces without conditionals needs \<open>2 n + 2\<close>; the table needs 4 and
  the parameters less than 32.  The generated files have conditionals and nested terminals; there
  the fuel is five times the cost of the template plus four, and \<open>main_ends\<close> shows that some fuel is
  enough whatever the options; from some fuel on \<open>main_generates_code\<close> has the outcome.  The work
  functions of the blocks have no fuel: their loops are shown to end, or are partial functions that
  the theorems show to have a value.

  \<^bold>\<open>Not modelled.\<close>  The text that \<open>--help\<close> prints; the code of GNU Radio and of the device drivers;
  of \<open>src/lib\<close> the Gardner timing recovery and the preamble detector, which none of the programs uses;
  that tags move along with the samples from one block to the next; \<open>__init__.py\<close>, which only imports;
  \<open>plot_test.py\<close>, which only plots.  The copies of \<open>string_xor\<close> and \<open>make3_crc_5\<close> in \<open>bts_top.py\<close> are
  those of \<open>rfidbts_downlink.py\<close>.
\<close>

end
